(* ===== verification/Prelude.thy ===== *)
theory Prelude
  imports Complex_Main
begin

text \<open>
  Shared vocabulary of the development: the type names of the model, the three result
  combinators that stand for the early exits of the services (a lookup that may miss, a guard
  that raises, a call that may raise), the row operations on a table held as a list, and the
  interface \<open>repo\<close> of a table inside the database state.  A service is a function from
  the database state to \<open>error + result\<close>; \<open>Inl\<close> is a raised exception, after which
  \<open>get_db\<close> rolls the transaction back, so the caller keeps the state it had.
\<close>

type_synonym uuid = nat
type_synonym time = int      \<comment> \<open>microseconds, as \<open>datetime\<close> keeps them\<close>
type_synonym money = rat     \<comment> \<open>the exact value of a \<open>Decimal\<close>\<close>

named_theorems svc_err \<open>when a service raises\<close>
named_theorems svc_defs \<open>definitions of service operations\<close>

section \<open>Result combinators\<close>

definition and_then :: "'e + 'a \<Rightarrow> ('a \<Rightarrow> 'e + 'b) \<Rightarrow> 'e + 'b" where
  "and_then m k = (case m of Inl e \<Rightarrow> Inl e | Inr x \<Rightarrow> k x)"

definition or_raise :: "'a option \<Rightarrow> 'e \<Rightarrow> ('a \<Rightarrow> 'e + 'b) \<Rightarrow> 'e + 'b" where
  "or_raise m e k = (case m of None \<Rightarrow> Inl e | Some x \<Rightarrow> k x)"

definition ensure :: "bool \<Rightarrow> 'e \<Rightarrow> 'e + 'a \<Rightarrow> 'e + 'a" where
  "ensure b e k = (if b then k else Inl e)"

lemma and_then_simps [simp]:
  "and_then (Inl e) k = Inl e" "and_then (Inr x) k = k x"
  by (simp_all add: and_then_def)

lemma or_raise_simps [simp]:
  "or_raise None e k = Inl e" "or_raise (Some x) e k = k x"
  by (simp_all add: or_raise_def)

lemma ensure_simps [simp]: "ensure True e k = k" "ensure False e k = Inl e"
  by (simp_all add: ensure_def)

text \<open>The continuation is not simplified before its guard is decided.\<close>

lemma and_then_weak_cong [cong]: "m = m' \<Longrightarrow> and_then m k = and_then m' k"
  by simp

lemma or_raise_weak_cong [cong]: "m = m' \<Longrightarrow> or_raise m e k = or_raise m' e k"
  by simp

lemma ensure_weak_cong [cong]: "b = b' \<Longrightarrow> ensure b e k = ensure b' e k"
  by simp

lemma and_then_Inr [simp]: "and_then m k = Inr r \<longleftrightarrow> (\<exists>x. m = Inr x \<and> k x = Inr r)"
  by (cases m) simp_all

lemma or_raise_Inr [simp]: "or_raise m e k = Inr r \<longleftrightarrow> (\<exists>x. m = Some x \<and> k x = Inr r)"
  by (cases m) simp_all

lemma ensure_Inr [simp]: "ensure b e k = Inr r \<longleftrightarrow> b \<and> k = Inr r"
  by (simp add: ensure_def)

lemma and_then_Inl [svc_err]:
  "and_then m k = Inl x \<longleftrightarrow> m = Inl x \<or> (\<exists>y. m = Inr y \<and> k y = Inl x)"
  by (cases m) auto

lemma or_raise_Inl [svc_err]:
  "or_raise m e k = Inl x \<longleftrightarrow> m = None \<and> x = e \<or> (\<exists>y. m = Some y \<and> k y = Inl x)"
  by (cases m) auto

lemma ensure_Inl [svc_err]: "ensure b e k = Inl x \<longleftrightarrow> \<not> b \<and> x = e \<or> b \<and> k = Inl x"
  by (auto simp: ensure_def)

text \<open>A loop that runs a fallible body over a list, threading the state.\<close>

fun fold_err :: "('x \<Rightarrow> 's \<Rightarrow> 'e + 's) \<Rightarrow> 'x list \<Rightarrow> 's \<Rightarrow> 'e + 's" where
  "fold_err f [] s = Inr s"
| "fold_err f (x # xs) s = and_then (f x s) (fold_err f xs)"

lemma fold_err_append:
  "fold_err f (xs @ ys) s = and_then (fold_err f xs s) (fold_err f ys)"
  by (induction xs arbitrary: s) (auto simp: and_then_def split: sum.splits)

lemma fold_err_invariant:
  assumes "fold_err f xs s = Inr s'" and "P s"
    and "\<And>x s s'. x \<in> set xs \<Longrightarrow> P s \<Longrightarrow> f x s = Inr s' \<Longrightarrow> P s'"
  shows "P s'"
  using assms by (induction xs arbitrary: s) auto

section \<open>What holds when a call returns\<close>

text \<open>\<open>on_ok m Q\<close>: if \<open>m\<close> does not raise, its result satisfies \<open>Q\<close>.  The equations turn a service
  into the condition for \<open>Q\<close> to hold after it, branch by branch.\<close>

definition on_ok :: "'e + 'a \<Rightarrow> ('a \<Rightarrow> bool) \<Rightarrow> bool" where
  "on_ok m Q \<longleftrightarrow> (\<forall>r. m = Inr r \<longrightarrow> Q r)"

named_theorems wp \<open>conditions for a postcondition\<close>

lemma on_ok_simps [simp, wp]: "on_ok (Inl e) Q" "on_ok (Inr r) Q \<longleftrightarrow> Q r"
  by (simp_all add: on_ok_def)

lemma on_ok_and_then [wp]: "on_ok (and_then m k) Q \<longleftrightarrow> on_ok m (\<lambda>x. on_ok (k x) Q)"
  by (cases m) (simp_all add: on_ok_def)

lemma on_ok_or_raise [wp]: "on_ok (or_raise x e k) Q \<longleftrightarrow> (\<forall>y. x = Some y \<longrightarrow> on_ok (k y) Q)"
  by (cases x) (simp_all add: on_ok_def)

lemma on_ok_ensure [wp]: "on_ok (ensure b e k) Q \<longleftrightarrow> (b \<longrightarrow> on_ok k Q)"
  by (auto simp: on_ok_def)

lemma on_okI: "(\<And>r. m = Inr r \<Longrightarrow> Q r) \<Longrightarrow> on_ok m Q"
  by (simp add: on_ok_def)

lemma on_okD: "on_ok m Q \<Longrightarrow> m = Inr r \<Longrightarrow> Q r"
  by (simp add: on_ok_def)

lemma on_ok_mono: "on_ok m P \<Longrightarrow> (\<And>r. P r \<Longrightarrow> Q r) \<Longrightarrow> on_ok m Q"
  by (auto simp: on_ok_def)

lemma on_ok_fold_err:
  "P s \<Longrightarrow> (\<And>x s. x \<in> set xs \<Longrightarrow> P s \<Longrightarrow> on_ok (f x s) P) \<Longrightarrow> on_ok (fold_err f xs s) P"
  by (auto simp: on_ok_def intro: fold_err_invariant)

section \<open>Tables as lists of rows\<close>

definition find_by :: "('r \<Rightarrow> 'k) \<Rightarrow> 'k \<Rightarrow> 'r list \<Rightarrow> 'r option" where
  "find_by key k rs = List.find (\<lambda>r. key r = k) rs"

definition put_by :: "('r \<Rightarrow> 'k) \<Rightarrow> 'r \<Rightarrow> 'r list \<Rightarrow> 'r list" where
  "put_by key r rs = map (\<lambda>x. if key x = key r then r else x) rs"

lemma find_by_SomeD: "find_by key k rs = Some r \<Longrightarrow> r \<in> set rs \<and> key r = k"
  by (auto simp: find_by_def find_Some_iff)

lemma find_by_None: "find_by key k rs = None \<longleftrightarrow> k \<notin> key ` set rs"
  by (auto simp: find_by_def find_None_iff)

lemma find_by_append:
  "find_by key k (xs @ ys) =
     (case find_by key k xs of None \<Rightarrow> find_by key k ys | Some r \<Rightarrow> Some r)"
  by (induction xs) (auto simp: find_by_def)

lemma find_by_Cons:
  "find_by key k (x # xs) = (if key x = k then Some x else find_by key k xs)"
  by (simp add: find_by_def)

lemma find_by_Nil [simp]: "find_by key k [] = None"
  by (simp add: find_by_def)

lemma find_by_mem:
  "distinct (map key rs) \<Longrightarrow> r \<in> set rs \<Longrightarrow> find_by key (key r) rs = Some r"
  by (induction rs) (auto simp: find_by_def)

lemma find_by_put_by:
  "find_by key k (put_by key r rs) =
     (if key r = k then map_option (\<lambda>_. r) (find_by key k rs) else find_by key k rs)"
  by (induction rs) (auto simp: find_by_def put_by_def)

text \<open>A row that a search finds first is found first again after it was written.\<close>

lemma find_put_by:
  assumes "List.find P rs = Some r" and "distinct (map key rs)" and "key r' = key r" and "P r'"
  shows "List.find P (put_by key r' rs) = Some r'"
  using assms(1,2)
proof (induction rs)
  case (Cons x rs)
  show ?case
  proof (cases "P x")
    case True
    with Cons.prems assms(3,4) show ?thesis by (simp add: put_by_def)
  next
    case False
    then have f: "List.find P rs = Some r" using Cons.prems(1) by simp
    then have "r \<in> set rs" by (auto simp: find_Some_iff)
    then have "key x \<noteq> key r" using Cons.prems(2) by (auto simp: rev_image_eqI)
    with Cons f False assms(3) show ?thesis by (simp add: put_by_def)
  qed
qed simp

lemma map_key_put_by [simp]: "map key (put_by key r rs) = map key rs"
  by (auto simp: put_by_def)

lemma length_put_by [simp]: "length (put_by key r rs) = length rs"
  by (simp add: put_by_def)

lemma set_put_by_subset: "set (put_by key r rs) \<subseteq> insert r (set rs)"
  by (auto simp: put_by_def)

lemma put_by_absent: "key r \<notin> key ` set rs \<Longrightarrow> put_by key r rs = rs"
  by (induction rs) (auto simp: put_by_def)

lemma put_by_self:
  "distinct (map key rs) \<Longrightarrow> find_by key (key r) rs = Some r \<Longrightarrow> put_by key r rs = rs"
proof (induction rs)
  case (Cons x rs)
  then show ?case
    by (cases "key x = key r")
       (use put_by_absent [of key r rs] in \<open>auto simp: find_by_Cons put_by_def\<close>)
qed simp

text \<open>A sum over a table changes by exactly the change of the row that was written.\<close>

lemma sum_list_put_by:
  fixes f :: "'r \<Rightarrow> 'm::ab_group_add"
  assumes "distinct (map key rs)" and "find_by key (key r) rs = Some old"
  shows "sum_list (map f (put_by key r rs)) = sum_list (map f rs) - f old + f r"
  using assms
proof (induction rs)
  case Nil
  then show ?case by simp
next
  case (Cons x rs)
  show ?case
  proof (cases "key x = key r")
    case True
    with Cons.prems have "old = x" and "key r \<notin> key ` set rs"
      by (auto simp: find_by_def)
    then have "put_by key r rs = rs"
      by (simp add: put_by_absent)
    with True \<open>old = x\<close> show ?thesis
      by (simp add: put_by_def)
  next
    case False
    with Cons show ?thesis
      by (simp add: find_by_def put_by_def add.assoc add_diff_eq)
  qed
qed

lemma sum_list_filter_put_by:
  fixes f :: "'r \<Rightarrow> 'm::ab_group_add"
  assumes "distinct (map key rs)" and "find_by key (key r) rs = Some old"
  shows "sum_list (map f (filter P (put_by key r rs))) =
    sum_list (map f (filter P rs)) - (if P old then f old else 0) + (if P r then f r else 0)"
  using sum_list_put_by [OF assms, of "\<lambda>x. if P x then f x else 0"]
  by (simp add: sum_list_map_filter')

section \<open>The interface of a table in the database state\<close>

text \<open>
  \<open>get\<close> is the primary-key lookup of a repository, \<open>put\<close> the flush of a mutated row.  The
  client lemmas are the read-after-write laws every service proof uses.
\<close>

locale repo =
  fixes key :: "'r \<Rightarrow> uuid"
    and rows :: "'d \<Rightarrow> 'r list"
    and get :: "uuid \<Rightarrow> 'd \<Rightarrow> 'r option"
    and put :: "'r \<Rightarrow> 'd \<Rightarrow> 'd"
  assumes get_find: "get k d = find_by key k (rows d)"
    and rows_put: "rows (put r d) = put_by key r (rows d)"
begin

lemma get_key: "get k d = Some r \<Longrightarrow> key r = k"
  by (auto simp: get_find dest: find_by_SomeD)

lemma get_mem: "get k d = Some r \<Longrightarrow> r \<in> set (rows d)"
  by (auto simp: get_find dest: find_by_SomeD)

lemma get_put: "get k (put r d) = (if key r = k then map_option (\<lambda>_. r) (get k d) else get k d)"
  by (simp add: get_find rows_put find_by_put_by)

lemma get_put_same: "get k d = Some old \<Longrightarrow> key r = k \<Longrightarrow> get k (put r d) = Some r"
  by (simp add: get_put)

lemma get_put_other: "key r \<noteq> k \<Longrightarrow> get k (put r d) = get k d"
  by (simp add: get_put)

lemma keys_put: "map key (rows (put r d)) = map key (rows d)"
  by (simp add: rows_put)

lemma sum_put:
  fixes f :: "'r \<Rightarrow> 'm::ab_group_add"
  assumes "distinct (map key (rows d))" and "get (key r) d = Some old"
  shows "sum_list (map f (rows (put r d))) = sum_list (map f (rows d)) - f old + f r"
  using assms by (simp add: rows_put get_find sum_list_put_by)

lemma sum_filter_put:
  fixes f :: "'r \<Rightarrow> 'm::ab_group_add"
  assumes "distinct (map key (rows d))" and "get (key r) d = Some old"
  shows "sum_list (map f (filter P (rows (put r d)))) =
    sum_list (map f (filter P (rows d))) - (if P old then f old else 0) + (if P r then f r else 0)"
  using assms by (simp add: rows_put get_find sum_list_filter_put_by)

lemma all_put:
  "(\<forall>x \<in> set (rows d). P x) \<Longrightarrow> P r \<Longrightarrow> \<forall>x \<in> set (rows (put r d)). P x"
  by (auto simp: rows_put put_by_def)

end

text \<open>A table that also takes inserts: \<open>session.add\<close> followed by a flush.\<close>

locale table = repo +
  fixes ins :: "'a \<Rightarrow> 'b \<Rightarrow> 'b"
  assumes rows_ins: "rows (ins r d) = rows d @ [r]"
begin

lemma get_ins_other: "key r \<noteq> k \<Longrightarrow> get k (ins r d) = get k d"
  by (simp add: get_find rows_ins find_by_append find_by_Cons split: option.splits)

lemma get_ins_new: "key r \<notin> key ` set (rows d) \<Longrightarrow> get (key r) (ins r d) = Some r"
  by (simp add: get_find rows_ins find_by_append find_by_Cons iffD2 [OF find_by_None])

lemma distinct_ins:
  "distinct (map key (rows d)) \<Longrightarrow> key r \<notin> key ` set (rows d) \<Longrightarrow>
     distinct (map key (rows (ins r d)))"
  by (auto simp: rows_ins)

lemma distinct_put: "distinct (map key (rows (put r d))) \<longleftrightarrow> distinct (map key (rows d))"
  by (simp add: keys_put)

end

section \<open>Text\<close>

text \<open>\<open>str(uuid)\<close>: the identifiers of the model are numbers, rendered in decimal.\<close>

definition digit_char :: "nat \<Rightarrow> char" where
  "digit_char k = char_of (48 + k)"

fun digits :: "nat \<Rightarrow> string" where
  "digits n = (if n < 10 then [digit_char n] else digits (n div 10) @ [digit_char (n mod 10)])"

declare digits.simps [simp del]

definition str_uuid :: "uuid \<Rightarrow> string" where
  "str_uuid u = digits u"

definition digit_val :: "char \<Rightarrow> nat" where
  "digit_val c = of_char c - 48"

definition is_digit :: "char \<Rightarrow> bool" where
  "is_digit c \<longleftrightarrow> 48 \<le> (of_char c :: nat) \<and> (of_char c :: nat) \<le> 57"

definition digits_val :: "string \<Rightarrow> nat" where
  "digits_val s = foldl (\<lambda>a c. 10 * a + digit_val c) 0 s"

lemma digit_char_props:
  assumes "k < 10"
  shows "digit_val (digit_char k) = k" and "is_digit (digit_char k)"
  using assms by (simp_all add: digit_val_def digit_char_def is_digit_def of_char_of)

lemma digits_all_digits: "\<forall>c \<in> set (digits n). is_digit c"
proof (induction n rule: digits.induct)
  case (1 n)
  then show ?case by (subst digits.simps) (auto simp: digit_char_props)
qed

lemma digits_not_Nil [simp]: "digits n \<noteq> []"
  by (subst digits.simps) simp

lemma digits_val_append: "digits_val (xs @ [c]) = 10 * digits_val xs + digit_val c"
  by (simp add: digits_val_def)

lemma digits_val_digits [simp]: "digits_val (digits n) = n"
proof (induction n rule: digits.induct)
  case (1 n)
  show ?case
  proof (cases "n < 10")
    case True
    then show ?thesis
      by (subst digits.simps) (simp add: digits_val_def digit_char_props)
  next
    case False
    with 1 show ?thesis
      by (subst digits.simps) (simp add: digits_val_append digit_char_props)
  qed
qed

lemma str_uuid_inject [simp]: "str_uuid a = str_uuid b \<longleftrightarrow> a = b"
  unfolding str_uuid_def by (metis digits_val_digits)

end
