(* ===== verification/Enums.thy ===== *)
theory Enums
  imports Prelude
begin

text \<open>
  The enumerations of \<open>app/models/enums.py\<close> and the exceptions of
  \<open>app/core/exceptions.py\<close>, with the exceptions the other modules define or let through,
  and the two exception handlers of \<open>app/core/middleware.py\<close>.  A constructor carries the
  initials of its enumeration, because several enumerations share member names.
\<close>

section \<open>Enumerations\<close>

datatype user_role = UR_CUSTOMER | UR_COURIER | UR_ADMIN

datatype user_status = US_ACTIVE | US_BANNED | US_PENDING_VERIFICATION

datatype order_status =
    OS_NEW | OS_ASSIGNED | OS_WAITING_PAYMENT | OS_IN_PROGRESS | OS_DELIVERED
  | OS_COMPLETED | OS_CANCELLED | OS_DISPUTED | OS_REFUNDED

datatype invoice_status =
    IS_DRAFT | IS_ISSUED | IS_PAID | IS_CANCELLED | IS_EXPIRED | IS_REFUNDED

datatype payment_purpose = PP_ORDER_INVOICE | PP_WALLET_TOPUP

datatype payment_intent_status = PI_NEW | PI_PAID | PI_FAILED | PI_EXPIRED | PI_CANCELLED

datatype payment_method = PM_WALLET_ONLY | PM_GATEWAY_ONLY | PM_SPLIT

datatype promo_discount_type = PD_PERCENT | PD_FIXED

datatype promo_redemption_status = PR_RESERVED | PR_CONSUMED | PR_RELEASED

datatype media_type = MT_CUSTOMER_REQUEST | MT_DELIVERY_PROOF

datatype message_type = MSG_TEXT | MSG_IMAGE | MSG_VIDEO | MSG_SYSTEM

datatype wallet_type =
    WT_CUSTOMER | WT_COURIER | WT_SYSTEM_ESCROW | WT_SYSTEM_REVENUE | WT_SYSTEM_GATEWAY
  | WT_SYSTEM_TAX_PAYABLE

datatype transaction_type =
    TT_TOPUP | TT_WITHDRAWAL | TT_ESCROW_HOLD | TT_ESCROW_RELEASE | TT_PAYMENT | TT_REFUND
  | TT_COMMISSION | TT_SERVICE_FEE | TT_TAX | TT_PROMO_SUBSIDY

datatype transaction_status = TS_PENDING | TS_SETTLED | TS_REVERSED

datatype device_os = DO_IOS | DO_ANDROID

datatype withdrawal_status = WS_REQUESTED | WS_APPROVED | WS_PAID | WS_REJECTED

datatype dispute_status = DS_OPEN | DS_RESOLVED_CUSTOMER | DS_RESOLVED_COURIER | DS_RESOLVED_SPLIT

text \<open>The order states are finitely many, so a statement about all of them evaluates.\<close>

instantiation order_status :: enum
begin

definition enum_order_status :: "order_status list" where
  "enum_order_status =
     [OS_NEW, OS_ASSIGNED, OS_WAITING_PAYMENT, OS_IN_PROGRESS, OS_DELIVERED,
      OS_COMPLETED, OS_CANCELLED, OS_DISPUTED, OS_REFUNDED]"

definition enum_all_order_status :: "(order_status \<Rightarrow> bool) \<Rightarrow> bool" where
  "enum_all_order_status P \<longleftrightarrow> list_all P enum_class.enum"

definition enum_ex_order_status :: "(order_status \<Rightarrow> bool) \<Rightarrow> bool" where
  "enum_ex_order_status P \<longleftrightarrow> list_ex P enum_class.enum"

lemma UNIV_order_status: "(UNIV :: order_status set) = set enum_class.enum"
proof -
  have "x \<in> set enum_class.enum" for x :: order_status
    by (cases x) (simp_all add: enum_order_status_def)
  then show ?thesis by auto
qed

instance
proof
  show "(UNIV :: order_status set) = set enum_class.enum"
    by (rule UNIV_order_status)
  show "distinct (enum_class.enum :: order_status list)"
    by (simp add: enum_order_status_def)
  show "enum_class.enum_all P \<longleftrightarrow> Ball UNIV P" for P :: "order_status \<Rightarrow> bool"
    unfolding enum_all_order_status_def UNIV_order_status by (simp add: list_all_iff)
  show "enum_class.enum_ex P \<longleftrightarrow> Bex UNIV P" for P :: "order_status \<Rightarrow> bool"
    unfolding enum_ex_order_status_def UNIV_order_status by (simp add: list_ex_iff)
qed

end

section \<open>Exceptions\<close>

text \<open>
  The first block are the subclasses of \<open>DomainError\<close>; the second are exceptions of the
  program's modules that are not domain errors; the third are exceptions of the Python
  runtime and of the database driver that the code can let through.
\<close>

datatype error =
    DomainError | NotFoundError | ForbiddenError | UnauthorizedError
  | InvalidStateTransitionError | ConflictError | OrderAlreadyAssignedError
  | BadRequestError | ValidationDomainError | InsufficientFundsError
  | InvalidWebhookSignatureError | PaymentAmountMismatchError | PayloadTooLargeError
  | RateLimitedError int
  | PromoError | PromoNotFoundError | PromoInactiveError | PromoNotStartedError
  | PromoExpiredError | PromoMinOrderNotMetError | PromoUsageExceededError
  | PromoUserLimitReachedError
  | MoneyError | PricingIntegrityError | LedgerImbalanceError | LockNotAcquiredError
  | CryptoError | InvalidTokenError | JwtError | ProductionFakeError
  | InvalidOperation | ValueError | RuntimeError | LookupError | KeyError | IndexError
  | AssertionError | AttributeError | RedisError
  | IntegrityError | DataError | TriggerError

fun is_domain_error :: "error \<Rightarrow> bool" where
  "is_domain_error e \<longleftrightarrow> e \<notin> {MoneyError, PricingIntegrityError, LedgerImbalanceError,
     LockNotAcquiredError, CryptoError, InvalidTokenError, JwtError, ProductionFakeError,
     InvalidOperation, ValueError, RuntimeError, LookupError, KeyError, IndexError,
     AssertionError, AttributeError, RedisError, IntegrityError, DataError, TriggerError}"

text \<open>The class attribute \<open>code\<close>; \<open>PromoError\<close> inherits the one of \<open>ValidationDomainError\<close>.\<close>

fun error_code :: "error \<Rightarrow> string" where
  "error_code NotFoundError = ''NOT_FOUND''"
| "error_code ForbiddenError = ''FORBIDDEN''"
| "error_code UnauthorizedError = ''UNAUTHORIZED''"
| "error_code InvalidStateTransitionError = ''INVALID_STATE_TRANSITION''"
| "error_code ConflictError = ''CONFLICT''"
| "error_code OrderAlreadyAssignedError = ''ORDER_ALREADY_ASSIGNED''"
| "error_code BadRequestError = ''BAD_REQUEST''"
| "error_code ValidationDomainError = ''VALIDATION_ERROR''"
| "error_code InsufficientFundsError = ''INSUFFICIENT_FUNDS''"
| "error_code InvalidWebhookSignatureError = ''INVALID_SIGNATURE''"
| "error_code PaymentAmountMismatchError = ''PAYMENT_AMOUNT_MISMATCH''"
| "error_code PayloadTooLargeError = ''PAYLOAD_TOO_LARGE''"
| "error_code (RateLimitedError r) = ''RATE_LIMITED''"
| "error_code PromoError = ''VALIDATION_ERROR''"
| "error_code PromoNotFoundError = ''PROMO_NOT_FOUND''"
| "error_code PromoInactiveError = ''PROMO_INACTIVE''"
| "error_code PromoNotStartedError = ''PROMO_NOT_STARTED''"
| "error_code PromoExpiredError = ''PROMO_EXPIRED''"
| "error_code PromoMinOrderNotMetError = ''PROMO_MIN_ORDER_NOT_MET''"
| "error_code PromoUsageExceededError = ''PROMO_USAGE_EXCEEDED''"
| "error_code PromoUserLimitReachedError = ''PROMO_USER_LIMIT_REACHED''"
| "error_code _ = ''INTERNAL_ERROR''"

text \<open>The class attribute \<open>status_code\<close>, following the inheritance of the classes.\<close>

fun error_status :: "error \<Rightarrow> int" where
  "error_status NotFoundError = 404"
| "error_status ForbiddenError = 403"
| "error_status UnauthorizedError = 401"
| "error_status InvalidStateTransitionError = 409"
| "error_status ConflictError = 409"
| "error_status OrderAlreadyAssignedError = 409"
| "error_status BadRequestError = 400"
| "error_status ValidationDomainError = 422"
| "error_status InsufficientFundsError = 409"
| "error_status InvalidWebhookSignatureError = 401"
| "error_status PaymentAmountMismatchError = 400"
| "error_status PayloadTooLargeError = 413"
| "error_status (RateLimitedError r) = 429"
| "error_status PromoError = 422"
| "error_status PromoNotFoundError = 422"
| "error_status PromoInactiveError = 422"
| "error_status PromoNotStartedError = 422"
| "error_status PromoExpiredError = 422"
| "error_status PromoMinOrderNotMetError = 422"
| "error_status PromoUsageExceededError = 422"
| "error_status PromoUserLimitReachedError = 422"
| "error_status _ = 400"

record error_envelope =
  env_status :: int
  env_code :: string
  env_retry_after :: "int option"

text \<open>\<open>_handle_domain\<close> for a domain error, \<open>_handle_unexpected\<close> for every other exception.\<close>

definition handle_exception :: "error \<Rightarrow> error_envelope" where
  "handle_exception e =
     (if is_domain_error e
      then \<lparr>env_status = error_status e, env_code = error_code e,
            env_retry_after = (case e of RateLimitedError r \<Rightarrow> Some r | _ \<Rightarrow> None)\<rparr>
      else \<lparr>env_status = 500, env_code = ''INTERNAL_ERROR'', env_retry_after = None\<rparr>)"

lemma handle_exception_5xx:
  "env_status (handle_exception e) \<ge> 500 \<longleftrightarrow> \<not> is_domain_error e"
  by (cases e) (simp_all add: handle_exception_def)

end
