(* ===== verification/Money.thy ===== *)
theory Money
  imports Enums
begin

text \<open>
  \<open>app/core/money.py\<close>: parsing, quantizing and printing of money.  A finite \<open>Decimal\<close> is
  modelled by its exact rational value (the sign of a zero is not kept), a value of the
  wire by \<open>py_value\<close>.  Sums and products of \<open>Decimal\<close>s are exact here; they are in Python as
  long as the result has at most 28 digits, which amounts of the \<open>Numeric(12, 2)\<close> columns
  never exceed.  A division is not exact in Python, so it is \<open>dec_div\<close>, which rounds to the 28
  significant digits of the default context; \<open>quantize_dec_div\<close> shows when the second
  rounding to halalas hides the first.
\<close>

named_theorems money_simps \<open>closure and quantization facts for two-decimal amounts\<close>

section \<open>Quantization\<close>

text \<open>\<open>ROUND_HALF_UP\<close> rounds half away from zero.\<close>

definition half_up :: "rat \<Rightarrow> int" where
  "half_up x = (if x < 0 then - \<lfloor>- x + 1 / 2\<rfloor> else \<lfloor>x + 1 / 2\<rfloor>)"

definition quantize_money :: "money \<Rightarrow> money" where
  "quantize_money value = of_int (half_up (value * 100)) / 100"

definition quantize_rate :: "rat \<Rightarrow> rat" where
  "quantize_rate value = of_int (half_up (value * 10000)) / 10000"

text \<open>A value with at most two decimal places: a whole number of halalas.\<close>

definition is_money :: "money \<Rightarrow> bool" where
  "is_money x \<longleftrightarrow> of_int \<lfloor>x * 100\<rfloor> = x * 100"

definition halalas :: "money \<Rightarrow> int" where
  "halalas x = \<lfloor>x * 100\<rfloor>"

lemma is_money_iff: "is_money x \<longleftrightarrow> (\<exists>n. x = of_int n / 100)"
proof
  assume "is_money x"
  then have "x = of_int \<lfloor>x * 100\<rfloor> / 100" unfolding is_money_def by linarith
  then show "\<exists>n. x = of_int n / 100" ..
next
  assume "\<exists>n. x = of_int n / 100"
  then obtain n where "x * 100 = of_int n" by (elim exE) simp
  then show "is_money x" by (simp add: is_money_def)
qed

lemma is_moneyE:
  assumes "is_money x"
  obtains n where "x = of_int n / 100"
  using assms by (auto simp: is_money_iff)

lemma is_money_of_int_div [money_simps]: "is_money (of_int n / 100)"
  by (auto simp: is_money_iff)

lemma is_money_0 [money_simps, simp]: "is_money 0"
  by (simp add: is_money_def)

lemma is_money_add [money_simps]: "is_money x \<Longrightarrow> is_money y \<Longrightarrow> is_money (x + y)"
  by (auto simp: is_money_iff) (metis add_divide_distrib of_int_add)

lemma is_money_diff [money_simps]: "is_money x \<Longrightarrow> is_money y \<Longrightarrow> is_money (x - y)"
  by (auto simp: is_money_iff) (metis diff_divide_distrib of_int_diff)

lemma is_money_uminus [money_simps]: "is_money x \<Longrightarrow> is_money (- x)"
  using is_money_diff [of 0 x] by simp

lemma is_money_times_int [money_simps]: "is_money x \<Longrightarrow> is_money (x * of_int k)"
  by (auto simp: is_money_iff intro: exI [of _ "n * k" for n])

lemma is_money_sum_list [money_simps]: "(\<forall>x \<in> set xs. is_money x) \<Longrightarrow> is_money (sum_list xs)"
  by (induction xs) (auto intro: is_money_add)

lemma is_money_min [money_simps]: "is_money x \<Longrightarrow> is_money y \<Longrightarrow> is_money (min x y)"
  by (simp add: min_def)

lemma is_money_max [money_simps]: "is_money x \<Longrightarrow> is_money y \<Longrightarrow> is_money (max x y)"
  by (simp add: max_def)

lemma half_up_of_int [simp]: "half_up (of_int n) = n"
proof (cases "of_int n < (0::rat)")
  case True
  have "\<lfloor>- of_int n + 1 / 2 :: rat\<rfloor> = - n" by (simp add: floor_eq_iff)
  with True show ?thesis by (simp add: half_up_def)
next
  case False
  have "\<lfloor>of_int n + 1 / 2 :: rat\<rfloor> = n" by (simp add: floor_eq_iff)
  with False show ?thesis by (simp add: half_up_def)
qed

lemma quantize_money_is_money [money_simps, simp]: "is_money (quantize_money x)"
  by (simp add: quantize_money_def is_money_of_int_div)

lemma quantize_money_id [money_simps]: "is_money x \<Longrightarrow> quantize_money x = x"
  by (auto simp: is_money_iff quantize_money_def)

lemma quantize_money_idem [simp]: "quantize_money (quantize_money x) = quantize_money x"
  by (simp add: quantize_money_id)

lemma quantize_money_0 [simp]: "quantize_money 0 = 0"
  by (simp add: quantize_money_id)

lemma half_up_uminus [simp]: "half_up (- x) = - half_up x"
proof (cases "x = 0")
  case True
  then show ?thesis using half_up_of_int [of 0] by simp
qed (auto simp: half_up_def)

lemma quantize_money_uminus [simp]: "quantize_money (- x) = - quantize_money x"
  by (simp add: quantize_money_def)

lemma half_up_bounds_nonneg:
  assumes "0 \<le> x"
  shows "of_int (half_up x) \<le> x + 1 / 2" and "x - 1 / 2 < of_int (half_up x)"
proof -
  have eq: "half_up x = \<lfloor>x + 1 / 2\<rfloor>" using assms by (simp add: half_up_def)
  show "of_int (half_up x) \<le> x + 1 / 2"
    unfolding eq by (rule of_int_floor_le)
  show "x - 1 / 2 < of_int (half_up x)"
    unfolding eq using floor_correct [of "x + 1 / 2"] by simp
qed

lemma half_up_error: "\<bar>of_int (half_up x) - x\<bar> \<le> 1 / 2"
proof (cases "0 \<le> x")
  case True
  then show ?thesis using half_up_bounds_nonneg [of x] by linarith
next
  case False
  then have "0 \<le> - x" by simp
  from half_up_bounds_nonneg [OF this, unfolded half_up_uminus of_int_minus]
  show ?thesis by linarith
qed

lemma half_up_nonneg: "0 \<le> x \<Longrightarrow> 0 \<le> half_up x"
  using half_up_bounds_nonneg(2) [of x] by linarith

lemma quantize_money_nonneg [money_simps]: "0 \<le> x \<Longrightarrow> 0 \<le> quantize_money x"
  by (simp add: quantize_money_def half_up_nonneg)

lemma half_up_mono: "x \<le> y \<Longrightarrow> half_up x \<le> half_up y"
proof -
  assume xy: "x \<le> y"
  consider "0 \<le> x" | "x < 0" "0 \<le> y" | "y < 0" by linarith
  then show ?thesis
  proof cases
    case 1
    with xy show ?thesis by (simp add: half_up_def floor_mono)
  next
    case 2
    then have "0 \<le> half_up (- x)" "0 \<le> half_up y" by (simp_all only: half_up_nonneg neg_0_le_iff_le less_imp_le)
    then show ?thesis by simp
  next
    case 3
    with xy show ?thesis by (simp add: half_up_def floor_mono)
  qed
qed

lemma quantize_money_mono: "x \<le> y \<Longrightarrow> quantize_money x \<le> quantize_money y"
  by (simp add: quantize_money_def half_up_mono divide_right_mono)

lemma quantize_money_le: "x \<le> y \<Longrightarrow> is_money y \<Longrightarrow> quantize_money x \<le> y"
  using quantize_money_mono [of x y] by (simp add: quantize_money_id)

lemma quantize_money_ge: "y \<le> x \<Longrightarrow> is_money y \<Longrightarrow> y \<le> quantize_money x"
  using quantize_money_mono [of y x] by (simp add: quantize_money_id)

lemma quantize_money_error: "\<bar>quantize_money x - x\<bar> \<le> 1 / 200"
proof -
  have "\<bar>quantize_money x - x\<bar> = \<bar>of_int (half_up (x * 100)) - x * 100\<bar> / 100"
    by (simp add: quantize_money_def abs_if field_simps)
  also have "\<dots> \<le> 1 / 200" using half_up_error [of "x * 100"] by simp
  finally show ?thesis .
qed

section \<open>Parsing and printing\<close>

datatype decimal = Finite rat | Infinite | NaN

text \<open>What a caller may pass: a float (always refused), text, a \<open>Decimal\<close> or an \<open>int\<close>.\<close>

datatype py_value = PyFloat | PyStr string | PyDecimal decimal | PyInt int

definition is_space :: "char \<Rightarrow> bool" where
  "is_space c \<longleftrightarrow>
     of_char c \<in> set [9::nat, 10, 11, 12, 13, 28, 29, 30, 31, 32, 133, 160]"

definition strip :: "string \<Rightarrow> string" where
  "strip s = rev (dropWhile is_space (rev (dropWhile is_space s)))"

definition lower :: "char \<Rightarrow> char" where
  "lower c = (if 65 \<le> (of_char c :: nat) \<and> (of_char c :: nat) \<le> 90
     then char_of ((of_char c :: nat) + 32) else c)"

definition take_sign :: "string \<Rightarrow> bool \<times> string" where
  "take_sign s = (case s of [] \<Rightarrow> (False, [])
     | c # r \<Rightarrow> if c = CHR ''-'' then (True, r) else if c = CHR ''+'' then (False, r)
        else (False, s))"

text \<open>The numeric-string grammar of \<open>Decimal(str)\<close>, over Latin-1 text.\<close>

definition dec_value :: "bool \<Rightarrow> string \<Rightarrow> string \<Rightarrow> int \<Rightarrow> decimal" where
  "dec_value neg ip fp e =
     Finite ((if neg then -1 else 1) * of_nat (digits_val (ip @ fp))
             * 10 powi (e - int (length fp)))"

definition parse_number :: "bool \<Rightarrow> string \<Rightarrow> decimal option" where
  "parse_number neg s =
     (let ip = takeWhile is_digit s; r = dropWhile is_digit s;
          dot = (r \<noteq> [] \<and> hd r = CHR ''.'');
          fp = (if dot then takeWhile is_digit (tl r) else []);
          r2 = (if dot then dropWhile is_digit (tl r) else r)
      in if ip = [] \<and> fp = [] then None
         else if r2 = [] then Some (dec_value neg ip fp 0)
         else if lower (hd r2) = CHR ''e''
         then (let (eneg, ds) = take_sign (tl r2)
               in if ds \<noteq> [] \<and> list_all is_digit ds
                  then Some (dec_value neg ip fp
                         (if eneg then - int (digits_val ds) else int (digits_val ds)))
                  else None)
         else None)"

definition parse_decimal :: "string \<Rightarrow> decimal option" where
  "parse_decimal s =
     (let (neg, r) = take_sign (filter (\<lambda>c. c \<noteq> CHR ''_'') (strip s));
          l = map lower r
      in if l = ''inf'' \<or> l = ''infinity'' then Some Infinite
         else if take 3 l = ''nan'' \<and> list_all is_digit (drop 3 l) then Some NaN
         else if take 4 l = ''snan'' \<and> list_all is_digit (drop 4 l) then Some NaN
         else parse_number neg r)"

text \<open>
  \<open>quantize\<close> of an unbounded value raises \<open>InvalidOperation\<close> when the result would not fit
  the 28 digits of the context.
\<close>

definition quantize_checked :: "rat \<Rightarrow> rat \<Rightarrow> error + rat" where
  "quantize_checked scale value =
     (let c = half_up (value * scale)
      in if \<bar>c\<bar> < 10 ^ 28 then Inr (of_int c / scale) else Inl InvalidOperation)"

definition to_decimal :: "py_value \<Rightarrow> error + decimal" where
  "to_decimal value = (case value of
       PyFloat \<Rightarrow> Inl MoneyError
     | PyStr s \<Rightarrow> or_raise (parse_decimal s) MoneyError Inr
     | PyDecimal d \<Rightarrow> Inr d
     | PyInt n \<Rightarrow> Inr (Finite (of_int n)))"

definition finite_value :: "decimal \<Rightarrow> error + rat" where
  "finite_value d = (case d of Finite x \<Rightarrow> Inr x | _ \<Rightarrow> Inl MoneyError)"

definition parse_money :: "py_value \<Rightarrow> error + money" where
  "parse_money value =
     and_then (to_decimal value) (\<lambda>dec.
     and_then (finite_value dec) (quantize_checked 100))"

definition parse_rate :: "py_value \<Rightarrow> error + rat" where
  "parse_rate value =
     and_then (to_decimal value) (\<lambda>dec.
     and_then (finite_value dec) (quantize_checked 10000))"

definition money_str :: "money \<Rightarrow> string" where
  "money_str value =
     (let n = half_up (value * 100); a = nat \<bar>n\<bar>
      in (if n < 0 then ''-'' else []) @ digits (a div 100) @ ''.''
         @ [digit_char (a mod 100 div 10), digit_char (a mod 10)])"

lemma quantize_checked_money:
  "quantize_checked 100 x =
     (if \<bar>half_up (x * 100)\<bar> < 10 ^ 28 then Inr (quantize_money x) else Inl InvalidOperation)"
  by (simp add: quantize_checked_def quantize_money_def Let_def)

lemma is_digit_other:
  assumes "is_digit c"
  shows "\<not> is_space c" "c \<noteq> CHR ''_''" "c \<noteq> CHR ''.''" "c \<noteq> CHR ''-''" "c \<noteq> CHR ''+''"
    "lower c = c" "c \<noteq> CHR ''i''" "c \<noteq> CHR ''n''" "c \<noteq> CHR ''s''"
  using assms by (auto simp: is_digit_def is_space_def lower_def)

lemma take_sign_digit: "s \<noteq> [] \<Longrightarrow> is_digit (hd s) \<Longrightarrow> take_sign s = (False, s)"
  by (cases s) (auto simp: take_sign_def dest: is_digit_other)

lemma strip_id:
  assumes "s \<noteq> []" "\<not> is_space (hd s)" "\<not> is_space (last s)"
  shows "strip s = s"
proof -
  have "dropWhile is_space s = s" using assms(1,2) by (cases s) auto
  moreover have "dropWhile is_space (rev s) = rev s"
    using assms(1,3) by (cases s rule: rev_cases) auto
  ultimately show ?thesis by (simp add: strip_def)
qed

lemma parse_number_fixed:
  assumes "ip \<noteq> []" "\<forall>c \<in> set ip. is_digit c" "\<forall>c \<in> set fp. is_digit c"
  shows "parse_number neg (ip @ CHR ''.'' # fp) = Some (dec_value neg ip fp 0)"
proof -
  have nd: "\<not> is_digit CHR ''.''" by (simp add: is_digit_def)
  have tk: "takeWhile is_digit fp = fp" and dr: "dropWhile is_digit fp = []"
    using assms(3) by (simp_all add: takeWhile_eq_all_conv dropWhile_eq_Nil_conv)
  show ?thesis
    using assms nd by (simp add: parse_number_def Let_def tk dr takeWhile_append2 dropWhile_append2)
qed

lemma parse_decimal_fixed:
  assumes ip: "ip \<noteq> []" "\<forall>c \<in> set ip. is_digit c"
    and fp: "fp \<noteq> []" "\<forall>c \<in> set fp. is_digit c"
  shows "parse_decimal ((if neg then ''-'' else []) @ ip @ CHR ''.'' # fp)
    = Some (dec_value neg ip fp 0)"
proof -
  let ?r = "ip @ CHR ''.'' # fp"
  let ?s = "(if neg then ''-'' else []) @ ?r"
  have digit_hd: "is_digit (hd ip)" using ip by simp
  have "\<not> is_space (hd ?s)"
    using digit_hd ip(1) by (auto simp: is_digit_def is_space_def)
  moreover have "\<not> is_space (last ?s)"
    using fp by (auto simp: is_digit_other)
  ultimately have "strip ?s = ?s" by (intro strip_id) auto
  moreover have "filter (\<lambda>c. c \<noteq> CHR ''_'') ?s = ?s"
    using ip(2) fp(2) by (auto simp: filter_id_conv is_digit_other)
  moreover have "take_sign ?s = (neg, ?r)"
    using digit_hd ip(1) by (cases neg) (simp add: take_sign_def, simp add: take_sign_digit)
  moreover have "map lower ?r \<noteq> [] \<and> is_digit (hd (map lower ?r))"
    using digit_hd ip(1) by (cases ip) (auto simp: is_digit_other)
  then obtain c l where "map lower ?r = c # l" "is_digit c"
    by (cases "map lower ?r") auto
  ultimately show ?thesis
    using parse_number_fixed [OF ip fp(2)]
    by (auto simp: parse_decimal_def is_digit_other)
qed

lemma money_str_digits:
  fixes a :: nat
  shows "digits_val (digits (a div 100) @ [digit_char (a mod 100 div 10), digit_char (a mod 10)]) = a"
proof -
  have "digits_val (digits (a div 100) @ [digit_char (a mod 100 div 10), digit_char (a mod 10)])
      = 10 * (10 * (a div 100) + a mod 100 div 10) + a mod 10"
    using digits_val_append [of "digits (a div 100) @ [digit_char (a mod 100 div 10)]"]
    by (simp add: digits_val_append digit_char_props)
  also have "\<dots> = a"
  proof -
    have horner: "b * 100 + c = a \<Longrightarrow> d * 10 + e = c \<Longrightarrow> 10 * (10 * b + d) + e = a"
      for b c d e :: nat by simp
    have "a mod 100 mod 10 = a mod 10" by (simp add: mod_mod_cancel)
    then show ?thesis
      using horner [OF div_mult_mod_eq [of a 100] div_mult_mod_eq [of "a mod 100" 10]] by simp
  qed
  finally show ?thesis .
qed

lemma parse_money_str:
  assumes "\<bar>half_up (x * 100)\<bar> < 10 ^ 28"
  shows "parse_money (PyStr (money_str x)) = Inr (quantize_money x)"
proof -
  let ?n = "half_up (x * 100)"
  let ?a = "nat \<bar>?n\<bar>"
  let ?fp = "[digit_char (?a mod 100 div 10), digit_char (?a mod 10)]"
  have "parse_decimal (money_str x) = Some (dec_value (?n < 0) (digits (?a div 100)) ?fp 0)"
    using parse_decimal_fixed [of "digits (?a div 100)" ?fp "?n < 0"]
    by (simp add: money_str_def Let_def digits_all_digits digit_char_props)
  also have "\<dots> = Some (Finite (quantize_money x))"
  proof -
    have "(if ?n < 0 then - 1 else 1) * of_nat ?a = (of_int ?n :: rat)" by simp
    moreover have "(10 :: rat) powi (0 - int (length ?fp)) = 1 / 100"
      by (simp add: power_int_def power2_eq_square)
    ultimately show ?thesis
      unfolding dec_value_def money_str_digits quantize_money_def by simp
  qed
  finally show ?thesis
    using assms by (simp add: parse_money_def to_decimal_def finite_value_def quantize_checked_money
        quantize_money_def)
qed

section \<open>Division in the 28-digit context\<close>

definition half_even :: "rat \<Rightarrow> int" where
  "half_even x = (let f = \<lfloor>x\<rfloor>; r = x - of_int f
     in if r < 1 / 2 \<or> r = 1 / 2 \<and> even f then f else f + 1)"

text \<open>The decimal exponent of a positive value, from the lengths of its two integers.\<close>

function ndigits :: "int \<Rightarrow> int" where
  "ndigits n = (if n < 10 then 1 else 1 + ndigits (n div 10))"
  by auto
termination by (relation "measure nat") auto

declare ndigits.simps [simp del]

definition ilog10 :: "rat \<Rightarrow> int" where
  "ilog10 x = (let (p, q) = quotient_of x; d = ndigits p - ndigits q
     in if 10 powi d \<le> x then d else d - 1)"

definition ctx_round :: "rat \<Rightarrow> rat" where
  "ctx_round x = (if x = 0 then 0 else
     let u = 10 powi (ilog10 \<bar>x\<bar> - 27)
     in sgn x * of_int (half_even (\<bar>x\<bar> / u)) * u)"

definition dec_div :: "rat \<Rightarrow> rat \<Rightarrow> rat" where
  "dec_div a b = ctx_round (a / b)"

lemma ndigits_pos: "1 \<le> ndigits n"
  by (induction n rule: ndigits.induct) (subst ndigits.simps, auto)

lemma ndigits_bounds:
  "0 < n \<Longrightarrow> 10 powi (ndigits n - 1) \<le> (of_int n :: rat) \<and> of_int n < (10 :: rat) powi ndigits n"
proof (induction n rule: ndigits.induct)
  case (1 n)
  show ?case
  proof (cases "n < 10")
    case True
    with 1(2) show ?thesis by (subst (1 2) ndigits.simps) simp
  next
    case False
    let ?m = "n div 10"
    have IH: "10 powi (ndigits ?m - 1) \<le> (of_int ?m :: rat)" "of_int ?m < (10 :: rat) powi ndigits ?m"
      using 1(1) False by auto
    have dig: "ndigits n = ndigits ?m + 1" using False by (subst ndigits.simps) simp
    have pow: "(10 :: rat) powi (k + 1) = 10 * 10 powi k" for k
      by (simp add: power_int_add)
    have pos: "1 \<le> ndigits ?m" using ndigits_pos by simp
    have up: "?m < 10 ^ nat (ndigits ?m)"
    proof -
      have "(of_int ?m :: rat) < of_int (10 ^ nat (ndigits ?m))"
        using IH(2) pos by (simp add: power_int_def)
      then show ?thesis by (simp only: of_int_less_iff)
    qed
    then have "n < 10 * 10 ^ nat (ndigits ?m)" by linarith
    then have "(of_int n :: rat) < of_int (10 * 10 ^ nat (ndigits ?m))" by (simp only: of_int_less_iff)
    then have hi: "(of_int n :: rat) < 10 powi ndigits n"
      using pos by (simp add: dig pow) (simp add: power_int_def)
    have "10 * (of_int ?m :: rat) \<le> of_int n"
      using of_int_le_iff [of "10 * ?m" n, where ?'a = rat] by simp
    with IH(1) have "10 powi (ndigits ?m - 1 + 1) \<le> (of_int n :: rat)"
      unfolding pow by linarith
    with hi show ?thesis by (simp add: dig)
  qed
qed

lemma ilog10_bounds:
  assumes "0 < x"
  shows "10 powi ilog10 x \<le> x" and "x < 10 powi (ilog10 x + 1)"
proof -
  obtain p q where pq: "quotient_of x = (p, q)" by (cases "quotient_of x")
  have q: "0 < q" using quotient_of_denom_pos [OF pq] .
  have x: "x = of_int p / of_int q" using quotient_of_div [OF pq] .
  with assms q have p: "0 < p" by (simp add: zero_less_divide_iff)
  define lp lq where "lp = ndigits p" and "lq = ndigits q"
  have P: "10 powi (lp - 1) \<le> (of_int p :: rat)" "of_int p < (10 :: rat) powi lp"
    using ndigits_bounds [OF p] by (simp_all add: lp_def)
  have Q: "10 powi (lq - 1) \<le> (of_int q :: rat)" "of_int q < (10 :: rat) powi lq"
    using ndigits_bounds [OF q] by (simp_all add: lq_def)
  have lo: "10 powi (lp - lq - 1) \<le> x"
  proof -
    have "10 powi (lp - lq - 1) * of_int q \<le> 10 powi (lp - lq - 1) * (10 :: rat) powi lq"
      using Q(2) by (intro mult_left_mono) auto
    also have "\<dots> = 10 powi (lp - 1)" by (simp flip: power_int_add)
    also note P(1)
    finally show ?thesis using q by (simp add: x pos_le_divide_eq)
  qed
  have hi: "x < 10 powi (lp - lq + 1)"
  proof -
    have "of_int p < (10 :: rat) powi lp" by (rule P(2))
    also have "\<dots> = 10 powi (lp - lq + 1) * 10 powi (lq - 1)" by (simp flip: power_int_add)
    also have "\<dots> \<le> 10 powi (lp - lq + 1) * of_int q"
      using Q(1) by (intro mult_left_mono) auto
    finally show ?thesis using q by (simp add: x pos_divide_less_eq)
  qed
  have il: "ilog10 x = (if 10 powi (lp - lq) \<le> x then lp - lq else lp - lq - 1)"
    by (simp add: ilog10_def pq lp_def lq_def Let_def)
  show "10 powi ilog10 x \<le> x" using lo by (simp add: il)
  show "x < 10 powi (ilog10 x + 1)" using hi by (auto simp: il)
qed

lemma half_even_error: "\<bar>of_int (half_even x) - x\<bar> \<le> 1 / 2"
proof -
  have "of_int \<lfloor>x\<rfloor> \<le> x" "x < of_int \<lfloor>x\<rfloor> + 1" by linarith+
  then show ?thesis by (auto simp: half_even_def Let_def)
qed

lemma half_even_of_int [simp]: "half_even (of_int n) = n"
  by (simp add: half_even_def)

lemma ctx_round_pos:
  assumes "0 < x"
  obtains u k where "u = 10 powi k" "10 ^ 27 * u \<le> x" "\<bar>ctx_round x - x\<bar> \<le> u / 2"
    and "\<And>n. x = of_int n * u \<Longrightarrow> ctx_round x = x"
proof
  let ?k = "ilog10 x - 27"
  let ?u = "(10 :: rat) powi ?k"
  have u: "0 < ?u" by simp
  have "10 ^ 27 * ?u = (10 :: rat) powi 27 * 10 powi ?k" by (simp add: power_int_def)
  also have "\<dots> = 10 powi (27 + ?k)" by (rule power_int_add [symmetric]) simp
  finally have "10 ^ 27 * ?u = 10 powi ilog10 x" by simp
  then show "10 ^ 27 * ?u \<le> x" using ilog10_bounds(1) [OF assms] by simp
  have eq: "ctx_round x = of_int (half_even (x / ?u)) * ?u"
    using assms by (simp add: ctx_round_def Let_def)
  have "ctx_round x - x = (of_int (half_even (x / ?u)) - x / ?u) * ?u"
    using u by (simp add: eq field_simps)
  then have "\<bar>ctx_round x - x\<bar> = \<bar>of_int (half_even (x / ?u)) - x / ?u\<bar> * ?u"
    using u by (simp add: abs_mult)
  also have "\<dots> \<le> 1 / 2 * ?u"
    using half_even_error u by (intro mult_right_mono) auto
  finally show "\<bar>ctx_round x - x\<bar> \<le> ?u / 2" by simp
  show "ctx_round x = x" if "x = of_int n * ?u" for n
  proof -
    have "x / ?u = of_int n" using that u by (metis nonzero_mult_div_cancel_right less_irrefl)
    then show ?thesis using eq that by simp
  qed
qed simp

text \<open>A point half way between two halalas has few digits, so the context keeps it.\<close>

lemma ctx_round_half:
  assumes "0 < x" "x < 10 ^ 25" "x * 200 = of_int n"
  shows "ctx_round x = x"
proof -
  obtain u k where u: "u = 10 powi k" "10 ^ 27 * u \<le> x"
    and exact: "\<And>n. x = of_int n * u \<Longrightarrow> ctx_round x = x"
    using ctx_round_pos [OF assms(1)] by metis
  have "10 ^ 27 * u < 10 ^ 25" using u(2) assms(2) by simp
  then have "u < 10 powi (- 2)" by (simp add: power_int_minus field_simps)
  then have "k < - 2"
    unfolding u(1) using power_int_increasing [of "- 2" k "10 :: rat"] by linarith
  then obtain j where j: "k = - (int j + 3)"
    by (intro that [of "nat (- k - 3)"]) simp
  have "(10 :: rat) powi (int j + 3) = 10 ^ j * 1000"
    by (simp add: power_int_add)
  then have uj: "u = 1 / (10 ^ j * 1000)"
    unfolding u(1) j power_int_minus by (simp add: inverse_eq_divide)
  have "x = of_int (n * 5 * 10 ^ j) * u"
    using assms(3) by (simp add: uj)
  then show ?thesis by (rule exact)
qed

lemma ctx_round_near:
  fixes A B :: int
  assumes "0 < x" "A < 10 ^ 27" "0 < B" "x * 100 = of_int A / of_int B"
  shows "\<bar>ctx_round x * 100 - x * 100\<bar> < 1 / (2 * of_int B)"
proof -
  obtain u where u: "10 ^ 27 * u \<le> x" "\<bar>ctx_round x - x\<bar> \<le> u / 2"
    using ctx_round_pos [OF assms(1)] by metis
  have "\<bar>ctx_round x * 100 - x * 100\<bar> = \<bar>ctx_round x - x\<bar> * 100"
    by (simp add: abs_if field_simps)
  also have "\<dots> \<le> x * 100 / (2 * 10 ^ 27)" using u by (simp add: field_simps)
  also have "\<dots> = of_int A / (10 ^ 27 * (2 * of_int B))" by (simp add: assms(4))
  also have "\<dots> < 10 ^ 27 / (10 ^ 27 * (2 * of_int B))"
  proof (rule divide_strict_right_mono)
    show "(of_int A :: rat) < 10 ^ 27"
      using assms(2) by (metis of_int_less_iff of_int_numeral of_int_power)
  qed (use assms(3) in simp)
  finally show ?thesis by simp
qed

lemma quantize_ctx_round:
  fixes A B :: int
  assumes "0 \<le> A" "A < 10 ^ 27" "0 < B" and x: "x * 100 = of_int A / of_int B"
  shows "quantize_money (ctx_round x) = quantize_money x"
proof (cases "A = 0")
  case True
  with x show ?thesis by (simp add: ctx_round_def)
next
  case False
  with assms have A: "0 < A" by simp
  have B: "0 < (of_int B :: rat)" "1 \<le> (of_int B :: rat)" using assms(3) by auto
  have xB: "x * 100 * of_int B = of_int A" using x B by simp
  have x0: "0 < x"
    using A B xB by (metis of_int_0_less_iff zero_less_mult_pos2 zero_less_numeral)
  let ?c = "ctx_round x * 100"
  let ?d = "1 / (2 * of_int B) :: rat"
  note near = ctx_round_near [OF x0 assms(2,3) x]
  let ?k = "\<lfloor>x * 100 + 1 / 2\<rfloor>"
  have k: "of_int ?k \<le> x * 100 + 1 / 2" "x * 100 + 1 / 2 < of_int ?k + 1"
    by linarith+
  have xB': "(x * 100 + 1 / 2) * (2 * of_int B) = of_int (2 * A + B)"
    using xB by (simp add: algebra_simps)
  have "of_int (2 * A + B) < (of_int (2 * B * (?k + 1)) :: rat)"
    using mult_strict_right_mono [OF k(2), of "2 * of_int B"] B
    unfolding xB' by (simp add: algebra_simps)
  then have "2 * A + B + 1 \<le> 2 * B * (?k + 1)" by (simp only: of_int_less_iff)
  then have "of_int (2 * A + B + 1) \<le> (of_int (2 * B * (?k + 1)) :: rat)"
    by (simp only: of_int_le_iff)
  then have hi: "x * 100 + 1 / 2 + ?d \<le> of_int ?k + 1"
    using B xB' by (simp add: field_simps)
  have lo: "ctx_round x = x \<or> of_int ?k + ?d \<le> x * 100 + 1 / 2"
  proof (cases "2 * B * ?k = 2 * A + B")
    case True
    then have "of_int (2 * B * ?k) = (of_int (2 * A + B) :: rat)" by (simp only: of_int_eq_iff)
    then have "(x * 100 + 1 / 2) * (2 * of_int B) = of_int ?k * (2 * of_int B)"
      unfolding xB' by (simp add: algebra_simps)
    then have "x * 100 + 1 / 2 = of_int ?k" using B by (simp only: mult_cancel_right) simp
    then have "x * 200 = of_int (2 * ?k - 1)" by simp
    moreover have "x < 10 ^ 25"
    proof -
      have "x * 100 * 1 \<le> x * 100 * of_int B" using B x0 by (intro mult_left_mono) auto
      also have "\<dots> < 10 ^ 27"
        using assms(2) unfolding xB by (metis of_int_less_iff of_int_numeral of_int_power)
      finally show ?thesis by simp
    qed
    ultimately show ?thesis using ctx_round_half [OF x0] by blast
  next
    case False
    have "of_int (2 * B * ?k) \<le> (of_int (2 * A + B) :: rat)"
      using mult_right_mono [OF k(1), of "2 * of_int B"] B
      unfolding xB' by (simp add: algebra_simps)
    with False have "2 * B * ?k + 1 \<le> 2 * A + B" by (simp only: of_int_le_iff)
    then have "of_int (2 * B * ?k + 1) \<le> (of_int (2 * A + B) :: rat)"
      by (simp only: of_int_le_iff)
    then show ?thesis using B xB' by (simp add: field_simps)
  qed
  have "\<lfloor>?c + 1 / 2\<rfloor> = ?k" using near hi lo k by (auto simp: floor_eq_iff)
  moreover have "0 \<le> ?c"
  proof -
    have "?d \<le> x * 100" using A B by (simp add: x field_simps)
    with near show ?thesis by linarith
  qed
  ultimately show ?thesis using x0 by (simp add: quantize_money_def half_up_def)
qed

text \<open>
  For amounts of two decimals whose product stays below \<open>10 ^ 23\<close> the intermediate rounding
  of the division cannot be seen after quantization.
\<close>

lemma quantize_dec_div:
  assumes "is_money d" "is_money n" "is_money b" "0 \<le> d" "0 \<le> n" "0 < b" "d * n < 10 ^ 23"
  shows "quantize_money (dec_div (d * n) b) = quantize_money (d * n / b)"
proof -
  obtain D N B where eq: "d = of_int D / 100" "n = of_int N / 100" "b = of_int B / 100"
    using assms(1-3) by (metis is_moneyE)
  have sgn: "0 \<le> D" "0 \<le> N" "0 < B" using assms(4-6) by (simp_all add: eq)
  have "of_int (D * N) < (of_int (10 ^ 27) :: rat)" using assms(7) by (simp add: eq)
  then have "D * N < 10 ^ 27" by (simp only: of_int_less_iff)
  then show ?thesis
    unfolding dec_div_def using sgn
    by (intro quantize_ctx_round [of "D * N" B]) (simp_all add: eq)
qed

section \<open>Properties\<close>

text \<open>C16: printing an amount and parsing the text again gives the amount quantized to two
  places, for every amount of fewer than 29 digits: no halala is lost on the wire.\<close>

theorem money_wire_roundtrip:
  assumes "\<bar>half_up (amount * 100)\<bar> < 10 ^ 28"
  shows "parse_money (PyStr (money_str amount)) = Inr (quantize_money amount)"
  using assms by (rule parse_money_str)

theorem money_wire_roundtrip_witness:
  "money_str (- 1311 / 2) = ''-655.50'' \<and> parse_money (PyStr ''-655.50'') = Inr (- 1311 / 2)"
proof -
  have hu: "half_up (- 1311 / 2 * 100) = - 65550"
    using half_up_of_int [of "-65550"] by simp
  have str: "money_str (- 1311 / 2) = ''-655.50''"
    unfolding money_str_def hu by (simp add: digits.simps digit_char_def char_of_def bit_0)
  have "parse_money (PyStr (money_str (- 1311 / 2))) = Inr (quantize_money (- 1311 / 2))"
    by (rule money_wire_roundtrip, unfold hu) simp
  moreover have "quantize_money (- 1311 / 2) = - 1311 / 2"
    unfolding quantize_money_def hu by simp
  ultimately show ?thesis using str by metis
qed

text \<open>\<open>parse_money\<close> raises \<open>MoneyError\<close> for a float, for text that is no number and for a value
  that is not finite, and returns a two-decimal amount otherwise; but a finite value of 29
  or more digits escapes as \<open>InvalidOperation\<close>, which the documentation does not mention.\<close>

theorem parse_money_outcomes:
  "parse_money v = (case to_decimal v of
       Inl e \<Rightarrow> Inl MoneyError
     | Inr (Finite x) \<Rightarrow> (if \<bar>half_up (x * 100)\<bar> < 10 ^ 28
                       then Inr (quantize_money x) else Inl InvalidOperation)
     | Inr _ \<Rightarrow> Inl MoneyError)"
  by (auto simp: parse_money_def to_decimal_def finite_value_def quantize_checked_money or_raise_def
      split: py_value.splits decimal.splits option.splits)

end
