(* ===== verification/Pricing.thy ===== *)
theory Pricing
  imports Money
begin

text \<open>
  \<open>app/core/pricing.py\<close>: the pricing engine and the settlement of a paid invoice.  Every
  quantization step of the source is a \<open>quantize_money\<close> here, and every division is the
  context division \<open>dec_div\<close>.  The lemmas show that the engine never fails one of its own
  allocation or reconstruction assertions, so an invoice is priced exactly when its total
  lies in the permitted range.
\<close>

section \<open>Data\<close>

datatype promo_discount_kind = PK_PERCENT | PK_FIXED

record pricing_item =
  pit_title :: string
  pit_unit_price_amount :: money
  pit_quantity :: int
  pit_tax_rate :: rat
  pit_description :: "string option"
  pit_position :: int

record pricing_promo =
  pp_discount_type :: promo_discount_kind
  pp_percent_value :: "rat option"
  pp_fixed_amount :: "money option"
  pp_max_discount_amount :: "money option"
  pp_min_order_amount :: money

record pricing_config =
  service_fee_rate :: rat
  service_fee_min_amount :: money
  service_fee_max_amount :: money
  default_vat_rate :: rat
  max_invoice_amount :: money

record pricing_line =
  pl_position :: int
  pl_title :: string
  pl_description :: "string option"
  pl_unit_price_amount :: money
  pl_quantity :: int
  pl_tax_rate :: rat
  pl_line_net_amount :: money
  pl_line_discount_amount :: money
  pl_line_taxable_amount :: money
  pl_line_tax_amount :: money
  pl_line_total_amount :: money

text \<open>The audit dictionary: its top-level amounts by key, and the amounts of each line.\<close>

record pricing_breakdown =
  bd_amounts :: "(string \<times> money) list"
  bd_lines :: "(int \<times> (string \<times> money) list) list"

record pricing_result =
  res_lines :: "pricing_line list"
  res_items_net_amount :: money
  res_courier_fee_amount :: money
  res_courier_fee_discount_amount :: money
  res_courier_fee_tax_amount :: money
  res_service_fee_amount :: money
  res_service_fee_tax_amount :: money
  res_discount_amount :: money
  res_net_after_discount_amount :: money
  res_tax_amount :: money
  res_total_amount :: money
  res_breakdown :: pricing_breakdown

record settlement =
  commission_amount :: money
  courier_payout_amount :: money
  settle_tax_amount :: money
  platform_revenue_amount :: money

section \<open>Operations\<close>

definition compute_settlement :: "money \<Rightarrow> money \<Rightarrow> money \<Rightarrow> money \<Rightarrow> rat \<Rightarrow> settlement" where
  "compute_settlement items_net courier_fee tax_amount total_amount commission_rate =
     (let base = quantize_money (items_net + courier_fee);
          commission = quantize_money (base * commission_rate);
          courier_payout = quantize_money (base - commission);
          tax = quantize_money tax_amount;
          total = quantize_money total_amount;
          revenue = quantize_money (total - tax - courier_payout)
      in \<lparr>commission_amount = commission, courier_payout_amount = courier_payout,
          settle_tax_amount = tax, platform_revenue_amount = revenue\<rparr>)"

definition compute_service_fee :: "money \<Rightarrow> pricing_config \<Rightarrow> money" where
  "compute_service_fee base cfg =
     (if base \<le> 0 then 0
      else let raw = quantize_money (base * service_fee_rate cfg)
           in min (max raw (service_fee_min_amount cfg)) (service_fee_max_amount cfg))"

definition compute_discount :: "money \<Rightarrow> pricing_promo option \<Rightarrow> error + money" where
  "compute_discount discountable promo = (case promo of
       None \<Rightarrow> Inr 0
     | Some p \<Rightarrow>
         (case pp_discount_type p of
            PK_PERCENT \<Rightarrow>
              or_raise (pp_percent_value p) PricingIntegrityError (\<lambda>pct.
              let d = quantize_money (dec_div (discountable * pct) 100);
                  d = (case pp_max_discount_amount p of None \<Rightarrow> d | Some m \<Rightarrow> min d m)
              in Inr (min d discountable))
          | PK_FIXED \<Rightarrow>
              or_raise (pp_fixed_amount p) PricingIntegrityError (\<lambda>d.
              Inr (min d discountable))))"

definition compute_promo_discount :: "money \<Rightarrow> pricing_promo \<Rightarrow> error + money" where
  "compute_promo_discount discountable promo = compute_discount discountable (Some promo)"

text \<open>The highest-position item with a non-zero base, \<open>0\<close> by default.\<close>

definition residue_index :: "money list \<Rightarrow> nat" where
  "residue_index line_nets =
     (let idx = filter (\<lambda>i. line_nets ! i > 0) [0..<length line_nets]
      in if idx = [] then 0 else Max (set idx))"

definition allocate_discount ::
    "money list \<Rightarrow> money \<Rightarrow> money \<Rightarrow> money \<Rightarrow> error + money list \<times> money" where
  "allocate_discount line_nets courier_fee_net discount discountable =
     (if discount \<le> 0 \<or> discountable \<le> 0 then Inr (map (\<lambda>_. 0) line_nets, 0)
      else
        let line_alloc =
              map (\<lambda>net. quantize_money (dec_div (discount * net) discountable)) line_nets;
            courier_alloc =
              (if courier_fee_net > 0
               then quantize_money (dec_div (discount * courier_fee_net) discountable) else 0);
            residue = discount - (sum_list line_alloc + courier_alloc)
        in if residue \<noteq> 0
           then if courier_fee_net > 0 then Inr (line_alloc, courier_alloc + residue)
                else let last = residue_index line_nets
                     in if last < length line_alloc
                        then Inr (line_alloc[last := line_alloc ! last + residue], courier_alloc)
                        else Inl IndexError
           else Inr (line_alloc, courier_alloc))"

definition line_net :: "pricing_item \<Rightarrow> money" where
  "line_net i = quantize_money (pit_unit_price_amount i * of_int (pit_quantity i))"

definition price_line :: "nat \<Rightarrow> pricing_item \<Rightarrow> money \<Rightarrow> money \<Rightarrow> pricing_line" where
  "price_line idx item net alloc =
     (let taxable = net - alloc;
          line_tax = quantize_money (taxable * pit_tax_rate item)
      in \<lparr>pl_position = (if pit_position item \<noteq> 0 then pit_position item else int idx + 1),
          pl_title = pit_title item, pl_description = pit_description item,
          pl_unit_price_amount = quantize_money (pit_unit_price_amount item),
          pl_quantity = pit_quantity item, pl_tax_rate = pit_tax_rate item,
          pl_line_net_amount = net, pl_line_discount_amount = alloc,
          pl_line_taxable_amount = taxable, pl_line_tax_amount = line_tax,
          pl_line_total_amount = taxable + line_tax\<rparr>)"

fun price_lines :: "nat \<Rightarrow> pricing_item list \<Rightarrow> money list \<Rightarrow> money list \<Rightarrow> pricing_line list" where
  "price_lines idx (item # items) (net # nets) (alloc # allocs) =
     price_line idx item net alloc # price_lines (Suc idx) items nets allocs"
| "price_lines idx _ _ _ = []"

definition line_breakdown :: "pricing_line \<Rightarrow> int \<times> (string \<times> money) list" where
  "line_breakdown l = (pl_position l,
     [(''line_net_amount'', pl_line_net_amount l),
      (''line_discount_amount'', pl_line_discount_amount l),
      (''line_taxable_amount'', pl_line_taxable_amount l),
      (''line_tax_amount'', pl_line_tax_amount l),
      (''line_total_amount'', pl_line_total_amount l)])"

definition calculate_invoice_totals ::
    "pricing_item list \<Rightarrow> money \<Rightarrow> pricing_promo option \<Rightarrow> pricing_config
     \<Rightarrow> error + pricing_result" where
  "calculate_invoice_totals items courier_fee_amount promo cfg =
     (let line_nets = map line_net items;
          items_net = sum_list line_nets;
          courier_fee_net = quantize_money courier_fee_amount;
          service_fee = compute_service_fee (items_net + courier_fee_net) cfg;
          discountable = items_net + courier_fee_net
      in and_then (compute_discount discountable promo) (\<lambda>discount.
         and_then (allocate_discount line_nets courier_fee_net discount discountable)
           (\<lambda>(line_alloc, courier_alloc).
         let lines = price_lines 0 items line_nets line_alloc;
             courier_taxable = courier_fee_net - courier_alloc;
             courier_tax = quantize_money (courier_taxable * default_vat_rate cfg);
             service_tax = quantize_money (service_fee * default_vat_rate cfg);
             tax_amount = sum_list (map pl_line_tax_amount lines) + (courier_tax + service_tax);
             net_after_discount = items_net + courier_fee_net + service_fee - discount;
             total_amount = net_after_discount + tax_amount;
             total_alloc = sum_list line_alloc + courier_alloc;
             reconstructed = sum_list (map pl_line_total_amount lines)
               + (courier_taxable + courier_tax) + (service_fee + service_tax)
         in ensure (total_alloc = discount) PricingIntegrityError
            (ensure (reconstructed = total_amount) PricingIntegrityError
            (ensure (\<not> total_amount \<le> 0) PricingIntegrityError
            (ensure (\<not> total_amount > max_invoice_amount cfg) PricingIntegrityError
            (Inr \<lparr>res_lines = lines, res_items_net_amount = items_net,
              res_courier_fee_amount = courier_fee_net,
              res_courier_fee_discount_amount = courier_alloc,
              res_courier_fee_tax_amount = courier_tax,
              res_service_fee_amount = service_fee,
              res_service_fee_tax_amount = service_tax,
              res_discount_amount = discount,
              res_net_after_discount_amount = net_after_discount,
              res_tax_amount = tax_amount, res_total_amount = total_amount,
              res_breakdown =
                \<lparr>bd_amounts =
                  [(''items_net_amount'', items_net), (''courier_fee_amount'', courier_fee_net),
                   (''service_fee_amount'', service_fee), (''discount_amount'', discount),
                   (''net_after_discount_amount'', net_after_discount),
                   (''tax_amount'', tax_amount), (''total_amount'', total_amount),
                   (''courier_fee_tax_amount'', courier_tax),
                   (''service_fee_tax_amount'', service_tax)],
                 bd_lines = map line_breakdown lines\<rparr>\<rparr>)))))))"

section \<open>Lines\<close>

lemma length_price_lines [simp]:
  "length nets = length items \<Longrightarrow> length allocs = length items \<Longrightarrow>
     length (price_lines k items nets allocs) = length items"
  by (induction k items nets allocs rule: price_lines.induct) auto

lemma price_lines_total:
  "length nets = length items \<Longrightarrow> length allocs = length items \<Longrightarrow>
     sum_list (map pl_line_total_amount (price_lines k items nets allocs))
     = sum_list nets - sum_list allocs
       + sum_list (map pl_line_tax_amount (price_lines k items nets allocs))"
  by (induction k items nets allocs rule: price_lines.induct)
     (auto simp: price_line_def Let_def)

lemma price_lines_nets:
  "length nets = length items \<Longrightarrow> length allocs = length items \<Longrightarrow>
     map pl_line_net_amount (price_lines k items nets allocs) = nets \<and>
     map pl_line_discount_amount (price_lines k items nets allocs) = allocs"
  by (induction k items nets allocs rule: price_lines.induct)
     (auto simp: price_line_def Let_def)

text \<open>The check constraint \<open>chk_item_line_math\<close>, on the line the engine computed.\<close>

definition line_math :: "pricing_line \<Rightarrow> bool" where
  "line_math l \<longleftrightarrow>
     pl_line_net_amount l = pl_unit_price_amount l * of_int (pl_quantity l) \<and>
     pl_line_taxable_amount l = pl_line_net_amount l - pl_line_discount_amount l \<and>
     pl_line_total_amount l = pl_line_taxable_amount l + pl_line_tax_amount l"

lemma line_net_exact:
  "is_money (pit_unit_price_amount i) \<Longrightarrow>
     line_net i = pit_unit_price_amount i * of_int (pit_quantity i)"
  by (simp add: line_net_def quantize_money_id is_money_times_int)

lemma line_math_price_line:
  "is_money (pit_unit_price_amount i) \<Longrightarrow> line_math (price_line k i (line_net i) a)"
  by (simp add: line_math_def price_line_def Let_def line_net_exact quantize_money_id)

lemma line_math_price_lines:
  "list_all (\<lambda>i. is_money (pit_unit_price_amount i)) items \<Longrightarrow>
     list_all line_math (price_lines k items (map line_net items) allocs)"
  by (induction k items "map line_net items" allocs rule: price_lines.induct)
     (auto simp: line_math_price_line)

section \<open>Service fee and discount\<close>

lemma compute_service_fee_bounds:
  assumes "service_fee_min_amount cfg \<le> service_fee_max_amount cfg" and "0 < base"
  shows "service_fee_min_amount cfg \<le> compute_service_fee base cfg"
    and "compute_service_fee base cfg \<le> service_fee_max_amount cfg"
  using assms by (auto simp: compute_service_fee_def Let_def)

lemma compute_service_fee_nonneg:
  "0 \<le> service_fee_min_amount cfg \<Longrightarrow> service_fee_min_amount cfg \<le> service_fee_max_amount cfg
     \<Longrightarrow> 0 \<le> compute_service_fee base cfg"
  by (auto simp: compute_service_fee_def Let_def)

text \<open>
  A promo as the table \<open>promos\<close> lets it exist: the value of its kind is present and positive,
  the cap is not negative.
\<close>

definition promo_ok :: "pricing_promo \<Rightarrow> bool" where
  "promo_ok p \<longleftrightarrow>
     (case pp_discount_type p of
        PK_PERCENT \<Rightarrow> (case pp_percent_value p of None \<Rightarrow> False
                        | Some v \<Rightarrow> 0 < v \<and> v \<le> 100 \<and> is_money v)
      | PK_FIXED \<Rightarrow> (case pp_fixed_amount p of None \<Rightarrow> False | Some v \<Rightarrow> 0 < v \<and> is_money v)) \<and>
     (case pp_max_discount_amount p of None \<Rightarrow> True | Some m \<Rightarrow> 0 \<le> m \<and> is_money m)"

lemma ctx_round_nonneg: "0 \<le> x \<Longrightarrow> 0 \<le> ctx_round x"
proof (cases "x = 0")
  case False
  assume "0 \<le> x"
  with False have "0 < x" by simp
  then obtain u where u: "10 ^ 27 * u \<le> x" "\<bar>ctx_round x - x\<bar> \<le> u / 2"
    using ctx_round_pos by metis
  then have "0 \<le> u" by linarith
  then have "u \<le> 10 ^ 27 * u" by simp
  with u show ?thesis using \<open>0 < x\<close> by linarith
qed (simp add: ctx_round_def)

lemma dec_div_nonneg: "0 \<le> a \<Longrightarrow> 0 \<le> b \<Longrightarrow> 0 \<le> dec_div a b"
  by (simp add: dec_div_def ctx_round_nonneg)

lemma compute_discount_ok:
  assumes "0 \<le> base" "is_money base" and "\<And>p. promo = Some p \<Longrightarrow> promo_ok p"
  obtains d where "compute_discount base promo = Inr d" "0 \<le> d" "d \<le> base" "is_money d"
proof (cases promo)
  case None
  with that [of 0] assms show ?thesis by (simp add: compute_discount_def)
next
  case (Some p)
  with assms(3) have ok: "promo_ok p" by simp
  show ?thesis
  proof (cases "pp_discount_type p")
    case PK_PERCENT
    with ok obtain v where v: "pp_percent_value p = Some v" "0 < v"
      by (auto simp: promo_ok_def split: option.splits)
    let ?d = "quantize_money (dec_div (base * v) 100)"
    have "0 \<le> ?d" using assms v by (simp add: quantize_money_nonneg dec_div_nonneg)
    then show ?thesis
      using that PK_PERCENT ok v assms Some
      by (auto simp: compute_discount_def promo_ok_def Let_def is_money_min split: option.splits)
  next
    case PK_FIXED
    with ok Some assms show ?thesis
      using that by (auto simp: compute_discount_def promo_ok_def is_money_min split: option.splits)
  qed
qed

section \<open>Allocation\<close>

lemma sum_list_update_add:
  fixes xs :: "'a::comm_monoid_add list"
  shows "k < length xs \<Longrightarrow> sum_list (xs[k := xs ! k + r]) = sum_list xs + r"
  by (induction xs arbitrary: k) (auto simp: add.assoc add.left_commute add.commute split: nat.splits)

lemma residue_index_less: "line_nets \<noteq> [] \<Longrightarrow> residue_index line_nets < length line_nets"
proof -
  assume ne: "line_nets \<noteq> []"
  let ?idx = "filter (\<lambda>i. line_nets ! i > 0) [0..<length line_nets]"
  show ?thesis
  proof (cases "?idx = []")
    case False
    then have "Max (set ?idx) \<in> set ?idx" by (intro Max_in) (simp_all only: set_empty finite_set, simp)
    with False show ?thesis by (auto simp: residue_index_def Let_def)
  qed (use ne in \<open>simp add: residue_index_def Let_def\<close>)
qed

lemma allocate_discount_total:
  assumes "0 \<le> d" "d \<le> base" "base = sum_list nets + fee" "0 \<le> fee"
  obtains la ca where "allocate_discount nets fee d base = Inr (la, ca)"
    "length la = length nets" "sum_list la + ca = d"
proof (cases "d \<le> 0 \<or> base \<le> 0")
  case True
  with assms have "d = 0" by auto
  with that [of "map (\<lambda>_. 0) nets" 0] show ?thesis by (simp add: allocate_discount_def)
next
  case False
  let ?la = "map (\<lambda>net. quantize_money (dec_div (d * net) base)) nets"
  let ?ca = "if fee > 0 then quantize_money (dec_div (d * fee) base) else 0"
  let ?r = "d - (sum_list ?la + ?ca)"
  consider "?r = 0" | "?r \<noteq> 0" "0 < fee" | "?r \<noteq> 0" "fee = 0"
    using assms(4) by (cases "fee = 0"; cases "?r = 0") (simp_all add: le_less)
  then show ?thesis
  proof cases
    case 1
    with False that [of ?la ?ca] show ?thesis by (simp add: allocate_discount_def Let_def)
  next
    case 2
    with False that [of ?la "?ca + ?r"] show ?thesis by (simp add: allocate_discount_def Let_def)
  next
    case 3
    with False assms have "nets \<noteq> []" by auto
    from residue_index_less [OF this] have k: "residue_index nets < length ?la" by simp
    show ?thesis
      using that [of "?la[residue_index nets := ?la ! residue_index nets + ?r]" 0]
        3 False k sum_list_update_add [OF k, of ?r]
      by (simp add: allocate_discount_def Let_def)
  qed
qed

section \<open>The engine\<close>

text \<open>Inputs as the services pass them: no negative amount, a promo the table admits.\<close>

definition engine_input_ok :: "pricing_item list \<Rightarrow> money \<Rightarrow> pricing_promo option \<Rightarrow> bool" where
  "engine_input_ok items fee promo \<longleftrightarrow>
     list_all (\<lambda>i. 0 \<le> pit_unit_price_amount i \<and> 0 \<le> pit_quantity i) items \<and> 0 \<le> fee \<and>
     (case promo of None \<Rightarrow> True | Some p \<Rightarrow> promo_ok p)"

text \<open>
  The price an invoice ought to have: its net legs less the discount, plus the tax of every
  leg on the base left after the allocation.
\<close>

definition spec_total ::
    "pricing_item list \<Rightarrow> money \<Rightarrow> pricing_config \<Rightarrow> money \<Rightarrow> money list \<Rightarrow> money \<Rightarrow> money" where
  "spec_total items fee cfg discount line_alloc courier_alloc =
     (let items_net = sum_list (map line_net items); courier = quantize_money fee;
          svc = compute_service_fee (items_net + courier) cfg
      in items_net + courier + svc - discount
         + sum_list (map2 (\<lambda>i a. quantize_money ((line_net i - a) * pit_tax_rate i)) items line_alloc)
         + quantize_money ((courier - courier_alloc) * default_vat_rate cfg)
         + quantize_money (svc * default_vat_rate cfg))"

lemma price_lines_tax:
  "length allocs = length items \<Longrightarrow>
     sum_list (map pl_line_tax_amount (price_lines k items (map line_net items) allocs))
     = sum_list (map2 (\<lambda>i a. quantize_money ((line_net i - a) * pit_tax_rate i)) items allocs)"
  by (induction k items "map line_net items" allocs rule: price_lines.induct)
     (auto simp: price_line_def Let_def)

lemma line_nets_nonneg:
  "engine_input_ok items fee promo \<Longrightarrow> x \<in> set (map line_net items) \<Longrightarrow> 0 \<le> x"
  by (auto simp: engine_input_ok_def list_all_iff line_net_def intro!: quantize_money_nonneg)

lemma items_net_ok:
  assumes "engine_input_ok items fee promo"
  shows "0 \<le> sum_list (map line_net items)" and "is_money (sum_list (map line_net items))"
    and "0 \<le> quantize_money fee"
proof -
  show "0 \<le> sum_list (map line_net items)"
    using line_nets_nonneg [OF assms] by (intro sum_list_nonneg) auto
  show "is_money (sum_list (map line_net items))"
    by (rule is_money_sum_list) (auto simp: line_net_def)
  show "0 \<le> quantize_money fee"
    using assms by (simp add: engine_input_ok_def quantize_money_nonneg)
qed

lemma calculate_invoice_totals_given:
  assumes d: "compute_discount (sum_list (map line_net items) + quantize_money fee) promo = Inr d"
    and al: "allocate_discount (map line_net items) (quantize_money fee) d
       (sum_list (map line_net items) + quantize_money fee) = Inr (la, ca)"
    and len: "length la = length items" and sum: "sum_list la + ca = d"
  obtains r where
    "calculate_invoice_totals items fee promo cfg =
       ensure (0 < spec_total items fee cfg d la ca) PricingIntegrityError
       (ensure (spec_total items fee cfg d la ca \<le> max_invoice_amount cfg) PricingIntegrityError
       (Inr r))"
    "res_lines r = price_lines 0 items (map line_net items) la"
    "res_items_net_amount r = sum_list (map line_net items)"
    "res_courier_fee_amount r = quantize_money fee"
    "res_service_fee_amount r =
       compute_service_fee (sum_list (map line_net items) + quantize_money fee) cfg"
    "res_discount_amount r = d" "res_courier_fee_discount_amount r = ca"
    "res_total_amount r = spec_total items fee cfg d la ca"
    "res_net_after_discount_amount r = res_items_net_amount r + res_courier_fee_amount r
       + res_service_fee_amount r - res_discount_amount r"
    "res_total_amount r = res_net_after_discount_amount r + res_tax_amount r"
proof -
  let ?lines = "price_lines 0 items (map line_net items) la"
  let ?tax = "sum_list (map pl_line_tax_amount ?lines)"
  have total: "sum_list (map pl_line_total_amount ?lines)
      = sum_list (map line_net items) - sum_list la + ?tax"
    using len by (intro price_lines_total) auto
  have recon: "sum_list (map pl_line_total_amount ?lines) + (q - ca + ct) + (sv + st)
      = sum_list (map line_net items) + q + sv - d + (?tax + (ct + st))" for q ct sv st
    using sum by (simp add: total)
  have T: "spec_total items fee cfg d la ca = sum_list (map line_net items) + quantize_money fee
      + compute_service_fee (sum_list (map line_net items) + quantize_money fee) cfg - d
      + (?tax + (quantize_money ((quantize_money fee - ca) * default_vat_rate cfg)
      + quantize_money (compute_service_fee (sum_list (map line_net items) + quantize_money fee) cfg
          * default_vat_rate cfg)))"
    unfolding spec_total_def price_lines_tax [OF len] by (simp add: Let_def)
  show thesis
    by (rule that, unfold calculate_invoice_totals_def Let_def T d al and_then_simps
          prod.case sum recon not_le not_less, simp_all only: ensure_simps refl) simp_all
qed

text \<open>
  On proper inputs the discount and its allocation always exist, both integrity assertions
  on the arithmetic hold, and only the range of the total decides.
\<close>

lemma allocation_exists:
  assumes ok: "engine_input_ok items fee promo"
  obtains d la ca where
    "compute_discount (sum_list (map line_net items) + quantize_money fee) promo = Inr d"
    "allocate_discount (map line_net items) (quantize_money fee) d
       (sum_list (map line_net items) + quantize_money fee) = Inr (la, ca)"
    "length la = length items" "sum_list la + ca = d"
    "0 \<le> d" "d \<le> sum_list (map line_net items) + quantize_money fee" "is_money d"
proof -
  let ?base = "sum_list (map line_net items) + quantize_money fee"
  note base = items_net_ok [OF ok]
  have b: "0 \<le> ?base" "is_money ?base" using base by (auto intro: is_money_add)
  have "promo_ok p" if "promo = Some p" for p
    using ok that by (simp add: engine_input_ok_def)
  from compute_discount_ok [OF b this] obtain d where
    d: "compute_discount ?base promo = Inr d" "0 \<le> d" "d \<le> ?base" "is_money d"
    by blast
  obtain la ca where al: "allocate_discount (map line_net items) (quantize_money fee) d ?base
      = Inr (la, ca)" "length la = length (map line_net items)" "sum_list la + ca = d"
    using allocate_discount_total [OF d(2,3) refl base(3)] by metis
  show thesis by (rule that [OF d(1) al(1) _ al(3) d(2-4)]) (simp add: al(2))
qed

lemma engine_result:
  assumes ok: "engine_input_ok items fee promo"
    and r: "calculate_invoice_totals items fee promo cfg = Inr r"
  obtains la where
    "res_lines r = price_lines 0 items (map line_net items) la" "length la = length items"
    "sum_list la + res_courier_fee_discount_amount r = res_discount_amount r"
    "0 \<le> res_discount_amount r"
    "res_discount_amount r \<le> res_items_net_amount r + res_courier_fee_amount r"
    "is_money (res_discount_amount r)"
    "res_items_net_amount r = sum_list (map line_net items)"
    "res_courier_fee_amount r = quantize_money fee"
    "res_service_fee_amount r =
       compute_service_fee (sum_list (map line_net items) + quantize_money fee) cfg"
    "res_net_after_discount_amount r = res_items_net_amount r + res_courier_fee_amount r
       + res_service_fee_amount r - res_discount_amount r"
    "res_total_amount r = res_net_after_discount_amount r + res_tax_amount r"
    "0 < res_total_amount r" "res_total_amount r \<le> max_invoice_amount cfg"
proof -
  obtain d la ca where A:
    "compute_discount (sum_list (map line_net items) + quantize_money fee) promo = Inr d"
    "allocate_discount (map line_net items) (quantize_money fee) d
       (sum_list (map line_net items) + quantize_money fee) = Inr (la, ca)"
    "length la = length items" "sum_list la + ca = d"
    "0 \<le> d" "d \<le> sum_list (map line_net items) + quantize_money fee" "is_money d"
    using allocation_exists [OF ok] by metis
  obtain r' where R: "calculate_invoice_totals items fee promo cfg =
       ensure (0 < spec_total items fee cfg d la ca) PricingIntegrityError
       (ensure (spec_total items fee cfg d la ca \<le> max_invoice_amount cfg) PricingIntegrityError
       (Inr r'))"
    "res_lines r' = price_lines 0 items (map line_net items) la"
    "res_items_net_amount r' = sum_list (map line_net items)"
    "res_courier_fee_amount r' = quantize_money fee"
    "res_service_fee_amount r' =
       compute_service_fee (sum_list (map line_net items) + quantize_money fee) cfg"
    "res_discount_amount r' = d" "res_courier_fee_discount_amount r' = ca"
    "res_total_amount r' = spec_total items fee cfg d la ca"
    "res_net_after_discount_amount r' = res_items_net_amount r' + res_courier_fee_amount r'
       + res_service_fee_amount r' - res_discount_amount r'"
    "res_total_amount r' = res_net_after_discount_amount r' + res_tax_amount r'"
    by (rule calculate_invoice_totals_given [OF A(1-4), of cfg]) (rule that)
  from r [unfolded R(1)] have eq: "r' = r" and T: "0 < spec_total items fee cfg d la ca"
    "spec_total items fee cfg d la ca \<le> max_invoice_amount cfg" by auto
  note R' = R(2-) [unfolded eq]
  show thesis
    by (rule that [OF R'(1) A(3)]; (rule R'(8,9))?) (simp_all add: R'(2-7) A(4-) T)
qed

section \<open>Allocation against the exact shares\<close>

text \<open>The allocation with exact division, the reference for the context arithmetic.\<close>

definition allocate_exact ::
    "money list \<Rightarrow> money \<Rightarrow> money \<Rightarrow> money \<Rightarrow> money list \<times> money" where
  "allocate_exact nets fee d base =
     (let la = map (\<lambda>net. quantize_money (d * net / base)) nets;
          ca = (if fee > 0 then quantize_money (d * fee / base) else 0);
          residue = d - (sum_list la + ca); k = residue_index nets
      in if fee > 0 then (la, ca + residue) else (la[k := la ! k + residue], ca))"

definition shares_ok :: "money list \<Rightarrow> money \<Rightarrow> money \<Rightarrow> money \<Rightarrow> bool" where
  "shares_ok nets fee d base \<longleftrightarrow>
     list_all (\<lambda>x. 0 \<le> x \<and> is_money x) nets \<and> 0 \<le> fee \<and> is_money fee \<and>
     base = sum_list nets + fee \<and> 0 < d \<and> d \<le> base \<and> is_money d \<and> d * base < 10 ^ 23"

lemma shares_okD:
  assumes "shares_ok nets fee d base"
  shows "0 < base" "is_money base"
    and "\<And>x. x \<in> insert fee (set nets) \<Longrightarrow> 0 \<le> x \<and> is_money x \<and> d * x < 10 ^ 23"
proof -
  have nets: "\<forall>x \<in> set nets. 0 \<le> x \<and> is_money x" and base: "base = sum_list nets + fee"
    using assms by (auto simp: shares_ok_def list_all_iff)
  show "0 < base" using assms by (auto simp: shares_ok_def)
  show "is_money base"
    using assms nets by (auto simp: shares_ok_def intro!: is_money_add is_money_sum_list)
  fix x assume x: "x \<in> insert fee (set nets)"
  have "x \<le> base"
  proof (cases "x \<in> set nets")
    case True
    then have "x \<le> sum_list nets" using nets by (intro member_le_sum_list) auto
    then show ?thesis using assms base by (auto simp: shares_ok_def)
  next
    case False
    with x nets base show ?thesis by (auto intro!: sum_list_nonneg)
  qed
  then have "d * x \<le> d * base" using assms by (intro mult_left_mono) (auto simp: shares_ok_def)
  moreover have "d * base < 10 ^ 23" using assms unfolding shares_ok_def by blast
  ultimately have "d * x < 10 ^ 23" by simp
  with x nets assms show "0 \<le> x \<and> is_money x \<and> d * x < 10 ^ 23"
    by (auto simp: shares_ok_def)
qed

lemma quantize_share:
  assumes "shares_ok nets fee d base" and "x \<in> insert fee (set nets)"
  shows "quantize_money (dec_div (d * x) base) = quantize_money (d * x / base)"
  using assms shares_okD [OF assms(1)] by (intro quantize_dec_div) (auto simp: shares_ok_def)

lemma allocate_discount_exact:
  assumes ok: "shares_ok nets fee d base"
  shows "allocate_discount nets fee d base = Inr (allocate_exact nets fee d base)"
proof -
  have la: "map (\<lambda>net. quantize_money (dec_div (d * net) base)) nets
      = map (\<lambda>net. quantize_money (d * net / base)) nets"
    using quantize_share [OF ok] by simp
  have ca: "quantize_money (dec_div (d * fee) base) = quantize_money (d * fee / base)"
    using quantize_share [OF ok] by simp
  have pos: "\<not> (d \<le> 0 \<or> base \<le> 0)" using ok by (auto simp: shares_ok_def)
  have ne: "nets \<noteq> []" if "\<not> 0 < fee" using that pos ok by (auto simp: shares_ok_def)
  then have k: "residue_index nets < length nets" if "\<not> 0 < fee"
    using that residue_index_less by blast
  let ?f = "\<lambda>net. quantize_money (d * net / base)"
  have "(map ?f nets)[residue_index nets := ?f (nets ! residue_index nets)] = map ?f nets"
    if "\<not> 0 < fee"
    using list_update_id [of "map ?f nets"] k that by (metis (no_types, lifting) nth_map)
  with pos k show ?thesis
    by (cases "0 < fee") (simp_all add: allocate_discount_def allocate_exact_def la ca Let_def)
qed

text \<open>How far an allocation may be from its exact share: half a halala for a component that
  absorbs nothing, half a halala per component for the absorber.\<close>

lemma abs_sum_list_le:
  fixes f :: "'a \<Rightarrow> rat"
  shows "(\<And>x. x \<in> set xs \<Longrightarrow> \<bar>f x\<bar> \<le> e) \<Longrightarrow> \<bar>sum_list (map f xs)\<bar> \<le> of_nat (length xs) * e"
proof (induction xs)
  case (Cons x xs)
  then have "\<bar>sum_list (map f xs)\<bar> \<le> of_nat (length xs) * e" "\<bar>f x\<bar> \<le> e" by auto
  then show ?case by (simp add: algebra_simps)
qed simp

lemma exact_residue:
  assumes ok: "shares_ok nets fee d base"
  shows "\<bar>d - (sum_list (map (\<lambda>net. quantize_money (d * net / base)) nets) + d * fee / base)\<bar>
    \<le> of_nat (length nets) / 200"
proof -
  note D = shares_okD [OF ok]
  have "d = d * base / base" using D(1) by simp
  also have "\<dots> = sum_list (map (\<lambda>net. d * net / base) nets) + d * fee / base"
    using ok sum_list_const_mult [of "d / base" "\<lambda>x. x" nets]
    by (simp add: shares_ok_def ring_distribs add_divide_distrib)
  finally have "d - (sum_list (map (\<lambda>net. quantize_money (d * net / base)) nets) + d * fee / base)
     = sum_list (map (\<lambda>net. d * net / base - quantize_money (d * net / base)) nets)"
    by (simp add: sum_list_subtractf)
  also have "\<bar>\<dots>\<bar> \<le> of_nat (length nets) * (1 / 200)"
    using quantize_money_error by (intro abs_sum_list_le) (simp add: abs_minus_commute)
  finally show ?thesis by simp
qed

lemma is_money_service_fee:
  "is_money (service_fee_min_amount cfg) \<Longrightarrow> is_money (service_fee_max_amount cfg) \<Longrightarrow>
     is_money (compute_service_fee base cfg)"
  by (simp add: compute_service_fee_def Let_def is_money_min is_money_max)

lemma is_money_spec_total:
  assumes "is_money (service_fee_min_amount cfg)" "is_money (service_fee_max_amount cfg)"
    and "is_money d"
  shows "is_money (spec_total items fee cfg d la ca)"
proof -
  have "is_money (sum_list (map2 (\<lambda>i a. quantize_money ((line_net i - a) * pit_tax_rate i)) items la))"
    by (rule is_money_sum_list) auto
  moreover have "is_money (sum_list (map line_net items))"
    by (rule is_money_sum_list) (auto simp: line_net_def)
  ultimately show ?thesis
    unfolding spec_total_def Let_def
    by (intro is_money_add is_money_diff is_money_service_fee assms quantize_money_is_money)
qed

lemma engine_result_money:
  assumes "engine_input_ok items fee promo"
    and "is_money (service_fee_min_amount cfg)" "is_money (service_fee_max_amount cfg)"
    and "calculate_invoice_totals items fee promo cfg = Inr r"
  shows "is_money (res_items_net_amount r)" "is_money (res_courier_fee_amount r)"
    "is_money (res_service_fee_amount r)" "is_money (res_discount_amount r)"
    "is_money (res_net_after_discount_amount r)" "is_money (res_tax_amount r)"
    "is_money (res_total_amount r)"
proof -
  obtain d la ca where A:
    "compute_discount (sum_list (map line_net items) + quantize_money fee) promo = Inr d"
    "allocate_discount (map line_net items) (quantize_money fee) d
       (sum_list (map line_net items) + quantize_money fee) = Inr (la, ca)"
    "length la = length items" "sum_list la + ca = d" "is_money d"
    using allocation_exists [OF assms(1)] by metis
  obtain r' where R: "calculate_invoice_totals items fee promo cfg =
       ensure (0 < spec_total items fee cfg d la ca) PricingIntegrityError
       (ensure (spec_total items fee cfg d la ca \<le> max_invoice_amount cfg)
         PricingIntegrityError (Inr r'))"
    "res_items_net_amount r' = sum_list (map line_net items)"
    "res_courier_fee_amount r' = quantize_money fee"
    "res_service_fee_amount r' =
       compute_service_fee (sum_list (map line_net items) + quantize_money fee) cfg"
    "res_discount_amount r' = d"
    "res_total_amount r' = spec_total items fee cfg d la ca"
    "res_net_after_discount_amount r' = res_items_net_amount r' + res_courier_fee_amount r'
       + res_service_fee_amount r' - res_discount_amount r'"
    "res_total_amount r' = res_net_after_discount_amount r' + res_tax_amount r'"
    by (rule calculate_invoice_totals_given [OF A(1-4), of cfg]) (rule that)
  from assms(4) [unfolded R(1)] have eq: "r' = r" by auto
  note R' = R(2-) [unfolded eq]
  show items: "is_money (res_items_net_amount r)"
    unfolding R'(1) by (rule items_net_ok(2) [OF assms(1)])
  show fee: "is_money (res_courier_fee_amount r)" by (simp add: R'(2))
  show svc: "is_money (res_service_fee_amount r)"
    unfolding R'(3) by (rule is_money_service_fee [OF assms(2,3)])
  show d: "is_money (res_discount_amount r)" by (simp add: R'(4) A(5))
  show net: "is_money (res_net_after_discount_amount r)"
    unfolding R'(6) by (intro is_money_add is_money_diff items fee svc d)
  show tot: "is_money (res_total_amount r)"
    unfolding R'(5) by (rule is_money_spec_total [OF assms(2,3) A(5)])
  have "res_tax_amount r = res_total_amount r - res_net_after_discount_amount r"
    using R'(7) by simp
  then show "is_money (res_tax_amount r)" using tot net by (simp add: is_money_diff)
qed

section \<open>Settlement\<close>

lemma compute_settlement_exact:
  assumes "is_money items" "is_money fee" "is_money tax" "is_money amt"
  shows "commission_amount (compute_settlement items fee tax amt rate)
      = quantize_money ((items + fee) * rate)"
    and "courier_payout_amount (compute_settlement items fee tax amt rate)
      = items + fee - quantize_money ((items + fee) * rate)"
    and "settle_tax_amount (compute_settlement items fee tax amt rate) = tax"
    and "platform_revenue_amount (compute_settlement items fee tax amt rate)
      = amt - tax - (items + fee - quantize_money ((items + fee) * rate))"
  using assms
  by (simp_all add: compute_settlement_def Let_def quantize_money_id is_money_add is_money_diff)

section \<open>The worked example of the specification\<close>

definition golden_cfg :: pricing_config where
  "golden_cfg = \<lparr>service_fee_rate = 5 / 100, service_fee_min_amount = 5,
     service_fee_max_amount = 500, default_vat_rate = 15 / 100, max_invoice_amount = 50000\<rparr>"

definition golden_items :: "pricing_item list" where
  "golden_items =
     [\<lparr>pit_title = ''vase'', pit_unit_price_amount = 400, pit_quantity = 1,
       pit_tax_rate = 15 / 100, pit_description = None, pit_position = 1\<rparr>,
      \<lparr>pit_title = ''wrapping'', pit_unit_price_amount = 50, pit_quantity = 2,
       pit_tax_rate = 15 / 100, pit_description = None, pit_position = 2\<rparr>]"

definition golden_promo :: pricing_promo where
  "golden_promo = \<lparr>pp_discount_type = PK_PERCENT, pp_percent_value = Some 10,
     pp_fixed_amount = None, pp_max_discount_amount = Some 100, pp_min_order_amount = 0\<rparr>"

lemma golden_input: "engine_input_ok golden_items 100 (Some golden_promo)"
  by code_simp

lemma golden_nets: "map line_net golden_items = [400, 100]"
  by code_simp

lemma golden_fee: "quantize_money 100 = 100"
  by code_simp

lemma golden_percent: "quantize_money (dec_div 6000 100) = 60"
  by code_simp

lemma golden_discount: "compute_discount 600 (Some golden_promo) = Inr 60"
  using golden_percent by (simp add: compute_discount_def golden_promo_def)

lemma golden_alloc: "allocate_discount [400, 100] 100 60 600 = Inr ([40, 10], 10)"
  by code_simp

lemma golden_service_fee: "compute_service_fee 600 golden_cfg = 30"
  by code_simp

lemma golden_total: "spec_total golden_items 100 golden_cfg 60 [40, 10] 10 = 1311 / 2"
proof -
  have "map2 (\<lambda>i a. quantize_money ((line_net i - a) * pit_tax_rate i)) golden_items [40, 10]
      = [54, 27 / 2]" by code_simp
  moreover have "quantize_money ((100 - 10) * default_vat_rate golden_cfg) = 27 / 2"
    by code_simp
  moreover have "quantize_money (30 * default_vat_rate golden_cfg) = 9 / 2" by code_simp
  ultimately show ?thesis
    by (simp add: spec_total_def golden_nets golden_fee golden_service_fee)
qed

lemma golden_result:
  obtains r where
    "calculate_invoice_totals golden_items 100 (Some golden_promo) golden_cfg = Inr r"
    "res_items_net_amount r = 500" "res_courier_fee_amount r = 100"
    "res_service_fee_amount r = 30" "res_discount_amount r = 60"
    "res_tax_amount r = 171 / 2" "res_total_amount r = 1311 / 2"
proof -
  have "compute_discount (sum_list (map line_net golden_items) + quantize_money 100)
      (Some golden_promo) = Inr 60"
    using golden_discount by (simp add: golden_nets golden_fee)
  moreover have "allocate_discount (map line_net golden_items) (quantize_money 100) 60
      (sum_list (map line_net golden_items) + quantize_money 100) = Inr ([40, 10], 10)"
    using golden_alloc by (simp add: golden_nets golden_fee)
  moreover have "length [40, 10 :: money] = length golden_items" by (simp add: golden_items_def)
  moreover have "sum_list [40, 10] + 10 = (60 :: money)" by simp
  ultimately obtain r where r:
    "calculate_invoice_totals golden_items 100 (Some golden_promo) golden_cfg =
       ensure (0 < spec_total golden_items 100 golden_cfg 60 [40, 10] 10) PricingIntegrityError
       (ensure (spec_total golden_items 100 golden_cfg 60 [40, 10] 10
          \<le> max_invoice_amount golden_cfg) PricingIntegrityError (Inr r))"
    "res_items_net_amount r = sum_list (map line_net golden_items)"
    "res_courier_fee_amount r = quantize_money 100"
    "res_service_fee_amount r =
       compute_service_fee (sum_list (map line_net golden_items) + quantize_money 100) golden_cfg"
    "res_discount_amount r = 60"
    "res_total_amount r = spec_total golden_items 100 golden_cfg 60 [40, 10] 10"
    "res_net_after_discount_amount r = res_items_net_amount r + res_courier_fee_amount r
       + res_service_fee_amount r - res_discount_amount r"
    "res_total_amount r = res_net_after_discount_amount r + res_tax_amount r"
    by (rule calculate_invoice_totals_given) (rule that)
  have "max_invoice_amount golden_cfg = 50000" by (simp add: golden_cfg_def)
  note vals = r(2-) [unfolded golden_total golden_nets golden_fee]
  show thesis
    by (rule that [of r]) (use r(1) vals golden_service_fee in
      \<open>simp_all add: golden_total \<open>max_invoice_amount golden_cfg = 50000\<close>\<close>)
qed

section \<open>Properties\<close>

text \<open>The pro-rata allocation of a discount over the lines and the courier fee gives one
  allocation per line, never raises, and adds up to the discount to the halala.\<close>

theorem allocation_sums_exactly:
  assumes "0 \<le> discount" and "discount \<le> base" and "base = sum_list line_nets + courier_fee"
    and "0 \<le> courier_fee"
  shows "\<exists>line_alloc courier_alloc.
    allocate_discount line_nets courier_fee discount base = Inr (line_alloc, courier_alloc) \<and>
    length line_alloc = length line_nets \<and> sum_list line_alloc + courier_alloc = discount"
  using allocate_discount_total [OF assms] by metis

theorem allocation_sums_exactly_witness:
  "\<exists>line_alloc courier_alloc.
    allocate_discount [10 / 3, 20 / 3] 5 7 15 = Inr (line_alloc, courier_alloc) \<and>
    length line_alloc = length [10 / 3, 20 / 3 :: money] \<and> sum_list line_alloc + courier_alloc = 7"
  by (rule allocation_sums_exactly) simp_all

text \<open>C15: computing the shares with 28-digit decimals gives exactly the allocation that exact
  rational division gives, for amounts whose product stays below \<open>10 ^ 23\<close>.\<close>

theorem allocation_matches_exact_division:
  assumes "shares_ok line_nets courier_fee discount base"
  shows "allocate_discount line_nets courier_fee discount base =
    Inr (allocate_exact line_nets courier_fee discount base)"
  using assms by (rule allocate_discount_exact)

theorem allocation_matches_exact_division_witness:
  "allocate_discount [1, 2] 3 1 6 = Inr (allocate_exact [1, 2] 3 1 6)"
proof (rule allocation_matches_exact_division)
  show "shares_ok [1, 2] 3 1 6" by code_simp
qed

text \<open>every line's allocation is within half a halala of its exact share, except the one
  component that absorbs the rounding residue (the courier fee when there is one), which is
  within half a halala per component.\<close>

theorem allocation_near_exact_share:
  assumes ok: "shares_ok line_nets courier_fee discount base" and fee: "0 < courier_fee"
    and al: "allocate_discount line_nets courier_fee discount base = Inr (line_alloc, courier_alloc)"
  shows "(\<forall>i < length line_nets.
      \<bar>line_alloc ! i - discount * line_nets ! i / base\<bar> \<le> 1 / 200) \<and>
    \<bar>courier_alloc - discount * courier_fee / base\<bar> \<le> of_nat (length line_nets) / 200"
proof -
  let ?la = "map (\<lambda>net. quantize_money (discount * net / base)) line_nets"
  have "(line_alloc, courier_alloc) = allocate_exact line_nets courier_fee discount base"
    using al allocate_discount_exact [OF ok] by simp
  with fee have la: "line_alloc = ?la" and ca: "courier_alloc = discount - sum_list ?la"
    by (simp_all add: allocate_exact_def Let_def)
  show ?thesis
    using exact_residue [OF ok] quantize_money_error by (simp add: la ca diff_diff_eq)
qed

theorem allocation_near_exact_share_witness:
  "\<bar>(17 / 100 :: money) - 1 * 1 / 6\<bar> \<le> 1 / 200 \<and> \<bar>(50 / 100 :: money) - 1 * 3 / 6\<bar> \<le> 2 / 200"
proof -
  have "shares_ok [1, 2] 3 1 6" by code_simp
  moreover have "allocate_discount [1, 2] 3 1 6 = Inr ([17 / 100, 33 / 100], 50 / 100)"
    by code_simp
  ultimately show ?thesis
    using allocation_near_exact_share [of "[1, 2]" 3 1 6 "[17 / 100, 33 / 100]" "50 / 100"] by simp
qed





text \<open>C14: settling a priced invoice splits its total without a residue into courier payout, tax
  and platform revenue; the courier is paid the base before the discount less the commission,
  and the platform books the service fee plus the commission less the promo it funds.\<close>

theorem settlement_of_priced_invoice:
  assumes "engine_input_ok items courier_fee promo"
    and "is_money (service_fee_min_amount cfg)" and "is_money (service_fee_max_amount cfg)"
    and "calculate_invoice_totals items courier_fee promo cfg = Inr r"
    and "s = compute_settlement (res_items_net_amount r) (res_courier_fee_amount r)
      (res_tax_amount r) (res_total_amount r) rate"
  shows "courier_payout_amount s + settle_tax_amount s + platform_revenue_amount s
      = res_total_amount r \<and>
    courier_payout_amount s
      = res_items_net_amount r + res_courier_fee_amount r - commission_amount s \<and>
    platform_revenue_amount s
      = res_service_fee_amount r + commission_amount s - res_discount_amount r"
proof -
  note M = engine_result_money [OF assms(1-4)]
  note S = compute_settlement_exact [OF M(1,2,6,7), of rate, folded assms(5)]
  have "res_net_after_discount_amount r = res_items_net_amount r + res_courier_fee_amount r
      + res_service_fee_amount r - res_discount_amount r"
    "res_total_amount r = res_net_after_discount_amount r + res_tax_amount r"
    by (rule engine_result [OF assms(1,4)], assumption)+
  then show ?thesis by (simp add: S)
qed

theorem settlement_of_priced_invoice_witness:
  "\<exists>r. calculate_invoice_totals golden_items 100 (Some golden_promo) golden_cfg = Inr r \<and>
     (let s = compute_settlement (res_items_net_amount r) (res_courier_fee_amount r)
        (res_tax_amount r) (res_total_amount r) (10 / 100)
      in courier_payout_amount s = 540 \<and> platform_revenue_amount s = 30)"
proof -
  obtain r where r: "calculate_invoice_totals golden_items 100 (Some golden_promo) golden_cfg = Inr r"
    "res_items_net_amount r = 500" "res_courier_fee_amount r = 100"
    "res_service_fee_amount r = 30" "res_discount_amount r = 60"
    "res_tax_amount r = 171 / 2" "res_total_amount r = 1311 / 2"
    by (rule golden_result)
  have m: "is_money (service_fee_min_amount golden_cfg)" "is_money (service_fee_max_amount golden_cfg)"
    by code_simp+
  have "commission_amount (compute_settlement 500 100 (171 / 2) (1311 / 2) (10 / 100)) = 60"
    by code_simp
  then show ?thesis
    using settlement_of_priced_invoice [OF golden_input m r(1) refl, of "10 / 100"]
    unfolding Let_def by (intro exI [of _ r]) (simp add: r)
qed

end
