(* ===== verification/Tables.thy ===== *)
theory Tables
  imports Pricing
begin

text \<open>
  \<open>app/models/tables.py\<close>: one record per table with the columns the program reads or writes,
  the check constraints as executable predicates, and the database state with its row
  operations.  A \<open>Numeric(12, 2)\<close> column holds amounts below \<open>10 ^ 10\<close>, \<open>updated_at\<close> (kept by a
  trigger, read by nobody) and the maximal lengths of text columns are left out.
  Every table is an instance of the interface \<open>table\<close>, which gives the read-after-write laws
  to the services.
\<close>

named_theorems db_defs \<open>the row operations of the tables\<close>

definition numeric_12_2 :: "money \<Rightarrow> bool" where
  "numeric_12_2 x \<longleftrightarrow> \<bar>x\<bar> < 10 ^ 10"

text \<open>\<open>CURRENT_DATE\<close>, as a day number.\<close>

definition current_date :: "time \<Rightarrow> int" where
  "current_date now = now div 86400000000"

section \<open>Rows\<close>

record refresh_token =
  rt_id :: uuid
  rt_user_id :: uuid
  rt_token_hash :: string
  rt_family_id :: uuid
  rt_expires_at :: time
  rt_used_at :: "time option"
  rt_revoked_at :: "time option"

record user =
  u_id :: uuid
  u_phone :: string
  u_email :: "string option"
  u_full_name :: "string option"
  u_date_of_birth :: "int option"
  u_role :: user_role
  u_status :: user_status
  u_rating :: rat
  u_rating_count :: int
  u_deleted_at :: "time option"

record courier_profile =
  cp_user_id :: uuid
  cp_passport_id_encrypted :: "string option"
  cp_national_id_encrypted :: "string option"
  cp_identity_fingerprint :: "string option"
  cp_city_of_residence :: string
  cp_bio :: "string option"
  cp_is_verified :: bool
  cp_verified_at :: "time option"
  cp_verified_by_admin_id :: "uuid option"

record device_token =
  dt_id :: uuid
  dt_user_id :: uuid
  dt_device_os :: device_os
  dt_token :: string
  dt_last_seen_at :: time

text \<open>A point is longitude and latitude, in that order.\<close>

record order =
  o_id :: uuid
  o_customer_id :: uuid
  o_courier_id :: "uuid option"
  o_description :: "string option"
  o_delivery_city :: string
  o_delivery_location :: "rat \<times> rat"
  o_delivery_address_note :: "string option"
  o_delivery_date :: int
  o_status :: order_status
  o_total_amount :: money
  o_commission_amount :: money
  o_courier_payout_amount :: money
  o_assigned_at :: "time option"
  o_delivered_at :: "time option"
  o_completed_at :: "time option"
  o_cancelled_reason :: "string option"
  o_created_at :: time

record order_media =
  om_id :: uuid
  om_order_id :: uuid
  om_uploaded_by_user_id :: uuid
  om_media_type :: media_type
  om_storage_key :: string
  om_content_type :: string
  om_byte_size :: int
  om_capture_location :: "(rat \<times> rat) option"
  om_captured_at :: "time option"

record promo =
  pr_id :: uuid
  pr_code :: string
  pr_description :: string
  pr_discount_type :: promo_discount_type
  pr_percent_value :: "rat option"
  pr_fixed_amount :: "money option"
  pr_max_discount_amount :: "money option"
  pr_min_order_amount :: money
  pr_max_total_usages :: "int option"
  pr_max_usages_per_user :: int
  pr_used_count :: int
  pr_is_active :: bool
  pr_starts_at :: "time option"
  pr_ends_at :: "time option"
  pr_created_by_admin_id :: "uuid option"

record invoice =
  inv_id :: uuid
  inv_order_id :: uuid
  inv_issued_by_courier_id :: uuid
  inv_status :: invoice_status
  inv_currency :: string
  inv_items_net_amount :: money
  inv_courier_fee_amount :: money
  inv_service_fee_amount :: money
  inv_discount_amount :: money
  inv_net_after_discount_amount :: money
  inv_tax_amount :: money
  inv_total_amount :: money
  inv_promo_id :: "uuid option"
  inv_promo_code_snapshot :: "string option"
  inv_payment_method :: "payment_method option"
  inv_amount_from_wallet :: money
  inv_amount_from_gateway :: money
  inv_pricing_breakdown :: "pricing_breakdown option"
  inv_expires_at :: "time option"
  inv_issued_at :: "time option"
  inv_paid_at :: "time option"
  inv_receipt_email_sent_at :: "time option"

record invoice_item =
  it_id :: uuid
  it_invoice_id :: uuid
  it_position :: int
  it_title :: string
  it_description :: "string option"
  it_unit_price_amount :: money
  it_quantity :: int
  it_tax_rate :: rat
  it_line_net_amount :: money
  it_line_discount_amount :: money
  it_line_taxable_amount :: money
  it_line_tax_amount :: money
  it_line_total_amount :: money

record promo_redemption =
  red_id :: uuid
  red_promo_id :: uuid
  red_user_id :: uuid
  red_invoice_id :: uuid
  red_order_id :: uuid
  red_discount_amount :: money
  red_status :: promo_redemption_status
  red_released_at :: "time option"
  red_consumed_at :: "time option"

record payment_intent =
  pi_id :: uuid
  pi_user_id :: uuid
  pi_purpose :: payment_purpose
  pi_amount :: money
  pi_currency :: string
  pi_status :: payment_intent_status
  pi_checkout_provider :: string
  pi_streampay_payment_link_id :: "string option"
  pi_streampay_payment_url :: "string option"
  pi_reference_invoice_id :: "uuid option"
  pi_expires_at :: time
  pi_paid_at :: "time option"
  pi_failure_reason :: "string option"
  pi_created_at :: time

record wallet_topup =
  wt_id :: uuid
  wt_user_id :: uuid
  wt_wallet_id :: uuid
  wt_payment_intent_id :: uuid
  wt_amount :: money

record conversation =
  cv_id :: uuid
  cv_order_id :: uuid
  cv_customer_id :: uuid
  cv_courier_id :: uuid
  cv_last_message_preview_encrypted :: "string option"
  cv_last_message_timestamp :: time
  cv_customer_unread_count :: int
  cv_courier_unread_count :: int
  cv_is_closed :: bool

record message =
  msg_id :: uuid
  msg_conversation_id :: uuid
  msg_sender_id :: uuid
  msg_message_type :: message_type
  msg_content_encrypted :: string
  msg_is_read :: bool
  msg_read_at :: "time option"
  msg_created_at :: time

record wallet =
  w_id :: uuid
  w_user_id :: "uuid option"
  w_type :: wallet_type
  w_balance :: money
  w_held_balance :: money
  w_currency :: string
  w_version :: int

record transaction =
  tx_id :: uuid
  tx_wallet_id :: uuid
  tx_amount :: money
  tx_type :: transaction_type
  tx_status :: transaction_status
  tx_reference_order_id :: "uuid option"
  tx_reference_invoice_id :: "uuid option"
  tx_reference_intent_id :: "uuid option"
  tx_correlation_id :: uuid
  tx_balance_after :: money
  tx_idempotency_key :: "string option"
  tx_description :: "string option"

record withdrawal =
  wd_id :: uuid
  wd_courier_id :: uuid
  wd_wallet_id :: uuid
  wd_amount :: money
  wd_iban_encrypted :: string
  wd_iban_last4 :: string
  wd_status :: withdrawal_status
  wd_processed_by_admin_id :: "uuid option"
  wd_rejection_reason :: "string option"
  wd_idempotency_key :: "string option"

record rating =
  ra_id :: uuid
  ra_order_id :: uuid
  ra_rater_id :: uuid
  ra_rated_user_id :: uuid
  ra_score :: int
  ra_comment :: "string option"

record dispute =
  dp_id :: uuid
  dp_order_id :: uuid
  dp_raised_by_user_id :: uuid
  dp_reason :: string
  dp_status :: dispute_status
  dp_resolution_note :: "string option"
  dp_resolved_by_admin_id :: "uuid option"
  dp_resolved_at :: "time option"

record admin_session =
  as_id :: uuid
  as_admin_user_id :: uuid
  as_session_token_hash :: string
  as_ip_address :: "string option"
  as_user_agent :: "string option"
  as_expires_at :: time
  as_revoked_at :: "time option"
  as_created_at :: time

record audit_log =
  al_actor_user_id :: "uuid option"
  al_action :: string
  al_entity_type :: string
  al_entity_id :: "uuid option"

section \<open>Check constraints\<close>

definition chk_user :: "user \<Rightarrow> bool" where
  "chk_user u \<longleftrightarrow> 0 \<le> u_rating u \<and> u_rating u \<le> 5"

definition chk_courier_profile :: "courier_profile \<Rightarrow> bool" where
  "chk_courier_profile c \<longleftrightarrow>
     cp_passport_id_encrypted c \<noteq> None \<or> cp_national_id_encrypted c \<noteq> None"

text \<open>
  \<open>chk_delivery_date_window\<close> mentions \<open>CURRENT_DATE\<close>, and PostgreSQL evaluates a check
  constraint on every insert and every update of the row, so the predicate takes the time of
  the write.
\<close>

definition chk_delivery_date_window :: "time \<Rightarrow> order \<Rightarrow> bool" where
  "chk_delivery_date_window now ord \<longleftrightarrow>
     current_date now \<le> o_delivery_date ord \<and> o_delivery_date ord \<le> current_date now + 180"

definition chk_order :: "time \<Rightarrow> order \<Rightarrow> bool" where
  "chk_order now ord \<longleftrightarrow> chk_delivery_date_window now ord \<and>
     0 \<le> o_total_amount ord \<and> 0 \<le> o_commission_amount ord \<and> 0 \<le> o_courier_payout_amount ord \<and>
     (o_status ord = OS_NEW \<or> o_status ord = OS_CANCELLED \<or> o_courier_id ord \<noteq> None)"

definition chk_order_media :: "order_media \<Rightarrow> bool" where
  "chk_order_media m \<longleftrightarrow> om_media_type m \<noteq> MT_DELIVERY_PROOF \<or> om_capture_location m \<noteq> None"

text \<open>\<open>upper(code)\<close> and \<open>btrim(code)\<close> over ASCII text.\<close>

definition upper_char :: "char \<Rightarrow> char" where
  "upper_char c = (if 97 \<le> (of_char c :: nat) \<and> (of_char c :: nat) \<le> 122
     then char_of ((of_char c :: nat) - 32) else c)"

definition chk_promo :: "promo \<Rightarrow> bool" where
  "chk_promo p \<longleftrightarrow>
     pr_code p = map upper_char (pr_code p) \<and>
     (pr_code p \<noteq> [] \<longrightarrow> hd (pr_code p) \<noteq> CHR '' '' \<and> last (pr_code p) \<noteq> CHR '' '') \<and>
     3 \<le> length (pr_code p) \<and> length (pr_code p) \<le> 32 \<and>
     (case pr_discount_type p of
        PD_PERCENT \<Rightarrow> pr_fixed_amount p = None \<and>
          (case pr_percent_value p of None \<Rightarrow> False | Some v \<Rightarrow> 0 < v \<and> v \<le> 100)
      | PD_FIXED \<Rightarrow> pr_percent_value p = None \<and>
          (case pr_fixed_amount p of None \<Rightarrow> False | Some v \<Rightarrow> 0 < v)) \<and>
     0 \<le> pr_used_count p \<and>
     (case pr_max_total_usages p of None \<Rightarrow> True | Some m \<Rightarrow> pr_used_count p \<le> m) \<and>
     1 \<le> pr_max_usages_per_user p \<and>
     (case (pr_starts_at p, pr_ends_at p) of (Some a, Some b) \<Rightarrow> a < b | _ \<Rightarrow> True)"

definition chk_invoice :: "invoice \<Rightarrow> bool" where
  "chk_invoice i \<longleftrightarrow>
     0 \<le> inv_items_net_amount i \<and> 0 \<le> inv_courier_fee_amount i \<and> 0 \<le> inv_service_fee_amount i \<and>
     0 \<le> inv_discount_amount i \<and> 0 \<le> inv_tax_amount i \<and> 0 \<le> inv_total_amount i \<and>
     (inv_status i = IS_DRAFT \<or> 0 < inv_total_amount i) \<and>
     inv_net_after_discount_amount i = inv_items_net_amount i + inv_courier_fee_amount i
       + inv_service_fee_amount i - inv_discount_amount i \<and>
     inv_total_amount i = inv_net_after_discount_amount i + inv_tax_amount i \<and>
     (inv_promo_id i = None \<and> inv_discount_amount i = 0
      \<or> inv_promo_id i \<noteq> None \<and> 0 < inv_discount_amount i)"

definition chk_invoice_item :: "invoice_item \<Rightarrow> bool" where
  "chk_invoice_item t \<longleftrightarrow>
     1 \<le> it_quantity t \<and> it_quantity t \<le> 999 \<and> 0 < it_unit_price_amount t \<and>
     0 \<le> it_tax_rate t \<and> it_tax_rate t \<le> 1 \<and>
     it_line_net_amount t = it_unit_price_amount t * of_int (it_quantity t) \<and>
     it_line_taxable_amount t = it_line_net_amount t - it_line_discount_amount t \<and>
     it_line_total_amount t = it_line_taxable_amount t + it_line_tax_amount t"

definition chk_redemption :: "promo_redemption \<Rightarrow> bool" where
  "chk_redemption r \<longleftrightarrow> 0 < red_discount_amount r"

definition chk_intent :: "payment_intent \<Rightarrow> bool" where
  "chk_intent p \<longleftrightarrow> 0 < pi_amount p \<and>
     (pi_purpose p = PP_ORDER_INVOICE \<and> pi_reference_invoice_id p \<noteq> None
      \<or> pi_purpose p = PP_WALLET_TOPUP \<and> pi_reference_invoice_id p = None)"

definition chk_topup :: "wallet_topup \<Rightarrow> bool" where
  "chk_topup t \<longleftrightarrow> 100 \<le> wt_amount t \<and> wt_amount t \<le> 20000"

definition is_user_wallet_type :: "wallet_type \<Rightarrow> bool" where
  "is_user_wallet_type t \<longleftrightarrow> t = WT_CUSTOMER \<or> t = WT_COURIER"

definition chk_wallet :: "wallet \<Rightarrow> bool" where
  "chk_wallet w \<longleftrightarrow>
     (is_user_wallet_type (w_type w) \<and> w_user_id w \<noteq> None
      \<or> \<not> is_user_wallet_type (w_type w) \<and> w_user_id w = None) \<and>
     (w_type w = WT_SYSTEM_GATEWAY \<or> w_type w = WT_SYSTEM_REVENUE
      \<or> 0 \<le> w_balance w \<and> 0 \<le> w_held_balance w)"

definition chk_transaction :: "transaction \<Rightarrow> bool" where
  "chk_transaction t \<longleftrightarrow> tx_amount t \<noteq> 0"

definition chk_withdrawal :: "withdrawal \<Rightarrow> bool" where
  "chk_withdrawal w \<longleftrightarrow> 50 \<le> wd_amount w"

definition chk_rating :: "rating \<Rightarrow> bool" where
  "chk_rating r \<longleftrightarrow> 1 \<le> ra_score r \<and> ra_score r \<le> 5 \<and> ra_rater_id r \<noteq> ra_rated_user_id r"

section \<open>The database state\<close>

text \<open>\<open>next_id\<close> is the source of identifiers: \<open>gen_random_uuid()\<close> and \<open>uuid4()\<close> return a value
  no row has yet.\<close>

record db =
  next_id :: uuid
  users :: "user list"
  courier_profiles :: "courier_profile list"
  refresh_tokens :: "refresh_token list"
  device_tokens :: "device_token list"
  orders :: "order list"
  order_medias :: "order_media list"
  promos :: "promo list"
  invoices :: "invoice list"
  invoice_items :: "invoice_item list"
  promo_redemptions :: "promo_redemption list"
  payment_intents :: "payment_intent list"
  wallet_topups :: "wallet_topup list"
  conversations :: "conversation list"
  messages :: "message list"
  wallets :: "wallet list"
  transactions :: "transaction list"
  withdrawals :: "withdrawal list"
  ratings :: "rating list"
  disputes :: "dispute list"
  admin_sessions :: "admin_session list"
  audit_logs :: "audit_log list"

definition fresh :: "db \<Rightarrow> uuid \<times> db" where
  "fresh d = (next_id d, d\<lparr>next_id := next_id d + 1\<rparr>)"

section \<open>Row operations\<close>

text \<open>For each table the lookup by primary key, the write of a changed row and the insert.\<close>

definition get_user :: "uuid \<Rightarrow> db \<Rightarrow> user option" where
  [db_defs]: "get_user i d = find_by u_id i (users d)"

definition put_user :: "user \<Rightarrow> db \<Rightarrow> db" where
  [db_defs]: "put_user r d = d\<lparr>users := put_by u_id r (users d)\<rparr>"

definition add_user :: "user \<Rightarrow> db \<Rightarrow> db" where
  [db_defs]: "add_user r d = d\<lparr>users := users d @ [r]\<rparr>"

interpretation user_tab: table u_id users get_user put_user add_user
  by unfold_locales (simp_all add: get_user_def put_user_def add_user_def)

definition get_courier_profile :: "uuid \<Rightarrow> db \<Rightarrow> courier_profile option" where
  [db_defs]: "get_courier_profile i d = find_by cp_user_id i (courier_profiles d)"

definition put_courier_profile :: "courier_profile \<Rightarrow> db \<Rightarrow> db" where
  [db_defs]: "put_courier_profile r d = d\<lparr>courier_profiles := put_by cp_user_id r (courier_profiles d)\<rparr>"

definition add_courier_profile :: "courier_profile \<Rightarrow> db \<Rightarrow> db" where
  [db_defs]: "add_courier_profile r d = d\<lparr>courier_profiles := courier_profiles d @ [r]\<rparr>"

interpretation courier_profile_tab: table cp_user_id courier_profiles get_courier_profile put_courier_profile add_courier_profile
  by unfold_locales (simp_all add: get_courier_profile_def put_courier_profile_def add_courier_profile_def)

definition get_refresh_token :: "uuid \<Rightarrow> db \<Rightarrow> refresh_token option" where
  [db_defs]: "get_refresh_token i d = find_by rt_id i (refresh_tokens d)"

definition put_refresh_token :: "refresh_token \<Rightarrow> db \<Rightarrow> db" where
  [db_defs]: "put_refresh_token r d = d\<lparr>refresh_tokens := put_by rt_id r (refresh_tokens d)\<rparr>"

definition add_refresh_token :: "refresh_token \<Rightarrow> db \<Rightarrow> db" where
  [db_defs]: "add_refresh_token r d = d\<lparr>refresh_tokens := refresh_tokens d @ [r]\<rparr>"

interpretation refresh_token_tab: table rt_id refresh_tokens get_refresh_token put_refresh_token add_refresh_token
  by unfold_locales (simp_all add: get_refresh_token_def put_refresh_token_def add_refresh_token_def)

definition get_order :: "uuid \<Rightarrow> db \<Rightarrow> order option" where
  [db_defs]: "get_order i d = find_by o_id i (orders d)"

definition put_order :: "order \<Rightarrow> db \<Rightarrow> db" where
  [db_defs]: "put_order r d = d\<lparr>orders := put_by o_id r (orders d)\<rparr>"

definition add_order :: "order \<Rightarrow> db \<Rightarrow> db" where
  [db_defs]: "add_order r d = d\<lparr>orders := orders d @ [r]\<rparr>"

interpretation order_tab: table o_id orders get_order put_order add_order
  by unfold_locales (simp_all add: get_order_def put_order_def add_order_def)

definition get_promo :: "uuid \<Rightarrow> db \<Rightarrow> promo option" where
  [db_defs]: "get_promo i d = find_by pr_id i (promos d)"

definition put_promo :: "promo \<Rightarrow> db \<Rightarrow> db" where
  [db_defs]: "put_promo r d = d\<lparr>promos := put_by pr_id r (promos d)\<rparr>"

definition add_promo :: "promo \<Rightarrow> db \<Rightarrow> db" where
  [db_defs]: "add_promo r d = d\<lparr>promos := promos d @ [r]\<rparr>"

interpretation promo_tab: table pr_id promos get_promo put_promo add_promo
  by unfold_locales (simp_all add: get_promo_def put_promo_def add_promo_def)

definition get_invoice :: "uuid \<Rightarrow> db \<Rightarrow> invoice option" where
  [db_defs]: "get_invoice i d = find_by inv_id i (invoices d)"

definition put_invoice :: "invoice \<Rightarrow> db \<Rightarrow> db" where
  [db_defs]: "put_invoice r d = d\<lparr>invoices := put_by inv_id r (invoices d)\<rparr>"

definition add_invoice :: "invoice \<Rightarrow> db \<Rightarrow> db" where
  [db_defs]: "add_invoice r d = d\<lparr>invoices := invoices d @ [r]\<rparr>"

interpretation invoice_tab: table inv_id invoices get_invoice put_invoice add_invoice
  by unfold_locales (simp_all add: get_invoice_def put_invoice_def add_invoice_def)

definition get_redemption :: "uuid \<Rightarrow> db \<Rightarrow> promo_redemption option" where
  [db_defs]: "get_redemption i d = find_by red_id i (promo_redemptions d)"

definition put_redemption :: "promo_redemption \<Rightarrow> db \<Rightarrow> db" where
  [db_defs]: "put_redemption r d = d\<lparr>promo_redemptions := put_by red_id r (promo_redemptions d)\<rparr>"

definition add_redemption :: "promo_redemption \<Rightarrow> db \<Rightarrow> db" where
  [db_defs]: "add_redemption r d = d\<lparr>promo_redemptions := promo_redemptions d @ [r]\<rparr>"

interpretation redemption_tab: table red_id promo_redemptions get_redemption put_redemption add_redemption
  by unfold_locales (simp_all add: get_redemption_def put_redemption_def add_redemption_def)

definition get_intent :: "uuid \<Rightarrow> db \<Rightarrow> payment_intent option" where
  [db_defs]: "get_intent i d = find_by pi_id i (payment_intents d)"

definition put_intent :: "payment_intent \<Rightarrow> db \<Rightarrow> db" where
  [db_defs]: "put_intent r d = d\<lparr>payment_intents := put_by pi_id r (payment_intents d)\<rparr>"

definition add_intent :: "payment_intent \<Rightarrow> db \<Rightarrow> db" where
  [db_defs]: "add_intent r d = d\<lparr>payment_intents := payment_intents d @ [r]\<rparr>"

interpretation intent_tab: table pi_id payment_intents get_intent put_intent add_intent
  by unfold_locales (simp_all add: get_intent_def put_intent_def add_intent_def)

definition get_conversation :: "uuid \<Rightarrow> db \<Rightarrow> conversation option" where
  [db_defs]: "get_conversation i d = find_by cv_id i (conversations d)"

definition put_conversation :: "conversation \<Rightarrow> db \<Rightarrow> db" where
  [db_defs]: "put_conversation r d = d\<lparr>conversations := put_by cv_id r (conversations d)\<rparr>"

definition add_conversation :: "conversation \<Rightarrow> db \<Rightarrow> db" where
  [db_defs]: "add_conversation r d = d\<lparr>conversations := conversations d @ [r]\<rparr>"

interpretation conversation_tab: table cv_id conversations get_conversation put_conversation add_conversation
  by unfold_locales (simp_all add: get_conversation_def put_conversation_def add_conversation_def)

definition get_message :: "uuid \<Rightarrow> db \<Rightarrow> message option" where
  [db_defs]: "get_message i d = find_by msg_id i (messages d)"

definition put_message :: "message \<Rightarrow> db \<Rightarrow> db" where
  [db_defs]: "put_message r d = d\<lparr>messages := put_by msg_id r (messages d)\<rparr>"

definition add_message :: "message \<Rightarrow> db \<Rightarrow> db" where
  [db_defs]: "add_message r d = d\<lparr>messages := messages d @ [r]\<rparr>"

interpretation message_tab: table msg_id messages get_message put_message add_message
  by unfold_locales (simp_all add: get_message_def put_message_def add_message_def)

definition get_wallet :: "uuid \<Rightarrow> db \<Rightarrow> wallet option" where
  [db_defs]: "get_wallet i d = find_by w_id i (wallets d)"

definition put_wallet :: "wallet \<Rightarrow> db \<Rightarrow> db" where
  [db_defs]: "put_wallet r d = d\<lparr>wallets := put_by w_id r (wallets d)\<rparr>"

definition add_wallet :: "wallet \<Rightarrow> db \<Rightarrow> db" where
  [db_defs]: "add_wallet r d = d\<lparr>wallets := wallets d @ [r]\<rparr>"

interpretation wallet_tab: table w_id wallets get_wallet put_wallet add_wallet
  by unfold_locales (simp_all add: get_wallet_def put_wallet_def add_wallet_def)

definition get_withdrawal :: "uuid \<Rightarrow> db \<Rightarrow> withdrawal option" where
  [db_defs]: "get_withdrawal i d = find_by wd_id i (withdrawals d)"

definition put_withdrawal :: "withdrawal \<Rightarrow> db \<Rightarrow> db" where
  [db_defs]: "put_withdrawal r d = d\<lparr>withdrawals := put_by wd_id r (withdrawals d)\<rparr>"

definition add_withdrawal :: "withdrawal \<Rightarrow> db \<Rightarrow> db" where
  [db_defs]: "add_withdrawal r d = d\<lparr>withdrawals := withdrawals d @ [r]\<rparr>"

interpretation withdrawal_tab: table wd_id withdrawals get_withdrawal put_withdrawal add_withdrawal
  by unfold_locales (simp_all add: get_withdrawal_def put_withdrawal_def add_withdrawal_def)

definition get_dispute :: "uuid \<Rightarrow> db \<Rightarrow> dispute option" where
  [db_defs]: "get_dispute i d = find_by dp_id i (disputes d)"

definition put_dispute :: "dispute \<Rightarrow> db \<Rightarrow> db" where
  [db_defs]: "put_dispute r d = d\<lparr>disputes := put_by dp_id r (disputes d)\<rparr>"

definition add_dispute :: "dispute \<Rightarrow> db \<Rightarrow> db" where
  [db_defs]: "add_dispute r d = d\<lparr>disputes := disputes d @ [r]\<rparr>"

interpretation dispute_tab: table dp_id disputes get_dispute put_dispute add_dispute
  by unfold_locales (simp_all add: get_dispute_def put_dispute_def add_dispute_def)

definition get_admin_session :: "uuid \<Rightarrow> db \<Rightarrow> admin_session option" where
  [db_defs]: "get_admin_session i d = find_by as_id i (admin_sessions d)"

definition put_admin_session :: "admin_session \<Rightarrow> db \<Rightarrow> db" where
  [db_defs]: "put_admin_session r d = d\<lparr>admin_sessions := put_by as_id r (admin_sessions d)\<rparr>"

definition add_admin_session :: "admin_session \<Rightarrow> db \<Rightarrow> db" where
  [db_defs]: "add_admin_session r d = d\<lparr>admin_sessions := admin_sessions d @ [r]\<rparr>"

interpretation admin_session_tab: table as_id admin_sessions get_admin_session put_admin_session add_admin_session
  by unfold_locales (simp_all add: get_admin_session_def put_admin_session_def add_admin_session_def)

end
