(* ===== verification/Ledger.thy ===== *)
theory Ledger
  imports Tables
begin

text \<open>
  \<open>app/repositories/wallet_repository.py\<close> and \<open>app/services/money_service.py\<close>: the wallets,
  the append-only ledger and the only code that moves money.  A group of legs is written
  inside a savepoint: the legs are applied to the wallets one after the other, the rows are
  appended, and the flush checks the constraints of both tables; any exception discards the
  whole group.
\<close>

section \<open>Legs\<close>

record leg =
  leg_wallet_id :: uuid
  leg_amount :: money
  leg_txn_type :: transaction_type
  leg_idempotency_key :: "string option"
  leg_reference_order_id :: "uuid option"
  leg_reference_invoice_id :: "uuid option"
  leg_reference_intent_id :: "uuid option"
  leg_description :: "string option"

definition validate_legs :: "leg list \<Rightarrow> error + unit" where
  "validate_legs legs =
     ensure (\<not> length legs < 2) LedgerImbalanceError
     (ensure (quantize_money (sum_list (map leg_amount legs)) = 0) LedgerImbalanceError
     (ensure (list_all (\<lambda>l. quantize_money (leg_amount l) \<noteq> 0) legs) LedgerImbalanceError
     (Inr ())))"

section \<open>Wallet repository\<close>

definition get_by_user :: "uuid \<Rightarrow> db \<Rightarrow> wallet option" where
  "get_by_user user_id d = find_by w_user_id (Some user_id) (wallets d)"

definition get_system :: "wallet_type \<Rightarrow> db \<Rightarrow> error + wallet" where
  "get_system wtype d =
     or_raise (List.find (\<lambda>w. w_type w = wtype \<and> w_user_id w = None) (wallets d)) LookupError Inr"

definition idempotency_key_exists :: "string \<Rightarrow> db \<Rightarrow> bool" where
  "idempotency_key_exists key d \<longleftrightarrow>
     list_ex (\<lambda>t. tx_idempotency_key t = Some key) (transactions d)"

definition settled_balance :: "uuid \<Rightarrow> db \<Rightarrow> money" where
  "settled_balance wallet_id d =
     sum_list (map tx_amount
       (filter (\<lambda>t. tx_wallet_id t = wallet_id \<and> tx_status t = TS_SETTLED) (transactions d)))"

definition append_transaction :: "leg \<Rightarrow> uuid \<Rightarrow> money \<Rightarrow> db \<Rightarrow> db" where
  "append_transaction l correlation_id balance_after d =
     (let (i, d) = fresh d
      in d\<lparr>transactions := transactions d @
           [\<lparr>tx_id = i, tx_wallet_id = leg_wallet_id l,
             tx_amount = quantize_money (leg_amount l), tx_type = leg_txn_type l,
             tx_status = TS_SETTLED, tx_reference_order_id = leg_reference_order_id l,
             tx_reference_invoice_id = leg_reference_invoice_id l,
             tx_reference_intent_id = leg_reference_intent_id l,
             tx_correlation_id = correlation_id, tx_balance_after = balance_after,
             tx_idempotency_key = leg_idempotency_key l,
             tx_description = leg_description l\<rparr>]\<rparr>)"

text \<open>The aggregates of the reconciliation: \<open>GROUP BY\<close> over the settled rows.\<close>

definition settled :: "db \<Rightarrow> transaction list" where
  "settled d = filter (\<lambda>t. tx_status t = TS_SETTLED) (transactions d)"

definition group_sum :: "(transaction \<Rightarrow> uuid) \<Rightarrow> db \<Rightarrow> uuid \<Rightarrow> money" where
  "group_sum key d k = sum_list (map tx_amount (filter (\<lambda>t. key t = k) (settled d)))"

definition settled_sums_by_wallet :: "db \<Rightarrow> (uuid \<times> money) list" where
  "settled_sums_by_wallet d =
     map (\<lambda>k. (k, group_sum tx_wallet_id d k)) (remdups (map tx_wallet_id (settled d)))"

definition correlation_drift_sums :: "db \<Rightarrow> (uuid \<times> money) list" where
  "correlation_drift_sums d =
     filter (\<lambda>(k, s). s \<noteq> 0)
       (map (\<lambda>k. (k, group_sum tx_correlation_id d k)) (remdups (map tx_correlation_id (settled d))))"

definition correlation_count :: "db \<Rightarrow> nat" where
  "correlation_count d = length (remdups (map tx_correlation_id (settled d)))"

section \<open>Flush\<close>

text \<open>What the database checks when the session writes a wallet row or a ledger row.\<close>

definition check_wallet_row :: "wallet \<Rightarrow> error + unit" where
  "check_wallet_row w =
     ensure (numeric_12_2 (w_balance w) \<and> numeric_12_2 (w_held_balance w)) DataError
     (ensure (chk_wallet w) IntegrityError (Inr ()))"

definition flush_wallet :: "wallet \<Rightarrow> db \<Rightarrow> error + db" where
  "flush_wallet w d = and_then (check_wallet_row w) (\<lambda>_. Inr (put_wallet w d))"

definition check_transaction_row :: "transaction \<Rightarrow> transaction list \<Rightarrow> error + unit" where
  "check_transaction_row t rows =
     ensure (numeric_12_2 (tx_amount t) \<and> numeric_12_2 (tx_balance_after t)) DataError
     (ensure (chk_transaction t) IntegrityError
     (ensure (tx_idempotency_key t = None \<or>
              \<not> list_ex (\<lambda>r. tx_idempotency_key r = tx_idempotency_key t) rows) IntegrityError
     (Inr ())))"

fun check_transaction_rows :: "transaction list \<Rightarrow> transaction list \<Rightarrow> error + unit" where
  "check_transaction_rows [] rows = Inr ()"
| "check_transaction_rows (t # ts) rows =
     and_then (check_transaction_row t rows) (\<lambda>_. check_transaction_rows ts (rows @ [t]))"

definition flush_group :: "uuid list \<Rightarrow> db \<Rightarrow> db \<Rightarrow> error + db" where
  "flush_group ids before d =
     and_then (fold_err (\<lambda>i u. or_raise (get_wallet i d) KeyError check_wallet_row)
       (sort (remdups ids)) ()) (\<lambda>_.
     and_then (check_transaction_rows (drop (length (transactions before)) (transactions d))
       (transactions before)) (\<lambda>_.
     Inr d))"

section \<open>Posting\<close>

definition apply_leg :: "uuid \<Rightarrow> leg \<Rightarrow> db \<Rightarrow> error + db" where
  "apply_leg correlation_id l d =
     or_raise (get_wallet (leg_wallet_id l) d) KeyError (\<lambda>w.
     let w = w\<lparr>w_balance := quantize_money (w_balance w + leg_amount l),
               w_version := w_version w + 1\<rparr>
     in Inr (append_transaction l correlation_id (w_balance w) (put_wallet w d)))"

definition write_group :: "leg list \<Rightarrow> uuid \<Rightarrow> db \<Rightarrow> error + db" where
  "write_group legs correlation_id d =
     and_then (fold_err (apply_leg correlation_id) legs d)
       (flush_group (map leg_wallet_id legs) d)"

definition any_key_exists :: "leg list \<Rightarrow> db \<Rightarrow> bool" where
  "any_key_exists legs d \<longleftrightarrow>
     list_ex (\<lambda>l. case leg_idempotency_key l of None \<Rightarrow> False
       | Some k \<Rightarrow> k \<noteq> [] \<and> idempotency_key_exists k d) legs"

text \<open>
  The first look at the idempotency keys reads \<open>seen\<close>, the write happens on \<open>d\<close>: between the two
  another transaction may have committed.  Without interleaving both are the same state.
\<close>

definition post_group_at :: "db \<Rightarrow> leg list \<Rightarrow> uuid \<Rightarrow> db \<Rightarrow> error + bool \<times> db" where
  "post_group_at seen legs correlation_id d =
     and_then (validate_legs legs) (\<lambda>_.
     if any_key_exists legs seen then Inr (False, d)
     else (case write_group legs correlation_id d of
             Inr d' \<Rightarrow> Inr (True, d')
           | Inl e \<Rightarrow> if e = IntegrityError \<and> any_key_exists legs d then Inr (False, d) else Inl e))"

definition post_group :: "leg list \<Rightarrow> uuid \<Rightarrow> db \<Rightarrow> error + bool \<times> db" where
  "post_group legs correlation_id d = post_group_at d legs correlation_id d"

section \<open>Movements\<close>

definition leg_of :: "uuid \<Rightarrow> money \<Rightarrow> transaction_type \<Rightarrow> leg" where
  "leg_of i a t = \<lparr>leg_wallet_id = i, leg_amount = a, leg_txn_type = t, leg_idempotency_key = None,
     leg_reference_order_id = None, leg_reference_invoice_id = None,
     leg_reference_intent_id = None, leg_description = None\<rparr>"

definition topup_key :: "uuid \<Rightarrow> string" where
  "topup_key intent_id = ''intent:'' @ str_uuid intent_id @ '':topup''"

definition release_key :: "uuid \<Rightarrow> string" where
  "release_key order_id = ''order:'' @ str_uuid order_id @ '':release''"

definition refund_key :: "uuid \<Rightarrow> string" where
  "refund_key order_id = ''order:'' @ str_uuid order_id @ '':refund''"

definition split_key :: "uuid \<Rightarrow> string" where
  "split_key order_id = ''order:'' @ str_uuid order_id @ '':split''"

definition escrow_key :: "uuid \<Rightarrow> string" where
  "escrow_key invoice_id = ''invoice:'' @ str_uuid invoice_id @ '':escrow''"

definition withdrawal_key :: "uuid \<Rightarrow> string" where
  "withdrawal_key withdrawal_id = ''withdrawal:'' @ str_uuid withdrawal_id @ '':paid''"

definition credit_topup :: "uuid \<Rightarrow> money \<Rightarrow> uuid \<Rightarrow> db \<Rightarrow> error + bool \<times> db" where
  "credit_topup user_wallet_id amount intent_id d =
     and_then (get_system WT_SYSTEM_GATEWAY d) (\<lambda>gateway.
     let (correlation, d) = fresh d
     in post_group
          [(leg_of user_wallet_id (quantize_money amount) TT_TOPUP)
             \<lparr>leg_idempotency_key := Some (topup_key intent_id),
              leg_reference_intent_id := Some intent_id\<rparr>,
           (leg_of (w_id gateway) (quantize_money (- amount)) TT_TOPUP)
             \<lparr>leg_reference_intent_id := Some intent_id\<rparr>]
          correlation d)"

definition order_leg :: "uuid \<Rightarrow> uuid \<Rightarrow> uuid \<Rightarrow> money \<Rightarrow> transaction_type \<Rightarrow> leg" where
  "order_leg order_id invoice_id i a t =
     (leg_of i a t)\<lparr>leg_reference_order_id := Some order_id,
       leg_reference_invoice_id := Some invoice_id\<rparr>"

definition release_legs ::
    "uuid \<Rightarrow> uuid \<Rightarrow> uuid \<Rightarrow> uuid \<Rightarrow> uuid \<Rightarrow> uuid \<Rightarrow> money \<Rightarrow> money \<Rightarrow> money \<Rightarrow> leg list" where
  "release_legs order_id invoice_id escrow courier tax_wallet revenue_wallet payout tax revenue =
     [(order_leg order_id invoice_id escrow (- quantize_money (payout + tax + revenue))
         TT_ESCROW_RELEASE)\<lparr>leg_idempotency_key := Some (release_key order_id)\<rparr>,
      order_leg order_id invoice_id courier payout TT_ESCROW_RELEASE]
     @ (if tax \<noteq> 0 then [order_leg order_id invoice_id tax_wallet tax TT_TAX] else [])
     @ (if revenue \<noteq> 0
        then [order_leg order_id invoice_id revenue_wallet revenue TT_COMMISSION] else [])"

definition release_escrow_on_completion ::
    "uuid \<Rightarrow> uuid \<Rightarrow> uuid \<Rightarrow> money \<Rightarrow> money \<Rightarrow> money \<Rightarrow> db \<Rightarrow> error + bool \<times> db" where
  "release_escrow_on_completion order_id invoice_id courier_wallet_id payout tax revenue d =
     and_then (get_system WT_SYSTEM_ESCROW d) (\<lambda>escrow.
     and_then (get_system WT_SYSTEM_TAX_PAYABLE d) (\<lambda>tax_wallet.
     and_then (get_system WT_SYSTEM_REVENUE d) (\<lambda>revenue_wallet.
     let (correlation, d) = fresh d
     in post_group
          (release_legs order_id invoice_id (w_id escrow) courier_wallet_id (w_id tax_wallet)
             (w_id revenue_wallet) (quantize_money payout) (quantize_money tax)
             (quantize_money revenue))
          correlation d)))"

definition refund_escrow :: "uuid \<Rightarrow> uuid \<Rightarrow> uuid \<Rightarrow> money \<Rightarrow> db \<Rightarrow> error + bool \<times> db" where
  "refund_escrow order_id invoice_id customer_wallet_id amount d =
     and_then (get_system WT_SYSTEM_ESCROW d) (\<lambda>escrow.
     let (correlation, d) = fresh d; amount = quantize_money amount
     in post_group
          [(order_leg order_id invoice_id (w_id escrow) (- amount) TT_REFUND)
             \<lparr>leg_idempotency_key := Some (refund_key order_id)\<rparr>,
           order_leg order_id invoice_id customer_wallet_id amount TT_REFUND]
          correlation d)"

definition split_legs ::
    "uuid \<Rightarrow> uuid \<Rightarrow> uuid \<Rightarrow> uuid \<Rightarrow> uuid \<Rightarrow> money \<Rightarrow> money \<Rightarrow> leg list" where
  "split_legs order_id invoice_id escrow courier customer courier_amount refund_amount =
     [(order_leg order_id invoice_id escrow (- quantize_money (courier_amount + refund_amount))
         TT_ESCROW_RELEASE)\<lparr>leg_idempotency_key := Some (split_key order_id)\<rparr>]
     @ (if courier_amount \<noteq> 0
        then [order_leg order_id invoice_id courier courier_amount TT_ESCROW_RELEASE] else [])
     @ (if refund_amount \<noteq> 0
        then [order_leg order_id invoice_id customer refund_amount TT_REFUND] else [])"

definition split_escrow ::
    "uuid \<Rightarrow> uuid \<Rightarrow> uuid \<Rightarrow> uuid \<Rightarrow> money \<Rightarrow> money \<Rightarrow> db \<Rightarrow> error + bool \<times> db" where
  "split_escrow order_id invoice_id courier_wallet_id customer_wallet_id courier_amount
      refund_amount d =
     and_then (get_system WT_SYSTEM_ESCROW d) (\<lambda>escrow.
     let (correlation, d) = fresh d
     in post_group
          (split_legs order_id invoice_id (w_id escrow) courier_wallet_id customer_wallet_id
             (quantize_money courier_amount) (quantize_money refund_amount))
          correlation d)"

definition available_balance :: "uuid \<Rightarrow> db \<Rightarrow> money" where
  "available_balance user_id d = (case get_by_user user_id d of
       None \<Rightarrow> 0 | Some w \<Rightarrow> quantize_money (w_balance w - w_held_balance w))"

definition hold_funds :: "uuid \<Rightarrow> money \<Rightarrow> db \<Rightarrow> error + db" where
  "hold_funds wallet_id amount d =
     (let amount = quantize_money amount
      in or_raise (get_wallet wallet_id d) KeyError (\<lambda>w.
         ensure (\<not> quantize_money (w_balance w - w_held_balance w) < amount) InsufficientFundsError
         (flush_wallet (w\<lparr>w_held_balance := quantize_money (w_held_balance w + amount),
                          w_version := w_version w + 1\<rparr>) d)))"

definition release_hold :: "uuid \<Rightarrow> money \<Rightarrow> db \<Rightarrow> error + db" where
  "release_hold wallet_id amount d =
     (let amount = quantize_money amount
      in or_raise (get_wallet wallet_id d) KeyError (\<lambda>w.
         flush_wallet (w\<lparr>w_held_balance := quantize_money (max 0 (w_held_balance w - amount)),
                         w_version := w_version w + 1\<rparr>) d))"

definition pay_withdrawal :: "uuid \<Rightarrow> money \<Rightarrow> uuid \<Rightarrow> db \<Rightarrow> error + bool \<times> db" where
  "pay_withdrawal courier_wallet_id amount withdrawal_id d =
     (let amount = quantize_money amount;
          note = Some (''Courier withdrawal '' @ str_uuid withdrawal_id)
      in and_then (get_system WT_SYSTEM_GATEWAY d) (\<lambda>gateway.
         let (correlation, d) = fresh d
         in and_then (post_group
              [(leg_of courier_wallet_id (- amount) TT_WITHDRAWAL)
                 \<lparr>leg_idempotency_key := Some (withdrawal_key withdrawal_id),
                  leg_description := note\<rparr>,
               (leg_of (w_id gateway) amount TT_WITHDRAWAL)\<lparr>leg_description := note\<rparr>]
              correlation d) (\<lambda>(posted, d).
            if posted
            then and_then (release_hold courier_wallet_id amount d) (\<lambda>d. Inr (posted, d))
            else Inr (posted, d))))"

definition payment_leg ::
    "uuid \<Rightarrow> uuid \<Rightarrow> uuid option \<Rightarrow> uuid \<Rightarrow> money \<Rightarrow> transaction_type \<Rightarrow> leg" where
  "payment_leg invoice_id order_id intent_id i a t =
     (leg_of i a t)\<lparr>leg_reference_invoice_id := Some invoice_id,
       leg_reference_order_id := Some order_id, leg_reference_intent_id := intent_id\<rparr>"

definition escrow_legs ::
    "uuid \<Rightarrow> uuid \<Rightarrow> uuid option \<Rightarrow> uuid \<Rightarrow> uuid \<Rightarrow> uuid \<Rightarrow> money \<Rightarrow> money \<Rightarrow> leg list" where
  "escrow_legs invoice_id order_id intent_id customer gateway escrow wallet_amount gateway_amount =
     (if wallet_amount > 0
      then [payment_leg invoice_id order_id intent_id customer (- wallet_amount) TT_PAYMENT] else [])
     @ (if gateway_amount > 0
        then [payment_leg invoice_id order_id intent_id gateway (- gateway_amount) TT_PAYMENT]
        else [])
     @ [(payment_leg invoice_id order_id intent_id escrow
           (quantize_money (wallet_amount + gateway_amount)) TT_ESCROW_HOLD)
          \<lparr>leg_idempotency_key := Some (escrow_key invoice_id)\<rparr>]"

definition fund_escrow_for_invoice ::
    "uuid \<Rightarrow> money \<Rightarrow> money \<Rightarrow> uuid \<Rightarrow> uuid \<Rightarrow> uuid option \<Rightarrow> bool \<Rightarrow> db
     \<Rightarrow> error + bool \<times> db" where
  "fund_escrow_for_invoice customer_wallet_id wallet_amount gateway_amount invoice_id order_id
      intent_id was_held d =
     (let wallet_amount = quantize_money wallet_amount;
          gateway_amount = quantize_money gateway_amount
      in and_then (get_system WT_SYSTEM_ESCROW d) (\<lambda>escrow.
         and_then (get_system WT_SYSTEM_GATEWAY d) (\<lambda>gateway.
         let (correlation, d) = fresh d
         in and_then (post_group
              (escrow_legs invoice_id order_id intent_id customer_wallet_id (w_id gateway)
                 (w_id escrow) wallet_amount gateway_amount)
              correlation d) (\<lambda>(posted, d).
            if posted \<and> was_held \<and> wallet_amount > 0
            then and_then (release_hold customer_wallet_id wallet_amount d) (\<lambda>d. Inr (posted, d))
            else Inr (posted, d)))))"

section \<open>Reconciliation\<close>

datatype drift = WalletDrift uuid money money | CorrelationDrift uuid money

record reconcile_report =
  wallets_checked :: nat
  correlations_checked :: nat
  drifts :: "drift list"

definition reconcile :: "db \<Rightarrow> reconcile_report" where
  "reconcile d =
     (let per_wallet = settled_sums_by_wallet d;
          of_wallet = (\<lambda>w. case map_of per_wallet (w_id w) of None \<Rightarrow> 0 | Some s \<Rightarrow> s);
          bad = filter (\<lambda>w. quantize_money (of_wallet w) \<noteq> quantize_money (w_balance w)) (wallets d)
      in \<lparr>wallets_checked = length (wallets d), correlations_checked = correlation_count d,
          drifts = map (\<lambda>w. WalletDrift (w_id w) (w_balance w) (of_wallet w)) bad
            @ map (\<lambda>(k, s). CorrelationDrift k s) (correlation_drift_sums d)\<rparr>)"

definition report_ok :: "reconcile_report \<Rightarrow> bool" where
  "report_ok r \<longleftrightarrow> drifts r = []"

section \<open>What a posted group does to the state\<close>

text \<open>Money operations touch the wallets, the ledger and the identifier source, nothing else.\<close>

definition money_frame :: "db \<Rightarrow> db \<Rightarrow> bool" where
  "money_frame d d' \<longleftrightarrow>
     next_id d \<le> next_id d' \<and>
     d' = d\<lparr>next_id := next_id d', wallets := wallets d', transactions := transactions d'\<rparr>"

lemma money_frame_refl [simp]: "money_frame d d"
  by (simp add: money_frame_def)

lemma money_frame_trans: "money_frame d e \<Longrightarrow> money_frame e f \<Longrightarrow> money_frame d f"
  unfolding money_frame_def
  by (cases d; cases e; cases f) simp

lemma money_frame_tables:
  assumes "money_frame d d'"
  shows "users d' = users d" "courier_profiles d' = courier_profiles d"
    "refresh_tokens d' = refresh_tokens d" "device_tokens d' = device_tokens d"
    "orders d' = orders d" "order_medias d' = order_medias d" "promos d' = promos d"
    "invoices d' = invoices d" "invoice_items d' = invoice_items d"
    "promo_redemptions d' = promo_redemptions d" "payment_intents d' = payment_intents d"
    "wallet_topups d' = wallet_topups d" "conversations d' = conversations d"
    "messages d' = messages d" "withdrawals d' = withdrawals d" "ratings d' = ratings d"
    "disputes d' = disputes d" "admin_sessions d' = admin_sessions d"
    "audit_logs d' = audit_logs d" "next_id d \<le> next_id d'"
  using assms unfolding money_frame_def by (cases d; cases d'; simp)+

definition legs_delta :: "uuid \<Rightarrow> leg list \<Rightarrow> money" where
  "legs_delta i legs = sum_list (map leg_amount (filter (\<lambda>l. leg_wallet_id l = i) legs))"

definition legs_count :: "uuid \<Rightarrow> leg list \<Rightarrow> int" where
  "legs_count i legs = int (length (filter (\<lambda>l. leg_wallet_id l = i) legs))"

definition apply_legs :: "leg list \<Rightarrow> wallet \<Rightarrow> wallet" where
  "apply_legs legs w =
     w\<lparr>w_balance := w_balance w + legs_delta (w_id w) legs,
       w_version := w_version w + legs_count (w_id w) legs\<rparr>"

lemma apply_legs_simps [simp]:
  "w_id (apply_legs legs w) = w_id w" "w_type (apply_legs legs w) = w_type w"
  "w_user_id (apply_legs legs w) = w_user_id w"
  "w_held_balance (apply_legs legs w) = w_held_balance w"
  "w_balance (apply_legs legs w) = w_balance w + legs_delta (w_id w) legs"
  by (simp_all add: apply_legs_def)

lemma apply_legs_Nil [simp]: "apply_legs [] w = w"
  by (simp add: apply_legs_def legs_delta_def legs_count_def)

lemma apply_legs_Cons: "apply_legs legs (apply_legs [l] w) = apply_legs (l # legs) w"
  by (simp add: apply_legs_def legs_delta_def legs_count_def add.assoc)

text \<open>The ledger row written for a leg.\<close>

definition row_of_leg :: "uuid \<Rightarrow> leg \<Rightarrow> transaction \<Rightarrow> bool" where
  "row_of_leg c l t \<longleftrightarrow> tx_wallet_id t = leg_wallet_id l \<and> tx_amount t = leg_amount l \<and>
     tx_status t = TS_SETTLED \<and> tx_correlation_id t = c \<and>
     tx_idempotency_key t = leg_idempotency_key l \<and>
     tx_reference_order_id t = leg_reference_order_id l \<and>
     tx_reference_invoice_id t = leg_reference_invoice_id l"

lemma put_by_upd:
  assumes "distinct (map key rs)" and "find_by key k rs = Some r" and "key (f r) = k"
  shows "put_by key (f r) rs = map (\<lambda>x. if key x = k then f x else x) rs"
proof -
  have "x = r" if "x \<in> set rs" "key x = k" for x
    using assms(1,2) that find_by_mem by force
  then show ?thesis using assms(3) by (auto simp: put_by_def)
qed

lemma apply_leg_effect:
  assumes "apply_leg c l d = Inr d'" and dist: "distinct (map w_id (wallets d))"
    and bal: "\<forall>w \<in> set (wallets d). is_money (w_balance w)" and "is_money (leg_amount l)"
  shows "money_frame d d'" "wallets d' = map (apply_legs [l]) (wallets d)"
    "next_id d' = next_id d + 1" "leg_wallet_id l \<in> w_id ` set (wallets d)"
    "\<exists>t. transactions d' = transactions d @ [t] \<and> row_of_leg c l t"
proof -
  obtain w where w: "get_wallet (leg_wallet_id l) d = Some w"
    and d': "d' = append_transaction l c (quantize_money (w_balance w + leg_amount l))
      (put_wallet (w\<lparr>w_balance := quantize_money (w_balance w + leg_amount l),
        w_version := w_version w + 1\<rparr>) d)"
    using assms(1) by (auto simp: apply_leg_def Let_def)
  have mem: "w \<in> set (wallets d)" "w_id w = leg_wallet_id l"
    using wallet_tab.get_mem [OF w] wallet_tab.get_key [OF w] by auto
  then show "leg_wallet_id l \<in> w_id ` set (wallets d)" by force
  have q: "quantize_money (w_balance w + leg_amount l) = w_balance w + leg_amount l"
    using bal mem assms(4) by (simp add: quantize_money_id is_money_add)
  have upd: "w\<lparr>w_balance := w_balance w + leg_amount l, w_version := w_version w + 1\<rparr>
      = apply_legs [l] w"
    using mem by (simp add: apply_legs_def legs_delta_def legs_count_def)
  have "put_by w_id (apply_legs [l] w) (wallets d)
      = map (\<lambda>x. if w_id x = leg_wallet_id l then apply_legs [l] x else x) (wallets d)"
    using put_by_upd [OF dist, of "leg_wallet_id l" w "apply_legs [l]"] w mem
    by (simp add: get_wallet_def)
  also have "\<dots> = map (apply_legs [l]) (wallets d)"
    by (auto simp: apply_legs_def legs_delta_def legs_count_def)
  finally have put: "put_by w_id (apply_legs [l] w) (wallets d) = map (apply_legs [l]) (wallets d)" .
  note eff = d' q upd put append_transaction_def fresh_def put_wallet_def
  show "money_frame d d'" by (simp add: eff money_frame_def)
  show "wallets d' = map (apply_legs [l]) (wallets d)" by (simp add: eff)
  show "next_id d' = next_id d + 1" by (simp add: eff)
  show "\<exists>t. transactions d' = transactions d @ [t] \<and> row_of_leg c l t"
    using assms(4) by (simp add: eff row_of_leg_def quantize_money_id)
qed

lemma fold_legs_effect:
  assumes "fold_err (apply_leg c) legs d = Inr d'" and "distinct (map w_id (wallets d))"
    and "\<forall>w \<in> set (wallets d). is_money (w_balance w)"
    and "\<forall>l \<in> set legs. is_money (leg_amount l)"
  shows "money_frame d d' \<and> wallets d' = map (apply_legs legs) (wallets d) \<and>
    next_id d' = next_id d + length legs \<and> leg_wallet_id ` set legs \<subseteq> w_id ` set (wallets d) \<and>
    (\<exists>ts. transactions d' = transactions d @ ts \<and> list_all2 (row_of_leg c) legs ts)"
  using assms
proof (induction legs arbitrary: d)
  case Nil
  then show ?case by (simp add: map_idI)
next
  case (Cons l legs)
  then obtain e where e: "apply_leg c l d = Inr e" "fold_err (apply_leg c) legs e = Inr d'" by auto
  note E = apply_leg_effect [OF e(1) Cons.prems(2,3)]
  have E1: "money_frame d e" "wallets e = map (apply_legs [l]) (wallets d)"
    "next_id e = next_id d + 1" "leg_wallet_id l \<in> w_id ` set (wallets d)"
    using E Cons.prems(4) by auto
  obtain t where t: "transactions e = transactions d @ [t]" "row_of_leg c l t"
    using E Cons.prems(4) by auto
  have ids: "w_id ` set (wallets e) = w_id ` set (wallets d)" "map w_id (wallets e) = map w_id (wallets d)"
    using E1(2) by (auto simp: image_image)
  have "is_money (legs_delta i [l])" for i
    using Cons.prems(4) by (auto simp: legs_delta_def)
  then have "\<forall>w \<in> set (wallets e). is_money (w_balance w)"
    using Cons.prems(3) E1(2) by (auto intro: is_money_add)
  then have IH: "money_frame e d' \<and> wallets d' = map (apply_legs legs) (wallets e) \<and>
    next_id d' = next_id e + length legs \<and> leg_wallet_id ` set legs \<subseteq> w_id ` set (wallets e) \<and>
    (\<exists>ts. transactions d' = transactions e @ ts \<and> list_all2 (row_of_leg c) legs ts)"
    using Cons.prems ids e(2) by (intro Cons.IH) auto
  then obtain ts where ts: "transactions d' = transactions e @ ts" "list_all2 (row_of_leg c) legs ts"
    by blast
  have "wallets d' = map (apply_legs (l # legs)) (wallets d)"
    using IH E1(2) by (simp add: apply_legs_Cons o_def)
  moreover have "transactions d' = transactions d @ (t # ts)" using ts t by simp
  ultimately show ?case
    using IH E1 t(2) ts(2) ids by (auto intro: money_frame_trans)
qed
section \<open>The ledger invariant\<close>

definition keys_of :: "transaction list \<Rightarrow> string list" where
  "keys_of ts = List.map_filter tx_idempotency_key ts"

definition ledger_ok :: "db \<Rightarrow> bool" where
  "ledger_ok d \<longleftrightarrow>
     distinct (map w_id (wallets d)) \<and> distinct (keys_of (transactions d)) \<and>
     list_all (\<lambda>w. is_money (w_balance w) \<and> is_money (w_held_balance w) \<and> chk_wallet w \<and>
       w_balance w = settled_balance (w_id w) d \<and> w_id w < next_id d) (wallets d) \<and>
     list_all (\<lambda>t. tx_wallet_id t \<in> set (map w_id (wallets d)) \<and> tx_status t = TS_SETTLED \<and>
       tx_correlation_id t < next_id d \<and> group_sum tx_correlation_id d (tx_correlation_id t) = 0)
       (transactions d)"

lemma ledger_okD:
  assumes "ledger_ok d"
  shows "distinct (map w_id (wallets d))" "distinct (keys_of (transactions d))"
    and "\<And>w. w \<in> set (wallets d) \<Longrightarrow> is_money (w_balance w)"
    and "\<And>w. w \<in> set (wallets d) \<Longrightarrow> is_money (w_held_balance w)"
    and "\<And>w. w \<in> set (wallets d) \<Longrightarrow> chk_wallet w"
    and "\<And>w. w \<in> set (wallets d) \<Longrightarrow> w_balance w = settled_balance (w_id w) d"
    and "\<And>w. w \<in> set (wallets d) \<Longrightarrow> w_id w < next_id d"
    and "\<And>t. t \<in> set (transactions d) \<Longrightarrow> tx_correlation_id t < next_id d"
    and "\<And>t. t \<in> set (transactions d) \<Longrightarrow> tx_wallet_id t \<in> w_id ` set (wallets d)"
    and "\<And>t. t \<in> set (transactions d) \<Longrightarrow> tx_status t = TS_SETTLED"
  using assms by (auto simp: ledger_ok_def list_all_iff)

lemma group_sum_absent:
  "c \<notin> key ` set (transactions d) \<Longrightarrow> group_sum key d c = 0"
proof -
  assume "c \<notin> key ` set (transactions d)"
  then have "filter (\<lambda>t. key t = c) (settled d) = []" by (auto simp: settled_def filter_empty_conv)
  then show ?thesis by (simp add: group_sum_def)
qed

lemma ledger_ok_correlation: "ledger_ok d \<Longrightarrow> group_sum tx_correlation_id d c = 0"
  by (cases "c \<in> tx_correlation_id ` set (transactions d)")
     (auto simp: ledger_ok_def list_all_iff group_sum_absent)

lemma settled_balance_group: "settled_balance i d = group_sum tx_wallet_id d i"
  by (simp add: settled_balance_def group_sum_def settled_def conj_commute)

lemma group_sum_append:
  assumes "transactions d' = transactions d @ ts" and "\<forall>t \<in> set ts. tx_status t = TS_SETTLED"
  shows "group_sum key d' k = group_sum key d k + sum_list (map tx_amount (filter (\<lambda>t. key t = k) ts))"
proof -
  have "filter (\<lambda>t. tx_status t = TS_SETTLED) ts = ts" using assms(2) by (simp add: filter_id_conv)
  then show ?thesis by (simp add: group_sum_def settled_def assms(1))
qed

lemma rows_amounts:
  assumes "list_all2 (row_of_leg c) legs ts"
  shows "sum_list (map tx_amount (filter (\<lambda>t. tx_wallet_id t = i) ts)) = legs_delta i legs"
    and "sum_list (map tx_amount (filter (\<lambda>t. tx_correlation_id t = c) ts)) = sum_list (map leg_amount legs)"
    and "k \<noteq> c \<Longrightarrow> filter (\<lambda>t. tx_correlation_id t = k) ts = []"
    and "\<forall>t \<in> set ts. tx_status t = TS_SETTLED \<and> tx_correlation_id t = c"
    and "tx_wallet_id ` set ts = leg_wallet_id ` set legs"
    and "map tx_idempotency_key ts = map leg_idempotency_key legs"
  using assms
  by (induction rule: list_all2_induct) (auto simp: row_of_leg_def legs_delta_def)

lemma write_group_fold: "write_group legs c d = Inr d' \<Longrightarrow> fold_err (apply_leg c) legs d = Inr d'"
  by (auto simp: write_group_def flush_group_def)

lemma fold_check_wallets:
  "fold_err (\<lambda>i u. or_raise (get_wallet i d) KeyError check_wallet_row) ids () = Inr u \<longleftrightarrow>
     (\<forall>i \<in> set ids. \<exists>w. get_wallet i d = Some w \<and> check_wallet_row w = Inr ())"
  by (induction ids) auto

lemma write_group_checks:
  assumes "write_group legs c d = Inr d'"
  shows "\<And>i. i \<in> leg_wallet_id ` set legs \<Longrightarrow>
      \<exists>w. get_wallet i d' = Some w \<and> chk_wallet w \<and> numeric_12_2 (w_balance w)"
    and "check_transaction_rows (drop (length (transactions d)) (transactions d')) (transactions d) = Inr ()"
proof -
  have flush: "flush_group (map leg_wallet_id legs) d d' = Inr d'"
    using assms by (auto simp: write_group_def flush_group_def)
  fix i assume i: "i \<in> leg_wallet_id ` set legs"
  have "\<forall>i \<in> set (sort (remdups (map leg_wallet_id legs))).
      \<exists>w. get_wallet i d' = Some w \<and> check_wallet_row w = Inr ()"
    using flush by (simp add: flush_group_def fold_check_wallets del: set_sort set_remdups)
  with i show "\<exists>w. get_wallet i d' = Some w \<and> chk_wallet w \<and> numeric_12_2 (w_balance w)"
    by (auto simp: check_wallet_row_def)
next
  show "check_transaction_rows (drop (length (transactions d)) (transactions d')) (transactions d) = Inr ()"
    using assms by (auto simp: write_group_def flush_group_def)
qed

lemma keys_of_append: "keys_of (xs @ ys) = keys_of xs @ keys_of ys"
  by (simp add: keys_of_def map_filter_def)

lemma check_rows_distinct:
  "check_transaction_rows ts rows = Inr () \<Longrightarrow> distinct (keys_of rows) \<Longrightarrow> distinct (keys_of (rows @ ts))"
proof (induction ts rows rule: check_transaction_rows.induct)
  case (2 t ts rows)
  then have "check_transaction_row t rows = Inr ()" and rest: "check_transaction_rows ts (rows @ [t]) = Inr ()"
    by auto
  then have "tx_idempotency_key t = None \<or> \<not> list_ex (\<lambda>r. tx_idempotency_key r = tx_idempotency_key t) rows"
    by (simp add: check_transaction_row_def)
  with "2.prems"(2) have "distinct (keys_of (rows @ [t]))"
    by (cases "tx_idempotency_key t") (auto simp: keys_of_def map_filter_def list_ex_iff)
  then show ?case using "2.IH" rest by simp
qed simp
definition legs_ok :: "leg list \<Rightarrow> bool" where
  "legs_ok legs \<longleftrightarrow> list_all (\<lambda>l. is_money (leg_amount l)) legs"

lemma legs_delta_money: "legs_ok legs \<Longrightarrow> is_money (legs_delta i legs)"
  unfolding legs_delta_def by (rule is_money_sum_list) (auto simp: legs_ok_def list_all_iff)

lemma validate_legs_sum:
  "validate_legs legs = Inr u \<Longrightarrow> legs_ok legs \<Longrightarrow> sum_list (map leg_amount legs) = 0"
proof -
  assume v: "validate_legs legs = Inr u" and ok: "legs_ok legs"
  have "is_money (sum_list (map leg_amount legs))"
    by (rule is_money_sum_list) (use ok in \<open>auto simp: legs_ok_def list_all_iff\<close>)
  with v show ?thesis by (simp add: validate_legs_def quantize_money_id)
qed

lemma legs_delta_absent: "i \<notin> leg_wallet_id ` set legs \<Longrightarrow> legs_delta i legs = 0"
proof -
  assume "i \<notin> leg_wallet_id ` set legs"
  then have "filter (\<lambda>l. leg_wallet_id l = i) legs = []" by (auto simp: filter_empty_conv)
  then show ?thesis by (simp add: legs_delta_def)
qed

lemma chk_wallet_apply_absent:
  "i \<notin> leg_wallet_id ` set legs \<Longrightarrow> w_id w = i \<Longrightarrow> chk_wallet (apply_legs legs w) = chk_wallet w"
  by (simp add: chk_wallet_def legs_delta_absent)

definition fresh_correlation :: "uuid \<Rightarrow> db \<Rightarrow> bool" where
  "fresh_correlation c d \<longleftrightarrow> c < next_id d \<and> c \<notin> tx_correlation_id ` set (transactions d)"

lemma write_group_effect:
  assumes "write_group legs c d = Inr d'" and "ledger_ok d" and "legs_ok legs"
  shows "money_frame d d'" "wallets d' = map (apply_legs legs) (wallets d)"
    "next_id d' = next_id d + length legs" "leg_wallet_id ` set legs \<subseteq> w_id ` set (wallets d)"
    "\<exists>ts. transactions d' = transactions d @ ts \<and> list_all2 (row_of_leg c) legs ts"
  using fold_legs_effect [OF write_group_fold [OF assms(1)]] ledger_okD [OF assms(2)] assms(3)
  by (auto simp: legs_ok_def list_all_iff)

lemma write_group_ids:
  assumes "write_group legs c d = Inr d'" "ledger_ok d" "legs_ok legs"
  shows "w_id ` set (wallets d') = w_id ` set (wallets d)" "map w_id (wallets d') = map w_id (wallets d)"
  using write_group_effect(2) [OF assms] by (auto simp: image_image)

lemma write_group_sums:
  assumes w: "write_group legs c d = Inr d'" and ok: "ledger_ok d" and legs: "legs_ok legs"
  shows "settled_balance i d' = settled_balance i d + legs_delta i legs"
    and "sum_list (map leg_amount legs) = 0 \<Longrightarrow> fresh_correlation c d \<Longrightarrow>
      group_sum tx_correlation_id d' k = 0"
proof -
  obtain ts where ts: "transactions d' = transactions d @ ts" "list_all2 (row_of_leg c) legs ts"
    using write_group_effect(5) [OF w ok legs] by blast
  note R = rows_amounts [OF ts(2)]
  have st: "\<forall>t \<in> set ts. tx_status t = TS_SETTLED" using R(4) by blast
  note G = group_sum_append [OF ts(1) st]
  show "settled_balance i d' = settled_balance i d + legs_delta i legs"
    by (simp add: settled_balance_group G R(1))
  show "group_sum tx_correlation_id d' k = 0"
    if "sum_list (map leg_amount legs) = 0" "fresh_correlation c d"
  proof (cases "k = c")
    case True
    with that R(2) show ?thesis by (simp add: G fresh_correlation_def group_sum_absent)
  next
    case False
    with R(3) [of k] show ?thesis by (simp add: G ledger_ok_correlation [OF ok])
  qed
qed

lemma write_group_chk:
  assumes w: "write_group legs c d = Inr d'" and ok: "ledger_ok d" and legs: "legs_ok legs"
    and x: "x \<in> set (wallets d)"
  shows "chk_wallet (apply_legs legs x)"
proof (cases "w_id x \<in> leg_wallet_id ` set legs")
  case True
  then obtain y where y: "get_wallet (w_id x) d' = Some y" "chk_wallet y"
    using write_group_checks(1) [OF w] by blast
  have "find_by w_id (w_id (apply_legs legs x)) (wallets d') = Some (apply_legs legs x)"
    using ledger_okD(1) [OF ok] x
    by (intro find_by_mem) (auto simp: write_group_effect(2) [OF w ok legs] o_def)
  with y show ?thesis by (simp add: get_wallet_def)
next
  case False
  then show ?thesis using ledger_okD(5) [OF ok x] by (simp add: chk_wallet_apply_absent)
qed

lemma write_group_wallet:
  assumes w: "write_group legs c d = Inr d'" and ok: "ledger_ok d" and legs: "legs_ok legs"
    and y: "y \<in> set (wallets d')"
  shows "is_money (w_balance y) \<and> is_money (w_held_balance y) \<and> chk_wallet y \<and>
    w_balance y = settled_balance (w_id y) d' \<and> w_id y < next_id d'"
proof -
  note E = write_group_effect [OF w ok legs] and O = ledger_okD [OF ok]
  from y E(2) obtain x where x: "x \<in> set (wallets d)" "y = apply_legs legs x" by auto
  have "is_money (w_balance y)" using O(3) [OF x(1)] legs
    by (simp add: x(2) is_money_add legs_delta_money)
  moreover have "w_balance y = settled_balance (w_id y) d'"
    using O(6) [OF x(1)] by (simp only: x(2) apply_legs_simps write_group_sums(1) [OF w ok legs])
  moreover have "w_id y < next_id d'" using O(7) [OF x(1)] E(3) by (simp add: x(2))
  ultimately show ?thesis
    using O(4) [OF x(1)] write_group_chk [OF w ok legs x(1)] x(2) by (simp only: apply_legs_simps)
qed

lemma write_group_ledger_ok:
  assumes w: "write_group legs c d = Inr d'" and ok: "ledger_ok d" and legs: "legs_ok legs"
    and zero: "sum_list (map leg_amount legs) = 0" and new: "fresh_correlation c d"
  shows "ledger_ok d'"
proof -
  note E = write_group_effect [OF w ok legs] and O = ledger_okD [OF ok]
    and ids = write_group_ids [OF w ok legs]
  obtain ts where ts: "transactions d' = transactions d @ ts" "list_all2 (row_of_leg c) legs ts"
    using E(5) by blast
  note R = rows_amounts [OF ts(2)]
  have keys: "distinct (keys_of (transactions d'))"
    using check_rows_distinct [OF write_group_checks(2) [OF w] O(2)] by (simp add: ts(1))
  have W: "list_all (\<lambda>w. is_money (w_balance w) \<and> is_money (w_held_balance w) \<and> chk_wallet w \<and>
       w_balance w = settled_balance (w_id w) d' \<and> w_id w < next_id d') (wallets d')"
    unfolding list_all_iff using write_group_wallet [OF w ok legs] by blast
  have new_rows: "tx_wallet_id t \<in> w_id ` set (wallets d)" if "t \<in> set ts" for t
    using that R(5) E(4) by blast
  have "tx_wallet_id t \<in> w_id ` set (wallets d) \<and> tx_status t = TS_SETTLED
      \<and> tx_correlation_id t < next_id d'" if "t \<in> set (transactions d')" for t
    using that O(8-10) R(4) new_rows new E(3)
    by (auto simp: ts(1) fresh_correlation_def trans_less_add1)
  then have T: "list_all (\<lambda>t. tx_wallet_id t \<in> set (map w_id (wallets d')) \<and> tx_status t = TS_SETTLED \<and>
       tx_correlation_id t < next_id d' \<and> group_sum tx_correlation_id d' (tx_correlation_id t) = 0)
       (transactions d')"
    unfolding list_all_iff set_map ids(1) write_group_sums(2) [OF w ok legs zero new] by blast
  show ?thesis unfolding ledger_ok_def using O(1) keys W T by (simp add: ids)
qed

lemma post_group_cases:
  assumes "post_group legs c d = Inr (b, d')"
  shows "b \<and> validate_legs legs = Inr () \<and> \<not> any_key_exists legs d \<and> write_group legs c d = Inr d'
    \<or> \<not> b \<and> any_key_exists legs d \<and> d' = d \<and> validate_legs legs = Inr ()"
  using assms unfolding post_group_def post_group_at_def
  by (auto split: sum.splits if_splits)

lemma post_group_ledger_ok:
  assumes "post_group legs c d = Inr (b, d')" "ledger_ok d" "legs_ok legs" "fresh_correlation c d"
  shows "ledger_ok d'" "money_frame d d'"
    "wallets d' = (if b then map (apply_legs legs) (wallets d) else wallets d)"
  using post_group_cases [OF assms(1)] assms(2-4) write_group_ledger_ok validate_legs_sum
    write_group_effect(1,2) by auto

lemma sums_next_id [simp]:
  "settled_balance i (d\<lparr>next_id := n\<rparr>) = settled_balance i d"
  "group_sum key (d\<lparr>next_id := n\<rparr>) c = group_sum key d c"
  by (simp_all add: settled_balance_def group_sum_def settled_def)

lemma ledger_ok_next_id: "ledger_ok d \<Longrightarrow> next_id d \<le> n \<Longrightarrow> ledger_ok (d\<lparr>next_id := n\<rparr>)"
  by (auto simp: ledger_ok_def list_all_iff intro: order_less_le_trans)

text \<open>The ledger invariant reads the wallets, the ledger and the identifier source.\<close>

definition off_ledger :: "db \<Rightarrow> db \<Rightarrow> bool" where
  "off_ledger d d' \<longleftrightarrow> wallets d' = wallets d \<and> transactions d' = transactions d \<and> next_id d \<le> next_id d'"

lemma off_ledger_ok:
  assumes "off_ledger d d'" and "ledger_ok d"
  shows "ledger_ok d'"
proof -
  have "settled_balance i d' = settled_balance i d" "group_sum k d' c = group_sum k d c" for i c k
    using assms(1) by (simp_all add: off_ledger_def settled_balance_def group_sum_def settled_def)
  then show ?thesis
    using assms unfolding ledger_ok_def list_all_iff off_ledger_def by (metis order_less_le_trans)
qed

lemma fresh_correlation_next:
  assumes "ledger_ok d"
  shows "fresh_correlation (next_id d) (d\<lparr>next_id := next_id d + 1\<rparr>)"
  using ledger_okD(8) [OF assms] by (force simp: fresh_correlation_def)

text \<open>Drawing the correlation id and posting, as every movement does.\<close>

lemma post_fresh_ledger_ok:
  assumes "post_group legs (next_id d) (d\<lparr>next_id := next_id d + 1\<rparr>) = Inr (b, d')"
    "ledger_ok d" "legs_ok legs"
  shows "ledger_ok d'" "money_frame d d'"
    "wallets d' = (if b then map (apply_legs legs) (wallets d) else wallets d)"
proof -
  let ?e = "d\<lparr>next_id := next_id d + 1\<rparr>"
  have e: "ledger_ok ?e" using assms(2) by (intro ledger_ok_next_id) auto
  note P = post_group_ledger_ok [OF assms(1) e assms(3) fresh_correlation_next [OF assms(2)]]
  show "ledger_ok d'" by (rule P(1))
  have "money_frame d ?e" by (simp add: money_frame_def)
  then show "money_frame d d'" using P(2) by (rule money_frame_trans)
  show "wallets d' = (if b then map (apply_legs legs) (wallets d) else wallets d)"
    using P(3) by simp
qed
section \<open>Conservation and reconciliation\<close>

lemma sum_list_partition:
  fixes f :: "'r \<Rightarrow> money"
  assumes "distinct ks" and "key ` set xs \<subseteq> set ks"
  shows "sum_list (map (\<lambda>k. sum_list (map f (filter (\<lambda>x. key x = k) xs))) ks) = sum_list (map f xs)"
  using assms(2)
proof (induction xs)
  case (Cons x xs)
  have "sum_list (map (\<lambda>k. if key x = k then f x else 0) ks) = f x"
    using assms(1) Cons.prems by (simp add: sum_list_distinct_conv_sum_set)
  moreover have "sum_list (map (\<lambda>k. sum_list (map f (filter (\<lambda>y. key y = k) (x # xs)))) ks)
      = sum_list (map (\<lambda>k. (if key x = k then f x else 0)
          + sum_list (map f (filter (\<lambda>y. key y = k) xs))) ks)"
    by (rule arg_cong [where f = sum_list], rule map_cong) auto
  ultimately show ?case using Cons by (simp add: sum_list_addf)
qed (simp add: sum_list_0)

lemma settled_all: "ledger_ok d \<Longrightarrow> settled d = transactions d"
  using ledger_okD(10) by (simp add: settled_def filter_id_conv)

text \<open>Money is neither created nor destroyed: the balances of all wallets cancel out.\<close>

lemma ledger_total_zero:
  assumes "ledger_ok d"
  shows "sum_list (map w_balance (wallets d)) = 0"
proof -
  note O = ledger_okD [OF assms]
  have "sum_list (map w_balance (wallets d))
      = sum_list (map (group_sum tx_wallet_id d) (map w_id (wallets d)))"
    using O(6) by (simp add: settled_balance_group o_def cong: map_cong)
  also have "\<dots> = sum_list (map tx_amount (transactions d))"
    unfolding group_sum_def settled_all [OF assms] using O(1,9)
    by (intro sum_list_partition) auto
  also have "\<dots> = sum_list (map (group_sum tx_correlation_id d)
      (remdups (map tx_correlation_id (transactions d))))"
    unfolding group_sum_def settled_all [OF assms]
    by (rule sum_list_partition [symmetric]) auto
  also have "group_sum tx_correlation_id d = (\<lambda>_. 0)"
    using ledger_ok_correlation [OF assms] by (rule ext)
  finally show ?thesis by (simp add: sum_list_0)
qed

lemma map_of_settled_sums:
  "(case map_of (settled_sums_by_wallet d) i of None \<Rightarrow> 0 | Some s \<Rightarrow> s) = settled_balance i d"
proof (cases "i \<in> tx_wallet_id ` set (settled d)")
  case True
  then have "map_of (map (\<lambda>k. (k, group_sum tx_wallet_id d k)) (remdups (map tx_wallet_id (settled d)))) i
      = Some (group_sum tx_wallet_id d i)"
    by (simp add: map_of_map_restrict)
  then show ?thesis by (simp add: settled_sums_by_wallet_def settled_balance_group)
next
  case False
  then have "filter (\<lambda>t. tx_wallet_id t = i) (settled d) = []" by (auto simp: filter_empty_conv)
  moreover have "map_of (settled_sums_by_wallet d) i = None"
    using False by (auto simp: settled_sums_by_wallet_def map_of_eq_None_iff image_image)
  ultimately show ?thesis by (simp add: settled_balance_group group_sum_def)
qed

lemma reconcile_no_drift_iff:
  "drifts (reconcile d) = [] \<longleftrightarrow>
     (\<forall>w \<in> set (wallets d). quantize_money (settled_balance (w_id w) d) = quantize_money (w_balance w)) \<and>
     (\<forall>t \<in> set (settled d). group_sum tx_correlation_id d (tx_correlation_id t) = 0)"
  by (auto simp: reconcile_def Let_def map_of_settled_sums correlation_drift_sums_def filter_empty_conv)

lemma ledger_ok_reconciles: "ledger_ok d \<Longrightarrow> drifts (reconcile d) = []"
  using ledger_okD(6) ledger_ok_correlation by (auto simp: reconcile_no_drift_iff)

section \<open>The interface of a money movement\<close>

text \<open>
  What every operation of the money service promises to its clients: it keeps the ledger
  invariant and touches nothing outside the wallets and the ledger.
\<close>

locale money_move =
  fixes move :: "db \<Rightarrow> error + 'a \<times> db"
  assumes keeps: "ledger_ok d \<Longrightarrow> move d = Inr (r, d') \<Longrightarrow> ledger_ok d' \<and> money_frame d d'"
begin

lemma conserves:
  assumes "ledger_ok d" "move d = Inr (r, d')"
  shows "sum_list (map w_balance (wallets d')) = sum_list (map w_balance (wallets d))"
  using keeps [OF assms] assms(1) by (simp add: ledger_total_zero)

lemma reconciles: "ledger_ok d \<Longrightarrow> move d = Inr (r, d') \<Longrightarrow> drifts (reconcile d') = []"
  using keeps ledger_ok_reconciles by blast

end

lemma legs_ok_simps [simp]:
  "legs_ok []" "legs_ok (l # ls) \<longleftrightarrow> is_money (leg_amount l) \<and> legs_ok ls"
  "legs_ok (xs @ ys) \<longleftrightarrow> legs_ok xs \<and> legs_ok ys"
  by (auto simp: legs_ok_def)

lemma leg_amount_simps [simp]:
  "leg_amount (leg_of i a t) = a" "leg_amount (order_leg oid iid i a t) = a"
  "leg_amount (payment_leg iid oid pid i a t) = a"
  "leg_wallet_id (leg_of i a t) = i" "leg_wallet_id (order_leg oid iid i a t) = i"
  "leg_wallet_id (payment_leg iid oid pid i a t) = i"
  "leg_idempotency_key (leg_of i a t) = None" "leg_idempotency_key (order_leg oid iid i a t) = None"
  "leg_idempotency_key (payment_leg iid oid pid i a t) = None"
  by (simp_all add: leg_of_def order_leg_def payment_leg_def)

lemma flush_wallet_held:
  assumes "flush_wallet (w\<lparr>w_held_balance := h, w_version := v\<rparr>) d = Inr d'"
    and "get_wallet i d = Some w" and "ledger_ok d" and "is_money h"
  shows "ledger_ok d'" "money_frame d d'" "chk_wallet (w\<lparr>w_held_balance := h, w_version := v\<rparr>)"
    "wallets d' = map (\<lambda>x. if w_id x = i then x\<lparr>w_held_balance := h, w_version := v\<rparr> else x) (wallets d)"
proof -
  let ?f = "\<lambda>x. x\<lparr>w_held_balance := h, w_version := v\<rparr>"
  note O = ledger_okD [OF assms(3)]
  have d': "d' = put_wallet (?f w) d" and chk: "chk_wallet (?f w)"
    using assms(1) by (auto simp: flush_wallet_def check_wallet_row_def)
  show "chk_wallet (?f w)" by (rule chk)
  show ws: "wallets d' = map (\<lambda>x. if w_id x = i then ?f x else x) (wallets d)"
    using put_by_upd [OF O(1), of i w ?f] assms(2) wallet_tab.get_key [OF assms(2)]
    by (simp add: d' put_wallet_def get_wallet_def)
  show "money_frame d d'" by (simp add: d' money_frame_def put_wallet_def)
  have same: "transactions d' = transactions d" "next_id d' = next_id d"
    by (simp_all add: d' put_wallet_def)
  have sums: "settled_balance j d' = settled_balance j d" "group_sum key d' c = group_sum key d c" for j key c
    by (simp_all add: settled_balance_def group_sum_def settled_def same)
  have uniq: "x = w" if "x \<in> set (wallets d)" "w_id x = i" for x
    using that assms(2) O(1) find_by_mem by (force simp: get_wallet_def)
  have ids: "map w_id (wallets d') = map w_id (wallets d)" by (simp add: ws)
  have "is_money (w_balance y) \<and> is_money (w_held_balance y) \<and> chk_wallet y \<and>
      w_balance y = settled_balance (w_id y) d \<and> w_id y < next_id d"
    if "y \<in> set (wallets d')" for y
  proof -
    from that ws obtain x where x: "x \<in> set (wallets d)" "y = (if w_id x = i then ?f x else x)" by auto
    show ?thesis
    proof (cases "w_id x = i")
      case True
      with uniq x(1) have "x = w" by blast
      with True x O(3,6,7) [OF x(1)] chk assms(4) show ?thesis by simp
    next
      case False
      with x O(3-7) [OF x(1)] show ?thesis by simp
    qed
  qed
  then show "ledger_ok d'"
    using assms(3) unfolding ledger_ok_def list_all_iff sums same ids by blast
qed
section \<open>The movements keep the ledger\<close>

lemma hold_funds_effect:
  assumes "hold_funds i a d = Inr d'" and ok: "ledger_ok d"
  obtains w where "get_wallet i d = Some w" "ledger_ok d'" "money_frame d d'"
    "quantize_money a \<le> w_balance w - w_held_balance w"
    "wallets d' = map (\<lambda>x. if w_id x = i then x\<lparr>w_held_balance := w_held_balance w + quantize_money a,
       w_version := w_version w + 1\<rparr> else x) (wallets d)"
proof -
  obtain w where w: "get_wallet i d = Some w"
    and le: "\<not> quantize_money (w_balance w - w_held_balance w) < quantize_money a"
    and fl: "flush_wallet (w\<lparr>w_held_balance := quantize_money (w_held_balance w + quantize_money a),
      w_version := w_version w + 1\<rparr>) d = Inr d'"
    using assms(1) by (auto simp: hold_funds_def Let_def)
  have m: "is_money (w_balance w)" "is_money (w_held_balance w)"
    using ledger_okD(3,4) [OF ok wallet_tab.get_mem [OF w]] by auto
  then have q: "quantize_money (w_held_balance w + quantize_money a) = w_held_balance w + quantize_money a"
    "quantize_money (w_balance w - w_held_balance w) = w_balance w - w_held_balance w"
    by (simp_all add: quantize_money_id is_money_add is_money_diff)
  note F = flush_wallet_held [OF fl [unfolded q] w ok]
  have "is_money (w_held_balance w + quantize_money a)" using m by (simp add: is_money_add)
  then show thesis using that [OF w F(1,2) _ F(4)] le by (simp add: q)
qed

lemma release_hold_effect:
  assumes "release_hold i a d = Inr d'" and ok: "ledger_ok d"
  obtains w where "get_wallet i d = Some w" "ledger_ok d'" "money_frame d d'"
    "wallets d' = map (\<lambda>x. if w_id x = i
       then x\<lparr>w_held_balance := max 0 (w_held_balance w - quantize_money a),
              w_version := w_version w + 1\<rparr> else x) (wallets d)"
proof -
  obtain w where w: "get_wallet i d = Some w"
    and fl: "flush_wallet (w\<lparr>w_held_balance := quantize_money (max 0 (w_held_balance w - quantize_money a)),
      w_version := w_version w + 1\<rparr>) d = Inr d'"
    using assms(1) by (auto simp: release_hold_def Let_def)
  have "is_money (w_held_balance w)"
    using ledger_okD(4) [OF ok wallet_tab.get_mem [OF w]] by auto
  then have m: "is_money (max 0 (w_held_balance w - quantize_money a))"
    by (intro is_money_max is_money_diff) auto
  note F = flush_wallet_held [OF fl [unfolded quantize_money_id [OF m]] w ok m]
  show thesis by (rule that [OF w F(1,2,4)])
qed

interpretation hold_move: money_move "\<lambda>d. and_then (hold_funds i a d) (\<lambda>d. Inr ((), d))" for i a
  by unfold_locales (auto elim!: hold_funds_effect)

interpretation release_hold_move: money_move "\<lambda>d. and_then (release_hold i a d) (\<lambda>d. Inr ((), d))" for i a
  by unfold_locales (auto elim!: release_hold_effect)

lemma legs_ok_escrow:
  "is_money a \<Longrightarrow> is_money b \<Longrightarrow> legs_ok (escrow_legs iid oid pid cu g e a b)"
  by (simp add: escrow_legs_def is_money_uminus)

lemma legs_ok_release:
  "is_money p \<Longrightarrow> is_money t \<Longrightarrow> is_money r \<Longrightarrow> legs_ok (release_legs oid iid e c tw rw p t r)"
  by (simp add: release_legs_def is_money_uminus)

lemma legs_ok_split:
  "is_money a \<Longrightarrow> is_money b \<Longrightarrow> legs_ok (split_legs oid iid e co cu a b)"
  by (simp add: split_legs_def is_money_uminus)

lemma credit_topup_posts:
  assumes "credit_topup i a pid d = Inr (b, d')"
  obtains gw where "get_system WT_SYSTEM_GATEWAY d = Inr gw"
    "post_group [(leg_of i (quantize_money a) TT_TOPUP)
        \<lparr>leg_idempotency_key := Some (topup_key pid), leg_reference_intent_id := Some pid\<rparr>,
      (leg_of (w_id gw) (- quantize_money a) TT_TOPUP)\<lparr>leg_reference_intent_id := Some pid\<rparr>]
      (next_id d) (d\<lparr>next_id := next_id d + 1\<rparr>) = Inr (b, d')"
  using assms by (auto simp: credit_topup_def fresh_def)

lemma release_escrow_posts:
  assumes "release_escrow_on_completion oid iid c p t r d = Inr (b, d')"
  obtains e tw rw where "get_system WT_SYSTEM_ESCROW d = Inr e"
    "get_system WT_SYSTEM_TAX_PAYABLE d = Inr tw" "get_system WT_SYSTEM_REVENUE d = Inr rw"
    "post_group (release_legs oid iid (w_id e) c (w_id tw) (w_id rw) (quantize_money p)
       (quantize_money t) (quantize_money r)) (next_id d) (d\<lparr>next_id := next_id d + 1\<rparr>) = Inr (b, d')"
  using assms by (auto simp: release_escrow_on_completion_def fresh_def)

lemma refund_escrow_posts:
  assumes "refund_escrow oid iid c a d = Inr (b, d')"
  obtains e where "get_system WT_SYSTEM_ESCROW d = Inr e"
    "post_group [(order_leg oid iid (w_id e) (- quantize_money a) TT_REFUND)
        \<lparr>leg_idempotency_key := Some (refund_key oid)\<rparr>,
      order_leg oid iid c (quantize_money a) TT_REFUND]
      (next_id d) (d\<lparr>next_id := next_id d + 1\<rparr>) = Inr (b, d')"
  using assms by (auto simp: refund_escrow_def fresh_def Let_def)

lemma split_escrow_posts:
  assumes "split_escrow oid iid c cu x y d = Inr (b, d')"
  obtains e where "get_system WT_SYSTEM_ESCROW d = Inr e"
    "post_group (split_legs oid iid (w_id e) c cu (quantize_money x) (quantize_money y))
      (next_id d) (d\<lparr>next_id := next_id d + 1\<rparr>) = Inr (b, d')"
  using assms by (auto simp: split_escrow_def fresh_def)

interpretation topup_move: money_move "credit_topup i a pid" for i a pid
  by unfold_locales
     (elim credit_topup_posts, rule conjI; erule post_fresh_ledger_ok; simp add: is_money_uminus)

interpretation release_move: money_move "release_escrow_on_completion oid iid c p t r"
  for oid iid c p t r
  by unfold_locales
     (elim release_escrow_posts, rule conjI; erule post_fresh_ledger_ok; simp add: legs_ok_release)

interpretation refund_move: money_move "refund_escrow oid iid c a" for oid iid c a
  by unfold_locales
     (elim refund_escrow_posts, rule conjI; erule post_fresh_ledger_ok; simp add: is_money_uminus)

interpretation split_move: money_move "split_escrow oid iid c cu x y" for oid iid c cu x y
  by unfold_locales
     (elim split_escrow_posts, rule conjI; erule post_fresh_ledger_ok; simp add: legs_ok_split)

lemma pay_withdrawal_posts:
  assumes "pay_withdrawal i a wid d = Inr (b, d')"
  obtains gw d1 where "get_system WT_SYSTEM_GATEWAY d = Inr gw"
    "post_group [(leg_of i (- quantize_money a) TT_WITHDRAWAL)
        \<lparr>leg_idempotency_key := Some (withdrawal_key wid),
         leg_description := Some (''Courier withdrawal '' @ str_uuid wid)\<rparr>,
      (leg_of (w_id gw) (quantize_money a) TT_WITHDRAWAL)
        \<lparr>leg_description := Some (''Courier withdrawal '' @ str_uuid wid)\<rparr>]
      (next_id d) (d\<lparr>next_id := next_id d + 1\<rparr>) = Inr (b, d1)"
    "if b then release_hold i (quantize_money a) d1 = Inr d' else d' = d1"
  using assms by (auto simp: pay_withdrawal_def fresh_def Let_def split: if_splits)

lemma fund_escrow_posts:
  assumes "fund_escrow_for_invoice cu a g iid oid pid held d = Inr (b, d')"
  obtains e gw d1 where "get_system WT_SYSTEM_ESCROW d = Inr e"
    "get_system WT_SYSTEM_GATEWAY d = Inr gw"
    "post_group (escrow_legs iid oid pid cu (w_id gw) (w_id e) (quantize_money a) (quantize_money g))
       (next_id d) (d\<lparr>next_id := next_id d + 1\<rparr>) = Inr (b, d1)"
    "if b \<and> held \<and> 0 < quantize_money a then release_hold cu (quantize_money a) d1 = Inr d' else d' = d1"
  using assms by (auto simp: fund_escrow_for_invoice_def fresh_def Let_def split: if_splits)

lemma post_then_release_ok:
  assumes "ledger_ok d1" "money_frame d d1"
    and "if c then release_hold i a d1 = Inr d' else d' = d1"
  shows "ledger_ok d' \<and> money_frame d d'"
  using assms by (auto split: if_splits elim!: release_hold_effect intro: money_frame_trans)

interpretation withdrawal_move: money_move "pay_withdrawal i a wid" for i a wid
proof unfold_locales
  fix d b d' assume ok: "ledger_ok d" and p: "pay_withdrawal i a wid d = Inr (b, d')"
  from p show "ledger_ok d' \<and> money_frame d d'"
    by (elim pay_withdrawal_posts, intro post_then_release_ok)
       (erule post_fresh_ledger_ok [OF _ ok], simp add: is_money_uminus)+
qed

interpretation fund_move: money_move "fund_escrow_for_invoice cu a g iid oid pid held"
  for cu a g iid oid pid held
proof unfold_locales
  fix d b d' assume ok: "ledger_ok d" and p: "fund_escrow_for_invoice cu a g iid oid pid held d = Inr (b, d')"
  from p show "ledger_ok d' \<and> money_frame d d'"
    by (elim fund_escrow_posts, intro post_then_release_ok)
       (erule post_fresh_ledger_ok [OF _ ok], simp add: legs_ok_escrow)+
qed

section \<open>Idempotency\<close>

lemma key_exists_append:
  "transactions d' = transactions d @ ts \<Longrightarrow>
     idempotency_key_exists k d' \<longleftrightarrow> idempotency_key_exists k d \<or> Some k \<in> tx_idempotency_key ` set ts"
  by (simp add: idempotency_key_exists_def list_ex_iff image_iff bex_Un eq_commute [of "Some k"])

lemma any_key_mono:
  "transactions d' = transactions d @ ts \<Longrightarrow> any_key_exists legs d \<Longrightarrow> any_key_exists legs d'"
  by (auto simp: any_key_exists_def list_ex_iff key_exists_append split: option.splits)

definition keyed :: "leg list \<Rightarrow> bool" where
  "keyed legs \<longleftrightarrow> list_ex (\<lambda>l. leg_idempotency_key l \<noteq> None \<and> leg_idempotency_key l \<noteq> Some []) legs"

lemma write_group_keys:
  assumes "write_group legs c d = Inr d'" "ledger_ok d" "legs_ok legs" "keyed legs"
  shows "any_key_exists legs d'"
proof -
  obtain ts where ts: "transactions d' = transactions d @ ts" "list_all2 (row_of_leg c) legs ts"
    using write_group_effect(5) [OF assms(1-3)] by blast
  have keys: "tx_idempotency_key ` set ts = leg_idempotency_key ` set legs"
    using rows_amounts(6) [OF ts(2)] by (metis set_map)
  obtain l k where "l \<in> set legs" "leg_idempotency_key l = Some k" "k \<noteq> []"
    using assms(4) by (auto simp: keyed_def list_ex_iff)
  then show ?thesis
    unfolding any_key_exists_def list_ex_iff
    by (intro bexI [of _ l]) (auto simp: key_exists_append [OF ts(1)] keys image_iff intro: sym)
qed

lemma write_group_key:
  assumes "write_group legs c d = Inr d'" "ledger_ok d" "legs_ok legs"
    and "\<exists>l \<in> set legs. leg_idempotency_key l = Some k"
  shows "idempotency_key_exists k d'"
proof -
  obtain ts where ts: "transactions d' = transactions d @ ts" "list_all2 (row_of_leg c) legs ts"
    using write_group_effect(5) [OF assms(1-3)] by blast
  have "Some k \<in> set (map leg_idempotency_key legs)" using assms(4) by force
  then show ?thesis
    unfolding key_exists_append [OF ts(1)] by (metis rows_amounts(6) [OF ts(2)] set_map)
qed

text \<open>A group whose key is in the ledger, but was not seen by the first check, cannot be written:
  either the unique index stops it and it is a replay, or an amount overflows its column.\<close>

lemma check_wallet_row_error: "check_wallet_row w = Inl e \<Longrightarrow> e = DataError \<or> e = IntegrityError"
  by (auto simp: check_wallet_row_def ensure_def split: if_splits)

lemma check_transaction_row_error:
  "check_transaction_row t rows = Inl e \<Longrightarrow> e = DataError \<or> e = IntegrityError"
  by (auto simp: check_transaction_row_def ensure_def split: if_splits)

lemma check_transaction_rows_error:
  "check_transaction_rows ts rows = Inl e \<Longrightarrow> e = DataError \<or> e = IntegrityError"
  by (induction ts rows rule: check_transaction_rows.induct)
     (auto simp: svc_err dest: check_transaction_row_error)

lemma check_transaction_rows_dup:
  assumes "t \<in> set ts" "tx_idempotency_key t = Some k" "Some k \<in> tx_idempotency_key ` set rows"
  shows "check_transaction_rows ts rows \<noteq> Inr u"
  using assms
proof (induction ts rows rule: check_transaction_rows.induct)
  case (2 x ts rows)
  show ?case
  proof (cases "x = t")
    case True
    with "2.prems" have "list_ex (\<lambda>r. tx_idempotency_key r = tx_idempotency_key x) rows"
      by (simp add: list_ex_iff image_iff eq_commute)
    with True "2.prems"(2) have "check_transaction_row x rows \<noteq> Inr ()"
      by (simp add: check_transaction_row_def)
    then show ?thesis by auto
  next
    case False
    with 2 show ?thesis by auto
  qed
qed simp

lemma fold_check_wallets_error:
  "fold_err (\<lambda>i u. or_raise (get_wallet i d) KeyError check_wallet_row) ids () = Inl e \<Longrightarrow>
     (\<forall>i \<in> set ids. get_wallet i d \<noteq> None) \<Longrightarrow> e = DataError \<or> e = IntegrityError"
  by (induction ids) (auto simp: svc_err dest: check_wallet_row_error)

lemma apply_leg_total:
  assumes "leg_wallet_id l \<in> w_id ` set (wallets d)"
  obtains d' where "apply_leg c l d = Inr d'" "map w_id (wallets d') = map w_id (wallets d)"
proof -
  obtain w where w: "get_wallet (leg_wallet_id l) d = Some w"
    using assms by (metis find_by_None get_wallet_def not_None_eq)
  then show thesis
    using that by (simp add: apply_leg_def append_transaction_def fresh_def put_wallet_def Let_def)
qed

lemma fold_legs_total:
  "leg_wallet_id ` set legs \<subseteq> w_id ` set (wallets d) \<Longrightarrow> \<exists>d'. fold_err (apply_leg c) legs d = Inr d'"
proof (induction legs arbitrary: d)
  case (Cons l legs)
  then have "leg_wallet_id l \<in> w_id ` set (wallets d)" by simp
  then obtain e where e: "apply_leg c l d = Inr e" "map w_id (wallets e) = map w_id (wallets d)"
    by (rule apply_leg_total)
  then have "w_id ` set (wallets e) = w_id ` set (wallets d)" by (metis set_map)
  with Cons e(1) show ?case by simp
qed simp

lemma write_group_stale:
  assumes ok: "ledger_ok d" and legs: "legs_ok legs"
    and ex: "leg_wallet_id ` set legs \<subseteq> w_id ` set (wallets d)"
    and dup: "any_key_exists legs d"
  shows "write_group legs c d = Inl IntegrityError \<or> write_group legs c d = Inl DataError"
proof -
  obtain d' where d': "fold_err (apply_leg c) legs d = Inr d'" using fold_legs_total [OF ex] by blast
  note E = fold_legs_effect [OF d']
  obtain ts where ts: "transactions d' = transactions d @ ts" "list_all2 (row_of_leg c) legs ts"
    and ws: "wallets d' = map (apply_legs legs) (wallets d)"
    using E ledger_okD(1,3) [OF ok] legs by (auto simp: legs_ok_def list_all_iff)
  obtain l k where l: "l \<in> set legs" "leg_idempotency_key l = Some k" "idempotency_key_exists k d"
    using dup by (auto simp: any_key_exists_def list_ex_iff split: option.splits)
  then have "Some k \<in> set (map tx_idempotency_key ts)"
    unfolding rows_amounts(6) [OF ts(2)] by (auto simp: image_iff intro: sym)
  then obtain t where t: "t \<in> set ts" "tx_idempotency_key t = Some k" by auto
  have "Some k \<in> tx_idempotency_key ` set (transactions d)"
    using l(3) by (auto simp: idempotency_key_exists_def list_ex_iff image_iff intro: sym)
  from check_transaction_rows_dup [OF t this] obtain e where
    e: "check_transaction_rows ts (transactions d) = Inl e"
    by (cases "check_transaction_rows ts (transactions d)") auto
  have "get_wallet i d' \<noteq> None" if "i \<in> leg_wallet_id ` set legs" for i
    using that ex by (auto simp: get_wallet_def find_by_None ws image_image)
  then show ?thesis
    using fold_check_wallets_error [of d' "sort (remdups (map leg_wallet_id legs))"]
      check_transaction_rows_error [OF e] e
    by (cases "fold_err (\<lambda>i u. or_raise (get_wallet i d') KeyError check_wallet_row)
          (sort (remdups (map leg_wallet_id legs))) ()")
       (auto simp: write_group_def d' flush_group_def ts(1))
qed

section \<open>A sample state\<close>

text \<open>The state after the baseline migration, with a funded customer: the four system wallets,
  a customer and a courier, and one top-up of 1000.00 in the ledger.\<close>

definition empty_db :: db where
  "empty_db = \<lparr>next_id = 0, users = [], courier_profiles = [], refresh_tokens = [],
     device_tokens = [], orders = [], order_medias = [], promos = [], invoices = [],
     invoice_items = [], promo_redemptions = [], payment_intents = [], wallet_topups = [],
     conversations = [], messages = [], wallets = [], transactions = [], withdrawals = [],
     ratings = [], disputes = [], admin_sessions = [], audit_logs = []\<rparr>"

definition new_wallet :: "uuid \<Rightarrow> uuid option \<Rightarrow> wallet_type \<Rightarrow> wallet" where
  "new_wallet i user t = \<lparr>w_id = i, w_user_id = user, w_type = t, w_balance = 0,
     w_held_balance = 0, w_currency = ''SAR'', w_version = 0\<rparr>"

definition seeded_db :: db where
  "seeded_db = empty_db\<lparr>next_id := 4, wallets :=
     [new_wallet 0 None WT_SYSTEM_ESCROW, new_wallet 1 None WT_SYSTEM_REVENUE,
      new_wallet 2 None WT_SYSTEM_GATEWAY, new_wallet 3 None WT_SYSTEM_TAX_PAYABLE]\<rparr>"

definition sample_db :: db where
  "sample_db = seeded_db\<lparr>next_id := 20, wallets := wallets seeded_db @
     [new_wallet 4 (Some 10) WT_CUSTOMER, new_wallet 5 (Some 11) WT_COURIER]\<rparr>"

definition funded_db :: db where
  "funded_db = (case credit_topup 4 1000 12 sample_db of Inr (b, d) \<Rightarrow> d | Inl e \<Rightarrow> sample_db)"

lemma sample_ledger_ok: "ledger_ok sample_db"
  by code_simp

section \<open>Balances after a movement\<close>

definition balance_of :: "uuid \<Rightarrow> db \<Rightarrow> money" where
  "balance_of i d = (case get_wallet i d of None \<Rightarrow> 0 | Some w \<Rightarrow> w_balance w)"

definition held_of :: "uuid \<Rightarrow> db \<Rightarrow> money" where
  "held_of i d = (case get_wallet i d of None \<Rightarrow> 0 | Some w \<Rightarrow> w_held_balance w)"

lemma find_by_map_key:
  "(\<And>x. key (f x) = key x) \<Longrightarrow> find_by key k (map f xs) = map_option f (find_by key k xs)"
  by (induction xs) (auto simp: find_by_Cons)

lemma balance_of_posted:
  assumes "wallets d' = map (apply_legs legs) (wallets d)"
    and "leg_wallet_id ` set legs \<subseteq> w_id ` set (wallets d)"
  shows "balance_of i d' = balance_of i d + legs_delta i legs"
proof (cases "get_wallet i d")
  case None
  then have "i \<notin> leg_wallet_id ` set legs"
    using assms(2) by (auto simp: get_wallet_def find_by_None)
  then show ?thesis
    using None by (simp add: balance_of_def get_wallet_def assms(1) find_by_map_key legs_delta_absent)
next
  case (Some w)
  then have "w_id w = i" by (rule wallet_tab.get_key)
  with Some show ?thesis
    by (simp add: balance_of_def get_wallet_def assms(1) find_by_map_key)
qed

lemma post_fresh_balance:
  assumes "post_group legs (next_id d) (d\<lparr>next_id := next_id d + 1\<rparr>) = Inr (b, d')"
    "ledger_ok d" "legs_ok legs"
  shows "balance_of i d' = balance_of i d + (if b then legs_delta i legs else 0)"
    and "held_of i d' = held_of i d"
proof -
  let ?e = "d\<lparr>next_id := next_id d + 1\<rparr>"
  have e: "ledger_ok ?e" using assms(2) by (intro ledger_ok_next_id) auto
  note P = post_fresh_ledger_ok [OF assms]
  have "leg_wallet_id ` set legs \<subseteq> w_id ` set (wallets d)" if b
    using post_group_cases [OF assms(1)] that write_group_effect(4) [OF _ e assms(3)] by force
  then show "balance_of i d' = balance_of i d + (if b then legs_delta i legs else 0)"
    using P(3) by (cases b) (auto simp: balance_of_posted, simp add: balance_of_def get_wallet_def)
  have "get_wallet i d' = (if b then map_option (apply_legs legs) (get_wallet i d) else get_wallet i d)"
    using P(3) by (simp add: get_wallet_def find_by_map_key)
  then show "held_of i d' = held_of i d"
    by (auto simp: held_of_def split: option.splits if_splits)
qed

lemma legs_delta_simps [simp]:
  "legs_delta i [] = 0"
  "legs_delta i (l # ls) = (if leg_wallet_id l = i then leg_amount l else 0) + legs_delta i ls"
  "legs_delta i (xs @ ys) = legs_delta i xs + legs_delta i ys"
  by (simp_all add: legs_delta_def)

lemma get_wallet_upd:
  assumes "wallets d' = map (\<lambda>x. if w_id x = i then f x else x) (wallets d)"
    and "\<And>x. w_id (f x) = w_id x"
  shows "get_wallet j d' = (if j = i then map_option f (get_wallet j d) else get_wallet j d)"
proof -
  have "get_wallet j d' = map_option (\<lambda>x. if w_id x = i then f x else x) (get_wallet j d)"
    unfolding get_wallet_def assms(1) by (rule find_by_map_key) (simp add: assms(2))
  then show ?thesis
    by (cases "get_wallet j d") (auto dest: wallet_tab.get_key)
qed

lemma release_hold_balances:
  assumes "release_hold i a d = Inr d'" "ledger_ok d"
  shows "balance_of j d' = balance_of j d"
    and "held_of j d' = (if j = i then max 0 (held_of j d - quantize_money a) else held_of j d)"
proof -
  obtain w where w: "get_wallet i d = Some w" and ws: "wallets d' = map (\<lambda>x. if w_id x = i
       then x\<lparr>w_held_balance := max 0 (w_held_balance w - quantize_money a),
              w_version := w_version w + 1\<rparr> else x) (wallets d)"
    by (rule release_hold_effect [OF assms])
  note G = get_wallet_upd [OF ws, of j]
  show "balance_of j d' = balance_of j d"
    "held_of j d' = (if j = i then max 0 (held_of j d - quantize_money a) else held_of j d)"
    using w by (auto simp: balance_of_def held_of_def G)
qed

lemma hold_funds_balances:
  assumes "hold_funds i a d = Inr d'" "ledger_ok d"
  shows "balance_of j d' = balance_of j d"
    and "held_of j d' = held_of j d + (if j = i then quantize_money a else 0)"
    and "held_of i d' \<le> balance_of i d'"
proof -
  obtain w where w: "get_wallet i d = Some w" "quantize_money a \<le> w_balance w - w_held_balance w"
    and ws: "wallets d' = map (\<lambda>x. if w_id x = i
       then x\<lparr>w_held_balance := w_held_balance w + quantize_money a,
              w_version := w_version w + 1\<rparr> else x) (wallets d)"
    by (rule hold_funds_effect [OF assms])
  note G = get_wallet_upd [OF ws]
  show "balance_of j d' = balance_of j d"
    "held_of j d' = held_of j d + (if j = i then quantize_money a else 0)"
    "held_of i d' \<le> balance_of i d'"
    using w by (auto simp: balance_of_def held_of_def G)
qed
section \<open>Properties\<close>

definition sample_legs :: "leg list" where
  "sample_legs = [(leg_of 4 1000 TT_TOPUP)\<lparr>leg_idempotency_key := Some ''k''\<rparr>, leg_of 2 (- 1000) TT_TOPUP]"

definition posted_db :: db where
  "posted_db = (case post_group sample_legs 19 sample_db of Inr (b, d) \<Rightarrow> d | Inl e \<Rightarrow> sample_db)"

lemma sample_post: "post_group sample_legs 19 sample_db = Inr (True, posted_db)"
proof -
  have "map_sum id fst (post_group sample_legs 19 sample_db) = Inr True" by code_simp
  then obtain d where "post_group sample_legs 19 sample_db = Inr (True, d)"
    by (cases "post_group sample_legs 19 sample_db") auto
  then show ?thesis by (simp add: posted_db_def)
qed

lemma sample_legs_ok: "legs_ok sample_legs" "keyed sample_legs" "fresh_correlation 19 sample_db"
  by code_simp+

text \<open>C5: posting a group of legs is atomic and conserves money.  From a sound ledger a call that
  returns leaves a sound ledger and the same sum over all wallets, and changes nothing outside
  wallets and ledger; when it reports a post, every wallet moved by exactly its legs and one
  row per leg was appended; when it reports a replay, nothing changed at all.\<close>

theorem post_group_conserves:
  assumes "ledger_ok d" and "legs_ok legs" and "fresh_correlation correlation d"
    and "post_group legs correlation d = Inr (posted, d')"
  shows "ledger_ok d' \<and> money_frame d d' \<and>
    sum_list (map w_balance (wallets d')) = sum_list (map w_balance (wallets d)) \<and>
    (if posted
     then wallets d' = map (apply_legs legs) (wallets d) \<and>
          (\<exists>rows. transactions d' = transactions d @ rows \<and>
             list_all2 (row_of_leg correlation) legs rows)
     else d' = d \<and> any_key_exists legs d)"
proof -
  note P = post_group_ledger_ok [OF assms(4,1,2,3)]
  have sum: "sum_list (map w_balance (wallets d')) = sum_list (map w_balance (wallets d))"
    by (simp only: ledger_total_zero [OF P(1)] ledger_total_zero [OF assms(1)])
  show ?thesis
  proof (cases posted)
    case True
    then have "write_group legs correlation d = Inr d'" using post_group_cases [OF assms(4)] by simp
    from write_group_effect(5) [OF this assms(1,2)] show ?thesis using P sum True by simp
  next
    case False
    then show ?thesis using P sum post_group_cases [OF assms(4)] by simp
  qed
qed

theorem post_group_conserves_witness:
  "ledger_ok posted_db \<and> wallets posted_db = map (apply_legs sample_legs) (wallets sample_db)"
  using post_group_conserves [OF sample_ledger_ok sample_legs_ok(1,3) sample_post] by simp

text \<open>A replay is a no-op.  Once a group with an idempotency key has been posted, posting it
  again under any correlation id reports a replay and leaves the state as it is.\<close>

theorem post_group_replay:
  assumes "ledger_ok d" and "legs_ok legs" and "keyed legs"
    and "post_group legs correlation d = Inr (True, d')"
  shows "post_group legs correlation' d' = Inr (False, d')"
proof -
  have w: "write_group legs correlation d = Inr d'" "validate_legs legs = Inr ()"
    using post_group_cases [OF assms(4)] by auto
  have "any_key_exists legs d'" by (rule write_group_keys [OF w(1) assms(1-3)])
  then show ?thesis by (simp add: post_group_def post_group_at_def w(2))
qed

theorem post_group_replay_witness: "post_group sample_legs 7 posted_db = Inr (False, posted_db)"
  by (rule post_group_replay [OF sample_ledger_ok sample_legs_ok(1,2) sample_post])

text \<open>the race on an idempotency key.  If another transaction posted the group after this one
  looked for its keys (the state \<open>seen\<close>), the write on the current state \<open>d\<close> cannot post it a
  second time: the unique index turns it into a replay that changes nothing, unless an amount
  does not fit its column, which is raised.\<close>

theorem post_group_race:
  assumes "ledger_ok d" and "legs_ok legs" and "validate_legs legs = Inr ()"
    and "leg_wallet_id ` set legs \<subseteq> w_id ` set (wallets d)"
    and "\<not> any_key_exists legs seen" and "any_key_exists legs d"
  shows "post_group_at seen legs correlation d = Inr (False, d)
    \<or> post_group_at seen legs correlation d = Inl DataError"
  using write_group_stale [OF assms(1,2,4,6), of correlation] assms(3,5,6)
  by (auto simp: post_group_at_def)

theorem post_group_race_witness:
  "post_group_at sample_db sample_legs 7 posted_db = Inr (False, posted_db)
    \<or> post_group_at sample_db sample_legs 7 posted_db = Inl DataError"
proof (rule post_group_race)
  show "ledger_ok posted_db" by code_simp
  show "legs_ok sample_legs" by (rule sample_legs_ok)
  show "validate_legs sample_legs = Inr ()" by code_simp
  show "leg_wallet_id ` set sample_legs \<subseteq> w_id ` set (wallets posted_db)" by code_simp
  show "\<not> any_key_exists sample_legs sample_db" by code_simp
  show "any_key_exists sample_legs posted_db" by code_simp
qed

text \<open>C9: reconciliation is sound and complete.  On a state whose amounts have two decimals it
  reports no drift exactly when every wallet's balance is the sum of its settled rows and every
  correlation group sums to zero.\<close>

theorem reconcile_iff:
  assumes "list_all (\<lambda>w. is_money (w_balance w)) (wallets d)"
    and "list_all (\<lambda>t. is_money (tx_amount t)) (transactions d)"
  shows "report_ok (reconcile d) \<longleftrightarrow>
    (\<forall>w \<in> set (wallets d). w_balance w = settled_balance (w_id w) d) \<and>
    (\<forall>c. group_sum tx_correlation_id d c = 0)"
proof -
  have m: "is_money (settled_balance i d)" for i
    unfolding settled_balance_def
    by (rule is_money_sum_list) (use assms(2) in \<open>auto simp: list_all_iff\<close>)
  have "group_sum tx_correlation_id d c = 0" if "c \<notin> tx_correlation_id ` set (settled d)" for c
  proof -
    from that have "filter (\<lambda>t. tx_correlation_id t = c) (settled d) = []"
      by (auto simp: filter_empty_conv)
    then show ?thesis by (simp add: group_sum_def)
  qed
  then have "(\<forall>t \<in> set (settled d). group_sum tx_correlation_id d (tx_correlation_id t) = 0)
      \<longleftrightarrow> (\<forall>c. group_sum tx_correlation_id d c = 0)" by (metis imageE)
  then show ?thesis
    using assms(1) by (auto simp: report_ok_def reconcile_no_drift_iff quantize_money_id m list_all_iff)
qed

theorem reconcile_iff_witness:
  "report_ok (reconcile posted_db) \<and> (\<forall>c. group_sum tx_correlation_id posted_db c = 0)"
proof -
  have "list_all (\<lambda>w. is_money (w_balance w)) (wallets posted_db)"
    "list_all (\<lambda>t. is_money (tx_amount t)) (transactions posted_db)" by code_simp+
  from reconcile_iff [OF this] show ?thesis
    using post_group_ledger_ok(1) [OF sample_post sample_ledger_ok sample_legs_ok(1,3)]
      ledger_ok_correlation ledger_okD(6) by blast
qed
text \<open>funding the escrow of an invoice moves exactly the wallet part from the customer and the
  gateway part from the gateway account into escrow, and frees the customer's hold by the
  wallet part when one was placed; a replay moves and frees nothing.\<close>

theorem fund_escrow_effect:
  assumes "ledger_ok d" and "is_money wallet_amount" and "is_money gateway_amount"
    and "0 \<le> wallet_amount" and "0 \<le> gateway_amount"
    and "get_system WT_SYSTEM_ESCROW d = Inr escrow" and "get_system WT_SYSTEM_GATEWAY d = Inr gateway"
    and "fund_escrow_for_invoice customer wallet_amount gateway_amount invoice_id order_id intent_id
      was_held d = Inr (posted, d')"
  shows "balance_of i d' = balance_of i d + (if posted then
      (if i = customer then - wallet_amount else 0) + (if i = w_id gateway then - gateway_amount else 0)
      + (if i = w_id escrow then wallet_amount + gateway_amount else 0) else 0) \<and>
    held_of i d' = (if posted \<and> was_held \<and> i = customer \<and> 0 < wallet_amount
      then max 0 (held_of i d - wallet_amount) else held_of i d)"
proof -
  note q = quantize_money_id [OF assms(2)] quantize_money_id [OF assms(3)]
  obtain d1 where p: "post_group (escrow_legs invoice_id order_id intent_id customer (w_id gateway)
        (w_id escrow) wallet_amount gateway_amount) (next_id d) (d\<lparr>next_id := next_id d + 1\<rparr>)
      = Inr (posted, d1)"
    and r: "if posted \<and> was_held \<and> 0 < wallet_amount
      then release_hold customer wallet_amount d1 = Inr d' else d' = d1"
    by (rule fund_escrow_posts [OF assms(8), unfolded q], rule that)
       (use assms(6,7) in simp_all)
  have legs: "legs_ok (escrow_legs invoice_id order_id intent_id customer (w_id gateway)
        (w_id escrow) wallet_amount gateway_amount)"
    using assms(2,3) by (rule legs_ok_escrow)
  have "quantize_money (wallet_amount + gateway_amount) = wallet_amount + gateway_amount"
    using assms(2,3) by (simp add: quantize_money_id is_money_add)
  then have delta: "legs_delta i (escrow_legs invoice_id order_id intent_id customer (w_id gateway)
        (w_id escrow) wallet_amount gateway_amount)
      = (if i = customer then - wallet_amount else 0) + (if i = w_id gateway then - gateway_amount else 0)
      + (if i = w_id escrow then wallet_amount + gateway_amount else 0)"
    using assms(4,5) by (auto simp: escrow_legs_def)
  note B = post_fresh_balance [OF p assms(1) legs, of i] and ok = post_fresh_ledger_ok(1) [OF p assms(1) legs]
  show ?thesis
    using r B delta release_hold_balances [OF _ ok, of customer wallet_amount d' i] q(1)
    by (auto split: if_splits)
qed

definition paid_db :: db where
  "paid_db = (case fund_escrow_for_invoice 4 300 200 7 8 None False posted_db of
     Inr (b, d) \<Rightarrow> d | Inl e \<Rightarrow> posted_db)"

lemma sample_fund: "fund_escrow_for_invoice 4 300 200 7 8 None False posted_db = Inr (True, paid_db)"
proof -
  have "map_sum id fst (fund_escrow_for_invoice 4 300 200 7 8 None False posted_db) = Inr True"
    by code_simp
  then obtain d where "fund_escrow_for_invoice 4 300 200 7 8 None False posted_db = Inr (True, d)"
    by (cases "fund_escrow_for_invoice 4 300 200 7 8 None False posted_db") auto
  then show ?thesis by (simp add: paid_db_def)
qed

lemma posted_ledger_ok: "ledger_ok posted_db"
  by (rule post_group_ledger_ok(1) [OF sample_post sample_ledger_ok sample_legs_ok(1,3)])

lemma posted_system:
  "get_system WT_SYSTEM_ESCROW posted_db = Inr (new_wallet 0 None WT_SYSTEM_ESCROW)"
  "map_sum id w_id (get_system WT_SYSTEM_GATEWAY posted_db) = Inr 2"
  by code_simp+

theorem fund_escrow_effect_witness: "balance_of 0 paid_db = 500 \<and> balance_of 4 paid_db = 700"
proof -
  obtain gw where gw: "get_system WT_SYSTEM_GATEWAY posted_db = Inr gw" "w_id gw = 2"
    using posted_system(2) by (cases "get_system WT_SYSTEM_GATEWAY posted_db") auto
  have m: "is_money 300" "is_money 200" by code_simp+
  have b: "balance_of 0 posted_db = 0" "balance_of 4 posted_db = 1000" by code_simp+
  show ?thesis
    using fund_escrow_effect [OF posted_ledger_ok m _ _ posted_system(1) gw(1) sample_fund, of 0]
      fund_escrow_effect [OF posted_ledger_ok m _ _ posted_system(1) gw(1) sample_fund, of 4]
    by (simp add: b gw(2) new_wallet_def)
qed

text \<open>completing an order pays the courier, the tax account and platform revenue out of escrow,
  each its part, and takes exactly their sum from escrow; a second release of the same order is
  a replay that pays nothing.\<close>

theorem release_escrow_effect:
  assumes "ledger_ok d" and "is_money payout" and "is_money tax" and "is_money revenue"
    and "get_system WT_SYSTEM_ESCROW d = Inr escrow"
    and "get_system WT_SYSTEM_TAX_PAYABLE d = Inr tax_wallet"
    and "get_system WT_SYSTEM_REVENUE d = Inr revenue_wallet"
    and "release_escrow_on_completion order_id invoice_id courier payout tax revenue d = Inr (True, d')"
  shows "balance_of i d' = balance_of i d + (if i = w_id escrow then - (payout + tax + revenue) else 0)
      + (if i = courier then payout else 0) + (if i = w_id tax_wallet then tax else 0)
      + (if i = w_id revenue_wallet then revenue else 0) \<and>
    (\<forall>inv c p t r posted d2. release_escrow_on_completion order_id inv c p t r d' = Inr (posted, d2)
       \<longrightarrow> \<not> posted \<and> wallets d2 = wallets d' \<and> transactions d2 = transactions d')"
proof -
  let ?legs = "release_legs order_id invoice_id (w_id escrow) courier (w_id tax_wallet)
    (w_id revenue_wallet) payout tax revenue"
  note q = quantize_money_id [OF assms(2)] quantize_money_id [OF assms(3)] quantize_money_id [OF assms(4)]
  have p: "post_group ?legs (next_id d) (d\<lparr>next_id := next_id d + 1\<rparr>) = Inr (True, d')"
    by (rule release_escrow_posts [OF assms(8)]) (use assms(5-7) in \<open>simp add: q\<close>)
  have legs: "legs_ok ?legs" using assms(2-4) by (rule legs_ok_release)
  have "quantize_money (payout + tax + revenue) = payout + tax + revenue"
    using assms(2-4) by (simp add: quantize_money_id is_money_add)
  then have delta: "legs_delta i ?legs = (if i = w_id escrow then - (payout + tax + revenue) else 0)
      + (if i = courier then payout else 0) + (if i = w_id tax_wallet then tax else 0)
      + (if i = w_id revenue_wallet then revenue else 0)"
    by (auto simp: release_legs_def)
  have "write_group ?legs (next_id d) (d\<lparr>next_id := next_id d + 1\<rparr>) = Inr d'"
    using post_group_cases [OF p] by simp
  then have key: "idempotency_key_exists (release_key order_id) d'"
    by (rule write_group_key) (use assms(1) legs in \<open>auto simp: ledger_ok_next_id release_legs_def\<close>)
  have "\<not> b \<and> wallets d2 = wallets d' \<and> transactions d2 = transactions d'"
    if "release_escrow_on_completion order_id inv c p t r d' = Inr (b, d2)" for inv c p t r b d2
  proof -
    have "any_key_exists (release_legs order_id inv e c tw rw x y z) (d'\<lparr>next_id := n\<rparr>)"
      for e tw rw x y z n
      using key by (simp add: any_key_exists_def release_legs_def idempotency_key_exists_def release_key_def)
    with that show ?thesis by (auto elim!: release_escrow_posts dest!: post_group_cases)
  qed
  moreover have "balance_of i d' = balance_of i d
      + (if i = w_id escrow then - (payout + tax + revenue) else 0)
      + (if i = courier then payout else 0) + (if i = w_id tax_wallet then tax else 0)
      + (if i = w_id revenue_wallet then revenue else 0)"
    using post_fresh_balance(1) [OF p assms(1) legs, of i] by (simp add: delta add.assoc)
  ultimately show ?thesis by blast
qed

definition sample_released :: "bool \<times> db" where
  "sample_released = (case release_escrow_on_completion 8 7 5 400 60 40 paid_db of
     Inr r \<Rightarrow> r | Inl e \<Rightarrow> (False, paid_db))"

lemma sample_release: "release_escrow_on_completion 8 7 5 400 60 40 paid_db = Inr (True, snd sample_released)"
proof -
  have "map_sum id fst (release_escrow_on_completion 8 7 5 400 60 40 paid_db) = Inr True"
    by code_simp
  then obtain d where "release_escrow_on_completion 8 7 5 400 60 40 paid_db = Inr (True, d)"
    by (cases "release_escrow_on_completion 8 7 5 400 60 40 paid_db") auto
  then show ?thesis by (simp add: sample_released_def)
qed

theorem release_escrow_effect_witness:
  "balance_of 5 (snd sample_released) = 400 \<and> balance_of 0 (snd sample_released) = 0"
proof -
  have sys: "map_sum id w_id (get_system WT_SYSTEM_ESCROW paid_db) = Inr 0"
    "map_sum id w_id (get_system WT_SYSTEM_TAX_PAYABLE paid_db) = Inr 3"
    "map_sum id w_id (get_system WT_SYSTEM_REVENUE paid_db) = Inr 1" by code_simp+
  obtain e t r where w: "get_system WT_SYSTEM_ESCROW paid_db = Inr e" "w_id e = 0"
    "get_system WT_SYSTEM_TAX_PAYABLE paid_db = Inr t" "w_id t = 3"
    "get_system WT_SYSTEM_REVENUE paid_db = Inr r" "w_id r = 1"
    using sys by (cases "get_system WT_SYSTEM_ESCROW paid_db";
        cases "get_system WT_SYSTEM_TAX_PAYABLE paid_db";
        cases "get_system WT_SYSTEM_REVENUE paid_db") auto
  have ok: "ledger_ok paid_db" using fund_move.keeps [OF posted_ledger_ok sample_fund] by simp
  have m: "is_money 400" "is_money 60" "is_money 40" by code_simp+
  have b: "balance_of 0 paid_db = 500" "balance_of 5 paid_db = 0" by code_simp+
  show ?thesis
    using release_escrow_effect [OF ok m w(1,3,5) sample_release, of 5]
      release_escrow_effect [OF ok m w(1,3,5) sample_release, of 0]
    by (simp add: b w)
qed

end
