(* ===== verification/Order_State.thy ===== *)
theory Order_State
  imports Enums
begin

text \<open>
  \<open>app/services/order_state.py\<close>: the table of legal order transitions and its two readers.
  The table as a step relation gives the reachable statuses of an order.
\<close>

definition transitions :: "(order_status \<times> order_status list) list" where
  "transitions =
     [(OS_NEW, [OS_ASSIGNED, OS_CANCELLED]),
      (OS_ASSIGNED, [OS_WAITING_PAYMENT, OS_CANCELLED]),
      (OS_WAITING_PAYMENT, [OS_IN_PROGRESS, OS_ASSIGNED, OS_CANCELLED]),
      (OS_IN_PROGRESS, [OS_DELIVERED, OS_DISPUTED]),
      (OS_DELIVERED, [OS_COMPLETED, OS_DISPUTED]),
      (OS_DISPUTED, [OS_COMPLETED, OS_REFUNDED]),
      (OS_COMPLETED, []), (OS_CANCELLED, []), (OS_REFUNDED, [])]"

definition can_transition :: "order_status \<Rightarrow> order_status \<Rightarrow> bool" where
  "can_transition current target =
     (case map_of transitions current of None \<Rightarrow> False | Some ts \<Rightarrow> target \<in> set ts)"

definition assert_transition :: "order_status \<Rightarrow> order_status \<Rightarrow> error + unit" where
  "assert_transition current target =
     (if can_transition current target then Inr () else Inl InvalidStateTransitionError)"

lemma assert_transition_Inr [simp]:
  "assert_transition c t = Inr u \<longleftrightarrow> can_transition c t"
  by (simp add: assert_transition_def)

lemma can_transition_simps [simp]:
  "can_transition OS_NEW t \<longleftrightarrow> t = OS_ASSIGNED \<or> t = OS_CANCELLED"
  "can_transition OS_ASSIGNED t \<longleftrightarrow> t = OS_WAITING_PAYMENT \<or> t = OS_CANCELLED"
  "can_transition OS_WAITING_PAYMENT t
     \<longleftrightarrow> t = OS_IN_PROGRESS \<or> t = OS_ASSIGNED \<or> t = OS_CANCELLED"
  "can_transition OS_IN_PROGRESS t \<longleftrightarrow> t = OS_DELIVERED \<or> t = OS_DISPUTED"
  "can_transition OS_DELIVERED t \<longleftrightarrow> t = OS_COMPLETED \<or> t = OS_DISPUTED"
  "can_transition OS_DISPUTED t \<longleftrightarrow> t = OS_COMPLETED \<or> t = OS_REFUNDED"
  "\<not> can_transition OS_COMPLETED t" "\<not> can_transition OS_CANCELLED t"
  "\<not> can_transition OS_REFUNDED t"
  by (auto simp: can_transition_def transitions_def)

text \<open>The sources of a target, the form in which the services' guards use the table.\<close>

lemma can_transition_target [simp]:
  "can_transition c OS_NEW \<longleftrightarrow> False"
  "can_transition c OS_ASSIGNED \<longleftrightarrow> c = OS_NEW \<or> c = OS_WAITING_PAYMENT"
  "can_transition c OS_WAITING_PAYMENT \<longleftrightarrow> c = OS_ASSIGNED"
  "can_transition c OS_IN_PROGRESS \<longleftrightarrow> c = OS_WAITING_PAYMENT"
  "can_transition c OS_DELIVERED \<longleftrightarrow> c = OS_IN_PROGRESS"
  "can_transition c OS_COMPLETED \<longleftrightarrow> c = OS_DELIVERED \<or> c = OS_DISPUTED"
  "can_transition c OS_CANCELLED \<longleftrightarrow> c = OS_NEW \<or> c = OS_ASSIGNED \<or> c = OS_WAITING_PAYMENT"
  "can_transition c OS_DISPUTED \<longleftrightarrow> c = OS_IN_PROGRESS \<or> c = OS_DELIVERED"
  "can_transition c OS_REFUNDED \<longleftrightarrow> c = OS_DISPUTED"
  by (cases c; simp)+

section \<open>The table as a state machine\<close>

inductive order_path :: "order_status \<Rightarrow> order_status \<Rightarrow> bool" where
  path_refl: "order_path s s"
| path_step: "order_path s t \<Longrightarrow> can_transition t u \<Longrightarrow> order_path s u"

inductive_cases order_pathE: "order_path s t"

lemma order_path_trans: "order_path t u \<Longrightarrow> order_path s t \<Longrightarrow> order_path s u"
  by (induction rule: order_path.induct) (auto intro: order_path.intros)

definition terminal :: "order_status \<Rightarrow> bool" where
  "terminal s \<longleftrightarrow> s = OS_COMPLETED \<or> s = OS_CANCELLED \<or> s = OS_REFUNDED"

lemma terminal_stays:
  assumes "order_path s t" and "terminal s"
  shows "t = s"
  using assms by (induction rule: order_path.induct) (auto simp: terminal_def)

text \<open>Statuses from which the escrow of an order has been funded.\<close>

definition funded :: "order_status \<Rightarrow> bool" where
  "funded s \<longleftrightarrow> s \<in> {OS_IN_PROGRESS, OS_DELIVERED, OS_DISPUTED, OS_COMPLETED, OS_REFUNDED}"

lemma funded_closed:
  assumes "order_path s t" and "funded s"
  shows "funded t"
  using assms
proof (induction rule: order_path.induct)
  case (path_step s t u)
  then show ?case by (cases t) (auto simp: funded_def)
qed

section \<open>Properties\<close>

text \<open>the order state machine.  A completed, cancelled or refunded order can never change
  its status again; every status is reachable from \<open>NEW\<close>; once an order is in progress (its
  escrow is funded) no path leads back to a status in which it could be cancelled or invoiced
  again.\<close>

theorem order_state_machine:
  "(\<forall>s t. terminal s \<longrightarrow> order_path s t \<longrightarrow> t = s) \<and> (\<forall>s. order_path OS_NEW s) \<and>
   (\<forall>s t. funded s \<longrightarrow> order_path s t \<longrightarrow>
      funded t \<and> \<not> can_transition t OS_CANCELLED \<and> \<not> can_transition t OS_WAITING_PAYMENT)"
proof (intro conjI allI impI)
  fix s
  have n: "order_path OS_NEW OS_NEW" by (rule path_refl)
  have a: "order_path OS_NEW OS_ASSIGNED" using path_step [OF n] by simp
  have w: "order_path OS_NEW OS_WAITING_PAYMENT" using path_step [OF a] by simp
  have i: "order_path OS_NEW OS_IN_PROGRESS" using path_step [OF w] by simp
  have d: "order_path OS_NEW OS_DELIVERED" using path_step [OF i] by simp
  have x: "order_path OS_NEW OS_DISPUTED" using path_step [OF i] by simp
  show "order_path OS_NEW s"
    using n a w i d x path_step [OF n] path_step [OF d] path_step [OF x] by (cases s) auto
next
  fix s t assume "terminal s" "order_path s t"
  then show "t = s" by (rule terminal_stays [rotated])
next
  fix s t assume *: "funded s" "order_path s t"
  then show ft: "funded t" by (rule funded_closed [rotated])
  then show "\<not> can_transition t OS_CANCELLED" "\<not> can_transition t OS_WAITING_PAYMENT"
    by (auto simp: funded_def)
qed

theorem order_state_machine_witness:
  "order_path OS_NEW OS_REFUNDED \<and> \<not> can_transition OS_REFUNDED OS_CANCELLED"
proof -
  have "funded OS_REFUNDED" by (simp add: funded_def)
  then show ?thesis using order_state_machine by (metis order_path.path_refl)
qed

end
