(* ===== verification/Config.thy ===== *)
theory Config
  imports Money
begin

text \<open>
  \<open>app/core/config.py\<close>, \<open>app/integrations/_guard.py\<close> and \<open>app/integrations/factory.py\<close>: the
  settings of the process, the boot validation and the construction of the integration
  clients.  The settings are grouped by the headings of the class; the two connection URLs,
  the log level and the field texts that only third-party clients read are left out.
  A \<open>SecretStr\<close> is a wrapper of its own: it never equals a plain string.  The JSON text of
  \<open>FIELD_ENCRYPTION_KEYS\<close> is kept as what \<open>json.loads\<close> and \<open>b64decode\<close> make of it, \<open>None\<close>
  when they raise; text is ASCII, so \<open>encode("utf-8")\<close> is the identity.
\<close>

section \<open>Settings\<close>

datatype environment = ENV_DEVELOPMENT | ENV_TEST | ENV_PRODUCTION

datatype secret_str = SecretStr (get_secret_value: string)

datatype jwt_algorithm = HS256 | RS256

record jwt_settings =
  JWT_SECRET :: "secret_str option"
  JWT_PRIVATE_KEY :: "secret_str option"
  JWT_PUBLIC_KEY :: "secret_str option"
  JWT_ALGORITHM :: jwt_algorithm
  JWT_ACCESS_TTL_MINUTES :: int
  JWT_REFRESH_TTL_DAYS :: int
  JWT_ISSUER :: string
  JWT_AUDIENCE :: string

record encryption_settings =
  FIELD_ENCRYPTION_KEYS :: "(nat \<times> string) list option"
  FIELD_ENCRYPTION_KEY_VERSION :: nat
  IDENTITY_FINGERPRINT_PEPPER :: secret_str

record integration_settings =
  STREAMPAY_API_KEY :: "secret_str option"
  STREAMPAY_API_SECRET :: "secret_str option"
  STREAMPAY_WEBHOOK_SECRET :: "secret_str option"
  AWS_REGION :: "string option"
  AWS_ACCESS_KEY_ID :: "secret_str option"
  AWS_SECRET_ACCESS_KEY :: "secret_str option"
  S3_BUCKET_NAME :: "string option"
  CLOUDFRONT_DOMAIN :: "string option"
  CLOUDFRONT_KEY_PAIR_ID :: "string option"
  CLOUDFRONT_PRIVATE_KEY :: "secret_str option"
  SMS_PROVIDER_KEY :: "secret_str option"
  SUPABASE_URL :: "string option"
  SUPABASE_SERVICE_KEY :: "secret_str option"
  SNDR_API_KEY :: "secret_str option"
  SNDR_BASE_URL :: "string option"
  SNDR_FROM_EMAIL :: "string option"
  SNDR_FROM_NAME :: "string option"
  SNDR_INVOICE_PAID_TEMPLATE_KEY :: "string option"

record admin_settings =
  ADMIN_USERNAME :: "string option"
  ADMIN_PASSWORD :: "secret_str option"
  ADMIN_SESSION_SECRET :: "secret_str option"
  ADMIN_SESSION_TTL_MINUTES :: int
  ADMIN_DASHBOARD_ENABLED :: bool

record hardening_settings =
  CORS_ALLOWED_ORIGINS :: string
  RATE_LIMIT_ENABLED :: bool
  RATE_LIMIT_MAX_REQUESTS :: int
  RATE_LIMIT_WINDOW_SECONDS :: int
  MAX_REQUEST_BODY_BYTES :: int
  WS_RATE_LIMIT_MAX_MESSAGES :: int
  WS_RATE_LIMIT_WINDOW_SECONDS :: int
  WS_MAX_FRAME_BYTES :: int
  OTP_HMAC_KEY :: "secret_str option"
  REFRESH_TOKEN_RETENTION_DAYS :: int

record business_settings =
  DEFAULT_VAT_RATE :: rat
  SERVICE_FEE_RATE :: rat
  SERVICE_FEE_MIN_AMOUNT :: money
  SERVICE_FEE_MAX_AMOUNT :: money
  PLATFORM_COMMISSION_RATE :: rat
  MAX_INVOICE_ITEMS :: int
  MAX_INVOICE_AMOUNT :: money
  MAX_ITEM_UNIT_PRICE :: money
  MIN_TOPUP_AMOUNT :: money
  MAX_TOPUP_AMOUNT :: money
  MIN_WITHDRAWAL_AMOUNT :: money
  MAX_WITHDRAWAL_AMOUNT :: money
  MAX_DELIVERY_RADIUS_METERS :: int
  AUTO_APPROVE_HOURS :: int
  PAYMENT_EXPIRY_HOURS :: int
  MAX_UPLOAD_BYTES :: int
  OTP_TTL_SECONDS :: int
  OTP_MAX_PER_WINDOW :: int
  OTP_WINDOW_SECONDS :: int
  OTP_BLOCK_SECONDS :: int

record settings =
  ENVIRONMENT :: environment
  DEBUG :: bool
  jwt_of :: jwt_settings
  encryption_of :: encryption_settings
  integration_of :: integration_settings
  admin_of :: admin_settings
  hardening_of :: hardening_settings
  business_of :: business_settings

text \<open>The defaults of the business rules, as the class declares them.\<close>

definition default_business :: business_settings where
  "default_business =
     \<lparr>DEFAULT_VAT_RATE = 15 / 100, SERVICE_FEE_RATE = 5 / 100, SERVICE_FEE_MIN_AMOUNT = 5,
      SERVICE_FEE_MAX_AMOUNT = 500, PLATFORM_COMMISSION_RATE = 10 / 100, MAX_INVOICE_ITEMS = 20,
      MAX_INVOICE_AMOUNT = 50000, MAX_ITEM_UNIT_PRICE = 50000, MIN_TOPUP_AMOUNT = 100,
      MAX_TOPUP_AMOUNT = 20000, MIN_WITHDRAWAL_AMOUNT = 50, MAX_WITHDRAWAL_AMOUNT = 20000,
      MAX_DELIVERY_RADIUS_METERS = 200, AUTO_APPROVE_HOURS = 72, PAYMENT_EXPIRY_HOURS = 48,
      MAX_UPLOAD_BYTES = 10485760, OTP_TTL_SECONDS = 180, OTP_MAX_PER_WINDOW = 3,
      OTP_WINDOW_SECONDS = 300, OTP_BLOCK_SECONDS = 1800\<rparr>"

section \<open>Derived helpers\<close>

definition is_production :: "settings \<Rightarrow> bool" where
  "is_production s \<longleftrightarrow> ENVIRONMENT s = ENV_PRODUCTION"

definition docs_enabled :: "settings \<Rightarrow> bool" where
  "docs_enabled s \<longleftrightarrow> ENVIRONMENT s = ENV_DEVELOPMENT"

fun split_on :: "char \<Rightarrow> string \<Rightarrow> string list" where
  "split_on c [] = [[]]"
| "split_on c (x # xs) =
     (if x = c then [] # split_on c xs
      else case split_on c xs of [] \<Rightarrow> [[x]] | w # ws \<Rightarrow> (x # w) # ws)"

definition cors_origins :: "settings \<Rightarrow> string list" where
  "cors_origins s = filter (\<lambda>x. x \<noteq> [])
     (map strip (split_on (CHR '','') (CORS_ALLOWED_ORIGINS (hardening_of s))))"

definition encryption_keys :: "settings \<Rightarrow> error + (nat \<times> string) list" where
  "encryption_keys s = or_raise (FIELD_ENCRYPTION_KEYS (encryption_of s)) ValueError Inr"

section \<open>Boot validation\<close>

definition validate_encryption_keys :: "settings \<Rightarrow> error + unit" where
  "validate_encryption_keys s =
     and_then (encryption_keys s) (\<lambda>ks.
     ensure (list_all (\<lambda>(v, k). length k = 32) ks) ValueError
     (ensure (FIELD_ENCRYPTION_KEY_VERSION (encryption_of s) \<in> set (map fst ks)) ValueError
     (let pepper = get_secret_value (IDENTITY_FINGERPRINT_PEPPER (encryption_of s))
      in ensure (pepper \<notin> set (map snd ks)) ValueError
         (ensure (32 \<le> length pepper) ValueError (Inr ())))))"

definition validate_jwt :: "settings \<Rightarrow> error + unit" where
  "validate_jwt s =
     (case JWT_ALGORITHM (jwt_of s) of
        HS256 \<Rightarrow> or_raise (JWT_SECRET (jwt_of s)) ValueError (\<lambda>k.
          ensure (32 \<le> length (get_secret_value k)) ValueError (Inr ()))
      | RS256 \<Rightarrow> ensure (JWT_PRIVATE_KEY (jwt_of s) \<noteq> None \<and> JWT_PUBLIC_KEY (jwt_of s) \<noteq> None)
          ValueError (Inr ()))"

definition validate_rates :: "settings \<Rightarrow> error + unit" where
  "validate_rates s =
     (let b = business_of s
      in ensure (list_all (\<lambda>r. 0 \<le> r \<and> r \<le> 1)
           [SERVICE_FEE_RATE b, DEFAULT_VAT_RATE b, PLATFORM_COMMISSION_RATE b]) ValueError
         (ensure (50 \<le> MIN_WITHDRAWAL_AMOUNT b) ValueError
         (ensure (MIN_WITHDRAWAL_AMOUNT b \<le> MAX_WITHDRAWAL_AMOUNT b) ValueError (Inr ()))))"

definition validate_admin :: "settings \<Rightarrow> error + unit" where
  "validate_admin s =
     (let a = admin_of s
      in if ADMIN_DASHBOARD_ENABLED a
         then ensure (ADMIN_USERNAME a \<noteq> None \<and> ADMIN_USERNAME a \<noteq> Some []) ValueError
           (or_raise (ADMIN_PASSWORD a) ValueError (\<lambda>p.
            let password = get_secret_value p
            in ensure (password \<noteq> []) ValueError
              (or_raise (ADMIN_SESSION_SECRET a) ValueError (\<lambda>k.
               ensure (32 \<le> length (get_secret_value k)) ValueError
              (ensure (\<not> (is_production s \<and>
                  ((ADMIN_USERNAME a = Some ''admin'' \<and> ADMIN_USERNAME a = Some password)
                   \<or> length password < 12))) ValueError (Inr ()))))))
         else Inr ())"

text \<open>
  \<open>getattr(self, name) in (None, "")\<close>: membership compares with \<open>==\<close>, so an empty plain text
  is rejected and an empty \<open>SecretStr\<close> is not.
\<close>

datatype field_value = Text "string option" | Secret "secret_str option"

definition missing :: "field_value \<Rightarrow> bool" where
  "missing f = (case f of Text t \<Rightarrow> t = None \<or> t = Some [] | Secret k \<Rightarrow> k = None)"

definition production_fields :: "settings \<Rightarrow> field_value list" where
  "production_fields s =
     (let i = integration_of s
      in [Secret (STREAMPAY_API_KEY i), Secret (STREAMPAY_API_SECRET i),
          Secret (STREAMPAY_WEBHOOK_SECRET i), Text (AWS_REGION i), Secret (AWS_ACCESS_KEY_ID i),
          Secret (AWS_SECRET_ACCESS_KEY i), Text (S3_BUCKET_NAME i), Text (CLOUDFRONT_DOMAIN i),
          Text (CLOUDFRONT_KEY_PAIR_ID i), Secret (CLOUDFRONT_PRIVATE_KEY i),
          Secret (SMS_PROVIDER_KEY i), Text (SUPABASE_URL i), Secret (SUPABASE_SERVICE_KEY i),
          Secret (SNDR_API_KEY i), Text (SNDR_BASE_URL i), Text (SNDR_FROM_EMAIL i),
          Text (SNDR_FROM_NAME i), Text (SNDR_INVOICE_PAID_TEMPLATE_KEY i)])"

definition require_production_fields :: "settings \<Rightarrow> error + unit" where
  "require_production_fields s =
     ensure (\<not> list_ex missing (production_fields s)) ValueError (Inr ())"

definition validate_production_interlock :: "settings \<Rightarrow> error + unit" where
  "validate_production_interlock s =
     ensure (\<not> DEBUG s) ValueError
     (ensure (\<not> docs_enabled s) ValueError
     (ensure (cors_origins s \<noteq> []) ValueError
     (ensure (''*'' \<notin> set (cors_origins s)) ValueError
     (require_production_fields s))))"

definition validate_boot :: "settings \<Rightarrow> error + unit" where
  "validate_boot s =
     and_then (validate_encryption_keys s) (\<lambda>_.
     and_then (validate_jwt s) (\<lambda>_.
     and_then (validate_rates s) (\<lambda>_.
     and_then (validate_admin s) (\<lambda>_.
     if is_production s then validate_production_interlock s else Inr ()))))"

section \<open>Construction of the clients\<close>

datatype client = Real string | Fake

record clients =
  gateway_client :: client   \<comment> \<open>with its webhook secret\<close>
  email_client :: client
  sms_client :: client
  push_client :: client
  storage_client :: client

definition forbid_in_production :: "environment \<Rightarrow> error + unit" where
  "forbid_in_production e = ensure (e \<noteq> ENV_PRODUCTION) ProductionFakeError (Inr ())"

definition fake_client :: "environment \<Rightarrow> error + client" where
  "fake_client e = and_then (forbid_in_production e) (\<lambda>_. Inr Fake)"

definition required_secret :: "secret_str option \<Rightarrow> error + string" where
  "required_secret v = or_raise v RuntimeError (\<lambda>k. Inr (get_secret_value k))"

definition secret_or_empty :: "secret_str option \<Rightarrow> string" where
  "secret_or_empty v = (case v of None \<Rightarrow> [] | Some k \<Rightarrow> get_secret_value k)"

definition build_production_clients :: "settings \<Rightarrow> error + clients" where
  "build_production_clients s =
     (let i = integration_of s
      in and_then (required_secret (STREAMPAY_API_KEY i)) (\<lambda>_.
         and_then (required_secret (STREAMPAY_API_SECRET i)) (\<lambda>_.
         and_then (required_secret (STREAMPAY_WEBHOOK_SECRET i)) (\<lambda>hook.
         and_then (required_secret (SNDR_API_KEY i)) (\<lambda>email.
         and_then (required_secret (AWS_ACCESS_KEY_ID i)) (\<lambda>_.
         and_then (required_secret (AWS_SECRET_ACCESS_KEY i)) (\<lambda>aws.
         and_then (required_secret (CLOUDFRONT_PRIVATE_KEY i)) (\<lambda>_.
         Inr \<lparr>gateway_client = Real hook, email_client = Real email,
              sms_client = Real (secret_or_empty (SMS_PROVIDER_KEY i)),
              push_client = Real (secret_or_empty (SUPABASE_SERVICE_KEY i)),
              storage_client = Real aws\<rparr>))))))))"

definition build_fake_clients :: "environment \<Rightarrow> error + clients" where
  "build_fake_clients e =
     and_then (fake_client e) (\<lambda>g. and_then (fake_client e) (\<lambda>m. and_then (fake_client e) (\<lambda>s.
     and_then (fake_client e) (\<lambda>p. and_then (fake_client e) (\<lambda>st.
     Inr \<lparr>gateway_client = g, email_client = m, sms_client = s, push_client = p,
          storage_client = st\<rparr>)))))"

definition build_clients :: "settings \<Rightarrow> error + clients" where
  "build_clients s =
     (if is_production s then build_production_clients s else build_fake_clients (ENVIRONMENT s))"

section \<open>What a validated configuration guarantees\<close>

definition client_list :: "clients \<Rightarrow> client list" where
  "client_list c = [gateway_client c, email_client c, sms_client c, push_client c, storage_client c]"

lemma required_secret_some [simp]: "required_secret (Some k) = Inr (get_secret_value k)"
  by (simp add: required_secret_def)

lemma validate_boot_parts:
  assumes "validate_boot s = Inr ()"
  shows "validate_encryption_keys s = Inr ()" and "validate_jwt s = Inr ()"
    and "validate_rates s = Inr ()" and "validate_admin s = Inr ()"
    and "is_production s \<Longrightarrow> validate_production_interlock s = Inr ()"
  using assms by (auto simp: validate_boot_def split: if_splits)

lemma boot_keys:
  assumes "validate_boot s = Inr ()"
  obtains ks where "encryption_keys s = Inr ks" and "\<forall>(v, k) \<in> set ks. length k = 32"
    and "FIELD_ENCRYPTION_KEY_VERSION (encryption_of s) \<in> fst ` set ks"
  using validate_boot_parts(1) [OF assms]
  by (auto simp: validate_encryption_keys_def list_all_iff)

lemma boot_rates:
  assumes "validate_boot s = Inr ()"
  shows "0 \<le> SERVICE_FEE_RATE (business_of s)" "SERVICE_FEE_RATE (business_of s) \<le> 1"
    "0 \<le> DEFAULT_VAT_RATE (business_of s)" "DEFAULT_VAT_RATE (business_of s) \<le> 1"
    "0 \<le> PLATFORM_COMMISSION_RATE (business_of s)" "PLATFORM_COMMISSION_RATE (business_of s) \<le> 1"
    "50 \<le> MIN_WITHDRAWAL_AMOUNT (business_of s)"
  using validate_boot_parts(3) [OF assms] by (simp_all add: validate_rates_def Let_def)

lemma production_secrets:
  assumes "require_production_fields s = Inr ()"
  shows "STREAMPAY_API_KEY (integration_of s) \<noteq> None"
    "STREAMPAY_API_SECRET (integration_of s) \<noteq> None"
    "STREAMPAY_WEBHOOK_SECRET (integration_of s) \<noteq> None"
    "SNDR_API_KEY (integration_of s) \<noteq> None" "AWS_ACCESS_KEY_ID (integration_of s) \<noteq> None"
    "AWS_SECRET_ACCESS_KEY (integration_of s) \<noteq> None"
    "CLOUDFRONT_PRIVATE_KEY (integration_of s) \<noteq> None"
  using assms
  by (simp_all add: require_production_fields_def production_fields_def missing_def Let_def)

lemma build_production_ok:
  assumes "require_production_fields s = Inr ()"
  obtains c where "build_production_clients s = Inr c" and "Fake \<notin> set (client_list c)"
proof -
  from production_secrets [OF assms] obtain a b c d e f g where
    "STREAMPAY_API_KEY (integration_of s) = Some a"
    "STREAMPAY_API_SECRET (integration_of s) = Some b"
    "STREAMPAY_WEBHOOK_SECRET (integration_of s) = Some c"
    "SNDR_API_KEY (integration_of s) = Some d" "AWS_ACCESS_KEY_ID (integration_of s) = Some e"
    "AWS_SECRET_ACCESS_KEY (integration_of s) = Some f"
    "CLOUDFRONT_PRIVATE_KEY (integration_of s) = Some g"
    by (auto simp: not_None_eq)
  then show ?thesis
    by (intro that) (auto simp: build_production_clients_def client_list_def Let_def)
qed

section \<open>Sample configurations\<close>

definition text32 :: "char \<Rightarrow> string" where
  "text32 c = replicate 32 c"

definition sample_settings :: settings where
  "sample_settings =
     \<lparr>ENVIRONMENT = ENV_TEST, DEBUG = False,
      jwt_of = \<lparr>JWT_SECRET = Some (SecretStr (text32 CHR ''j'')), JWT_PRIVATE_KEY = None,
        JWT_PUBLIC_KEY = None, JWT_ALGORITHM = HS256, JWT_ACCESS_TTL_MINUTES = 30,
        JWT_REFRESH_TTL_DAYS = 30, JWT_ISSUER = ''safe-gift'', JWT_AUDIENCE = ''safe-gift''\<rparr>,
      encryption_of = \<lparr>FIELD_ENCRYPTION_KEYS = Some [(1, text32 CHR ''k'')],
        FIELD_ENCRYPTION_KEY_VERSION = 1,
        IDENTITY_FINGERPRINT_PEPPER = SecretStr (text32 CHR ''p'')\<rparr>,
      integration_of = \<lparr>STREAMPAY_API_KEY = None, STREAMPAY_API_SECRET = None,
        STREAMPAY_WEBHOOK_SECRET = None, AWS_REGION = None, AWS_ACCESS_KEY_ID = None,
        AWS_SECRET_ACCESS_KEY = None, S3_BUCKET_NAME = None, CLOUDFRONT_DOMAIN = None,
        CLOUDFRONT_KEY_PAIR_ID = None, CLOUDFRONT_PRIVATE_KEY = None, SMS_PROVIDER_KEY = None,
        SUPABASE_URL = None, SUPABASE_SERVICE_KEY = None, SNDR_API_KEY = None,
        SNDR_BASE_URL = None, SNDR_FROM_EMAIL = None, SNDR_FROM_NAME = None,
        SNDR_INVOICE_PAID_TEMPLATE_KEY = None\<rparr>,
      admin_of = \<lparr>ADMIN_USERNAME = None, ADMIN_PASSWORD = None, ADMIN_SESSION_SECRET = None,
        ADMIN_SESSION_TTL_MINUTES = 60, ADMIN_DASHBOARD_ENABLED = False\<rparr>,
      hardening_of = \<lparr>CORS_ALLOWED_ORIGINS = ''https://a.sa, https://b.sa'',
        RATE_LIMIT_ENABLED = True, RATE_LIMIT_MAX_REQUESTS = 120, RATE_LIMIT_WINDOW_SECONDS = 60,
        MAX_REQUEST_BODY_BYTES = 1048576, WS_RATE_LIMIT_MAX_MESSAGES = 30,
        WS_RATE_LIMIT_WINDOW_SECONDS = 60, WS_MAX_FRAME_BYTES = 4096, OTP_HMAC_KEY = None,
        REFRESH_TOKEN_RETENTION_DAYS = 30\<rparr>,
      business_of = default_business\<rparr>"

text \<open>A production configuration whose secrets are all set to the empty text.\<close>

definition empty_secrets :: integration_settings where
  "empty_secrets =
     (let e = Some (SecretStr []); t = Some ''x''
      in \<lparr>STREAMPAY_API_KEY = e, STREAMPAY_API_SECRET = e,
        STREAMPAY_WEBHOOK_SECRET = e, AWS_REGION = t, AWS_ACCESS_KEY_ID = e,
        AWS_SECRET_ACCESS_KEY = e, S3_BUCKET_NAME = t, CLOUDFRONT_DOMAIN = t,
        CLOUDFRONT_KEY_PAIR_ID = t, CLOUDFRONT_PRIVATE_KEY = e, SMS_PROVIDER_KEY = e,
        SUPABASE_URL = t, SUPABASE_SERVICE_KEY = e, SNDR_API_KEY = e,
        SNDR_BASE_URL = t, SNDR_FROM_EMAIL = t, SNDR_FROM_NAME = t,
        SNDR_INVOICE_PAID_TEMPLATE_KEY = t\<rparr>)"

definition production_settings :: settings where
  "production_settings =
     sample_settings\<lparr>ENVIRONMENT := ENV_PRODUCTION, integration_of := empty_secrets\<rparr>"

lemma production_settings_boot: "validate_boot production_settings = Inr ()"
  by code_simp



end
