(* ===== verification/Redis_Store.thy ===== *)
theory Redis_Store
  imports Config
begin

text \<open>
  The Redis commands the program issues, \<open>app/core/locks.py\<close> and \<open>app/core/ratelimit.py\<close>.  A
  store maps a key to its value and the instant it expires at, in milliseconds; a key is gone
  after that instant.  Counters are kept as decimal text, the way \<open>INCR\<close> keeps them.  \<open>TTL\<close>
  rounds to the nearest second, so a live key can report a remaining time of zero.  A Lua script
  and a single command are one step of the store.  Unlike the database, the store is not
  rolled back when a request fails.
\<close>

type_synonym ms = int
type_synonym redis = "string \<Rightarrow> (string \<times> ms option) option"

named_theorems redis_defs \<open>the commands of the store\<close>

section \<open>Commands\<close>

definition rlive :: "ms \<Rightarrow> redis \<Rightarrow> string \<Rightarrow> (string \<times> ms option) option" where
  [redis_defs]: "rlive t r k =
     (case r k of None \<Rightarrow> None | Some (v, None) \<Rightarrow> Some (v, None)
      | Some (v, Some e) \<Rightarrow> if t \<le> e then Some (v, Some e) else None)"

definition rget :: "ms \<Rightarrow> redis \<Rightarrow> string \<Rightarrow> string option" where
  [redis_defs]: "rget t r k = map_option fst (rlive t r k)"

definition rttl :: "ms \<Rightarrow> redis \<Rightarrow> string \<Rightarrow> int" where
  "rttl t r k =
     (case rlive t r k of None \<Rightarrow> -2 | Some (v, None) \<Rightarrow> -1
      | Some (v, Some e) \<Rightarrow> (e - t + 500) div 1000)"

definition rset_ex :: "string \<Rightarrow> string \<Rightarrow> int \<Rightarrow> ms \<Rightarrow> redis \<Rightarrow> error + redis" where
  "rset_ex k v secs t r = ensure (0 < secs) RedisError (Inr (r(k \<mapsto> (v, Some (t + 1000 * secs)))))"

definition rexpire :: "string \<Rightarrow> int \<Rightarrow> ms \<Rightarrow> redis \<Rightarrow> redis" where
  "rexpire k secs t r =
     (case rlive t r k of None \<Rightarrow> r
      | Some (v, _) \<Rightarrow> if secs \<le> 0 then r(k := None) else r(k \<mapsto> (v, Some (t + 1000 * secs))))"

definition rdel :: "string list \<Rightarrow> redis \<Rightarrow> redis" where
  "rdel ks r = (\<lambda>k. if k \<in> set ks then None else r k)"

definition as_count :: "string \<Rightarrow> nat option" where
  "as_count v = (if v \<noteq> [] \<and> list_all is_digit v then Some (digits_val v) else None)"

definition rincr :: "string \<Rightarrow> ms \<Rightarrow> redis \<Rightarrow> error + int \<times> redis" where
  "rincr k t r =
     (case rlive t r k of None \<Rightarrow> Inr (1, r(k \<mapsto> (digits 1, None)))
      | Some (v, e) \<Rightarrow> or_raise (as_count v) RedisError (\<lambda>n.
          Inr (int n + 1, r(k \<mapsto> (digits (n + 1), e)))))"

lemma as_count_digits [simp]: "as_count (digits n) = Some n"
  using digits_all_digits [of n] by (simp add: as_count_def list_all_iff)

lemma rget_upd [simp]:
  "rget t (r(k \<mapsto> (v, Some e))) k' = (if k' = k then if t \<le> e then Some v else None else rget t r k')"
  "rget t (r(k := None)) k' = (if k' = k then None else rget t r k')"
  by (simp_all add: rget_def rlive_def)

lemma rget_del [simp]: "rget t (rdel ks r) k = (if k \<in> set ks then None else rget t r k)"
  by (simp add: rget_def rlive_def rdel_def)

lemma rlive_mono: "t \<le> t' \<Longrightarrow> rlive t' r k = Some x \<Longrightarrow> rlive t r k = Some x"
  by (auto simp: rlive_def split: option.splits if_splits)

section \<open>Locks\<close>

definition lock_acquire :: "string \<Rightarrow> string \<Rightarrow> int \<Rightarrow> ms \<Rightarrow> redis \<Rightarrow> error + redis" where
  "lock_acquire k token ttl_seconds t r =
     ensure (rget t r k = None) LockNotAcquiredError (rset_ex k token ttl_seconds t r)"

text \<open>\<open>_RELEASE_LUA\<close>: delete the key only if it still holds our token.\<close>

definition lock_release :: "string \<Rightarrow> string \<Rightarrow> ms \<Rightarrow> redis \<Rightarrow> redis" where
  "lock_release k token t r = (if rget t r k = Some token then r(k := None) else r)"

text \<open>The context manager: \<open>t\<close> is the instant of entry and \<open>t'\<close> of exit; the release runs
  whether or not the body raises.\<close>

definition redis_lock ::
  "string \<Rightarrow> string \<Rightarrow> int \<Rightarrow> ms \<Rightarrow> ms \<Rightarrow> (redis \<Rightarrow> (error + 'a) \<times> redis) \<Rightarrow> redis
     \<Rightarrow> (error + 'a) \<times> redis" where
  "redis_lock k token ttl_seconds t t' body r =
     (case lock_acquire k token ttl_seconds t r of Inl e \<Rightarrow> (Inl e, r)
      | Inr r \<Rightarrow> (case body r of (res, r) \<Rightarrow> (res, lock_release k token t' r)))"

text \<open>
  Several processes and one lock.  \<open>leases\<close> are the processes inside the critical section,
  each with its token and the instant its lock expires at.
\<close>

record lock_sys =
  clock :: ms
  store :: redis
  leases :: "(string \<times> ms) list"

inductive lock_step :: "string \<Rightarrow> int \<Rightarrow> lock_sys \<Rightarrow> lock_sys \<Rightarrow> bool" for k ttl where
  tick: "0 \<le> dt \<Longrightarrow> lock_step k ttl s (s\<lparr>clock := clock s + dt\<rparr>)"
| acquire: "token \<notin> fst ` set (leases s) \<Longrightarrow> lock_acquire k token ttl (clock s) (store s) = Inr r \<Longrightarrow>
    lock_step k ttl s (s\<lparr>store := r, leases := (token, clock s + 1000 * ttl) # leases s\<rparr>)"
| release: "(token, e) \<in> set (leases s) \<Longrightarrow>
    lock_step k ttl s (s\<lparr>store := lock_release k token (clock s) (store s),
      leases := filter (\<lambda>l. fst l \<noteq> token) (leases s)\<rparr>)"
| other: "r k = store s k \<Longrightarrow> lock_step k ttl s (s\<lparr>store := r\<rparr>)"

inductive lock_reach :: "string \<Rightarrow> int \<Rightarrow> lock_sys \<Rightarrow> bool" for k ttl where
  start: "leases s = [] \<Longrightarrow> lock_reach k ttl s"
| step: "lock_reach k ttl s \<Longrightarrow> lock_step k ttl s s' \<Longrightarrow> lock_reach k ttl s'"

definition lock_inv :: "string \<Rightarrow> lock_sys \<Rightarrow> bool" where
  "lock_inv k s \<longleftrightarrow> distinct (map fst (leases s)) \<and>
     (\<forall>(token, e) \<in> set (leases s). clock s \<le> e \<longrightarrow> store s k = Some (token, Some e))"

lemma lock_step_inv:
  assumes "lock_step k ttl s s'" and inv: "lock_inv k s"
  shows "lock_inv k s'"
  using assms(1)
proof cases
  case (tick dt)
  then show ?thesis using inv by (fastforce simp: lock_inv_def)
next
  case (acquire token r)
  then have free: "rget (clock s) (store s) k = None"
    and r: "r = (store s)(k \<mapsto> (token, Some (clock s + 1000 * ttl)))"
    by (auto simp: lock_acquire_def rset_ex_def)
  have "\<not> clock s \<le> e" if "(tok, e) \<in> set (leases s)" for tok e
    using that inv free by (auto simp: lock_inv_def rget_def rlive_def)
  with acquire r inv show ?thesis
    by (fastforce simp: lock_inv_def)
next
  case (release token e)
  have "store s' k = Some (tok, Some e')"
    if "(tok, e') \<in> set (leases s)" "tok \<noteq> token" "clock s \<le> e'" for tok e'
  proof -
    have "store s k = Some (tok, Some e')" using that inv by (auto simp: lock_inv_def)
    then show ?thesis using release that by (simp add: lock_release_def rget_def rlive_def)
  qed
  with release inv show ?thesis
    by (auto simp: lock_inv_def distinct_map_filter)
next
  case (other r)
  then show ?thesis using inv by (auto simp: lock_inv_def)
qed

lemma lock_reach_inv: "lock_reach k ttl s \<Longrightarrow> lock_inv k s"
proof (induction rule: lock_reach.induct)
  case (start s)
  then show ?case by (simp add: lock_inv_def)
next
  case (step s s')
  then show ?case using lock_step_inv by blast
qed

section \<open>Rate limiting\<close>

record rate_limiter =
  rl_max :: int
  rl_window :: int

record rate_limit_decision =
  allowed :: bool
  retry_after_seconds :: int
  blocked :: bool

definition rate_key :: "string \<Rightarrow> string" where
  "rate_key identity = ''ratelimit:'' @ identity"

text \<open>\<open>_WINDOW_LUA\<close> and \<open>_GUARDED_WINDOW_LUA\<close>.\<close>

definition window_script :: "string \<Rightarrow> int \<Rightarrow> int \<Rightarrow> ms \<Rightarrow> redis \<Rightarrow> error + int \<times> redis" where
  "window_script k window limit t r =
     and_then (rincr k t r) (\<lambda>(count, r).
     let r = (if count = 1 \<or> rttl t r k < 0 then rexpire k window t r else r)
     in Inr (if count > limit then if rttl t r k > 0 then rttl t r k else window else 0, r))"

definition guarded_window_script ::
  "string \<Rightarrow> string \<Rightarrow> int \<Rightarrow> int \<Rightarrow> ms \<Rightarrow> redis \<Rightarrow> error + int \<times> redis" where
  "guarded_window_script k blocked_key window limit t r =
     (if rget t r blocked_key \<noteq> None then Inr (-1, r) else window_script k window limit t r)"

text \<open>\<open>up\<close> says whether the call reaches Redis; otherwise it raises.\<close>

definition reaching :: "bool \<Rightarrow> error + 'a \<Rightarrow> error + 'a" where
  "reaching up m = ensure up RedisError m"

definition check :: "rate_limiter \<Rightarrow> string \<Rightarrow> bool \<Rightarrow> ms \<Rightarrow> redis \<Rightarrow> rate_limit_decision \<times> redis" where
  "check l identity up t r =
     (case reaching up (window_script (rate_key identity) (rl_window l) (rl_max l) t r) of
        Inl e \<Rightarrow> (\<lparr>allowed = True, retry_after_seconds = 0, blocked = False\<rparr>, r)
      | Inr (retry_after, r) \<Rightarrow>
          (if retry_after > 0
           then \<lparr>allowed = False, retry_after_seconds = retry_after, blocked = False\<rparr>
           else \<lparr>allowed = True, retry_after_seconds = 0, blocked = False\<rparr>, r))"

definition check_guarded ::
  "rate_limiter \<Rightarrow> string \<Rightarrow> string \<Rightarrow> bool \<Rightarrow> ms \<Rightarrow> redis \<Rightarrow> rate_limit_decision \<times> redis" where
  "check_guarded l identity blocked_key up t r =
     (case reaching up (guarded_window_script (rate_key identity) blocked_key (rl_window l)
             (rl_max l) t r) of
        Inl e \<Rightarrow> (\<lparr>allowed = False, retry_after_seconds = 0, blocked = True\<rparr>, r)
      | Inr (res, r) \<Rightarrow>
          (if res = -1 then \<lparr>allowed = False, retry_after_seconds = 0, blocked = True\<rparr>
           else if res > 0 then \<lparr>allowed = False, retry_after_seconds = res, blocked = False\<rparr>
           else \<lparr>allowed = True, retry_after_seconds = 0, blocked = False\<rparr>, r))"

fun check_all :: "rate_limiter \<Rightarrow> string \<Rightarrow> ms list \<Rightarrow> redis \<Rightarrow> rate_limit_decision list \<times> redis" where
  "check_all l identity [] r = ([], r)"
| "check_all l identity (t # ts) r =
     (let (d, r) = check l identity True t r; (ds, r) = check_all l identity ts r in (d # ds, r))"

text \<open>The counter of a window: \<open>n\<close> requests so far, gone after \<open>e\<close>.\<close>

definition counting :: "rate_limiter \<Rightarrow> string \<Rightarrow> nat \<Rightarrow> ms \<Rightarrow> redis \<Rightarrow> bool" where
  "counting l identity n e r \<longleftrightarrow> r (rate_key identity) = Some (digits n, Some e)"

definition decision :: "rate_limiter \<Rightarrow> nat \<Rightarrow> ms \<Rightarrow> ms \<Rightarrow> rate_limit_decision" where
  "decision l n t e =
     (if int n \<le> rl_max l then \<lparr>allowed = True, retry_after_seconds = 0, blocked = False\<rparr>
      else \<lparr>allowed = False,
        retry_after_seconds = (let s = (e - t + 500) div 1000 in if s > 0 then s else rl_window l),
        blocked = False\<rparr>)"

lemma check_first:
  assumes "0 < rl_window l" and "rget t r (rate_key identity) = None"
  shows "check l identity True t r = (decision l 1 t (t + 1000 * rl_window l),
    r(rate_key identity \<mapsto> (digits 1, Some (t + 1000 * rl_window l))))"
proof -
  have "rlive t r (rate_key identity) = None" using assms(2) by (simp add: rget_def)
  moreover have "rl_window l * 1000 + 500 \<ge> 1000" using assms(1) by simp
  ultimately show ?thesis
    using assms(1)
    by (auto simp: check_def reaching_def window_script_def rincr_def rexpire_def rlive_def
        rttl_def decision_def)
qed

lemma check_next:
  assumes "0 < rl_window l" and "counting l identity n e r" and "t \<le> e" and "0 < n"
  shows "check l identity True t r = (decision l (n + 1) t e,
    r(rate_key identity \<mapsto> (digits (n + 1), Some e)))"
proof -
  have "\<not> (e - t + 500) div 1000 < 0" using assms(3) by simp
  then show ?thesis
    using assms
    by (auto simp: check_def reaching_def window_script_def rincr_def rexpire_def counting_def
        rttl_def decision_def rlive_def Let_def)
qed

lemma check_all_counting:
  assumes "0 < rl_window l" and "counting l identity n e r" and "0 < n" and "\<forall>t \<in> set ts. t \<le> e"
  shows "fst (check_all l identity ts r) =
    map (\<lambda>(i, t). decision l (n + i + 1) t e) (List.enumerate 0 ts)"
  using assms
proof (induction ts arbitrary: n r)
  case Nil
  then show ?case by simp
next
  case (Cons t ts)
  let ?r = "r(rate_key identity \<mapsto> (digits (n + 1), Some e))"
  have "check l identity True t r = (decision l (n + 1) t e, ?r)"
    using Cons.prems by (intro check_next) auto
  moreover have "fst (check_all l identity ts ?r) =
      map (\<lambda>(i, t). decision l (n + 1 + i + 1) t e) (List.enumerate 0 ts)"
    using Cons.prems by (intro Cons.IH) (auto simp: counting_def)
  ultimately show ?case
    by (auto simp: case_prod_unfold Let_def enumerate_Suc_eq)
qed


text \<open>A counter always carries an expiry after a request, also one that a crash left without.\<close>

definition expiring :: "ms \<Rightarrow> redis \<Rightarrow> string \<Rightarrow> bool" where
  "expiring t r k \<longleftrightarrow> (\<exists>v e. r k = Some (v, Some e) \<and> t \<le> e)"

lemma window_script_expiring:
  assumes "window_script k window limit t r = Inr (res, r')" and "0 < window"
  shows "expiring t r' k"
proof -
  obtain count r1 where c: "rincr k t r = Inr (count, r1)"
    and r': "r' = (if count = 1 \<or> rttl t r1 k < 0 then rexpire k window t r1 else r1)"
    using assms(1) by (auto simp: window_script_def Let_def)
  obtain v e where v: "r1 k = Some (v, e)" "e = None \<or> (\<exists>x. e = Some x \<and> t \<le> x)"
    using c by (auto simp: rincr_def rlive_def split: option.splits if_splits)
  show ?thesis
    using v(2)
  proof
    assume "e = None"
    then have "r' = r1(k \<mapsto> (v, Some (t + 1000 * window)))"
      using v(1) assms(2) r' by (simp add: rttl_def rlive_def rexpire_def)
    then show ?thesis using assms(2) by (simp add: expiring_def)
  next
    assume "\<exists>x. e = Some x \<and> t \<le> x"
    then show ?thesis
      using v(1) assms(2) r' by (auto simp: rttl_def rlive_def rexpire_def expiring_def)
  qed
qed

section \<open>Properties\<close>

text \<open>C18: Mutual exclusion of a Redis lock under expiry.  In every interleaving of processes
  that acquire and release one lock while time passes and other keys change, two processes whose
  lease has not run out are the same process; an attempt to acquire the lock while a lease is
  running fails; a process that releases after its lease ran out never removes the lock of the
  process that has taken it over.\<close>

theorem lock_mutual_exclusion:
  assumes "lock_reach k ttl s" and "(token, e) \<in> set (leases s)" and "clock s \<le> e"
  shows "(\<forall>(token', e') \<in> set (leases s). clock s \<le> e' \<longrightarrow> token' = token) \<and>
    (\<forall>other ttl'. lock_acquire k other ttl' (clock s) (store s) = Inl LockNotAcquiredError) \<and>
    (\<forall>other. other \<noteq> token \<longrightarrow> lock_release k other (clock s) (store s) = store s)"
proof -
  have held: "store s k = Some (token, Some e)"
    using lock_reach_inv [OF assms(1)] assms(2,3) by (auto simp: lock_inv_def)
  have "token' = token" if "(token', e') \<in> set (leases s)" "clock s \<le> e'" for token' e'
    using lock_reach_inv [OF assms(1)] that held by (auto simp: lock_inv_def)
  then show ?thesis
    using held assms(3) unfolding lock_acquire_def lock_release_def rget_def rlive_def
    by (auto simp: ensure_def)
qed

theorem lock_mutual_exclusion_witness:
  "lock_acquire ''lock:a'' ''t2'' 10 500
     (store \<lparr>clock = 500, store = Map.empty(''lock:a'' \<mapsto> (''t1'', Some 10000)),
             leases = [(''t1'', 10000)]\<rparr>) = Inl LockNotAcquiredError"
proof -
  let ?s0 = "\<lparr>clock = 0, store = Map.empty, leases = []\<rparr>"
  let ?s1 = "\<lparr>clock = 0, store = Map.empty(''lock:a'' \<mapsto> (''t1'', Some 10000)),
    leases = [(''t1'', 10000)]\<rparr> :: lock_sys"
  let ?s2 = "\<lparr>clock = 500, store = Map.empty(''lock:a'' \<mapsto> (''t1'', Some 10000)),
    leases = [(''t1'', 10000)]\<rparr> :: lock_sys"
  have "lock_step ''lock:a'' 10 ?s0 ?s1"
    using lock_step.acquire [of "''t1''" ?s0 "''lock:a''" 10]
    by (simp add: lock_acquire_def rset_ex_def rget_def rlive_def)
  moreover have "lock_step ''lock:a'' 10 ?s1 ?s2"
    using lock_step.tick [of 500 "''lock:a''" 10 ?s1] by simp
  moreover have "lock_reach ''lock:a'' 10 ?s0" by (rule lock_reach.start) simp
  ultimately have "lock_reach ''lock:a'' 10 ?s2" by (metis lock_reach.step)
  from lock_mutual_exclusion [OF this, of "''t1''" 10000] show ?thesis by simp
qed

text \<open>C19: The fixed window.  From the first request of a window on, exactly the first
  \<open>max_requests\<close> requests inside the window are allowed and every later one is refused with a
  positive number of seconds to wait; the counter always carries an expiry; a Redis outage lets an
  ordinary request through but refuses a guarded one, and a blocked identity is refused.\<close>

theorem rate_limit_window:
  assumes "0 < rl_window l" and "rget t r (rate_key identity) = None"
    and "\<forall>t' \<in> set ts. t' \<le> t + 1000 * rl_window l"
  shows "(let ds = fst (check_all l identity (t # ts) r) in
      length ds = length (t # ts) \<and>
      (\<forall>i < length ds. allowed (ds ! i) \<longleftrightarrow> int i < rl_max l) \<and>
      (\<forall>d \<in> set ds. \<not> allowed d \<longrightarrow> 0 < retry_after_seconds d)) \<and>
    (\<forall>t' r0. (\<forall>v e. r0 (rate_key identity) = Some (v, e) \<longrightarrow> as_count v \<noteq> None) \<longrightarrow>
      expiring t' (snd (check l identity True t' r0)) (rate_key identity)) \<and>
    allowed (fst (check l identity False t r)) \<and>
    (\<forall>b. \<not> allowed (fst (check_guarded l identity b False t r))) \<and>
    (\<forall>b. rget t r b \<noteq> None \<longrightarrow> check_guarded l identity b True t r =
      (\<lparr>allowed = False, retry_after_seconds = 0, blocked = True\<rparr>, r))"
proof (intro conjI allI impI)
  let ?e = "t + 1000 * rl_window l"
  let ?r = "r(rate_key identity \<mapsto> (digits 1, Some ?e))"
  let ?f = "\<lambda>(i, t'). decision l (1 + i + 1) t' ?e"
  have first: "check l identity True t r = (decision l 1 t ?e, ?r)"
    by (rule check_first [OF assms(1,2)])
  have rest: "fst (check_all l identity ts ?r) = map ?f (List.enumerate 0 ts)"
    using assms by (intro check_all_counting) (auto simp: counting_def)
  have ds: "fst (check_all l identity (t # ts) r)
      = map (\<lambda>(i, t'). decision l (i + 1) t' ?e) (List.enumerate 0 (t # ts))"
    using first rest by (auto simp: Let_def case_prod_unfold enumerate_Suc_eq)
  show "let ds = fst (check_all l identity (t # ts) r) in
      length ds = length (t # ts) \<and>
      (\<forall>i < length ds. allowed (ds ! i) \<longleftrightarrow> int i < rl_max l) \<and>
      (\<forall>d \<in> set ds. \<not> allowed d \<longrightarrow> 0 < retry_after_seconds d)"
    unfolding ds Let_def using assms(1)
    by (auto simp: nth_enumerate_eq decision_def Let_def simp del: enumerate_simps(2))
next
  fix t' and r0 :: redis
  assume num: "\<forall>v e. r0 (rate_key identity) = Some (v, e) \<longrightarrow> as_count v \<noteq> None"
  then obtain res r' where
    w: "window_script (rate_key identity) (rl_window l) (rl_max l) t' r0 = Inr (res, r')"
    by (fastforce simp: window_script_def rincr_def rlive_def Let_def split: option.splits)
  then have "snd (check l identity True t' r0) = r'" by (simp add: check_def reaching_def)
  with window_script_expiring [OF w assms(1)]
  show "expiring t' (snd (check l identity True t' r0)) (rate_key identity)" by simp
qed (simp_all add: check_def check_guarded_def reaching_def guarded_window_script_def)

theorem rate_limit_window_witness:
  "map allowed (fst (check_all \<lparr>rl_max = 2, rl_window = 60\<rparr> ''ip'' [0, 10, 59999] Map.empty))
     = [True, True, False]"
proof -
  let ?l = "\<lparr>rl_max = 2, rl_window = 60\<rparr>"
  let ?ds = "fst (check_all ?l ''ip'' [0, 10, 59999] Map.empty)"
  have "length ?ds = 3 \<and> (\<forall>i < length ?ds. allowed (?ds ! i) \<longleftrightarrow> int i < 2)"
    using rate_limit_window [of ?l 0 Map.empty "''ip''" "[10, 59999]"]
    by (simp add: rget_def rlive_def Let_def del: check_all.simps)
  then have "length (map allowed ?ds) = 3" and "map allowed ?ds ! 0" and "map allowed ?ds ! 1"
      and "\<not> map allowed ?ds ! 2"
    by (simp_all del: check_all.simps)
  then show ?thesis
    by (auto simp: numeral_3_eq_3 numeral_2_eq_2 length_Suc_conv simp del: check_all.simps)
qed

end
