(* ===== verification/Crypto.thy ===== *)
theory Crypto
  imports Config Tables
begin

text \<open>
  \<open>app/core/crypto.py\<close>: base64, the versioned field cipher and the context string, and
  \<open>app/services/key_rotation_service.py\<close>.  A byte is a \<open>char\<close>, a byte string a \<open>string\<close>.  AES-GCM is
  code of the \<open>cryptography\<close> package: the record \<open>aead\<close> is a parameter and \<open>aead_laws\<close> states
  what the package documents of it.  The nonces of \<open>os.urandom\<close> are a parameter too, one
  per write.
\<close>

section \<open>Base64\<close>

abbreviation byte :: "char \<Rightarrow> nat" where
  "byte c \<equiv> of_char c"

definition b64_char :: "nat \<Rightarrow> char" where
  "b64_char n = char_of (if n < 26 then n + 65 else if n < 52 then n + 71
     else if n < 62 then n - 4 else if n = 62 then 43 else 47)"

definition b64_val :: "char \<Rightarrow> nat option" where
  "b64_val c =
     (let n = byte c in
      if 65 \<le> n \<and> n \<le> 90 then Some (n - 65) else if 97 \<le> n \<and> n \<le> 122 then Some (n - 71)
      else if 48 \<le> n \<and> n \<le> 57 then Some (n + 4) else if n = 43 then Some 62
      else if n = 47 then Some 63 else None)"

fun b64encode :: "string \<Rightarrow> string" where
  "b64encode [] = []"
| "b64encode [a] =
     [b64_char (byte a div 4), b64_char (byte a mod 4 * 16), CHR ''='', CHR ''='']"
| "b64encode [a, b] =
     [b64_char (byte a div 4), b64_char (byte a mod 4 * 16 + byte b div 16),
      b64_char (byte b mod 16 * 4), CHR ''='']"
| "b64encode (a # b # c # r) =
     b64_char (byte a div 4) # b64_char (byte a mod 4 * 16 + byte b div 16)
     # b64_char (byte b mod 16 * 4 + byte c div 64) # b64_char (byte c mod 64) # b64encode r"

definition quad :: "nat \<Rightarrow> nat \<Rightarrow> nat \<Rightarrow> nat \<Rightarrow> string" where
  "quad w x y z = [char_of (w * 4 + x div 16), char_of (x mod 16 * 16 + y div 4),
     char_of (y mod 4 * 64 + z)]"

text \<open>\<open>b64decode(..., validate=True)\<close>: whole groups of four, padding at the end only.\<close>

fun b64decode :: "string \<Rightarrow> string option" where
  "b64decode [] = Some []"
| "b64decode (w # x # y # z # r) =
     (case (b64_val w, b64_val x, b64_val y, b64_val z) of
        (Some a, Some b, Some c, Some d) \<Rightarrow> map_option ((@) (quad a b c d)) (b64decode r)
      | (Some a, Some b, Some c, None) \<Rightarrow>
          if z = CHR ''='' \<and> r = [] then Some (take 2 (quad a b c 0)) else None
      | (Some a, Some b, None, None) \<Rightarrow>
          if y = CHR ''='' \<and> z = CHR ''='' \<and> r = [] then Some (take 1 (quad a b 0 0)) else None
      | _ \<Rightarrow> None)"
| "b64decode _ = None"

lemma b64_val_char [simp]: "n < 64 \<Longrightarrow> b64_val (b64_char n) = Some n"
  by (auto simp: b64_val_def b64_char_def Let_def)

lemma b64_val_pad [simp]: "b64_val (CHR ''='') = None"
  by (simp add: b64_val_def)

lemma byte_bound: "byte c < 256"
  by (metis of_char_mod_256 mod_less_divisor zero_less_numeral)

lemma join_parts:
  fixes x y m :: nat
  assumes "y < m"
  shows "(x * m + y) div m = x" and "(x * m + y) mod m = y"
  using assms by simp_all

lemma split_byte:
  fixes a b c :: nat
  assumes "a < 256" "b < 256" "c < 256"
  shows "a div 4 < 64" "a mod 4 * 16 + b div 16 < 64" "b mod 16 * 4 + c div 64 < 64"
    "a mod 4 * 16 < 64" "b mod 16 * 4 < 64"
    "a div 4 * 4 + (a mod 4 * 16 + b div 16) div 16 = a"
    "(a mod 4 * 16 + b div 16) mod 16 * 16 + (b mod 16 * 4 + c div 64) div 4 = b"
    "(b mod 16 * 4 + c div 64) mod 4 * 64 + c mod 64 = c"
    "a div 4 * 4 + (a mod 4 * 16) div 16 = a"
    "(a mod 4 * 16 + b div 16) mod 16 * 16 + (b mod 16 * 4) div 4 = b"
proof -
  have d: "b div 16 < 16" "c div 64 < 4" using assms by simp_all
  have m: "a mod 4 < 4" "b mod 16 < 16" by simp_all
  show "a div 4 < 64" using assms(1) by simp
  show "a mod 4 * 16 + b div 16 < 64" "b mod 16 * 4 + c div 64 < 64" "a mod 4 * 16 < 64"
    "b mod 16 * 4 < 64"
    using d m by linarith+
  show "a div 4 * 4 + (a mod 4 * 16 + b div 16) div 16 = a"
    unfolding join_parts [OF d(1)] by (rule div_mult_mod_eq)
  show "(a mod 4 * 16 + b div 16) mod 16 * 16 + (b mod 16 * 4 + c div 64) div 4 = b"
    unfolding join_parts [OF d(1)] join_parts [OF d(2)] by (rule div_mult_mod_eq)
  show "(b mod 16 * 4 + c div 64) mod 4 * 64 + c mod 64 = c"
    unfolding join_parts [OF d(2)] by (rule div_mult_mod_eq)
  show "a div 4 * 4 + (a mod 4 * 16) div 16 = a"
    using join_parts(1) [of 0 16 "a mod 4"] div_mult_mod_eq [of a 4] by simp
  show "(a mod 4 * 16 + b div 16) mod 16 * 16 + (b mod 16 * 4) div 4 = b"
    unfolding join_parts [OF d(1)]
    using join_parts(1) [of 0 4 "b mod 16"] div_mult_mod_eq [of b 16] by simp
qed

lemma quad_bytes:
  "quad (byte a div 4) (byte a mod 4 * 16 + byte b div 16) (byte b mod 16 * 4 + byte c div 64)
     (byte c mod 64) = [a, b, c]"
  "take 2 (quad (byte a div 4) (byte a mod 4 * 16 + byte b div 16) (byte b mod 16 * 4) 0) = [a, b]"
  "take 1 (quad (byte a div 4) (byte a mod 4 * 16) 0 0) = [a]"
  using split_byte [OF byte_bound [of a] byte_bound [of b] byte_bound [of c]]
  by (simp_all add: quad_def char_of_char)

lemma b64decode_group:
  assumes "a < 64" "b < 64" "c < 64"
  shows "d < 64 \<Longrightarrow> b64decode (b64_char a # b64_char b # b64_char c # b64_char d # r)
      = map_option ((@) (quad a b c d)) (b64decode r)"
    and "b64decode [b64_char a, b64_char b, b64_char c, CHR ''=''] = Some (take 2 (quad a b c 0))"
    and "b64decode [b64_char a, b64_char b, CHR ''='', CHR ''=''] = Some (take 1 (quad a b 0 0))"
  using assms by simp_all

lemma b64_roundtrip: "b64decode (b64encode s) = Some s"
proof (induction s rule: b64encode.induct)
  case (2 a)
  show ?case
    unfolding b64encode.simps
    using split_byte(1,4) [OF byte_bound [of a] byte_bound [of a] byte_bound [of a]]
    by (subst b64decode_group(3) [where c = 0]) (simp_all only: quad_bytes(3) zero_less_numeral)
next
  case (3 a b)
  show ?case
    unfolding b64encode.simps
    using split_byte(1,2,5) [OF byte_bound [of a] byte_bound [of b] byte_bound [of b]]
    by (subst b64decode_group(2)) (simp_all only: quad_bytes(2))
next
  case (4 a b c r)
  have "byte c mod 64 < 64" by simp
  then show ?case
    unfolding b64encode.simps
    using split_byte(1-3) [OF byte_bound [of a] byte_bound [of b] byte_bound [of c]]
    by (subst b64decode_group(1)) (simp_all only: quad_bytes(1) 4 option.map append.simps)
qed simp

section \<open>The field cipher\<close>

record aead =
  aead_encrypt :: "string \<Rightarrow> string \<Rightarrow> string \<Rightarrow> string \<Rightarrow> string"   \<comment> \<open>key, nonce, text, context\<close>
  aead_decrypt :: "string \<Rightarrow> string \<Rightarrow> string \<Rightarrow> string \<Rightarrow> string option"

text \<open>What AES-GCM promises: what was encrypted decrypts under the same key, nonce and context,
  the 16-byte tag is part of the output, and another context does not authenticate (a forgery
  has probability \<open>2 ^ - 128\<close>, taken as none).\<close>

definition aead_laws :: "aead \<Rightarrow> bool" where
  "aead_laws A \<longleftrightarrow> (\<forall>k iv m c. aead_decrypt A k iv (aead_encrypt A k iv m c) c = Some m) \<and>
     (\<forall>k iv m c. 16 \<le> length (aead_encrypt A k iv m c)) \<and>
     (\<forall>k iv m c c'. c \<noteq> c' \<longrightarrow> aead_decrypt A k iv (aead_encrypt A k iv m c) c' = None)"

record field_cipher =
  fc_keys :: "(nat \<times> string) list"
  fc_active :: nat

text \<open>\<open>FieldCipher.__init__\<close>.\<close>

definition build_cipher :: "(nat \<times> string) list \<Rightarrow> nat \<Rightarrow> error + field_cipher" where
  "build_cipher ks active =
     ensure (list_all (\<lambda>(v, k). length k = 32 \<and> v \<le> 255) ks) CryptoError
     (ensure (active \<in> set (map fst ks)) CryptoError
     (Inr \<lparr>fc_keys = ks, fc_active = active\<rparr>))"

definition settings_cipher :: "settings \<Rightarrow> error + field_cipher" where
  "settings_cipher s = and_then (encryption_keys s) (\<lambda>ks.
     build_cipher ks (FIELD_ENCRYPTION_KEY_VERSION (encryption_of s)))"

definition encrypt :: "aead \<Rightarrow> field_cipher \<Rightarrow> string \<Rightarrow> string \<Rightarrow> string \<Rightarrow> error + string" where
  "encrypt A c iv plaintext aad =
     or_raise (map_of (fc_keys c) (fc_active c)) KeyError (\<lambda>key.
     Inr (b64encode (char_of (fc_active c) # iv @ aead_encrypt A key iv plaintext aad)))"

definition decrypt :: "aead \<Rightarrow> field_cipher \<Rightarrow> string \<Rightarrow> string \<Rightarrow> error + string" where
  "decrypt A c blob_b64 aad =
     or_raise (b64decode blob_b64) CryptoError (\<lambda>blob.
     ensure (29 \<le> length blob) CryptoError
     (or_raise (map_of (fc_keys c) (byte (hd blob))) CryptoError (\<lambda>key.
      or_raise (aead_decrypt A key (take 12 (tl blob)) (drop 12 (tl blob)) aad) CryptoError Inr)))"

definition blob_version :: "string \<Rightarrow> error + nat" where
  "blob_version blob_b64 =
     or_raise (b64decode blob_b64) CryptoError (\<lambda>blob.
     ensure (1 \<le> length blob) CryptoError (Inr (byte (hd blob))))"

definition build_aad :: "string \<Rightarrow> string \<Rightarrow> string \<Rightarrow> string" where
  "build_aad tab column entity_id = tab @ '':'' @ column @ '':'' @ entity_id"

text \<open>A cipher that \<open>build_cipher\<close> returned.\<close>

definition cipher_ok :: "field_cipher \<Rightarrow> bool" where
  "cipher_ok c \<longleftrightarrow> build_cipher (fc_keys c) (fc_active c) = Inr c"

lemma build_cipher_ok: "build_cipher ks v = Inr c \<Longrightarrow> cipher_ok c"
  by (force simp: build_cipher_def cipher_ok_def)

lemma cipher_okD:
  assumes "cipher_ok c"
  obtains key where "map_of (fc_keys c) (fc_active c) = Some key" and "fc_active c < 256"
proof -
  have "fc_active c \<in> fst ` set (fc_keys c)" and le: "\<forall>(v, k) \<in> set (fc_keys c). v \<le> 255"
    using assms by (auto simp: cipher_ok_def build_cipher_def list_all_iff)
  then obtain key where "map_of (fc_keys c) (fc_active c) = Some key"
    by (metis map_of_eq_None_iff not_None_eq)
  with le show ?thesis by (intro that) (auto dest!: map_of_SomeD)
qed

lemma encrypt_decrypt:
  assumes "aead_laws A" and "cipher_ok c" and "length iv = 12"
  obtains blob where "encrypt A c iv m aad = Inr blob" and "decrypt A c blob aad = Inr m"
    and "\<And>aad'. aad' \<noteq> aad \<Longrightarrow> decrypt A c blob aad' = Inl CryptoError"
    and "blob_version blob = Inr (fc_active c)"
proof -
  obtain key where key: "map_of (fc_keys c) (fc_active c) = Some key" and v: "fc_active c < 256"
    by (rule cipher_okD [OF assms(2)])
  have v': "fc_active c mod 256 = fc_active c" using v by simp
  let ?blob = "b64encode (char_of (fc_active c) # iv @ aead_encrypt A key iv m aad)"
  have law: "aead_decrypt A key iv (aead_encrypt A key iv m aad) aad = Some m"
    "16 \<le> length (aead_encrypt A key iv m aad)"
    "\<And>aad'. aad' \<noteq> aad \<Longrightarrow> aead_decrypt A key iv (aead_encrypt A key iv m aad) aad' = None"
    using assms(1) unfolding aead_laws_def by (blast, blast, metis)
  show ?thesis
    by (rule that [of ?blob])
       (simp_all add: encrypt_def decrypt_def blob_version_def b64_roundtrip v' key law assms(3))
qed

section \<open>Key rotation\<close>

record rotation_report =
  courier_national_id :: nat
  courier_passport_id :: nat
  conversation_preview :: nat
  withdrawal_iban :: nat

definition rotation_total :: "rotation_report \<Rightarrow> nat" where
  "rotation_total r = courier_national_id r + courier_passport_id r + conversation_preview r
     + withdrawal_iban r"

definition reencrypt :: "aead \<Rightarrow> field_cipher \<Rightarrow> string \<Rightarrow> string \<Rightarrow> string \<Rightarrow> error + string option" where
  "reencrypt A c iv blob aad =
     and_then (blob_version blob) (\<lambda>v.
     if v = fc_active c then Inr None
     else and_then (decrypt A c blob aad) (\<lambda>plaintext.
          and_then (encrypt A c iv plaintext aad) (\<lambda>new. Inr (Some new))))"

text \<open>One column value of the loops: a null stays, a stale value is replaced and counted.  \<open>n\<close> is
  the number of nonces drawn so far.\<close>

definition rotate_field ::
  "aead \<Rightarrow> field_cipher \<Rightarrow> (nat \<Rightarrow> string) \<Rightarrow> string \<Rightarrow> string option \<Rightarrow> nat \<times> nat
     \<Rightarrow> error + string option \<times> nat \<times> nat" where
  "rotate_field A c ivs aad old st =
     (case (old, st) of (None, st) \<Rightarrow> Inr (None, st)
      | (Some blob, (n, count)) \<Rightarrow> and_then (reencrypt A c (ivs n) blob aad) (\<lambda>new.
          Inr (case new of None \<Rightarrow> (Some blob, n, count) | Some b \<Rightarrow> (Some b, n + 1, count + 1))))"

definition national_aad :: "courier_profile \<Rightarrow> string" where
  "national_aad p = build_aad ''courier_profiles'' ''national_id'' (str_uuid (cp_user_id p))"

definition passport_aad :: "courier_profile \<Rightarrow> string" where
  "passport_aad p = build_aad ''courier_profiles'' ''passport_id'' (str_uuid (cp_user_id p))"

definition preview_aad :: "uuid \<Rightarrow> string" where
  "preview_aad i = build_aad ''conversations'' ''last_message_preview'' (str_uuid i)"

definition iban_aad :: "uuid \<Rightarrow> string" where
  "iban_aad i = build_aad ''withdrawals'' ''iban'' (str_uuid i)"

fun rotate_courier_profiles ::
  "aead \<Rightarrow> field_cipher \<Rightarrow> (nat \<Rightarrow> string) \<Rightarrow> courier_profile list \<Rightarrow> nat \<times> nat \<times> nat
     \<Rightarrow> error + courier_profile list \<times> nat \<times> nat \<times> nat" where
  "rotate_courier_profiles A c ivs [] st = Inr ([], st)"
| "rotate_courier_profiles A c ivs (p # ps) (n, national, passport) =
     and_then (rotate_field A c ivs (national_aad p) (cp_national_id_encrypted p) (n, national))
       (\<lambda>(nat_enc, n, national).
     and_then (rotate_field A c ivs (passport_aad p) (cp_passport_id_encrypted p) (n, passport))
       (\<lambda>(pass_enc, n, passport).
     and_then (rotate_courier_profiles A c ivs ps (n, national, passport)) (\<lambda>(ps, st).
     Inr (p\<lparr>cp_national_id_encrypted := nat_enc, cp_passport_id_encrypted := pass_enc\<rparr> # ps, st))))"

fun rotate_conversation_previews ::
  "aead \<Rightarrow> field_cipher \<Rightarrow> (nat \<Rightarrow> string) \<Rightarrow> conversation list \<Rightarrow> nat \<times> nat
     \<Rightarrow> error + conversation list \<times> nat \<times> nat" where
  "rotate_conversation_previews A c ivs [] st = Inr ([], st)"
| "rotate_conversation_previews A c ivs (x # xs) st =
     and_then (rotate_field A c ivs (preview_aad (cv_id x)) (cv_last_message_preview_encrypted x) st)
       (\<lambda>(enc, st).
     and_then (rotate_conversation_previews A c ivs xs st) (\<lambda>(xs, st).
     Inr (x\<lparr>cv_last_message_preview_encrypted := enc\<rparr> # xs, st)))"

fun rotate_withdrawals ::
  "aead \<Rightarrow> field_cipher \<Rightarrow> (nat \<Rightarrow> string) \<Rightarrow> withdrawal list \<Rightarrow> nat \<times> nat
     \<Rightarrow> error + withdrawal list \<times> nat \<times> nat" where
  "rotate_withdrawals A c ivs [] st = Inr ([], st)"
| "rotate_withdrawals A c ivs (x # xs) st =
     and_then (rotate_field A c ivs (iban_aad (wd_id x)) (Some (wd_iban_encrypted x)) st)
       (\<lambda>(enc, st).
     and_then (rotate_withdrawals A c ivs xs st) (\<lambda>(xs, st).
     Inr (x\<lparr>wd_iban_encrypted := the enc\<rparr> # xs, st)))"

definition rotate_keys :: "aead \<Rightarrow> field_cipher \<Rightarrow> (nat \<Rightarrow> string) \<Rightarrow> db \<Rightarrow> error + rotation_report \<times> db" where
  "rotate_keys A c ivs d =
     and_then (rotate_courier_profiles A c ivs (courier_profiles d) (0, 0, 0))
       (\<lambda>(ps, n, national, passport).
     and_then (rotate_conversation_previews A c ivs (conversations d) (n, 0)) (\<lambda>(cs, n, previews).
     and_then (rotate_withdrawals A c ivs (withdrawals d) (n, 0)) (\<lambda>(ws, n, ibans).
     Inr (\<lparr>courier_national_id = national, courier_passport_id = passport,
           conversation_preview = previews, withdrawal_iban = ibans\<rparr>,
          d\<lparr>courier_profiles := ps, conversations := cs, withdrawals := ws\<rparr>))))"


text \<open>A value that decrypts under its own context, and a value of another key version.\<close>

definition readable :: "aead \<Rightarrow> field_cipher \<Rightarrow> string \<Rightarrow> string option \<Rightarrow> bool" where
  "readable A c aad v = (case v of None \<Rightarrow> True | Some b \<Rightarrow> \<not> isl (decrypt A c b aad))"

definition stale :: "field_cipher \<Rightarrow> string option \<Rightarrow> nat" where
  "stale c v = (case v of None \<Rightarrow> 0 | Some b \<Rightarrow> if blob_version b = Inr (fc_active c) then 0 else 1)"

definition rotated :: "aead \<Rightarrow> field_cipher \<Rightarrow> string \<Rightarrow> string option \<Rightarrow> string option \<Rightarrow> bool" where
  "rotated A c aad old new =
     (case (old, new) of (None, None) \<Rightarrow> True
      | (Some b, Some b') \<Rightarrow> decrypt A c b' aad = decrypt A c b aad \<and> stale c (Some b') = 0
      | _ \<Rightarrow> False)"

definition all_readable :: "aead \<Rightarrow> field_cipher \<Rightarrow> db \<Rightarrow> bool" where
  "all_readable A c d \<longleftrightarrow>
     list_all (\<lambda>p. readable A c (national_aad p) (cp_national_id_encrypted p)
       \<and> readable A c (passport_aad p) (cp_passport_id_encrypted p)) (courier_profiles d) \<and>
     list_all (\<lambda>x. readable A c (preview_aad (cv_id x)) (cv_last_message_preview_encrypted x))
       (conversations d) \<and>
     list_all (\<lambda>x. readable A c (iban_aad (wd_id x)) (Some (wd_iban_encrypted x))) (withdrawals d)"

definition stale_values :: "field_cipher \<Rightarrow> db \<Rightarrow> nat" where
  "stale_values c d =
     (\<Sum>p \<leftarrow> courier_profiles d. stale c (cp_national_id_encrypted p))
     + (\<Sum>p \<leftarrow> courier_profiles d. stale c (cp_passport_id_encrypted p))
     + (\<Sum>x \<leftarrow> conversations d. stale c (cv_last_message_preview_encrypted x))
     + (\<Sum>x \<leftarrow> withdrawals d. stale c (Some (wd_iban_encrypted x)))"

definition profile_rotated :: "aead \<Rightarrow> field_cipher \<Rightarrow> courier_profile \<Rightarrow> courier_profile \<Rightarrow> bool" where
  "profile_rotated A c p q \<longleftrightarrow>
     rotated A c (national_aad p) (cp_national_id_encrypted p) (cp_national_id_encrypted q) \<and>
     rotated A c (passport_aad p) (cp_passport_id_encrypted p) (cp_passport_id_encrypted q) \<and>
     q = p\<lparr>cp_national_id_encrypted := cp_national_id_encrypted q,
           cp_passport_id_encrypted := cp_passport_id_encrypted q\<rparr>"

definition preview_rotated :: "aead \<Rightarrow> field_cipher \<Rightarrow> conversation \<Rightarrow> conversation \<Rightarrow> bool" where
  "preview_rotated A c x y \<longleftrightarrow>
     rotated A c (preview_aad (cv_id x)) (cv_last_message_preview_encrypted x)
       (cv_last_message_preview_encrypted y) \<and>
     y = x\<lparr>cv_last_message_preview_encrypted := cv_last_message_preview_encrypted y\<rparr>"

definition iban_rotated :: "aead \<Rightarrow> field_cipher \<Rightarrow> withdrawal \<Rightarrow> withdrawal \<Rightarrow> bool" where
  "iban_rotated A c x y \<longleftrightarrow>
     rotated A c (iban_aad (wd_id x)) (Some (wd_iban_encrypted x)) (Some (wd_iban_encrypted y)) \<and>
     y = x\<lparr>wd_iban_encrypted := wd_iban_encrypted y\<rparr>"

lemma rotated_not_stale: "rotated A c aad v w \<Longrightarrow> stale c w = 0"
  by (auto simp: rotated_def stale_def split: option.splits)

lemma decrypt_version:
  assumes "decrypt A c b aad = Inr m"
  obtains v where "blob_version b = Inr v"
  using assms by (auto simp: decrypt_def blob_version_def)

lemma rotate_field_ok:
  assumes "aead_laws A" and "cipher_ok c" and "\<forall>i. length (ivs i) = 12"
    and "readable A c aad old"
  obtains new n' where "rotate_field A c ivs aad old (n, count) = Inr (new, n', count + stale c old)"
    and "rotated A c aad old new" and "stale c old = 0 \<Longrightarrow> new = old"
proof (cases old)
  case None
  then show ?thesis
    by (intro that [of None n]) (simp_all add: rotate_field_def rotated_def stale_def)
next
  case (Some b)
  then obtain m where m: "decrypt A c b aad = Inr m"
    using assms(4) by (auto simp: readable_def isl_def) (metis sum.exhaust)
  obtain v where v: "blob_version b = Inr v" by (rule decrypt_version [OF m])
  have iv: "length (ivs n) = 12" using assms(3) by blast
  obtain nb where nb: "encrypt A c (ivs n) m aad = Inr nb" "decrypt A c nb aad = Inr m"
    "blob_version nb = Inr (fc_active c)"
    by (rule encrypt_decrypt [OF assms(1,2) iv, where m = m and aad = aad])
  show ?thesis
  proof (cases "v = fc_active c")
    case True
    then show ?thesis
      by (intro that [of old n])
         (simp_all add: Some rotate_field_def reencrypt_def v rotated_def stale_def)
  next
    case False
    then show ?thesis
      by (intro that [of "Some nb" "n + 1"])
         (simp_all add: Some rotate_field_def reencrypt_def v m nb rotated_def stale_def)
  qed
qed

lemma rotate_profiles_ok:
  assumes "aead_laws A" and "cipher_ok c" and "\<forall>i. length (ivs i) = 12"
    and "list_all (\<lambda>p. readable A c (national_aad p) (cp_national_id_encrypted p)
       \<and> readable A c (passport_aad p) (cp_passport_id_encrypted p)) ps"
  shows "\<exists>qs n'. rotate_courier_profiles A c ivs ps (n, x, y) = Inr (qs, n',
      x + (\<Sum>p \<leftarrow> ps. stale c (cp_national_id_encrypted p)),
      y + (\<Sum>p \<leftarrow> ps. stale c (cp_passport_id_encrypted p)))
    \<and> list_all2 (profile_rotated A c) ps qs"
  using assms(4)
proof (induction ps arbitrary: n x y)
  case Nil
  then show ?case by simp
next
  case (Cons p ps)
  obtain new1 n1 where 1: "rotate_field A c ivs (national_aad p) (cp_national_id_encrypted p) (n, x)
      = Inr (new1, n1, x + stale c (cp_national_id_encrypted p))"
      "rotated A c (national_aad p) (cp_national_id_encrypted p) new1"
    by (rule rotate_field_ok [OF assms(1,2,3), where aad = "national_aad p"
          and old = "cp_national_id_encrypted p" and n = n and count = x]) (use Cons.prems in simp_all)
  obtain new2 n2 where 2: "rotate_field A c ivs (passport_aad p) (cp_passport_id_encrypted p) (n1, y)
      = Inr (new2, n2, y + stale c (cp_passport_id_encrypted p))"
      "rotated A c (passport_aad p) (cp_passport_id_encrypted p) new2"
    by (rule rotate_field_ok [OF assms(1,2,3), where aad = "passport_aad p"
          and old = "cp_passport_id_encrypted p" and n = n1 and count = y]) (use Cons.prems in simp_all)
  from Cons.IH [of n2 "x + stale c (cp_national_id_encrypted p)"
      "y + stale c (cp_passport_id_encrypted p)"] Cons.prems 1 2
  show ?case by (auto simp: profile_rotated_def add.assoc)
qed

lemma rotate_previews_ok:
  assumes "aead_laws A" and "cipher_ok c" and "\<forall>i. length (ivs i) = 12"
    and "list_all (\<lambda>x. readable A c (preview_aad (cv_id x)) (cv_last_message_preview_encrypted x)) xs"
  shows "\<exists>ys n'. rotate_conversation_previews A c ivs xs (n, k) = Inr (ys, n',
      k + (\<Sum>x \<leftarrow> xs. stale c (cv_last_message_preview_encrypted x)))
    \<and> list_all2 (preview_rotated A c) xs ys"
  using assms(4)
proof (induction xs arbitrary: n k)
  case Nil
  then show ?case by simp
next
  case (Cons x xs)
  obtain new n1 where 1: "rotate_field A c ivs (preview_aad (cv_id x))
        (cv_last_message_preview_encrypted x) (n, k)
      = Inr (new, n1, k + stale c (cv_last_message_preview_encrypted x))"
      "rotated A c (preview_aad (cv_id x)) (cv_last_message_preview_encrypted x) new"
    by (rule rotate_field_ok [OF assms(1,2,3), where aad = "preview_aad (cv_id x)" and n = n
          and old = "cv_last_message_preview_encrypted x" and count = k]) (use Cons.prems in simp_all)
  from Cons.IH [of n1 "k + stale c (cv_last_message_preview_encrypted x)"] Cons.prems 1
  show ?case by (auto simp: preview_rotated_def add.assoc)
qed

lemma rotate_ibans_ok:
  assumes "aead_laws A" and "cipher_ok c" and "\<forall>i. length (ivs i) = 12"
    and "list_all (\<lambda>x. readable A c (iban_aad (wd_id x)) (Some (wd_iban_encrypted x))) xs"
  shows "\<exists>ys n'. rotate_withdrawals A c ivs xs (n, k) = Inr (ys, n',
      k + (\<Sum>x \<leftarrow> xs. stale c (Some (wd_iban_encrypted x))))
    \<and> list_all2 (iban_rotated A c) xs ys"
  using assms(4)
proof (induction xs arbitrary: n k)
  case Nil
  then show ?case by simp
next
  case (Cons x xs)
  obtain new n1 where 1: "rotate_field A c ivs (iban_aad (wd_id x)) (Some (wd_iban_encrypted x)) (n, k)
      = Inr (new, n1, k + stale c (Some (wd_iban_encrypted x)))"
      "rotated A c (iban_aad (wd_id x)) (Some (wd_iban_encrypted x)) new"
    by (rule rotate_field_ok [OF assms(1,2,3), where aad = "iban_aad (wd_id x)" and n = n
          and old = "Some (wd_iban_encrypted x)" and count = k]) (use Cons.prems in simp_all)
  moreover from 1(2) obtain b where "new = Some b"
    by (auto simp: rotated_def split: option.splits)
  ultimately show ?case
    using Cons.IH [of n1 "k + stale c (Some (wd_iban_encrypted x))"] Cons.prems
    by (auto simp: iban_rotated_def add.assoc)
qed

lemma rotated_readable: "rotated A c aad v w \<Longrightarrow> readable A c aad v \<Longrightarrow> readable A c aad w"
  by (auto simp: rotated_def readable_def split: option.splits)

lemma list_all_via:
  "list_all2 R xs ys \<Longrightarrow> list_all P xs \<Longrightarrow> (\<And>x y. R x y \<Longrightarrow> P x \<Longrightarrow> Q y) \<Longrightarrow> list_all Q ys"
  by (induction rule: list_all2_induct) auto

lemma rotated_stale:
  "profile_rotated A c p q \<Longrightarrow> stale c (cp_national_id_encrypted q) = 0"
  "profile_rotated A c p q \<Longrightarrow> stale c (cp_passport_id_encrypted q) = 0"
  "preview_rotated A c x y \<Longrightarrow> stale c (cv_last_message_preview_encrypted y) = 0"
  "iban_rotated A c v w \<Longrightarrow> stale c (Some (wd_iban_encrypted w)) = 0"
  unfolding profile_rotated_def preview_rotated_def iban_rotated_def
  using rotated_not_stale by blast+

lemma rotated_aads:
  "profile_rotated A c p q \<Longrightarrow> cp_user_id q = cp_user_id p"
  "preview_rotated A c x y \<Longrightarrow> cv_id y = cv_id x"
  "iban_rotated A c v w \<Longrightarrow> wd_id w = wd_id v"
  unfolding profile_rotated_def preview_rotated_def iban_rotated_def
  by (elim conjE, drule arg_cong [where f = cp_user_id], simp,
      elim conjE, drule arg_cong [where f = cv_id], simp,
      elim conjE, drule arg_cong [where f = wd_id], simp)

lemma rotated_stays_readable:
  "profile_rotated A c p q \<Longrightarrow> readable A c (national_aad p) (cp_national_id_encrypted p)
     \<and> readable A c (passport_aad p) (cp_passport_id_encrypted p) \<Longrightarrow>
   readable A c (national_aad q) (cp_national_id_encrypted q)
     \<and> readable A c (passport_aad q) (cp_passport_id_encrypted q)"
  "preview_rotated A c x y \<Longrightarrow>
   readable A c (preview_aad (cv_id x)) (cv_last_message_preview_encrypted x) \<Longrightarrow>
   readable A c (preview_aad (cv_id y)) (cv_last_message_preview_encrypted y)"
  "iban_rotated A c v w \<Longrightarrow> readable A c (iban_aad (wd_id v)) (Some (wd_iban_encrypted v)) \<Longrightarrow>
   readable A c (iban_aad (wd_id w)) (Some (wd_iban_encrypted w))"
proof -
  assume r: "profile_rotated A c p q" and p: "readable A c (national_aad p) (cp_national_id_encrypted p)
     \<and> readable A c (passport_aad p) (cp_passport_id_encrypted p)"
  have "national_aad q = national_aad p" "passport_aad q = passport_aad p"
    using rotated_aads(1) [OF r] by (simp_all add: national_aad_def passport_aad_def)
  then show "readable A c (national_aad q) (cp_national_id_encrypted q)
     \<and> readable A c (passport_aad q) (cp_passport_id_encrypted q)"
    using r p rotated_readable unfolding profile_rotated_def by metis
next
  assume r: "preview_rotated A c x y" and
    p: "readable A c (preview_aad (cv_id x)) (cv_last_message_preview_encrypted x)"
  then show "readable A c (preview_aad (cv_id y)) (cv_last_message_preview_encrypted y)"
    using rotated_aads(2) [OF r] rotated_readable unfolding preview_rotated_def by metis
next
  assume r: "iban_rotated A c v w" and
    p: "readable A c (iban_aad (wd_id v)) (Some (wd_iban_encrypted v))"
  then show "readable A c (iban_aad (wd_id w)) (Some (wd_iban_encrypted w))"
    using rotated_aads(3) [OF r] rotated_readable unfolding iban_rotated_def by metis
qed

lemma sum_list_zero:
  fixes f :: "'b \<Rightarrow> nat"
  shows "list_all2 R xs ys \<Longrightarrow> (\<And>x y. R x y \<Longrightarrow> f y = 0) \<Longrightarrow> sum_list (map f ys) = 0"
  by (induction rule: list_all2_induct) auto

section \<open>Properties\<close>

text \<open>C20: Field encryption round trip and context binding.  With any cipher the constructor
  accepts and any 12-byte nonce, decrypting what was encrypted returns the text, decrypting it
  under any other context raises \<open>CryptoError\<close>, and the stored blob names the active key version; a
  blob is bound to its table column and row, since contexts of different rows differ.\<close>

theorem field_encryption_roundtrip:
  assumes "aead_laws A" and "build_cipher ks v = Inr c" and "length iv = 12"
  shows "\<exists>blob. encrypt A c iv plaintext aad = Inr blob \<and>
    decrypt A c blob aad = Inr plaintext \<and> blob_version blob = Inr v \<and>
    (\<forall>aad'. aad' \<noteq> aad \<longrightarrow> decrypt A c blob aad' = Inl CryptoError) \<and>
    (\<forall>i j. build_aad ''messages'' ''content'' (str_uuid i) =
        build_aad ''messages'' ''content'' (str_uuid j) \<longrightarrow> i = j)"
proof -
  have "fc_active c = v" using assms(2) by (auto simp: build_cipher_def)
  moreover obtain blob where "encrypt A c iv plaintext aad = Inr blob"
    "decrypt A c blob aad = Inr plaintext" "blob_version blob = Inr (fc_active c)"
    "\<And>aad'. aad' \<noteq> aad \<Longrightarrow> decrypt A c blob aad' = Inl CryptoError"
    by (rule encrypt_decrypt [OF assms(1) build_cipher_ok [OF assms(2)] assms(3),
          where m = plaintext and aad = aad]) blast
  ultimately show ?thesis by (auto simp: build_aad_def)
qed

text \<open>An envelope with the shape of AES-GCM, in the clear: it satisfies the laws.\<close>

definition sample_tag :: "string \<Rightarrow> string" where
  "sample_tag c = replicate 16 CHR ''t'' @ replicate (length c) CHR ''x'' @ CHR ''y'' # c"

definition sample_aead :: aead where
  "sample_aead =
     \<lparr>aead_encrypt = (\<lambda>k iv m c. sample_tag c @ m),
      aead_decrypt = (\<lambda>k iv ct c. if take (length (sample_tag c)) ct = sample_tag c
        then Some (drop (length (sample_tag c)) ct) else None)\<rparr>"

lemma sample_tag_inject:
  assumes "take (length (sample_tag c')) (sample_tag c @ m) = sample_tag c'"
  shows "c = c'"
proof -
  have tw: "takeWhile ((=) CHR ''x'') (drop 16 (sample_tag c @ m)) = replicate (length c) CHR ''x''"
    for c m
    by (induction "length c") (simp_all add: sample_tag_def takeWhile_append)
  obtain m' where eq: "sample_tag c @ m = sample_tag c' @ m'"
    using assms by (metis append_take_drop_id)
  then have "replicate (length c) CHR ''x'' = replicate (length c') CHR ''x''"
    by (metis tw)
  then have "length c = length c'" by simp
  with eq show ?thesis by (simp add: sample_tag_def)
qed

lemma sample_aead_laws: "aead_laws sample_aead"
  unfolding aead_laws_def
proof (intro conjI allI impI)
  fix k iv m c c' :: string
  show "16 \<le> length (aead_encrypt sample_aead k iv m c)"
    by (simp add: sample_aead_def sample_tag_def)
  show "aead_decrypt sample_aead k iv (aead_encrypt sample_aead k iv m c) c = Some m"
    by (simp add: sample_aead_def)
  show "aead_decrypt sample_aead k iv (aead_encrypt sample_aead k iv m c) c' = None" if "c \<noteq> c'"
  proof -
    have "take (length (sample_tag c')) (sample_tag c @ m) \<noteq> sample_tag c'"
      using sample_tag_inject that by blast
    then show ?thesis by (simp add: sample_aead_def)
  qed
qed

definition sample_cipher :: field_cipher where
  "sample_cipher = \<lparr>fc_keys = [(1, text32 CHR ''k''), (2, text32 CHR ''m'')], fc_active = 2\<rparr>"

lemma sample_cipher_built:
  "build_cipher [(1, text32 CHR ''k''), (2, text32 CHR ''m'')] 2 = Inr sample_cipher"
  by (simp add: build_cipher_def sample_cipher_def text32_def)

theorem field_encryption_roundtrip_witness:
  "\<exists>blob. encrypt sample_aead sample_cipher (replicate 12 CHR ''i'') ''hello'' ''messages:content:7''
      = Inr blob \<and> decrypt sample_aead sample_cipher blob ''messages:content:7'' = Inr ''hello''"
proof -
  have "length (replicate 12 CHR ''i'') = 12" by simp
  from field_encryption_roundtrip [OF sample_aead_laws sample_cipher_built this]
  show ?thesis by blast
qed

text \<open>Key rotation.  When every stored value of the mutable restricted columns can be read, the
  rotation succeeds; afterwards each value decrypts to the same text under its own context and
  carries the active version, nothing else in any row and no message changes, the report
  counts exactly the values that were stale, and the result is readable again with no stale
  value left, so that a second rotation reports zero.\<close>

theorem key_rotation:
  assumes "aead_laws A" and "cipher_ok c" and "\<forall>i. length (ivs i) = 12" and "all_readable A c d"
  shows "\<exists>r d'. rotate_keys A c ivs d = Inr (r, d') \<and> rotation_total r = stale_values c d \<and>
    list_all2 (profile_rotated A c) (courier_profiles d) (courier_profiles d') \<and>
    list_all2 (preview_rotated A c) (conversations d) (conversations d') \<and>
    list_all2 (iban_rotated A c) (withdrawals d) (withdrawals d') \<and>
    messages d' = messages d \<and> all_readable A c d' \<and> stale_values c d' = 0"
proof -
  let ?nat = "\<Sum>p \<leftarrow> courier_profiles d. stale c (cp_national_id_encrypted p)"
  let ?pass = "\<Sum>p \<leftarrow> courier_profiles d. stale c (cp_passport_id_encrypted p)"
  obtain ps n1 where ps: "rotate_courier_profiles A c ivs (courier_profiles d) (0, 0, 0)
      = Inr (ps, n1, ?nat, ?pass)" "list_all2 (profile_rotated A c) (courier_profiles d) ps"
    using rotate_profiles_ok [OF assms(1-3), where ps = "courier_profiles d" and n = 0 and x = 0 and y = 0] assms(4)
    by (auto simp: all_readable_def)
  obtain cs n2 where cs: "rotate_conversation_previews A c ivs (conversations d) (n1, 0)
      = Inr (cs, n2, \<Sum>x \<leftarrow> conversations d. stale c (cv_last_message_preview_encrypted x))"
      "list_all2 (preview_rotated A c) (conversations d) cs"
    using rotate_previews_ok [OF assms(1-3), where xs = "conversations d" and n = n1 and k = 0] assms(4)
    by (auto simp: all_readable_def)
  obtain ws n3 where ws: "rotate_withdrawals A c ivs (withdrawals d) (n2, 0)
      = Inr (ws, n3, \<Sum>x \<leftarrow> withdrawals d. stale c (Some (wd_iban_encrypted x)))"
      "list_all2 (iban_rotated A c) (withdrawals d) ws"
    using rotate_ibans_ok [OF assms(1-3), where xs = "withdrawals d" and n = n2 and k = 0] assms(4)
    by (auto simp: all_readable_def)
  have zero: "sum_list (map (\<lambda>p. stale c (cp_national_id_encrypted p)) ps) = 0"
    "sum_list (map (\<lambda>p. stale c (cp_passport_id_encrypted p)) ps) = 0"
    "sum_list (map (\<lambda>x. stale c (cv_last_message_preview_encrypted x)) cs) = 0"
    "sum_list (map (\<lambda>x. stale c (Some (wd_iban_encrypted x))) ws) = 0"
    using rotated_stale
    by (blast intro: sum_list_zero [OF ps(2)] sum_list_zero [OF cs(2)] sum_list_zero [OF ws(2)])+
  note R = assms(4) [unfolded all_readable_def]
  have "all_readable A c (d\<lparr>courier_profiles := ps, conversations := cs, withdrawals := ws\<rparr>)"
    using list_all_via [OF ps(2) conjunct1 [OF R] rotated_stays_readable(1)]
      list_all_via [OF cs(2) conjunct1 [OF conjunct2 [OF R]] rotated_stays_readable(2)]
      list_all_via [OF ws(2) conjunct2 [OF conjunct2 [OF R]] rotated_stays_readable(3)]
    by (simp add: all_readable_def)
  then show ?thesis
    using ps cs ws zero
    by (auto simp: rotate_keys_def rotation_total_def stale_values_def)
qed


text \<open>A conversation whose preview was written under version 1 while version 2 is active.\<close>

definition old_blob :: string where
  "old_blob = b64encode (char_of (1::nat) # replicate 12 CHR ''i'' @
     aead_encrypt sample_aead (text32 CHR ''k'') (replicate 12 CHR ''i'') ''hi'' (preview_aad 9))"

definition stale_db :: db where
  "stale_db =
     \<lparr>next_id = 20, users = [], courier_profiles = [], refresh_tokens = [], device_tokens = [],
      orders = [], order_medias = [], promos = [], invoices = [], invoice_items = [],
      promo_redemptions = [], payment_intents = [], wallet_topups = [],
      conversations = [\<lparr>cv_id = 9, cv_order_id = 1, cv_customer_id = 2, cv_courier_id = 3,
        cv_last_message_preview_encrypted = Some old_blob, cv_last_message_timestamp = 0,
        cv_customer_unread_count = 0, cv_courier_unread_count = 0, cv_is_closed = False\<rparr>],
      messages = [], wallets = [], transactions = [], withdrawals = [], ratings = [],
      disputes = [], admin_sessions = [], audit_logs = []\<rparr>"

lemma old_blob_read: "decrypt sample_aead sample_cipher old_blob (preview_aad 9) = Inr ''hi''"
proof -
  have "14 \<le> length (sample_tag (preview_aad 9))" by (simp add: sample_tag_def)
  then show ?thesis
    by (simp add: decrypt_def old_blob_def b64_roundtrip sample_cipher_def sample_aead_def)
qed

lemma old_blob_version: "blob_version old_blob = Inr 1"
  by (simp add: blob_version_def old_blob_def b64_roundtrip)

theorem key_rotation_witness:
  "\<exists>r d'. rotate_keys sample_aead sample_cipher (\<lambda>_. replicate 12 CHR ''j'') stale_db = Inr (r, d')
     \<and> rotation_total r = 1 \<and> stale_values sample_cipher d' = 0"
proof -
  have "all_readable sample_aead sample_cipher stale_db"
    by (simp add: all_readable_def stale_db_def readable_def old_blob_read)
  moreover have "stale_values sample_cipher stale_db = 1"
    by (simp add: stale_values_def stale_db_def stale_def old_blob_version sample_cipher_def)
  ultimately show ?thesis
    using key_rotation [OF sample_aead_laws build_cipher_ok [OF sample_cipher_built],
        where ivs = "\<lambda>_. replicate 12 CHR ''j''" and d = stale_db]
    by force
qed

end
