(* ===== verification/Orders.thy ===== *)
theory Orders
  imports Ledger Order_State Redis_Store Crypto "HOL-Library.Product_Lexorder"
begin

text \<open>
  \<open>app/services/order_service.py\<close>, \<open>app/repositories/order_repository.py\<close>,
  \<open>app/repositories/message_repository.py\<close> and \<open>app/services/media_service.py\<close>: creation, the
  accept race, cancellation and the paged listings.  The object store is a parameter
  (\<open>head_object\<close> and the magic-byte test), as are the random token of a lock, the nonce of an
  encryption and the text of a new uuid.  \<open>now\<close> is the clock in microseconds.
\<close>

section \<open>Media\<close>

record object_head =
  oh_exists :: bool
  oh_byte_size :: int
  oh_content_type :: string

record object_store =
  head_object :: "string \<Rightarrow> object_head option"
  verify_image_magic_bytes :: "string \<Rightarrow> bool"

definition allowed_image_types :: "string list" where
  "allowed_image_types = [''image/jpeg'', ''image/png'']"

definition prefix_by_purpose :: "string \<Rightarrow> string option" where
  "prefix_by_purpose = map_of [(''ORDER_REQUEST'', ''orders/pending''), (''DELIVERY_PROOF'', ''orders/proof'')]"

definition hex_or_dash :: "char \<Rightarrow> bool" where
  "hex_or_dash c \<longleftrightarrow> is_digit c \<or> c = CHR ''-'' \<or> c \<in> set ''abcdef''"

text \<open>\<open>_KEY_RE\<close>; \<open>$\<close> also matches before a newline at the end of the text.\<close>

definition key_body :: "string \<Rightarrow> bool" where
  "key_body k \<longleftrightarrow> list_ex (\<lambda>p. list_ex (\<lambda>e.
     length k = length p + 41 \<and> take (length p + 1) k = p @ ''/'' \<and>
     list_all hex_or_dash (take 36 (drop (length p + 1) k)) \<and>
     drop (length p + 37) k = CHR ''.'' # e) [''jpg'', ''png'']) [''orders/pending'', ''orders/proof'']"

definition key_re :: "string \<Rightarrow> bool" where
  "key_re k \<longleftrightarrow> key_body k \<or> (k \<noteq> [] \<and> last k = CHR 0x0A \<and> key_body (butlast k))"

fun contains :: "string \<Rightarrow> string \<Rightarrow> bool" where
  "contains s [] \<longleftrightarrow> s = []"
| "contains s (c # t) \<longleftrightarrow> take (length s) (c # t) = s \<or> contains s t"

definition validate_key :: "string \<Rightarrow> error + unit" where
  "validate_key k =
     ensure (\<not> (contains [CHR 0x00] k \<or> contains ''..'' k \<or> \<not> key_re k)) BadRequestError (Inr ())"

definition request_upload_url ::
  "settings \<Rightarrow> string \<Rightarrow> string \<Rightarrow> string \<Rightarrow> int \<Rightarrow> error + string \<times> int" where
  "request_upload_url s uuid4 purpose content_type byte_size =
     or_raise (prefix_by_purpose purpose) BadRequestError (\<lambda>prefix.
     ensure (content_type \<in> set allowed_image_types) BadRequestError
     (ensure (0 < byte_size \<and> byte_size \<le> MAX_UPLOAD_BYTES (business_of s)) BadRequestError
     (let ext = (if content_type = ''image/jpeg'' then ''jpg'' else ''png'')
      in Inr (prefix @ ''/'' @ uuid4 @ ''.'' @ ext, 300))))"

definition confirm :: "settings \<Rightarrow> object_store \<Rightarrow> string \<Rightarrow> error + unit" where
  "confirm s S k =
     and_then (validate_key k) (\<lambda>_.
     or_raise (head_object S k) BadRequestError (\<lambda>h.
     ensure (oh_exists h) BadRequestError
     (ensure (oh_byte_size h \<le> MAX_UPLOAD_BYTES (business_of s)) BadRequestError
     (ensure (oh_content_type h \<in> set allowed_image_types) BadRequestError
     (ensure (verify_image_magic_bytes S k) BadRequestError (Inr ()))))))"

section \<open>Order repository\<close>

definition customer_active :: "order_status list" where
  "customer_active = [OS_NEW, OS_ASSIGNED, OS_WAITING_PAYMENT, OS_IN_PROGRESS, OS_DELIVERED, OS_DISPUTED]"

definition courier_active :: "order_status list" where
  "courier_active = [OS_ASSIGNED, OS_WAITING_PAYMENT, OS_IN_PROGRESS]"

definition count_customer_active :: "uuid \<Rightarrow> db \<Rightarrow> nat" where
  "count_customer_active c d = length (filter (\<lambda>ord. o_customer_id ord = c
     \<and> o_status ord \<in> set customer_active) (orders d))"

definition count_courier_active :: "uuid \<Rightarrow> db \<Rightarrow> nat" where
  "count_courier_active c d = length (filter (\<lambda>ord. o_courier_id ord = Some c
     \<and> o_status ord \<in> set courier_active) (orders d))"

text \<open>A flush of a changed order: the check constraints are evaluated at the time of the write.\<close>

definition flush_order :: "time \<Rightarrow> order \<Rightarrow> db \<Rightarrow> error + db" where
  "flush_order now ord d = ensure (chk_order now ord) IntegrityError (Inr (put_order ord d))"

record new_order_input =
  no_description :: "string option"
  no_delivery_city :: string
  no_latitude :: rat
  no_longitude :: rat
  no_delivery_date :: int
  no_request_media_keys :: "string list"

definition create_order_row ::
  "time \<Rightarrow> uuid \<Rightarrow> new_order_input \<Rightarrow> string option \<Rightarrow> db \<Rightarrow> error + order \<times> db" where
  "create_order_row now customer_id n address_note d =
     (let (i, d) = fresh d;
          ord = \<lparr>o_id = i, o_customer_id = customer_id, o_courier_id = None,
                 o_description = no_description n, o_delivery_city = no_delivery_city n,
                 o_delivery_location = (no_longitude n, no_latitude n),
                 o_delivery_address_note = address_note, o_delivery_date = no_delivery_date n,
                 o_status = OS_NEW, o_total_amount = 0, o_commission_amount = 0,
                 o_courier_payout_amount = 0, o_assigned_at = None, o_delivered_at = None,
                 o_completed_at = None, o_cancelled_reason = None, o_created_at = now\<rparr>
      in ensure (chk_order now ord) IntegrityError (Inr (ord, add_order ord d)))"

definition add_media ::
  "uuid \<Rightarrow> uuid \<Rightarrow> media_type \<Rightarrow> string \<Rightarrow> string \<Rightarrow> int \<Rightarrow> (rat \<times> rat) option \<Rightarrow> time option \<Rightarrow> db
     \<Rightarrow> error + db" where
  "add_media order_id uploader mt k content_type byte_size location captured_at d =
     (let (i, d) = fresh d;
          m = \<lparr>om_id = i, om_order_id = order_id, om_uploaded_by_user_id = uploader,
               om_media_type = mt, om_storage_key = k, om_content_type = content_type,
               om_byte_size = byte_size, om_capture_location = location,
               om_captured_at = captured_at\<rparr>
      in ensure (chk_order_media m) IntegrityError (Inr (d\<lparr>order_medias := order_medias d @ [m]\<rparr>)))"

definition get_for_actor :: "uuid \<Rightarrow> uuid \<Rightarrow> db \<Rightarrow> order option" where
  "get_for_actor order_id actor_id d =
     (case get_order order_id d of None \<Rightarrow> None
      | Some ord \<Rightarrow> if o_customer_id ord = actor_id \<or> o_courier_id ord = Some actor_id
                   then Some ord else None)"

text \<open>\<open>conversations.order_id\<close> is unique.\<close>

definition create_conversation :: "time \<Rightarrow> uuid \<Rightarrow> uuid \<Rightarrow> uuid \<Rightarrow> db \<Rightarrow> error + conversation \<times> db" where
  "create_conversation now order_id customer_id courier_id d =
     (let (i, d) = fresh d;
          c = \<lparr>cv_id = i, cv_order_id = order_id, cv_customer_id = customer_id,
               cv_courier_id = courier_id, cv_last_message_preview_encrypted = None,
               cv_last_message_timestamp = now, cv_customer_unread_count = 0,
               cv_courier_unread_count = 0, cv_is_closed = False\<rparr>
      in ensure (order_id \<notin> set (map cv_order_id (conversations d))) IntegrityError
         (Inr (c, add_conversation c d)))"

text \<open>\<open>MessageWriter.add_system_message\<close>: the new row has no \<open>created_at\<close> before the flush, so
  the time stamp of the conversation is assigned to itself.\<close>

definition add_system_message :: "time \<Rightarrow> uuid \<Rightarrow> uuid \<Rightarrow> string \<Rightarrow> message_type \<Rightarrow> db \<Rightarrow> message \<times> db" where
  "add_system_message now conversation_id sender_id content_encrypted mt d =
     (let (i, d) = fresh d;
          m = \<lparr>msg_id = i, msg_conversation_id = conversation_id, msg_sender_id = sender_id,
               msg_message_type = mt, msg_content_encrypted = content_encrypted,
               msg_is_read = False, msg_read_at = None, msg_created_at = now\<rparr>
      in (m, add_message m d))"

subsection \<open>Keyset paging\<close>

definition page_key :: "order \<Rightarrow> time \<times> uuid" where
  "page_key ord = (o_created_at ord, o_id ord)"

text \<open>\<open>ORDER BY created_at DESC, id DESC\<close>, the rows before the anchor, at most \<open>limit\<close> of them; an
  unknown anchor starts at the top.\<close>

definition page_rows :: "(order \<Rightarrow> bool) \<Rightarrow> nat \<Rightarrow> uuid option \<Rightarrow> db \<Rightarrow> order list" where
  "page_rows P limit before_id d =
     (let newest_first = rev (sort_key page_key (filter P (orders d)));
          after = (case before_id of None \<Rightarrow> newest_first
            | Some b \<Rightarrow> (case get_order b d of None \<Rightarrow> newest_first
                | Some anchor \<Rightarrow> filter (\<lambda>ord. page_key ord < page_key anchor) newest_first))
      in take limit after)"

definition list_for_customer :: "uuid \<Rightarrow> order_status option \<Rightarrow> nat \<Rightarrow> uuid option \<Rightarrow> db \<Rightarrow> order list" where
  "list_for_customer c status limit before_id d =
     page_rows (\<lambda>ord. o_customer_id ord = c \<and> (status = None \<or> status = Some (o_status ord)))
       limit before_id d"

definition list_available :: "string \<Rightarrow> nat \<Rightarrow> uuid option \<Rightarrow> db \<Rightarrow> order list" where
  "list_available city limit before_id d =
     page_rows (\<lambda>ord. o_delivery_city ord = city \<and> o_status ord = OS_NEW) limit before_id d"

section \<open>Order service\<close>

definition create_order ::
  "time \<Rightarrow> settings \<Rightarrow> object_store \<Rightarrow> uuid \<Rightarrow> new_order_input \<Rightarrow> db \<Rightarrow> error + order \<times> db" where
  "create_order now s S customer_id n d =
     ensure (16 \<le> no_latitude n \<and> no_latitude n \<le> 33) ValidationDomainError
     (ensure (34 \<le> no_longitude n \<and> no_longitude n \<le> 56) ValidationDomainError
     (ensure (length (no_request_media_keys n) \<le> 3) ValidationDomainError
     (ensure (count_customer_active customer_id d < 5) ConflictError
     (and_then (fold_err (\<lambda>k _. confirm s S k) (no_request_media_keys n) ()) (\<lambda>_.
      and_then (create_order_row now customer_id n None d) (\<lambda>(ord, d).
      and_then (fold_err (\<lambda>k. add_media (o_id ord) customer_id MT_CUSTOMER_REQUEST k
          ''image/jpeg'' 0 None None) (no_request_media_keys n) d) (\<lambda>d. Inr (ord, d))))))))"

definition require_active_verified_courier :: "uuid \<Rightarrow> db \<Rightarrow> error + unit" where
  "require_active_verified_courier courier_id d =
     ensure (case get_user courier_id d of None \<Rightarrow> False
       | Some u \<Rightarrow> u_role u = UR_COURIER \<and> u_status u = US_ACTIVE) ForbiddenError
     (ensure (case get_courier_profile courier_id d of None \<Rightarrow> False
       | Some p \<Rightarrow> cp_is_verified p) ForbiddenError (Inr ()))"

definition content_aad :: "uuid \<Rightarrow> string" where
  "content_aad conversation_id = build_aad ''messages'' ''content'' (str_uuid conversation_id)"

definition write_system_message ::
  "time \<Rightarrow> settings \<Rightarrow> aead \<Rightarrow> string \<Rightarrow> uuid \<Rightarrow> uuid \<Rightarrow> string \<Rightarrow> db \<Rightarrow> error + db" where
  "write_system_message now s A iv conversation_id sender_id txt d =
     and_then (settings_cipher s) (\<lambda>c.
     and_then (encrypt A c iv txt (content_aad conversation_id)) (\<lambda>content.
     Inr (snd (add_system_message now conversation_id sender_id content MSG_SYSTEM d))))"

definition assign_locked ::
  "time \<Rightarrow> settings \<Rightarrow> aead \<Rightarrow> string \<Rightarrow> uuid \<Rightarrow> uuid \<Rightarrow> db \<Rightarrow> error + order \<times> db" where
  "assign_locked now s A iv order_id courier_id d =
     or_raise (get_order order_id d) NotFoundError (\<lambda>ord.
     ensure (o_status ord = OS_NEW) OrderAlreadyAssignedError
     (and_then (assert_transition (o_status ord) OS_ASSIGNED) (\<lambda>_.
      let ord = ord\<lparr>o_courier_id := Some courier_id, o_status := OS_ASSIGNED,
                    o_assigned_at := Some now\<rparr>
      in and_then (flush_order now ord d) (\<lambda>d.
         and_then (create_conversation now order_id (o_customer_id ord) courier_id d) (\<lambda>(c, d).
         and_then (write_system_message now s A iv (cv_id c) courier_id
             ''A courier accepted your order.'' d) (\<lambda>d. Inr (ord, d)))))))"

definition accept_lock_key :: "uuid \<Rightarrow> string" where
  "accept_lock_key order_id = ''lock:order_accept:'' @ str_uuid order_id"

text \<open>\<open>token\<close> is the random token of this call and \<open>now'\<close> the time the lock is released.  The
  database part is rolled back when it raises; Redis is not.\<close>

definition accept_order ::
  "time \<Rightarrow> time \<Rightarrow> settings \<Rightarrow> aead \<Rightarrow> string \<Rightarrow> string \<Rightarrow> uuid \<Rightarrow> uuid \<Rightarrow> db \<Rightarrow> redis
     \<Rightarrow> (error + order \<times> db) \<times> redis" where
  "accept_order now now' s A token iv order_id courier_id d r =
     (case and_then (require_active_verified_courier courier_id d) (\<lambda>_.
             ensure (count_courier_active courier_id d < 3) ForbiddenError (Inr ())) of
        Inl e \<Rightarrow> (Inl e, r)
      | Inr _ \<Rightarrow>
          (case redis_lock (accept_lock_key order_id) token 10 (now div 1000) (now' div 1000)
              (\<lambda>r. (assign_locked now s A iv order_id courier_id d, r)) r of
             (res, r) \<Rightarrow> (map_sum (\<lambda>e. if e = LockNotAcquiredError then OrderAlreadyAssignedError
                else e) id res, r)))"

definition cancel_order :: "time \<Rightarrow> uuid \<Rightarrow> uuid \<Rightarrow> string option \<Rightarrow> db \<Rightarrow> error + order \<times> db" where
  "cancel_order now order_id actor_id reason d =
     or_raise (get_for_actor order_id actor_id d) NotFoundError (\<lambda>ord.
     and_then (assert_transition (o_status ord) OS_CANCELLED) (\<lambda>_.
     let ord = ord\<lparr>o_status := OS_CANCELLED, o_cancelled_reason := reason\<rparr>
     in and_then (flush_order now ord d) (\<lambda>d. Inr (ord, d))))"

definition get_order_for_actor :: "uuid \<Rightarrow> uuid \<Rightarrow> db \<Rightarrow> error + order" where
  "get_order_for_actor order_id actor_id d =
     or_raise (get_for_actor order_id actor_id d) NotFoundError Inr"


section \<open>What the operations change\<close>

lemma flush_order_Inr [simp]:
  "flush_order now ord d = Inr d' \<longleftrightarrow> chk_order now ord \<and> d' = put_order ord d"
  by (auto simp: flush_order_def)

lemma put_order_tables [simp]:
  "conversations (put_order ord d) = conversations d" "messages (put_order ord d) = messages d"
  "users (put_order ord d) = users d" "courier_profiles (put_order ord d) = courier_profiles d"
  "wallets (put_order ord d) = wallets d" "transactions (put_order ord d) = transactions d"
  "promos (put_order ord d) = promos d" "invoices (put_order ord d) = invoices d"
  "promo_redemptions (put_order ord d) = promo_redemptions d" "next_id (put_order ord d) = next_id d"
  "payment_intents (put_order ord d) = payment_intents d"
  "orders (put_order ord d) = put_by o_id ord (orders d)"
  by (simp_all add: put_order_def)

lemma assign_locked_effect:
  assumes "assign_locked now s A iv order_id courier_id d = Inr (ord', d')"
  obtains ord where "get_order order_id d = Some ord" and "o_status ord = OS_NEW"
    and "ord' = ord\<lparr>o_courier_id := Some courier_id, o_status := OS_ASSIGNED, o_assigned_at := Some now\<rparr>"
    and "orders d' = put_by o_id ord' (orders d)"
    and "order_id \<notin> set (map cv_order_id (conversations d))"
    and "order_id \<in> set (map cv_order_id (conversations d'))"
proof -
  obtain ord where ord: "get_order order_id d = Some ord" "o_status ord = OS_NEW"
    using assms by (auto simp: assign_locked_def)
  show ?thesis
    by (rule that [OF ord])
       (use assms ord in \<open>auto simp: assign_locked_def create_conversation_def
          write_system_message_def add_system_message_def fresh_def Let_def
          add_conversation_def add_message_def\<close>)
qed

lemma assign_locked_refused:
  assumes "get_order order_id d = Some ord" and "o_status ord \<noteq> OS_NEW"
  shows "assign_locked now s A iv order_id courier_id d = Inl OrderAlreadyAssignedError"
  using assms by (simp add: assign_locked_def)

lemma accept_order_Inr:
  assumes "fst (accept_order now now' s A token iv order_id courier_id d r) = Inr (ord', d')"
  shows "assign_locked now s A iv order_id courier_id d = Inr (ord', d')"
    and "count_courier_active courier_id d < 3" and "require_active_verified_courier courier_id d = Inr ()"
  using assms
  by (auto simp: accept_order_def redis_lock_def map_sum_def split: sum.splits prod.splits)

text \<open>A sequence of attempts to accept one order, each in whatever state Redis is then.\<close>

record attempt =
  at_now :: time
  at_release :: time
  at_token :: string
  at_iv :: string
  at_courier :: uuid
  at_redis :: redis

definition run_attempt :: "settings \<Rightarrow> aead \<Rightarrow> uuid \<Rightarrow> attempt \<Rightarrow> db \<Rightarrow> error + order \<times> db" where
  "run_attempt s A order_id a d = fst (accept_order (at_now a) (at_release a) s A (at_token a)
     (at_iv a) order_id (at_courier a) d (at_redis a))"

fun winners :: "settings \<Rightarrow> aead \<Rightarrow> uuid \<Rightarrow> attempt list \<Rightarrow> db \<Rightarrow> uuid list \<times> db" where
  "winners s A order_id [] d = ([], d)"
| "winners s A order_id (a # as) d =
     (case run_attempt s A order_id a d of
        Inl e \<Rightarrow> winners s A order_id as d
      | Inr (ord, d') \<Rightarrow> (case winners s A order_id as d' of (ws, d) \<Rightarrow> (at_courier a # ws, d)))"

lemma run_attempt_taken:
  assumes "get_order order_id d = Some ord" and "o_status ord \<noteq> OS_NEW"
  shows "\<exists>e. run_attempt s A order_id a d = Inl e"
proof (cases "run_attempt s A order_id a d")
  case (Inr x)
  obtain o' d' where x: "x = (o', d')" by (cases x)
  have "assign_locked (at_now a) s A (at_iv a) order_id (at_courier a) d = Inr (o', d')"
    by (rule accept_order_Inr(1)) (rule Inr [unfolded x run_attempt_def])
  then show ?thesis by (simp add: assign_locked_refused [OF assms])
qed simp

lemma winners_taken:
  assumes "get_order order_id d = Some ord" and "o_status ord \<noteq> OS_NEW"
  shows "winners s A order_id as d = ([], d)"
proof (induction as)
  case (Cons a as)
  obtain e where "run_attempt s A order_id a d = Inl e" using run_attempt_taken [OF assms] by blast
  with Cons show ?case by simp
qed simp

lemma run_attempt_assigns:
  assumes "run_attempt s A order_id a d = Inr (ord, d')"
  shows "get_order order_id d' = Some ord" and "o_status ord = OS_ASSIGNED"
    and "o_courier_id ord = Some (at_courier a)"
proof -
  obtain old where old: "get_order order_id d = Some old"
    "ord = old\<lparr>o_courier_id := Some (at_courier a), o_status := OS_ASSIGNED,
       o_assigned_at := Some (at_now a)\<rparr>"
    "orders d' = put_by o_id ord (orders d)"
    by (rule assign_locked_effect [OF accept_order_Inr(1) [OF assms [unfolded run_attempt_def]]])
  then show "get_order order_id d' = Some ord" "o_status ord = OS_ASSIGNED"
    "o_courier_id ord = Some (at_courier a)"
    using order_tab.get_key [OF old(1)] by (auto simp: get_order_def find_by_put_by)
qed


section \<open>Keyset paging\<close>

definition newest_first :: "(order \<Rightarrow> bool) \<Rightarrow> db \<Rightarrow> order list" where
  "newest_first P d = rev (sort_key page_key (filter P (orders d)))"

text \<open>A client that follows the pages, passing the last identifier it has seen.\<close>

fun walk :: "nat \<Rightarrow> (order \<Rightarrow> bool) \<Rightarrow> nat \<Rightarrow> uuid option \<Rightarrow> db \<Rightarrow> order list" where
  "walk 0 P limit before_id d = []"
| "walk (Suc fuel) P limit before_id d =
     (case page_rows P limit before_id d of [] \<Rightarrow> []
      | r # rows \<Rightarrow> (r # rows) @ walk fuel P limit (Some (o_id (last (r # rows)))) d)"

lemma newest_first_strict:
  assumes "distinct (map o_id (orders d))"
  shows "sorted_wrt (\<lambda>x y. page_key y < page_key x) (newest_first P d)"
proof -
  let ?xs = "sort_key page_key (filter P (orders d))"
  have "distinct (map o_id (filter P (orders d)))" using assms by (rule distinct_map_filter)
  then have "distinct (map page_key (filter P (orders d)))"
    by (auto simp: distinct_map page_key_def inj_on_def)
  then have "distinct (map page_key ?xs)"
    by (metis distinct_map distinct_sort set_sort)
  moreover have "sorted (map page_key ?xs)" by (rule sorted_sort_key)
  ultimately have "sorted_wrt (<) (map page_key ?xs)"
    by (simp add: strict_sorted_iff)
  then show ?thesis by (simp add: newest_first_def sorted_wrt_map sorted_wrt_rev)
qed

lemma filter_below:
  assumes "sorted_wrt (\<lambda>x y. page_key y < page_key x) (xs @ a # ys)"
  shows "filter (\<lambda>ord. page_key ord < page_key a) (xs @ a # ys) = ys"
proof -
  have "filter (\<lambda>ord. page_key ord < page_key a) xs = []"
    using assms by (auto simp: sorted_wrt_append filter_empty_conv dest: order.asym)
  moreover have "filter (\<lambda>ord. page_key ord < page_key a) ys = ys"
    using assms by (auto simp: sorted_wrt_append filter_id_conv)
  ultimately show ?thesis by simp
qed

lemma page_rows_first: "page_rows P limit None d = take limit (newest_first P d)"
  by (simp add: page_rows_def newest_first_def)

lemma page_rows_next:
  assumes "distinct (map o_id (orders d))" and "newest_first P d = xs @ a # ys"
  shows "page_rows P limit (Some (o_id a)) d = take limit ys"
proof -
  have "a \<in> set (newest_first P d)" using assms(2) by simp
  then have "a \<in> set (orders d)" by (auto simp: newest_first_def)
  then have get: "get_order (o_id a) d = Some a"
    using assms(1) by (simp add: get_order_def find_by_mem)
  show ?thesis
    using filter_below [of xs a ys] newest_first_strict [OF assms(1), of P] get
    unfolding assms(2) by (simp add: page_rows_def newest_first_def [symmetric] assms(2))
qed

lemma walk_rest:
  assumes "distinct (map o_id (orders d))" and "0 < limit"
    and "newest_first P d = xs @ ys" and "length ys < fuel"
    and "before_id = (if xs = [] then None else Some (o_id (last xs)))"
  shows "walk fuel P limit before_id d = ys"
  using assms(3-)
proof (induction fuel arbitrary: xs ys before_id)
  case (Suc fuel)
  have page: "page_rows P limit before_id d = take limit ys"
  proof (cases "xs = []")
    case True
    with Suc.prems show ?thesis by (simp add: page_rows_first)
  next
    case False
    then have "newest_first P d = butlast xs @ last xs # ys" using Suc.prems by simp
    from page_rows_next [OF assms(1) this] False Suc.prems show ?thesis by simp
  qed
  show ?case
  proof (cases ys)
    case Nil
    with page show ?thesis by simp
  next
    case (Cons y ys')
    then have ne: "take limit ys \<noteq> []" using assms(2) by simp
    have "walk fuel P limit (Some (o_id (last (xs @ take limit ys)))) d = drop limit ys"
      by (rule Suc.IH [where xs = "xs @ take limit ys"])
         (use Suc.prems ne Cons assms(2) in auto)
    with ne page show ?thesis
      by (cases "take limit ys") (auto, metis append_Cons append_take_drop_id)
  qed
qed simp


section \<open>Upload keys\<close>

definition uuid_text :: "string \<Rightarrow> bool" where
  "uuid_text u \<longleftrightarrow> length u = 36 \<and> list_all hex_or_dash u"

lemma contains_append_iff: "contains s t \<longleftrightarrow> (\<exists>a b. t = a @ s @ b)"
proof (induction t)
  case (Cons c t)
  have "take (length s) (c # t) = s \<longleftrightarrow> (\<exists>b. c # t = s @ b)"
    by (metis append_eq_conv_conj append_take_drop_id)
  moreover have "(\<exists>a b. c # t = a @ s @ b) \<longleftrightarrow> (\<exists>b. c # t = s @ b) \<or> (\<exists>a b. t = a @ s @ b)"
    by (metis Cons_eq_append_conv append_Cons append_Nil)
  ultimately show ?case using Cons by auto
qed simp

lemma contains_single: "contains [c] t \<longleftrightarrow> c \<in> set t"
  by (auto simp: contains_append_iff in_set_conv_decomp)

lemma hex_or_dash_not:
  "hex_or_dash c \<Longrightarrow> c \<noteq> CHR ''.''" "hex_or_dash c \<Longrightarrow> c \<noteq> CHR 0x00" "hex_or_dash c \<Longrightarrow> c \<noteq> CHR 0x0A"
  by (auto simp: hex_or_dash_def is_digit_def)

text \<open>No two neighbouring dots.\<close>

fun dotted :: "string \<Rightarrow> bool" where
  "dotted (a # b # t) \<longleftrightarrow> (a = CHR ''.'' \<and> b = CHR ''.'') \<or> dotted (b # t)"
| "dotted _ \<longleftrightarrow> False"

lemma contains_dots: "contains ''..'' t \<longleftrightarrow> dotted t"
  by (induction t rule: dotted.induct) auto

lemma dotted_append: "\<forall>c \<in> set xs. c \<noteq> CHR ''.'' \<Longrightarrow> dotted (xs @ ys) = dotted ys"
proof (induction xs)
  case (Cons x xs)
  then show ?case by (cases "xs @ ys") auto
qed simp

lemma key_parts:
  fixes p u e :: string
  assumes "uuid_text u" and "length e = 3" and "k = p @ ''/'' @ u @ ''.'' @ e"
  shows "length k = length p + 41" and "take (length p + 1) k = p @ ''/''"
    and "list_all hex_or_dash (take 36 (drop (length p + 1) k))"
    and "drop (length p + 37) k = CHR ''.'' # e"
  using assms by (simp_all add: uuid_text_def)

lemma key_body_shape:
  "key_body k \<longleftrightarrow> (\<exists>p \<in> {''orders/pending'', ''orders/proof''}. \<exists>u. \<exists>e \<in> {''jpg'', ''png''}.
     uuid_text u \<and> k = p @ ''/'' @ u @ ''.'' @ e)"
proof
  assume "key_body k"
  then obtain p e where pe: "p \<in> {''orders/pending'', ''orders/proof''}" "e \<in> {''jpg'', ''png''}"
    "length k = length p + 41" "take (length p + 1) k = p @ ''/''"
    "list_all hex_or_dash (take 36 (drop (length p + 1) k))"
    "drop (length p + 37) k = CHR ''.'' # e"
    by (simp only: key_body_def list_ex_iff set_simps) blast
  let ?u = "take 36 (drop (length p + 1) k)"
  have "drop 36 (drop (length p + 1) k) = drop (length p + 37) k" by (simp add: add.commute)
  then have "k = take (length p + 1) k @ ?u @ drop (length p + 37) k"
    by (metis append_take_drop_id)
  then have "k = p @ ''/'' @ ?u @ ''.'' @ e" using pe by simp
  moreover have "uuid_text ?u" using pe by (simp add: uuid_text_def)
  ultimately show "\<exists>p \<in> {''orders/pending'', ''orders/proof''}. \<exists>u. \<exists>e \<in> {''jpg'', ''png''}.
     uuid_text u \<and> k = p @ ''/'' @ u @ ''.'' @ e"
    using pe(1,2) by blast
next
  assume "\<exists>p \<in> {''orders/pending'', ''orders/proof''}. \<exists>u. \<exists>e \<in> {''jpg'', ''png''}.
     uuid_text u \<and> k = p @ ''/'' @ u @ ''.'' @ e"
  then obtain p u e where pe: "p \<in> {''orders/pending'', ''orders/proof''}" "e \<in> {''jpg'', ''png''}"
    and k: "uuid_text u" "k = p @ ''/'' @ u @ ''.'' @ e"
    by blast
  from pe(2) have "length e = 3" by auto
  note K = key_parts [OF k(1) this k(2)]
  show "key_body k"
    unfolding key_body_def list_ex_iff
    by (rule bexI [of _ p], rule bexI [of _ e]) (use K pe in \<open>simp_all only: set_simps simp_thms\<close>)
qed


lemma key_body_text:
  assumes "key_body k"
  shows "CHR 0x00 \<notin> set k" and "CHR 0x0A \<notin> set k" and "\<not> dotted k" and "\<not> dotted (k @ [CHR 0x0A])"
    and "length k \<le> 55"
proof -
  obtain p u e where k: "k = (p @ ''/'' @ u) @ CHR ''.'' # e" and u: "uuid_text u"
    and p: "p \<in> {''orders/pending'', ''orders/proof''}" and e: "e \<in> {''jpg'', ''png''}"
  proof -
    obtain p u e where "p \<in> {''orders/pending'', ''orders/proof''}" "e \<in> {''jpg'', ''png''}"
      "uuid_text u" "k = p @ ''/'' @ u @ ''.'' @ e"
      using assms unfolding key_body_shape by blast
    then show ?thesis by (intro that [of p u e]) (simp_all only: append.assoc append.simps)
  qed
  have hex: "\<forall>c \<in> set u. hex_or_dash c" using u by (simp add: uuid_text_def list_all_iff)
  then have u': "CHR ''.'' \<notin> set u" "CHR 0x00 \<notin> set u" "CHR 0x0A \<notin> set u"
    using hex_or_dash_not(1) [of "CHR ''.''"] hex_or_dash_not(2) [of "CHR 0x00"]
      hex_or_dash_not(3) [of "CHR 0x0A"] by auto
  with p have pre: "\<forall>c \<in> set (p @ ''/'' @ u). c \<noteq> CHR ''.''" by auto
  show "CHR 0x00 \<notin> set k" "CHR 0x0A \<notin> set k" using k p e u' by auto
  show "\<not> dotted k" unfolding k using dotted_append [OF pre] e by auto
  show "\<not> dotted (k @ [CHR 0x0A])"
    unfolding k append.assoc using dotted_append [OF pre] e by auto
  show "length k \<le> 55" using k p e u by (auto simp: uuid_text_def)
qed

lemma validate_key_iff:
  "validate_key k = Inr () \<longleftrightarrow> key_body k \<or> (\<exists>b. k = b @ [CHR 0x0A] \<and> key_body b)"
proof -
  have "\<not> contains [CHR 0x00] k \<and> \<not> contains ''..'' k" if "key_re k"
    using that unfolding key_re_def
  proof
    assume "key_body k"
    then show ?thesis using key_body_text by (simp add: contains_single contains_dots)
  next
    assume k: "k \<noteq> [] \<and> last k = CHR 0x0A \<and> key_body (butlast k)"
    then have "k = butlast k @ [CHR 0x0A]" by (metis append_butlast_last_id)
    then obtain b where b: "k = b @ [CHR 0x0A]" "key_body b" using k by metis
    show ?thesis
      unfolding b(1) contains_single contains_dots using key_body_text(1,4) [OF b(2)] by simp
  qed
  moreover have "key_re k \<longleftrightarrow> key_body k \<or> (\<exists>b. k = b @ [CHR 0x0A] \<and> key_body b)"
    unfolding key_re_def by (metis append_butlast_last_id butlast_snoc last_snoc snoc_eq_iff_butlast)
  ultimately show ?thesis by (auto simp: validate_key_def)
qed

section \<open>Properties\<close>

text \<open>A market with a verified courier (user 11), a second one (13), and a new order 1.\<close>

definition sample_user :: "uuid \<Rightarrow> user_role \<Rightarrow> user" where
  "sample_user i role = \<lparr>u_id = i, u_phone = digits i, u_email = None, u_full_name = None,
     u_date_of_birth = None, u_role = role, u_status = US_ACTIVE, u_rating = 0,
     u_rating_count = 0, u_deleted_at = None\<rparr>"

definition sample_profile :: "uuid \<Rightarrow> courier_profile" where
  "sample_profile i = \<lparr>cp_user_id = i, cp_passport_id_encrypted = None,
     cp_national_id_encrypted = Some ''x'', cp_identity_fingerprint = Some (digits i),
     cp_city_of_residence = ''Riyadh'', cp_bio = None, cp_is_verified = True,
     cp_verified_at = Some 0, cp_verified_by_admin_id = None\<rparr>"

definition sample_order :: order where
  "sample_order = \<lparr>o_id = 1, o_customer_id = 10, o_courier_id = None, o_description = None,
     o_delivery_city = ''Riyadh'', o_delivery_location = (46, 24), o_delivery_address_note = None,
     o_delivery_date = 3, o_status = OS_NEW, o_total_amount = 0, o_commission_amount = 0,
     o_courier_payout_amount = 0, o_assigned_at = None, o_delivered_at = None,
     o_completed_at = None, o_cancelled_reason = None, o_created_at = 0\<rparr>"

definition market_db :: db where
  "market_db = sample_db\<lparr>users := [sample_user 10 UR_CUSTOMER, sample_user 11 UR_COURIER,
       sample_user 13 UR_COURIER],
     courier_profiles := [sample_profile 11, sample_profile 13], orders := [sample_order]\<rparr>"

definition sample_attempt :: "uuid \<Rightarrow> attempt" where
  "sample_attempt c = \<lparr>at_now = 0, at_release = 1000000, at_token = digits c,
     at_iv = replicate 12 CHR ''i'', at_courier = c, at_redis = Map.empty\<rparr>"

text \<open>C4: An order is accepted at most once.  Over any sequence of attempts to accept an order, each
  made in an arbitrary state of the Redis lock (free, held, expired, or lost), at most one courier
  wins; the order then is assigned to that courier, and an attempt made while another process
  holds the lock is refused as already assigned.\<close>

theorem order_accepted_once:
  assumes "winners s A order_id attempts d = (ws, d')"
  shows "length ws \<le> 1 \<and>
    (\<forall>w \<in> set ws. \<exists>ord. get_order order_id d' = Some ord \<and> o_courier_id ord = Some w \<and>
       o_status ord = OS_ASSIGNED) \<and> (ws = [] \<longrightarrow> d' = d) \<and>
    (\<forall>now now' token iv c r. rget (now div 1000) r (accept_lock_key order_id) \<noteq> None \<longrightarrow>
       require_active_verified_courier c d = Inr () \<longrightarrow> count_courier_active c d < 3 \<longrightarrow>
       accept_order now now' s A token iv order_id c d r = (Inl OrderAlreadyAssignedError, r))"
proof -
  have "length ws \<le> 1 \<and> (\<forall>w \<in> set ws. \<exists>ord. get_order order_id d' = Some ord \<and>
      o_courier_id ord = Some w \<and> o_status ord = OS_ASSIGNED) \<and> (ws = [] \<longrightarrow> d' = d)"
    using assms
  proof (induction attempts)
    case (Cons a as)
    show ?case
    proof (cases "run_attempt s A order_id a d")
      case (Inl e)
      with Cons show ?thesis by simp
    next
      case (Inr x)
      obtain ord d1 where x: "x = (ord, d1)" by (cases x)
      note R = run_attempt_assigns [OF Inr [unfolded x]]
      have "winners s A order_id as d1 = ([], d1)" by (rule winners_taken [OF R(1)]) (simp add: R(2))
      with Cons.prems Inr x R show ?thesis by auto
    qed
  qed simp
  moreover have "accept_order now now' s A token iv order_id c d r = (Inl OrderAlreadyAssignedError, r)"
    if "rget (now div 1000) r (accept_lock_key order_id) \<noteq> None"
      "require_active_verified_courier c d = Inr ()" "count_courier_active c d < 3"
    for now now' token iv c r
  proof -
    have "lock_acquire (accept_lock_key order_id) token 10 (now div 1000) r = Inl LockNotAcquiredError"
      using that(1) by (auto simp: lock_acquire_def ensure_def)
    then show ?thesis using that(2,3) by (simp add: accept_order_def redis_lock_def)
  qed
  ultimately show ?thesis by blast
qed

lemma sample_settings_cipher: "\<exists>c. settings_cipher sample_settings = Inr c \<and> cipher_ok c"
  by (simp add: settings_cipher_def encryption_keys_def sample_settings_def build_cipher_def text32_def
      cipher_ok_def)

lemma sample_attempt_wins:
  "\<exists>x. run_attempt sample_settings sample_aead 1 (sample_attempt 11) market_db = Inr x"
proof -
  obtain c where c: "settings_cipher sample_settings = Inr c" "cipher_ok c"
    using sample_settings_cipher by blast
  have "\<exists>b. encrypt sample_aead c (replicate 12 CHR ''i'') m a = Inr b" for m a
    by (rule encrypt_decrypt [OF sample_aead_laws c(2), where iv = "replicate 12 CHR ''i''"
          and m = m and aad = a]) simp_all
  then obtain b where b: "encrypt sample_aead c (replicate 12 CHR ''i'')
      ''A courier accepted your order.'' (content_aad 20) = Inr b" by blast
  show ?thesis
    by (simp add: run_attempt_def sample_attempt_def accept_order_def market_db_def get_user_def
        require_active_verified_courier_def find_by_def sample_user_def get_courier_profile_def
        sample_profile_def count_courier_active_def sample_order_def redis_lock_def lock_acquire_def
        rset_ex_def rget_def rlive_def assign_locked_def get_order_def chk_order_def
        chk_delivery_date_window_def current_date_def create_conversation_def fresh_def sample_db_def
        seeded_db_def empty_db_def put_order_def write_system_message_def c b Let_def
        ensure_def courier_active_def add_conversation_def assert_transition_def flush_order_def)
qed

theorem order_accepted_once_witness:
  "fst (winners sample_settings sample_aead 1 [sample_attempt 11, sample_attempt 13] market_db) = [11]"
proof -
  obtain ws d' where w: "winners sample_settings sample_aead 1
      [sample_attempt 11, sample_attempt 13] market_db = (ws, d')"
    by (cases "winners sample_settings sample_aead 1 [sample_attempt 11, sample_attempt 13] market_db")
  have "\<exists>x. run_attempt sample_settings sample_aead 1 (sample_attempt 11) market_db = Inr x"
    by (rule sample_attempt_wins)
  then have "\<exists>ws'. ws = 11 # ws'"
    using w by (auto simp: sample_attempt_def split: sum.splits prod.splits)
  moreover have "length ws \<le> 1" using order_accepted_once [OF w] by blast
  ultimately show ?thesis using w by auto
qed

text \<open>C22: Keyset paging is complete.  With a positive page size, a client that follows the pages,
  passing the identifier of the last order it saw, receives every matching order exactly once,
  newest first, and then an empty page; as many pages as there are orders and one more suffice.\<close>

theorem order_pages_complete:
  assumes "distinct (map o_id (orders d))" and "0 < limit" and "length (filter P (orders d)) < fuel"
  shows "walk fuel P limit None d = newest_first P d \<and>
    set (newest_first P d) = set (filter P (orders d)) \<and>
    distinct (map o_id (newest_first P d)) \<and>
    sorted_wrt (\<lambda>x y. page_key y < page_key x) (newest_first P d)"
proof -
  have "walk fuel P limit None d = newest_first P d"
    by (rule walk_rest [OF assms(1,2), where xs = "[]"]) (use assms(3) in \<open>auto simp: newest_first_def\<close>)
  moreover have "distinct (map o_id (newest_first P d))"
    using distinct_map_filter [OF assms(1)]
    by (auto simp: newest_first_def rev_map [symmetric] distinct_map distinct_sort)
  ultimately show ?thesis
    using newest_first_strict [OF assms(1)] by (simp add: newest_first_def)
qed

theorem order_pages_complete_witness:
  "walk 2 (\<lambda>ord. o_status ord = OS_NEW) 1 None market_db = [sample_order]"
proof -
  have "newest_first (\<lambda>ord. o_status ord = OS_NEW) market_db = [sample_order]"
    by (simp add: newest_first_def market_db_def sample_order_def)
  then show ?thesis
    using order_pages_complete [of market_db 1 "\<lambda>ord. o_status ord = OS_NEW" 2]
    by (simp add: market_db_def sample_order_def del: walk.simps)
qed

text \<open>The allow-list of storage keys.  A key handed out for an upload is accepted again when
  it is confirmed; an accepted key is one of the two known prefixes, a slash, 36 hexadecimal digits
  or dashes and one of two extensions, possibly followed by one newline, which the pattern lets
  through: it holds no parent reference and no null byte and is at most 56 characters long.\<close>

theorem storage_key_allow_list:
  assumes "uuid_text uuid4"
  shows "(\<forall>s purpose ct size k ttl. request_upload_url s uuid4 purpose ct size = Inr (k, ttl) \<longrightarrow>
      validate_key k = Inr ()) \<and>
    (\<forall>k. validate_key k = Inr () \<longleftrightarrow> key_body k \<or> (\<exists>b. k = b @ [CHR 0x0A] \<and> key_body b)) \<and>
    (\<forall>k. validate_key k = Inr () \<longrightarrow> \<not> contains ''..'' k \<and> CHR 0x00 \<notin> set k \<and> length k \<le> 56)"
proof (intro conjI allI impI)
  fix s purpose ct size k ttl
  assume "request_upload_url s uuid4 purpose ct size = Inr (k, ttl)"
  then have "key_body k"
    using assms
    by (auto simp: request_upload_url_def prefix_by_purpose_def key_body_shape Let_def split: if_splits)
  then show "validate_key k = Inr ()" by (simp add: validate_key_iff)
next
  fix k
  assume v: "validate_key k = Inr ()"
  then show "\<not> contains ''..'' k" "CHR 0x00 \<notin> set k"
    by (simp_all add: validate_key_def contains_single)
  show "length k \<le> 56" using v key_body_text(5) unfolding validate_key_iff by fastforce
qed (rule validate_key_iff)

theorem storage_key_allow_list_witness:
  "validate_key (''orders/proof/'' @ replicate 36 CHR ''a'' @ ''.png'') = Inr ()"
proof -
  have u: "uuid_text (replicate 36 CHR ''a'')" by (simp add: uuid_text_def hex_or_dash_def list_all_iff)
  have r: "request_upload_url sample_settings (replicate 36 CHR ''a'') ''DELIVERY_PROOF''
      ''image/png'' 1 = Inr (''orders/proof/'' @ replicate 36 CHR ''a'' @ ''.png'', 300)"
    by (simp add: request_upload_url_def prefix_by_purpose_def allowed_image_types_def
        sample_settings_def default_business_def Let_def)
  show ?thesis by (rule storage_key_allow_list [THEN conjunct1, rule_format, OF u r])
qed

end
