(* ===== verification/Promo.thy ===== *)
theory Promo
  imports Ledger
begin

text \<open>
  \<open>app/repositories/promo_repository.py\<close> and \<open>app/services/promo_service.py\<close>: validation,
  reservation, consumption and release of promo codes.  The conditional \<open>UPDATE\<close> statements
  are single steps of the database, so \<open>atomic_reserve\<close> and \<open>atomic_release\<close> are functions of the
  state; \<open>now\<close> is both the clock of the service and \<open>now()\<close> of the statement.
\<close>

section \<open>Repository\<close>

definition normalize_code :: "string \<Rightarrow> string" where
  "normalize_code code = map upper_char (strip code)"

definition get_by_code :: "string \<Rightarrow> db \<Rightarrow> promo option" where
  "get_by_code code d = find_by pr_code (normalize_code code) (promos d)"

definition flush_promo :: "promo \<Rightarrow> db \<Rightarrow> error + db" where
  "flush_promo p d = ensure (chk_promo p) IntegrityError (Inr (put_promo p d))"

record new_promo =
  np_code :: string
  np_description :: string
  np_discount_type :: promo_discount_type
  np_percent_value :: "rat option"
  np_fixed_amount :: "money option"
  np_max_discount_amount :: "money option"
  np_min_order_amount :: money
  np_max_total_usages :: "int option"
  np_max_usages_per_user :: int

definition create_promo_row :: "new_promo \<Rightarrow> uuid \<Rightarrow> db \<Rightarrow> error + promo \<times> db" where
  "create_promo_row n admin_id d =
     (let (i, d) = fresh d;
          p = \<lparr>pr_id = i, pr_code = normalize_code (np_code n), pr_description = np_description n,
               pr_discount_type = np_discount_type n, pr_percent_value = np_percent_value n,
               pr_fixed_amount = np_fixed_amount n,
               pr_max_discount_amount = np_max_discount_amount n,
               pr_min_order_amount = np_min_order_amount n,
               pr_max_total_usages = np_max_total_usages n,
               pr_max_usages_per_user = np_max_usages_per_user n, pr_used_count = 0,
               pr_is_active = True, pr_starts_at = None, pr_ends_at = None,
               pr_created_by_admin_id = Some admin_id\<rparr>
      in ensure (chk_promo p \<and> pr_code p \<notin> set (map pr_code (promos d))) IntegrityError
         (Inr (p, add_promo p d)))"

definition set_active :: "promo \<Rightarrow> bool \<Rightarrow> db \<Rightarrow> error + db" where
  "set_active p is_active d = flush_promo (p\<lparr>pr_is_active := is_active\<rparr>) d"

text \<open>The \<open>WHERE\<close> clause of the conditional update.\<close>

definition reservable :: "time \<Rightarrow> promo \<Rightarrow> bool" where
  "reservable now p \<longleftrightarrow> pr_is_active p \<and>
     (case pr_starts_at p of None \<Rightarrow> True | Some s \<Rightarrow> s \<le> now) \<and>
     (case pr_ends_at p of None \<Rightarrow> True | Some e \<Rightarrow> now < e) \<and>
     (case pr_max_total_usages p of None \<Rightarrow> True | Some m \<Rightarrow> pr_used_count p < m)"

definition atomic_reserve :: "time \<Rightarrow> uuid \<Rightarrow> db \<Rightarrow> error + int option \<times> db" where
  "atomic_reserve now promo_id d = (case get_promo promo_id d of
       None \<Rightarrow> Inr (None, d)
     | Some p \<Rightarrow>
         if reservable now p
         then and_then (flush_promo (p\<lparr>pr_used_count := pr_used_count p + 1\<rparr>) d) (\<lambda>d.
              Inr (Some (pr_used_count p + 1), d))
         else Inr (None, d))"

definition atomic_release :: "uuid \<Rightarrow> db \<Rightarrow> error + db" where
  "atomic_release promo_id d = (case get_promo promo_id d of
       None \<Rightarrow> Inr d
     | Some p \<Rightarrow>
         if 0 < pr_used_count p
         then flush_promo (p\<lparr>pr_used_count := pr_used_count p - 1\<rparr>) d else Inr d)"

definition count_user_redemptions :: "uuid \<Rightarrow> uuid \<Rightarrow> db \<Rightarrow> int" where
  "count_user_redemptions promo_id user_id d =
     int (length (filter (\<lambda>r. red_promo_id r = promo_id \<and> red_user_id r = user_id
       \<and> red_status r \<noteq> PR_RELEASED) (promo_redemptions d)))"

definition insert_redemption ::
    "uuid \<Rightarrow> uuid \<Rightarrow> uuid \<Rightarrow> uuid \<Rightarrow> money \<Rightarrow> db \<Rightarrow> error + db" where
  "insert_redemption promo_id user_id invoice_id order_id discount_amount d =
     (let (i, d) = fresh d;
          r = \<lparr>red_id = i, red_promo_id = promo_id, red_user_id = user_id,
               red_invoice_id = invoice_id, red_order_id = order_id,
               red_discount_amount = discount_amount, red_status = PR_RESERVED,
               red_released_at = None, red_consumed_at = None\<rparr>
      in ensure (chk_redemption r \<and> \<not> list_ex (\<lambda>x. red_promo_id x = promo_id
             \<and> red_invoice_id x = invoice_id) (promo_redemptions d)) IntegrityError
         (Inr (add_redemption r d)))"

definition get_redemption_by_invoice :: "uuid \<Rightarrow> db \<Rightarrow> promo_redemption option" where
  "get_redemption_by_invoice invoice_id d =
     find_by red_invoice_id invoice_id (promo_redemptions d)"

definition set_redemption_status ::
    "promo_redemption \<Rightarrow> promo_redemption_status \<Rightarrow> time \<Rightarrow> db \<Rightarrow> error + db" where
  "set_redemption_status r status when d =
     (let r = r\<lparr>red_status := status\<rparr>;
          r = (case status of PR_CONSUMED \<Rightarrow> r\<lparr>red_consumed_at := Some when\<rparr>
               | PR_RELEASED \<Rightarrow> r\<lparr>red_released_at := Some when\<rparr> | PR_RESERVED \<Rightarrow> r)
      in ensure (chk_redemption r) IntegrityError (Inr (put_redemption r d)))"

section \<open>Service\<close>

definition to_pricing_promo :: "promo \<Rightarrow> pricing_promo" where
  "to_pricing_promo p =
     \<lparr>pp_discount_type = (if pr_discount_type p = PD_PERCENT then PK_PERCENT else PK_FIXED),
      pp_percent_value = pr_percent_value p, pp_fixed_amount = pr_fixed_amount p,
      pp_max_discount_amount = pr_max_discount_amount p,
      pp_min_order_amount = pr_min_order_amount p\<rparr>"

record promo_validation =
  pv_promo :: promo
  pv_discount_amount :: money

definition validate :: "time \<Rightarrow> string \<Rightarrow> money \<Rightarrow> uuid \<Rightarrow> db \<Rightarrow> error + promo_validation" where
  "validate now code discountable_base user_id d =
     or_raise (get_by_code code d) PromoNotFoundError (\<lambda>p.
     ensure (pr_is_active p) PromoInactiveError
     (ensure (case pr_starts_at p of None \<Rightarrow> True | Some s \<Rightarrow> \<not> now < s) PromoNotStartedError
     (ensure (case pr_ends_at p of None \<Rightarrow> True | Some e \<Rightarrow> \<not> e \<le> now) PromoExpiredError
     (ensure (\<not> discountable_base < pr_min_order_amount p) PromoMinOrderNotMetError
     (ensure (case pr_max_total_usages p of None \<Rightarrow> True | Some m \<Rightarrow> \<not> m \<le> pr_used_count p)
        PromoUsageExceededError
     (ensure (\<not> pr_max_usages_per_user p \<le> count_user_redemptions (pr_id p) user_id d)
        PromoUserLimitReachedError
     (and_then (compute_promo_discount discountable_base (to_pricing_promo p)) (\<lambda>discount.
      Inr \<lparr>pv_promo = p, pv_discount_amount = discount\<rparr>))))))))"

definition reserve :: "time \<Rightarrow> promo \<Rightarrow> uuid \<Rightarrow> uuid \<Rightarrow> uuid \<Rightarrow> money \<Rightarrow> db \<Rightarrow> error + db" where
  "reserve now p user_id invoice_id order_id discount_amount d =
     and_then (atomic_reserve now (pr_id p) d) (\<lambda>(new_count, d).
     ensure (new_count \<noteq> None) PromoUsageExceededError
     (ensure (\<not> pr_max_usages_per_user p \<le> count_user_redemptions (pr_id p) user_id d)
        PromoUserLimitReachedError
     (insert_redemption (pr_id p) user_id invoice_id order_id discount_amount d)))"

definition consume :: "time \<Rightarrow> uuid \<Rightarrow> db \<Rightarrow> error + db" where
  "consume now invoice_id d = (case get_redemption_by_invoice invoice_id d of
       None \<Rightarrow> Inr d
     | Some r \<Rightarrow> if red_status r \<noteq> PR_RESERVED then Inr d
                else set_redemption_status r PR_CONSUMED now d)"

definition release :: "time \<Rightarrow> uuid \<Rightarrow> db \<Rightarrow> error + db" where
  "release now invoice_id d = (case get_redemption_by_invoice invoice_id d of
       None \<Rightarrow> Inr d
     | Some r \<Rightarrow> if red_status r \<noteq> PR_RESERVED then Inr d
                else and_then (set_redemption_status r PR_RELEASED now d)
                       (atomic_release (red_promo_id r)))"

section \<open>The usage invariant\<close>

definition live_count :: "uuid \<Rightarrow> db \<Rightarrow> int" where
  "live_count promo_id d =
     int (length (filter (\<lambda>r. red_promo_id r = promo_id \<and> red_status r \<noteq> PR_RELEASED)
       (promo_redemptions d)))"

definition promo_inv :: "db \<Rightarrow> bool" where
  "promo_inv d \<longleftrightarrow>
     distinct (map pr_id (promos d)) \<and> distinct (map red_id (promo_redemptions d)) \<and>
     list_all (\<lambda>p. chk_promo p \<and> pr_used_count p = live_count (pr_id p) d \<and> pr_id p < next_id d)
       (promos d) \<and>
     list_all (\<lambda>r. red_id r < next_id d \<and> red_promo_id r < next_id d \<and> chk_redemption r) (promo_redemptions d)"

definition user_caps :: "db \<Rightarrow> bool" where
  "user_caps d \<longleftrightarrow>
     list_all (\<lambda>p. list_all (\<lambda>r. count_user_redemptions (pr_id p) (red_user_id r) d
       \<le> pr_max_usages_per_user p) (promo_redemptions d)) (promos d)"

lemma user_caps_iff:
  assumes "promo_inv d"
  shows "user_caps d \<longleftrightarrow>
    (\<forall>p \<in> set (promos d). \<forall>u. count_user_redemptions (pr_id p) u d \<le> pr_max_usages_per_user p)"
proof
  assume caps: "user_caps d"
  show "\<forall>p \<in> set (promos d). \<forall>u. count_user_redemptions (pr_id p) u d \<le> pr_max_usages_per_user p"
  proof (intro ballI allI)
    fix p u assume p: "p \<in> set (promos d)"
    show "count_user_redemptions (pr_id p) u d \<le> pr_max_usages_per_user p"
    proof (cases "u \<in> red_user_id ` set (promo_redemptions d)")
      case True
      with caps p show ?thesis by (auto simp: user_caps_def list_all_iff)
    next
      case False
      then have "filter (\<lambda>r. red_promo_id r = pr_id p \<and> red_user_id r = u \<and> red_status r \<noteq> PR_RELEASED)
          (promo_redemptions d) = []" by (auto simp: filter_empty_conv)
      moreover have "1 \<le> pr_max_usages_per_user p"
        using assms p by (auto simp: promo_inv_def list_all_iff chk_promo_def)
      ultimately show ?thesis by (simp add: count_user_redemptions_def)
    qed
  qed
qed (auto simp: user_caps_def list_all_iff)

text \<open>The promo engine writes promos, redemptions and the identifier source only.\<close>

definition promo_frame :: "db \<Rightarrow> db \<Rightarrow> bool" where
  "promo_frame d d' \<longleftrightarrow> d' = d\<lparr>next_id := next_id d', promos := promos d',
     promo_redemptions := promo_redemptions d'\<rparr>"

lemma promo_frame_refl [simp]: "promo_frame d d"
  by (simp add: promo_frame_def)

lemma promo_frame_trans: "promo_frame d e \<Longrightarrow> promo_frame e f \<Longrightarrow> promo_frame d f"
  unfolding promo_frame_def by (cases d; cases e; cases f) simp

lemma promo_frame_ledger:
  assumes "promo_frame d d'" and "ledger_ok d" and "next_id d \<le> next_id d'"
  shows "ledger_ok d'"
proof (rule off_ledger_ok [OF _ assms(2)])
  show "off_ledger d d'"
    using assms(1,3) unfolding promo_frame_def off_ledger_def by (cases d; cases d') simp
qed

lemma put_promo_field:
  assumes "distinct (map pr_id (promos d))" "get_promo i d = Some p" "pr_id (f p) = i"
  shows "promos (put_promo (f p) d) = map (\<lambda>x. if pr_id x = i then f x else x) (promos d)"
  using put_by_upd [OF assms(1), of i p f] assms(2,3) by (simp add: put_promo_def get_promo_def)

lemma put_redemption_field:
  assumes "distinct (map red_id (promo_redemptions d))" "r \<in> set (promo_redemptions d)" "red_id (f r) = red_id r"
  shows "promo_redemptions (put_redemption (f r) d)
    = map (\<lambda>x. if red_id x = red_id r then f x else x) (promo_redemptions d)"
  using put_by_upd [OF assms(1) find_by_mem [OF assms(1,2)], of f] assms(3)
  by (simp add: put_redemption_def)

lemma filter_update_length:
  assumes "distinct (map key xs)" "r \<in> set xs"
  shows "int (length (filter P (map (\<lambda>x. if key x = key r then f x else x) xs)))
    = int (length (filter P xs)) - (if P r then 1 else 0) + (if P (f r) then 1 else 0)"
  using assms
proof (induction xs)
  case (Cons x xs)
  show ?case
  proof (cases "key x = key r")
    case True
    then have "x = r" using Cons.prems by auto
    moreover have "map (\<lambda>x. if key x = key r then f x else x) xs = xs"
      using Cons.prems True by (intro map_idI) (auto simp: image_iff)
    ultimately show ?thesis by simp
  next
    case False
    with Cons show ?thesis by auto
  qed
qed simp
lemma reserve_effect:
  assumes "reserve now p u iid oid amt d = Inr d'" and inv: "promo_inv d"
  obtains q r where "get_promo (pr_id p) d = Some q" "reservable now q"
    "promos d' = map (\<lambda>x. if pr_id x = pr_id p then x\<lparr>pr_used_count := pr_used_count x + 1\<rparr> else x) (promos d)"
    "promo_redemptions d' = promo_redemptions d @ [r]" "next_id d' = next_id d + 1"
    "red_id r = next_id d" "red_promo_id r = pr_id p" "red_user_id r = u" "red_invoice_id r = iid"
    "red_status r = PR_RESERVED" "chk_redemption r" "promo_frame d d'"
    "count_user_redemptions (pr_id p) u d < pr_max_usages_per_user p"
proof -
  obtain q where q: "get_promo (pr_id p) d = Some q" "reservable now q"
    using assms(1) by (auto simp: reserve_def atomic_reserve_def split: option.splits if_splits)
  let ?q = "q\<lparr>pr_used_count := pr_used_count q + 1\<rparr>"
  let ?r = "\<lparr>red_id = next_id d, red_promo_id = pr_id p, red_user_id = u, red_invoice_id = iid,
     red_order_id = oid, red_discount_amount = amt, red_status = PR_RESERVED,
     red_released_at = None, red_consumed_at = None\<rparr>"
  have c: "count_user_redemptions (pr_id p) u (d\<lparr>promos := x\<rparr>) = count_user_redemptions (pr_id p) u d" for x
    by (simp add: count_user_redemptions_def)
  have eff: "d' = add_redemption ?r ((put_promo ?q d)\<lparr>next_id := next_id d + 1\<rparr>)"
    and lim: "count_user_redemptions (pr_id p) u d < pr_max_usages_per_user p" and chk: "chk_redemption ?r"
    using assms(1) q
    by (auto simp: reserve_def atomic_reserve_def flush_promo_def insert_redemption_def fresh_def c
        Let_def put_promo_def)
  have "pr_id q = pr_id p" using promo_tab.get_key [OF q(1)] .
  then have "promos (put_promo ?q d)
      = map (\<lambda>x. if pr_id x = pr_id p then x\<lparr>pr_used_count := pr_used_count x + 1\<rparr> else x) (promos d)"
    using put_promo_field [of d "pr_id p" q "\<lambda>x. x\<lparr>pr_used_count := pr_used_count x + 1\<rparr>"] q(1) inv
    by (simp add: promo_inv_def)
  then show thesis
    by (intro that [OF q, of ?r])
       (use chk lim in \<open>simp_all add: eff add_redemption_def put_promo_def promo_frame_def\<close>)
qed

lemma live_count_append:
  "promo_redemptions d' = promo_redemptions d @ [r] \<Longrightarrow>
     live_count i d' = live_count i d + (if red_promo_id r = i \<and> red_status r \<noteq> PR_RELEASED then 1 else 0)"
  by (simp add: live_count_def)

lemma count_user_append:
  "promo_redemptions d' = promo_redemptions d @ [r] \<Longrightarrow>
     count_user_redemptions i u d' = count_user_redemptions i u d
       + (if red_promo_id r = i \<and> red_user_id r = u \<and> red_status r \<noteq> PR_RELEASED then 1 else 0)"
  by (simp add: count_user_redemptions_def)

lemma chk_promo_reserve:
  "chk_promo p \<Longrightarrow> reservable now p \<Longrightarrow> chk_promo (p\<lparr>pr_used_count := pr_used_count p + 1\<rparr>)"
  by (cases "pr_discount_type p"; cases "pr_max_total_usages p"; cases "pr_starts_at p";
      cases "pr_ends_at p") (simp_all add: chk_promo_def reservable_def)

lemma reserve_keeps:
  assumes "reserve now p u iid oid amt d = Inr d'" and inv: "promo_inv d"
  shows "promo_inv d'"
proof -
  obtain q r where E: "get_promo (pr_id p) d = Some q" "reservable now q"
    "promos d' = map (\<lambda>x. if pr_id x = pr_id p then x\<lparr>pr_used_count := pr_used_count x + 1\<rparr> else x) (promos d)"
    "promo_redemptions d' = promo_redemptions d @ [r]" "next_id d' = next_id d + 1"
    "red_id r = next_id d" "red_promo_id r = pr_id p" "red_status r = PR_RESERVED" "chk_redemption r"
    by (rule reserve_effect [OF assms])
  have inv': "distinct (map pr_id (promos d))" "distinct (map red_id (promo_redemptions d))"
    "\<And>x. x \<in> set (promos d) \<Longrightarrow> chk_promo x \<and> pr_used_count x = live_count (pr_id x) d \<and> pr_id x < next_id d"
    "\<And>x. x \<in> set (promo_redemptions d) \<Longrightarrow>
       red_id x < next_id d \<and> red_promo_id x < next_id d \<and> chk_redemption x"
    using inv by (auto simp: promo_inv_def list_all_iff)
  have uniq: "x = q" if "x \<in> set (promos d)" "pr_id x = pr_id p" for x
    using that E(1) find_by_mem [OF inv'(1), of x] by (simp add: get_promo_def)
  have "chk_promo y \<and> pr_used_count y = live_count (pr_id y) d' \<and> pr_id y < next_id d'"
    if "y \<in> set (promos d')" for y
  proof -
    from that E(3) obtain x where x: "x \<in> set (promos d)"
      "y = (if pr_id x = pr_id p then x\<lparr>pr_used_count := pr_used_count x + 1\<rparr> else x)" by auto
    show ?thesis
      using inv'(3) [OF x(1)] uniq [OF x(1)] chk_promo_reserve [of x now] E(2,7,8)
      by (auto simp: x(2) E(5) live_count_append [OF E(4)])
  qed
  then have "list_all (\<lambda>x. chk_promo x \<and> pr_used_count x = live_count (pr_id x) d' \<and> pr_id x < next_id d') (promos d')"
    by (simp add: list_all_iff)
  moreover have "pr_id p < next_id d"
    using inv'(3) [OF promo_tab.get_mem [OF E(1)]] promo_tab.get_key [OF E(1)] by simp
  then have "list_all (\<lambda>x. red_id x < next_id d' \<and> red_promo_id x < next_id d' \<and> chk_redemption x)
      (promo_redemptions d')"
    using inv'(4) E(9) by (auto simp: list_all_iff E(4-7) less_SucI)
  moreover have "distinct (map pr_id (promos d'))" using inv'(1) by (simp add: E(3) o_def if_distrib cong: if_cong)
  moreover have "distinct (map red_id (promo_redemptions d'))"
  proof -
    have "next_id d \<notin> red_id ` set (promo_redemptions d)" using inv'(4) by (metis imageE less_irrefl)
    then show ?thesis using inv'(2) by (simp add: E(4,6))
  qed
  ultimately show ?thesis by (simp add: promo_inv_def)
qed

lemma reserve_keeps_user_caps:
  assumes "reserve now p u iid oid amt d = Inr d'" and inv: "promo_inv d" and caps: "user_caps d"
    and fresh: "\<And>q. get_promo (pr_id p) d = Some q \<Longrightarrow> pr_max_usages_per_user q = pr_max_usages_per_user p"
  shows "user_caps d'"
proof -
  obtain q r where E: "get_promo (pr_id p) d = Some q" "reservable now q"
    "promos d' = map (\<lambda>x. if pr_id x = pr_id p then x\<lparr>pr_used_count := pr_used_count x + 1\<rparr> else x) (promos d)"
    "promo_redemptions d' = promo_redemptions d @ [r]" "red_promo_id r = pr_id p" "red_user_id r = u"
    "count_user_redemptions (pr_id p) u d < pr_max_usages_per_user p"
    by (rule reserve_effect [OF assms(1,2)])
  have dist: "distinct (map pr_id (promos d))" using inv by (simp add: promo_inv_def)
  have uniq: "pr_max_usages_per_user x = pr_max_usages_per_user p"
    if "x \<in> set (promos d)" "pr_id x = pr_id p" for x
    using that fresh find_by_mem [OF dist, of x] by (simp add: get_promo_def)
  have old: "count_user_redemptions (pr_id x) v d \<le> pr_max_usages_per_user x" if "x \<in> set (promos d)" for x v
    using caps that by (simp add: user_caps_iff [OF inv])
  have "count_user_redemptions (pr_id y) v d' \<le> pr_max_usages_per_user y" if "y \<in> set (promos d')" for y v
  proof -
    from that E(3) obtain x where x: "x \<in> set (promos d)"
      "y = (if pr_id x = pr_id p then x\<lparr>pr_used_count := pr_used_count x + 1\<rparr> else x)" by auto
    show ?thesis
      using old [OF x(1), of v] uniq [OF x(1)] E(5-7)
      by (cases "pr_id x = pr_id p") (auto simp: x(2) count_user_append [OF E(4)])
  qed
  then have "\<forall>x \<in> set (promos d'). \<forall>v. count_user_redemptions (pr_id x) v d' \<le> pr_max_usages_per_user x"
    by blast
  then show ?thesis using user_caps_iff [OF reserve_keeps [OF assms(1,2)]] by blast
qed
lemma redemption_mem: "get_redemption_by_invoice i d = Some r \<Longrightarrow> r \<in> set (promo_redemptions d)"
  unfolding get_redemption_by_invoice_def by (auto dest: find_by_SomeD)

definition mark :: "promo_redemption_status \<Rightarrow> time \<Rightarrow> promo_redemption \<Rightarrow> promo_redemption" where
  "mark status when r = (case status of
       PR_CONSUMED \<Rightarrow> r\<lparr>red_status := PR_CONSUMED, red_consumed_at := Some when\<rparr>
     | PR_RELEASED \<Rightarrow> r\<lparr>red_status := PR_RELEASED, red_released_at := Some when\<rparr>
     | PR_RESERVED \<Rightarrow> r\<lparr>red_status := PR_RESERVED\<rparr>)"

lemma mark_simps [simp]:
  "red_id (mark s w r) = red_id r" "red_promo_id (mark s w r) = red_promo_id r"
  "red_user_id (mark s w r) = red_user_id r" "red_status (mark s w r) = s"
  "red_invoice_id (mark s w r) = red_invoice_id r"
  "red_discount_amount (mark s w r) = red_discount_amount r" "chk_redemption (mark s w r) = chk_redemption r"
  by (cases s; simp add: mark_def chk_redemption_def)+

lemma set_redemption_status_mark:
  "set_redemption_status r s w d
     = ensure (chk_redemption r) IntegrityError (Inr (put_redemption (mark s w r) d))"
  by (cases s) (simp_all add: set_redemption_status_def mark_def chk_redemption_def ensure_def)

text \<open>Both ways out of a reservation rewrite one redemption row.\<close>

lemma redemption_update:
  assumes "promo_inv d" "r \<in> set (promo_redemptions d)"
    and "promo_redemptions d' = map (\<lambda>x. if red_id x = red_id r then mark s w x else x) (promo_redemptions d)"
  shows "live_count i d' = live_count i d
      - (if red_promo_id r = i \<and> red_status r \<noteq> PR_RELEASED then 1 else 0)
      + (if red_promo_id r = i \<and> s \<noteq> PR_RELEASED then 1 else 0)"
    and "count_user_redemptions i u d' = count_user_redemptions i u d
      - (if red_promo_id r = i \<and> red_user_id r = u \<and> red_status r \<noteq> PR_RELEASED then 1 else 0)
      + (if red_promo_id r = i \<and> red_user_id r = u \<and> s \<noteq> PR_RELEASED then 1 else 0)"
    and "map red_id (promo_redemptions d') = map red_id (promo_redemptions d)"
    and "list_all (\<lambda>r. red_id r < next_id d \<and> red_promo_id r < next_id d \<and> chk_redemption r) (promo_redemptions d')"
proof -
  have dist: "distinct (map red_id (promo_redemptions d))" using assms(1) by (simp add: promo_inv_def)
  note F = filter_update_length [OF dist assms(2)]
  show "live_count i d' = live_count i d
      - (if red_promo_id r = i \<and> red_status r \<noteq> PR_RELEASED then 1 else 0)
      + (if red_promo_id r = i \<and> s \<noteq> PR_RELEASED then 1 else 0)"
    unfolding live_count_def assms(3) F by simp
  show "count_user_redemptions i u d' = count_user_redemptions i u d
      - (if red_promo_id r = i \<and> red_user_id r = u \<and> red_status r \<noteq> PR_RELEASED then 1 else 0)
      + (if red_promo_id r = i \<and> red_user_id r = u \<and> s \<noteq> PR_RELEASED then 1 else 0)"
    unfolding count_user_redemptions_def assms(3) F by simp
  show "map red_id (promo_redemptions d') = map red_id (promo_redemptions d)"
    by (simp add: assms(3))
  show "list_all (\<lambda>r. red_id r < next_id d \<and> red_promo_id r < next_id d \<and> chk_redemption r) (promo_redemptions d')"
    using assms(1) by (auto simp: promo_inv_def list_all_iff assms(3))
qed

lemma consume_effect:
  assumes "consume now i d = Inr d'" and inv: "promo_inv d"
  shows "d' = d \<or> (\<exists>r. get_redemption_by_invoice i d = Some r \<and> red_status r = PR_RESERVED \<and>
    d' = put_redemption (mark PR_CONSUMED now r) d)"
  using assms(1) by (auto simp: consume_def set_redemption_status_mark split: option.splits if_splits)

lemma consume_keeps:
  assumes "consume now i d = Inr d'" and inv: "promo_inv d"
  shows "promo_inv d'" "user_caps d \<Longrightarrow> user_caps d'" "promo_frame d d'" "next_id d' = next_id d"
proof -
  have "promo_inv d' \<and> (user_caps d \<longrightarrow> user_caps d') \<and> promo_frame d d' \<and> next_id d' = next_id d"
    using consume_effect [OF assms]
  proof (elim disjE exE conjE)
    fix r assume r: "get_redemption_by_invoice i d = Some r" "red_status r = PR_RESERVED"
      and d': "d' = put_redemption (mark PR_CONSUMED now r) d"
    have mem: "r \<in> set (promo_redemptions d)" using r(1) by (rule redemption_mem)
    have rows: "promo_redemptions d' = map (\<lambda>x. if red_id x = red_id r then mark PR_CONSUMED now x else x)
        (promo_redemptions d)"
      unfolding d' using inv mem by (intro put_redemption_field) (auto simp: promo_inv_def)
    note U = redemption_update [OF inv mem rows]
    have same: "promos d' = promos d" "next_id d' = next_id d"
      by (simp_all add: d' put_redemption_def)
    have "promo_inv d'"
      using inv U(1,4) r(2) unfolding promo_inv_def same U(3) by simp
    moreover have "user_caps d'" if "user_caps d"
      using that r(2) unfolding user_caps_iff [OF inv] user_caps_iff [OF \<open>promo_inv d'\<close>] same U(2) by simp
    ultimately show ?thesis by (simp add: same promo_frame_def d' put_redemption_def)
  qed (use inv in simp)
  then show "promo_inv d'" "user_caps d \<Longrightarrow> user_caps d'" "promo_frame d d'" "next_id d' = next_id d"
    by blast+
qed
lemma chk_promo_release:
  "chk_promo p \<Longrightarrow> 0 < pr_used_count p \<Longrightarrow> chk_promo (p\<lparr>pr_used_count := pr_used_count p - 1\<rparr>)"
  by (cases "pr_discount_type p"; cases "pr_max_total_usages p"; cases "pr_starts_at p";
      cases "pr_ends_at p") (simp_all add: chk_promo_def)

lemma live_count_pos:
  "r \<in> set (promo_redemptions d) \<Longrightarrow> red_status r \<noteq> PR_RELEASED \<Longrightarrow> 0 < live_count (red_promo_id r) d"
  unfolding live_count_def by (auto simp: filter_empty_conv)

lemma release_effect:
  assumes "release now i d = Inr d'" and inv: "promo_inv d"
  shows "d' = d \<or> (\<exists>r. get_redemption_by_invoice i d = Some r \<and> red_status r = PR_RESERVED \<and>
    promo_redemptions d' = map (\<lambda>x. if red_id x = red_id r then mark PR_RELEASED now x else x) (promo_redemptions d) \<and>
    promos d' = map (\<lambda>x. if pr_id x = red_promo_id r then x\<lparr>pr_used_count := pr_used_count x - 1\<rparr> else x) (promos d) \<and>
    promo_frame d d' \<and> next_id d' = next_id d)"
proof (cases "get_redemption_by_invoice i d")
  case (Some r)
  note mem = redemption_mem [OF Some]
  show ?thesis
  proof (cases "red_status r = PR_RESERVED")
    case True
    let ?e = "put_redemption (mark PR_RELEASED now r) d"
    have e: "atomic_release (red_promo_id r) ?e = Inr d'"
      using assms(1) Some True by (auto simp: release_def set_redemption_status_mark)
    have rows: "promo_redemptions ?e = map (\<lambda>x. if red_id x = red_id r then mark PR_RELEASED now x else x) (promo_redemptions d)"
      using inv mem by (intro put_redemption_field) (auto simp: promo_inv_def)
    have dist: "distinct (map pr_id (promos d))" using inv by (simp add: promo_inv_def)
    have ps: "promos ?e = promos d" by (simp add: put_redemption_def)
    have upd: "promos d' = map (\<lambda>x. if pr_id x = red_promo_id r then x\<lparr>pr_used_count := pr_used_count x - 1\<rparr> else x) (promos d)
      \<and> promo_redemptions d' = promo_redemptions ?e \<and> promo_frame ?e d' \<and> next_id d' = next_id ?e"
    proof (cases "get_promo (red_promo_id r) ?e")
      case None
      then have "\<forall>x \<in> set (promos d). pr_id x \<noteq> red_promo_id r"
        unfolding get_promo_def ps find_by_None by (metis imageI)
      then have "map (\<lambda>x. if pr_id x = red_promo_id r then x\<lparr>pr_used_count := pr_used_count x - 1\<rparr> else x) (promos d) = promos d"
        by (intro map_idI) auto
      moreover have "d' = ?e" using None e by (simp add: atomic_release_def)
      ultimately show ?thesis using ps by simp
    next
      case (Some q)
      have q: "q \<in> set (promos d)" "pr_id q = red_promo_id r"
        using promo_tab.get_mem [OF Some] promo_tab.get_key [OF Some] ps by auto
      then have "0 < pr_used_count q"
        using inv live_count_pos [OF mem] True by (auto simp: promo_inv_def list_all_iff)
      with e Some have d': "d' = put_promo (q\<lparr>pr_used_count := pr_used_count q - 1\<rparr>) ?e"
        by (simp add: atomic_release_def flush_promo_def)
      show ?thesis
        using put_promo_field [of ?e "red_promo_id r" q "\<lambda>x. x\<lparr>pr_used_count := pr_used_count x - 1\<rparr>"] dist Some q(2) ps
        by (simp add: d' put_promo_def promo_frame_def)
    qed
    then have "promo_frame ?e d'" "next_id d' = next_id ?e" by blast+
    moreover have "promo_frame d ?e" "next_id ?e = next_id d" by (simp_all add: promo_frame_def put_redemption_def)
    ultimately have "promo_frame d d'" "next_id d' = next_id d" using promo_frame_trans by auto
    with upd rows Some True show ?thesis by (intro disjI2 exI [of _ r]) simp
  next
    case False
    with assms(1) Some show ?thesis by (simp add: release_def)
  qed
qed (use assms(1) in \<open>simp add: release_def\<close>)

lemma release_keeps:
  assumes "release now i d = Inr d'" and inv: "promo_inv d"
  shows "promo_inv d'" "user_caps d \<Longrightarrow> user_caps d'" "promo_frame d d'" "next_id d' = next_id d"
proof -
  have "promo_inv d' \<and> (user_caps d \<longrightarrow> user_caps d') \<and> promo_frame d d' \<and> next_id d' = next_id d"
    using release_effect [OF assms]
  proof (elim disjE exE conjE)
    fix r assume r: "get_redemption_by_invoice i d = Some r" "red_status r = PR_RESERVED"
      and rows: "promo_redemptions d' = map (\<lambda>x. if red_id x = red_id r then mark PR_RELEASED now x else x) (promo_redemptions d)"
      and ps: "promos d' = map (\<lambda>x. if pr_id x = red_promo_id r then x\<lparr>pr_used_count := pr_used_count x - 1\<rparr> else x) (promos d)"
      and fr: "promo_frame d d'" "next_id d' = next_id d"
    have mem: "r \<in> set (promo_redemptions d)" using r(1) by (rule redemption_mem)
    note U = redemption_update [OF inv mem rows]
    have old: "chk_promo x \<and> pr_used_count x = live_count (pr_id x) d \<and> pr_id x < next_id d"
      if "x \<in> set (promos d)" for x using inv that by (auto simp: promo_inv_def list_all_iff)
    have "chk_promo y \<and> pr_used_count y = live_count (pr_id y) d' \<and> pr_id y < next_id d'"
      if "y \<in> set (promos d')" for y
    proof -
      from that ps obtain x where x: "x \<in> set (promos d)"
        "y = (if pr_id x = red_promo_id r then x\<lparr>pr_used_count := pr_used_count x - 1\<rparr> else x)" by auto
      show ?thesis
        using old [OF x(1)] chk_promo_release [of x] live_count_pos [OF mem] r(2)
        by (auto simp: x(2) U(1) fr(2))
    qed
    moreover have "map pr_id (promos d') = map pr_id (promos d)" by (simp add: ps)
    ultimately have "promo_inv d'"
      using inv U(4) unfolding promo_inv_def U(3) fr(2) list_all_iff by metis
    moreover have "user_caps d'" if "user_caps d"
    proof -
      have "count_user_redemptions (pr_id x) u d' \<le> pr_max_usages_per_user x"
        if x: "x \<in> set (promos d)" for x u
      proof -
        have "count_user_redemptions (pr_id x) u d \<le> pr_max_usages_per_user x"
          using \<open>user_caps d\<close> x by (simp add: user_caps_iff [OF inv])
        then show ?thesis by (simp add: U(2))
      qed
      then show ?thesis
        unfolding user_caps_iff [OF \<open>promo_inv d'\<close>] ps by (auto, metis)
    qed
    ultimately show ?thesis using fr by blast
  qed (use inv in simp)
  then show "promo_inv d'" "user_caps d \<Longrightarrow> user_caps d'" "promo_frame d d'" "next_id d' = next_id d"
    by blast+
qed
lemma create_promo_keeps:
  assumes "create_promo_row n admin d = Inr (p, d')" and inv: "promo_inv d"
  shows "promo_inv d'" "user_caps d \<Longrightarrow> user_caps d'" "promo_frame d d'" "next_id d' = next_id d + 1"
proof -
  have d': "d' = (d\<lparr>next_id := next_id d + 1, promos := promos d @ [p]\<rparr>)"
    and p: "pr_id p = next_id d" "pr_used_count p = 0" "chk_promo p"
    using assms(1) by (auto simp: create_promo_row_def fresh_def Let_def add_promo_def)
  have none: "red_promo_id x \<noteq> next_id d" if "x \<in> set (promo_redemptions d)" for x
    using inv that by (auto simp: promo_inv_def list_all_iff)
  have live: "live_count (next_id d) d' = 0" "live_count i d' = live_count i d"
    "count_user_redemptions (next_id d) u d' = 0"
    "count_user_redemptions i u d' = count_user_redemptions i u d" for i u
    using none by (auto simp: live_count_def count_user_redemptions_def d' filter_empty_conv)
  have "next_id d \<notin> pr_id ` set (promos d)"
    using inv by (auto simp: promo_inv_def list_all_iff)
  moreover have sel: "promos d' = promos d @ [p]" "next_id d' = next_id d + 1"
    "promo_redemptions d' = promo_redemptions d" by (simp_all add: d')
  ultimately show inv': "promo_inv d'"
    using inv p live(1) unfolding promo_inv_def by (auto simp: list_all_iff live(2) sel less_SucI)
  show "promo_frame d d'" "next_id d' = next_id d + 1" by (simp_all add: d' promo_frame_def)
  show "user_caps d'" if "user_caps d"
    using that p(1,3) live(3) unfolding user_caps_iff [OF inv] user_caps_iff [OF inv'] live(4)
    by (auto simp: sel chk_promo_def)
qed

lemma set_active_keeps:
  assumes "set_active p b d = Inr d'" and inv: "promo_inv d" and "get_promo (pr_id p) d = Some p"
  shows "promo_inv d'" "user_caps d \<Longrightarrow> user_caps d'" "promo_frame d d'" "next_id d' = next_id d"
proof -
  have chk: "chk_promo (p\<lparr>pr_is_active := b\<rparr>)" and d': "d' = put_promo (p\<lparr>pr_is_active := b\<rparr>) d"
    using assms(1) by (auto simp: set_active_def flush_promo_def)
  have dist: "distinct (map pr_id (promos d))" using inv by (simp add: promo_inv_def)
  have ps: "promos d' = map (\<lambda>x. if pr_id x = pr_id p then x\<lparr>pr_is_active := b\<rparr> else x) (promos d)"
    unfolding d' using put_promo_field [OF dist assms(3), of "\<lambda>x. x\<lparr>pr_is_active := b\<rparr>"] by simp
  have same: "promo_redemptions d' = promo_redemptions d" "next_id d' = next_id d"
    by (simp_all add: d' put_promo_def)
  then have cnt: "live_count i d' = live_count i d"
    "count_user_redemptions i u d' = count_user_redemptions i u d" for i u
    by (simp_all add: live_count_def count_user_redemptions_def)
  have uniq: "x = p" if "x \<in> set (promos d)" "pr_id x = pr_id p" for x
    using that assms(3) find_by_mem [OF dist, of x] by (simp add: get_promo_def)
  show "promo_frame d d'" "next_id d' = next_id d"
    by (simp_all add: d' put_promo_def promo_frame_def)
  have "chk_promo y \<and> pr_used_count y = live_count (pr_id y) d \<and> pr_id y < next_id d"
    if "y \<in> set (promos d')" for y
  proof -
    from that ps obtain x where x: "x \<in> set (promos d)"
      "y = (if pr_id x = pr_id p then x\<lparr>pr_is_active := b\<rparr> else x)" by auto
    then show ?thesis
      using inv chk uniq [OF x(1)] by (auto simp: promo_inv_def list_all_iff)
  qed
  moreover have "map pr_id (promos d') = map pr_id (promos d)" by (simp add: ps)
  ultimately show inv': "promo_inv d'"
    using inv unfolding promo_inv_def same cnt list_all_iff by metis
  show "user_caps d'" if "user_caps d"
  proof -
    have "count_user_redemptions (pr_id x) u d \<le> pr_max_usages_per_user x" if "x \<in> set (promos d)" for x u
      using \<open>user_caps d\<close> that by (simp add: user_caps_iff [OF inv])
    then show ?thesis unfolding user_caps_iff [OF inv'] cnt ps by (auto, metis)
  qed
qed

text \<open>The promo invariants read the promo tables and the identifier source.\<close>

definition off_promo :: "db \<Rightarrow> db \<Rightarrow> bool" where
  "off_promo d d' \<longleftrightarrow> promos d' = promos d \<and> promo_redemptions d' = promo_redemptions d \<and>
     next_id d \<le> next_id d'"

lemma off_promo_ok:
  assumes "off_promo d d'" "promo_inv d"
  shows "promo_inv d'" "user_caps d \<Longrightarrow> user_caps d'"
  using assms by (auto simp: off_promo_def promo_inv_def user_caps_def list_all_iff live_count_def
      count_user_redemptions_def)

section \<open>The interface the payment services use\<close>

text \<open>What consuming or releasing the reservation of an invoice promises: the usage invariants
  are kept and nothing outside the promo tables changes.\<close>

locale promo_move =
  fixes move :: "db \<Rightarrow> error + db"
  assumes keeps: "promo_inv d \<Longrightarrow> move d = Inr d' \<Longrightarrow>
    promo_inv d' \<and> (user_caps d \<longrightarrow> user_caps d') \<and> promo_frame d d' \<and> next_id d \<le> next_id d'"
begin

lemma ledger: "promo_inv d \<Longrightarrow> ledger_ok d \<Longrightarrow> move d = Inr d' \<Longrightarrow> ledger_ok d'"
  using keeps promo_frame_ledger by blast

end

interpretation consume_move: promo_move "consume now i" for now i
  by unfold_locales (use consume_keeps in auto)

interpretation release_move_promo: promo_move "release now i" for now i
  by unfold_locales (use release_keeps in auto)

lemma promo_frame_tables:
  assumes "promo_frame d d'"
  shows "users d' = users d" "orders d' = orders d" "invoices d' = invoices d"
    "invoice_items d' = invoice_items d" "payment_intents d' = payment_intents d"
    "wallets d' = wallets d" "transactions d' = transactions d" "withdrawals d' = withdrawals d"
    "disputes d' = disputes d" "wallet_topups d' = wallet_topups d" "conversations d' = conversations d"
    "messages d' = messages d"
  using assms unfolding promo_frame_def by (cases d; cases d'; simp)+

section \<open>The books\<close>

text \<open>The two invariants every service keeps: the ledger and the promo usage.\<close>

definition books :: "db \<Rightarrow> bool" where
  "books d \<longleftrightarrow> ledger_ok d \<and> promo_inv d \<and> user_caps d"

definition off_books :: "db \<Rightarrow> db \<Rightarrow> bool" where
  "off_books d d' \<longleftrightarrow> off_ledger d d' \<and> off_promo d d'"

lemma off_books_iff:
  "off_books d d' \<longleftrightarrow> wallets d' = wallets d \<and> transactions d' = transactions d \<and>
     promos d' = promos d \<and> promo_redemptions d' = promo_redemptions d \<and> next_id d \<le> next_id d'"
  by (auto simp: off_books_def off_ledger_def off_promo_def)

lemma off_books_ok: "off_books d d' \<Longrightarrow> books d \<Longrightarrow> books d'"
  by (auto simp: off_books_def books_def off_promo_ok intro: off_ledger_ok)

text \<open>The books do not read the other tables.\<close>

lemma off_books_cong: "off_books d d' \<Longrightarrow> off_books d' d \<Longrightarrow> books d' = books d"
  using off_books_ok by blast

lemma books_upd [simp]:
  "books (d\<lparr>users := u0\<rparr>) = books d"
  "books (d\<lparr>courier_profiles := u1\<rparr>) = books d"
  "books (d\<lparr>refresh_tokens := u2\<rparr>) = books d"
  "books (d\<lparr>device_tokens := u3\<rparr>) = books d"
  "books (d\<lparr>orders := u4\<rparr>) = books d"
  "books (d\<lparr>order_medias := u5\<rparr>) = books d"
  "books (d\<lparr>invoices := u6\<rparr>) = books d"
  "books (d\<lparr>invoice_items := u7\<rparr>) = books d"
  "books (d\<lparr>payment_intents := u8\<rparr>) = books d"
  "books (d\<lparr>wallet_topups := u9\<rparr>) = books d"
  "books (d\<lparr>conversations := u10\<rparr>) = books d"
  "books (d\<lparr>messages := u11\<rparr>) = books d"
  "books (d\<lparr>withdrawals := u12\<rparr>) = books d"
  "books (d\<lparr>ratings := u13\<rparr>) = books d"
  "books (d\<lparr>disputes := u14\<rparr>) = books d"
  "books (d\<lparr>admin_sessions := u15\<rparr>) = books d"
  "books (d\<lparr>audit_logs := u16\<rparr>) = books d"
  by (rule off_books_cong; simp add: off_books_iff)+

lemma books_next [simp]: "books d \<Longrightarrow> next_id d \<le> n \<Longrightarrow> books (d\<lparr>next_id := n\<rparr>)"
  by (rule off_books_ok [rotated]) (simp_all add: off_books_iff)

context money_move
begin

lemma books:
  assumes "books d" "move d = Inr (r, d')"
  shows "books d'" and "money_frame d d'"
proof -
  have K: "ledger_ok d'" "money_frame d d'" using keeps assms by (auto simp: books_def)
  then show "money_frame d d'" by simp
  have "off_promo d d'" by (simp add: off_promo_def money_frame_tables [OF K(2)])
  with K(1) show "books d'" using assms(1) by (auto simp: books_def off_promo_ok)
qed

lemma books_wp: "books d \<Longrightarrow> (\<And>r d'. books d' \<Longrightarrow> money_frame d d' \<Longrightarrow> Q (r, d')) \<Longrightarrow> on_ok (move d) Q"
  using books by (auto simp: on_ok_def)

end

context promo_move
begin

lemma books:
  assumes "books d" "move d = Inr d'"
  shows "books d'" and "promo_frame d d'" and "next_id d \<le> next_id d'"
  using keeps [OF _ assms(2)] ledger [OF _ _ assms(2)] assms(1) by (auto simp: books_def)

lemma books_wp:
  "books d \<Longrightarrow> (\<And>d'. books d' \<Longrightarrow> promo_frame d d' \<Longrightarrow> next_id d \<le> next_id d' \<Longrightarrow> Q d') \<Longrightarrow> on_ok (move d) Q"
  using books by (auto simp: on_ok_def)

end

lemma sample_books: "books sample_db"
  unfolding books_def using sample_ledger_ok by (intro conjI) code_simp+

section \<open>Properties\<close>

text \<open>Any interleaving of the statements of concurrent checkouts: the promo a checkout passes to
  \<open>reserve\<close> was read before, so only its identity and its limit per user are current.\<close>

inductive promo_step :: "db \<Rightarrow> db \<Rightarrow> bool" where
  step_reserve: "reserve now p u iid oid amt d = Inr d' \<Longrightarrow>
    (\<And>q. get_promo (pr_id p) d = Some q \<Longrightarrow> pr_max_usages_per_user q = pr_max_usages_per_user p) \<Longrightarrow>
    promo_step d d'"
| step_consume: "consume now iid d = Inr d' \<Longrightarrow> promo_step d d'"
| step_release: "release now iid d = Inr d' \<Longrightarrow> promo_step d d'"
| step_create: "create_promo_row n admin d = Inr (p, d') \<Longrightarrow> promo_step d d'"
| step_toggle: "set_active p b d = Inr d' \<Longrightarrow> get_promo (pr_id p) d = Some p \<Longrightarrow> promo_step d d'"

lemma promo_step_keeps:
  assumes "promo_step d d'" "promo_inv d" "user_caps d"
  shows "promo_inv d' \<and> user_caps d'"
  using assms
  by (cases rule: promo_step.cases)
     (blast intro: reserve_keeps reserve_keeps_user_caps consume_keeps release_keeps create_promo_keeps
        set_active_keeps)+

text \<open>C11: no sequence of reservations, payments and releases, in any order, lets a promo be used
  more often than its global cap or more often by one user than its cap per user, and the counter
  always equals the number of redemptions that are not released.\<close>

theorem promo_caps_never_exceeded:
  assumes "promo_step\<^sup>*\<^sup>* d d'" and "promo_inv d" and "user_caps d"
    and "p \<in> set (promos d')"
  shows "pr_used_count p = live_count (pr_id p) d' \<and>
    (\<forall>m. pr_max_total_usages p = Some m \<longrightarrow> live_count (pr_id p) d' \<le> m) \<and>
    (\<forall>user. count_user_redemptions (pr_id p) user d' \<le> pr_max_usages_per_user p)"
proof -
  have "promo_inv d' \<and> user_caps d'"
    using assms(1-3) by (induction rule: rtranclp_induct) (auto dest: promo_step_keeps)
  then have inv: "promo_inv d'" "user_caps d'" by auto
  then have "chk_promo p" "pr_used_count p = live_count (pr_id p) d'"
    using assms(4) by (auto simp: promo_inv_def list_all_iff)
  moreover have "\<forall>m. pr_max_total_usages p = Some m \<longrightarrow> pr_used_count p \<le> m"
    using \<open>chk_promo p\<close> by (auto simp: chk_promo_def)
  ultimately show ?thesis using inv(2) assms(4) by (simp add: user_caps_iff [OF inv(1)])
qed

definition sample_promo :: promo where
  "sample_promo = \<lparr>pr_id = 12, pr_code = ''WELCOME10'', pr_description = [], pr_discount_type = PD_PERCENT,
     pr_percent_value = Some 10, pr_fixed_amount = None, pr_max_discount_amount = Some 100,
     pr_min_order_amount = 0, pr_max_total_usages = Some 1, pr_max_usages_per_user = 1,
     pr_used_count = 0, pr_is_active = True, pr_starts_at = None, pr_ends_at = None,
     pr_created_by_admin_id = None\<rparr>"

definition promo_db :: db where
  "promo_db = sample_db\<lparr>promos := [sample_promo]\<rparr>"

definition reserved_db :: db where
  "reserved_db = projr (reserve 0 sample_promo 10 13 14 60 promo_db)"

lemma sample_reserve: "reserve 0 sample_promo 10 13 14 60 promo_db = Inr reserved_db"
proof -
  have "\<not> isl (reserve 0 sample_promo 10 13 14 60 promo_db)" by code_simp
  then show ?thesis by (simp add: reserved_db_def)
qed

lemma promo_db_inv: "promo_inv promo_db" "user_caps promo_db"
  by code_simp+

lemma reserved_db_inv: "promo_inv reserved_db" "user_caps reserved_db"
  by code_simp+

theorem promo_caps_never_exceeded_witness:
  "\<exists>p \<in> set (promos reserved_db). pr_used_count p = 1 \<and> pr_max_total_usages p = Some 1 \<and>
     pr_used_count p = live_count (pr_id p) reserved_db"
proof -
  have "promo_step promo_db reserved_db"
    using sample_reserve by (rule step_reserve) (simp add: get_promo_def promo_db_def sample_promo_def find_by_Cons)
  then have steps: "promo_step\<^sup>*\<^sup>* promo_db reserved_db" by blast
  have p: "promos reserved_db = [sample_promo\<lparr>pr_used_count := 1\<rparr>]" by code_simp
  show ?thesis
    using promo_caps_never_exceeded [OF steps promo_db_inv, of "sample_promo\<lparr>pr_used_count := 1\<rparr>"]
    by (simp add: p sample_promo_def)
qed

lemma find_by_invoice_mark:
  assumes "find_by red_invoice_id i rs = Some r" "distinct (map red_id rs)"
  shows "find_by red_invoice_id i (map (\<lambda>x. if red_id x = red_id r then mark s w x else x) rs) = Some (mark s w r)"
proof -
  have "find_by red_invoice_id i (map (\<lambda>x. if red_id x = red_id r then mark s w x else x) rs)
      = map_option (\<lambda>x. if red_id x = red_id r then mark s w x else x) (find_by red_invoice_id i rs)"
    by (rule find_by_map_key) simp
  with assms(1) show ?thesis by simp
qed

lemma release_returns:
  assumes "promo_inv d"
  shows "\<exists>d'. release now i d = Inr d'"
proof (cases "get_redemption_by_invoice i d")
  case (Some r)
  note mem = redemption_mem [OF Some]
  have chk: "chk_redemption r" using assms mem by (auto simp: promo_inv_def list_all_iff)
  have "\<exists>d'. atomic_release j (put_redemption x d) = Inr d'" for j x
  proof (cases "get_promo j (put_redemption x d)")
    case (Some q)
    then have "q \<in> set (promos d)" using promo_tab.get_mem by (fastforce simp: put_redemption_def)
    then have "chk_promo q" using assms by (auto simp: promo_inv_def list_all_iff)
    then show ?thesis using Some chk_promo_release [of q] by (simp add: atomic_release_def flush_promo_def)
  qed (simp add: atomic_release_def)
  with Some chk show ?thesis by (simp add: release_def set_redemption_status_mark)
qed (simp add: release_def)

text \<open>releasing a reservation always succeeds, gives its slot back exactly once and is idempotent:
  a reserved redemption becomes released and the live count of its promo falls by one, and every
  later release (or consumption) of the same invoice changes nothing.\<close>

theorem release_returns_slot_once:
  assumes "promo_inv d" and "get_redemption_by_invoice i d = Some r" and "red_status r = PR_RESERVED"
  shows "\<exists>d'. release now i d = Inr d' \<and> promo_inv d' \<and>
    live_count (red_promo_id r) d' = live_count (red_promo_id r) d - 1 \<and>
    (\<forall>later. release later i d' = Inr d' \<and> consume later i d' = Inr d')"
proof -
  obtain d' where rel: "release now i d = Inr d'" using release_returns [OF assms(1)] by blast
  have inv': "promo_inv d'" using release_keeps(1) [OF rel assms(1)] .
  have mem: "r \<in> set (promo_redemptions d)" by (rule redemption_mem [OF assms(2)])
  have ne: "d' \<noteq> d"
  proof
    assume eq: "d' = d"
    have "promo_redemptions d' = promo_redemptions (put_redemption (mark PR_RELEASED now r) d)"
      using rel assms(2,3)
      by (auto simp: release_def set_redemption_status_mark atomic_release_def flush_promo_def put_promo_def
          split: option.splits if_splits)
    also have "\<dots> = map (\<lambda>x. if red_id x = red_id r then mark PR_RELEASED now x else x) (promo_redemptions d)"
      using assms(1) mem by (intro put_redemption_field) (auto simp: promo_inv_def)
    finally have "map id (promo_redemptions d)
        = map (\<lambda>x. if red_id x = red_id r then mark PR_RELEASED now x else x) (promo_redemptions d)"
      unfolding eq by simp
    then have "mark PR_RELEASED now r = r" using mem unfolding map_eq_conv by force
    then show False using assms(3) mark_simps(4) by (metis promo_redemption_status.distinct(3))
  qed
  then have rows: "promo_redemptions d' = map (\<lambda>x. if red_id x = red_id r then mark PR_RELEASED now x else x) (promo_redemptions d)"
    using release_effect [OF rel assms(1)] assms(2) by auto
  have "get_redemption_by_invoice i d' = Some (mark PR_RELEASED now r)"
    using assms(1,2) unfolding get_redemption_by_invoice_def rows
    by (intro find_by_invoice_mark) (auto simp: promo_inv_def)
  then have "release later i d' = Inr d' \<and> consume later i d' = Inr d'" for later
    by (simp add: release_def consume_def)
  then show ?thesis
    using rel inv' redemption_update(1) [OF assms(1) mem rows] assms(3) by auto
qed

theorem release_returns_slot_once_witness:
  "\<exists>d'. release 1 13 reserved_db = Inr d' \<and> live_count 12 d' = 0"
proof -
  obtain r where r: "get_redemption_by_invoice 13 reserved_db = Some r" "red_status r = PR_RESERVED"
    "red_promo_id r = 12"
  proof -
    have "map_option (\<lambda>r. (red_status r, red_promo_id r)) (get_redemption_by_invoice 13 reserved_db)
        = Some (PR_RESERVED, 12)" by code_simp
    then show thesis using that by auto
  qed
  have "live_count 12 reserved_db = 1" by code_simp
  then show ?thesis
    using release_returns_slot_once [OF reserved_db_inv(1) r(1,2), of 1] by (auto simp: r(3))
qed
end
