(* ===== verification/Invoices.thy ===== *)
theory Invoices
  imports Orders Promo
begin

text \<open>
  \<open>app/services/invoice_service.py\<close> and \<open>app/repositories/invoice_repository.py\<close>: authoring,
  cancelling and reading invoices.  A flush of an invoice meets the check constraints and the
  partial unique index over active invoices; an insert of an item meets its check
  constraints, the unique position and the freeze trigger.
\<close>

section \<open>Repository\<close>

definition active_statuses :: "invoice_status list" where
  "active_statuses = [IS_DRAFT, IS_ISSUED, IS_PAID]"

definition is_active :: "invoice \<Rightarrow> bool" where
  "is_active i \<longleftrightarrow> inv_status i \<in> set active_statuses"

text \<open>\<open>uq_invoices_one_active_per_order\<close>.\<close>

definition sole_active :: "invoice \<Rightarrow> db \<Rightarrow> bool" where
  "sole_active i d \<longleftrightarrow> is_active i \<longrightarrow>
     list_all (\<lambda>j. inv_id j = inv_id i \<or> inv_order_id j \<noteq> inv_order_id i \<or> \<not> is_active j) (invoices d)"

definition flush_invoice :: "invoice \<Rightarrow> db \<Rightarrow> error + db" where
  "flush_invoice i d = ensure (chk_invoice i \<and> sole_active i d) IntegrityError (Inr (put_invoice i d))"

definition create_draft ::
  "uuid \<Rightarrow> uuid \<Rightarrow> pricing_result \<Rightarrow> uuid option \<Rightarrow> string option \<Rightarrow> db \<Rightarrow> error + invoice \<times> db" where
  "create_draft order_id courier_id result promo_id code d =
     (let (n, d) = fresh d;
          i = \<lparr>inv_id = n, inv_order_id = order_id, inv_issued_by_courier_id = courier_id,
               inv_status = IS_DRAFT, inv_currency = ''SAR'',
               inv_items_net_amount = res_items_net_amount result,
               inv_courier_fee_amount = res_courier_fee_amount result,
               inv_service_fee_amount = res_service_fee_amount result,
               inv_discount_amount = res_discount_amount result,
               inv_net_after_discount_amount = res_net_after_discount_amount result,
               inv_tax_amount = res_tax_amount result, inv_total_amount = res_total_amount result,
               inv_promo_id = promo_id, inv_promo_code_snapshot = code,
               inv_payment_method = None, inv_amount_from_wallet = 0, inv_amount_from_gateway = 0,
               inv_pricing_breakdown = Some (res_breakdown result), inv_expires_at = None,
               inv_issued_at = None, inv_paid_at = None, inv_receipt_email_sent_at = None\<rparr>
      in ensure (chk_invoice i \<and> sole_active i d) IntegrityError (Inr (i, add_invoice i d)))"

definition issue :: "invoice \<Rightarrow> time \<Rightarrow> time \<Rightarrow> db \<Rightarrow> error + invoice \<times> db" where
  "issue i issued_at expires_at d =
     (let i = i\<lparr>inv_status := IS_ISSUED, inv_issued_at := Some issued_at,
                inv_expires_at := Some expires_at\<rparr>
      in and_then (flush_invoice i d) (\<lambda>d. Inr (i, d)))"

text \<open>\<open>enforce_invoice_item_freeze\<close>: items change only while the parent is a draft (or gone).\<close>

definition item_freeze :: "uuid \<Rightarrow> db \<Rightarrow> error + unit" where
  "item_freeze invoice_id d = (case get_invoice invoice_id d of None \<Rightarrow> Inr ()
     | Some i \<Rightarrow> ensure (inv_status i = IS_DRAFT) TriggerError (Inr ()))"

definition item_of :: "uuid \<Rightarrow> uuid \<Rightarrow> pricing_line \<Rightarrow> invoice_item" where
  "item_of n invoice_id line =
     \<lparr>it_id = n, it_invoice_id = invoice_id, it_position = pl_position line, it_title = pl_title line,
      it_description = pl_description line, it_unit_price_amount = pl_unit_price_amount line,
      it_quantity = pl_quantity line, it_tax_rate = pl_tax_rate line,
      it_line_net_amount = pl_line_net_amount line,
      it_line_discount_amount = pl_line_discount_amount line,
      it_line_taxable_amount = pl_line_taxable_amount line,
      it_line_tax_amount = pl_line_tax_amount line, it_line_total_amount = pl_line_total_amount line\<rparr>"

definition add_item :: "uuid \<Rightarrow> pricing_line \<Rightarrow> db \<Rightarrow> error + db" where
  "add_item invoice_id line d =
     (let (n, d) = fresh d; t = item_of n invoice_id line
      in and_then (item_freeze invoice_id d) (\<lambda>_.
         ensure (chk_invoice_item t \<and> list_all (\<lambda>u. it_invoice_id u \<noteq> invoice_id
           \<or> it_position u \<noteq> it_position t) (invoice_items d)) IntegrityError
         (Inr (d\<lparr>invoice_items := invoice_items d @ [t]\<rparr>))))"

definition order_visible :: "uuid \<Rightarrow> uuid \<Rightarrow> db \<Rightarrow> bool" where
  "order_visible order_id actor_id d \<longleftrightarrow> get_for_actor order_id actor_id d \<noteq> None"

definition get_invoice_of_actor :: "uuid \<Rightarrow> uuid \<Rightarrow> db \<Rightarrow> invoice option" where
  "get_invoice_of_actor invoice_id actor_id d =
     (case get_invoice invoice_id d of None \<Rightarrow> None
      | Some i \<Rightarrow> if order_visible (inv_order_id i) actor_id d then Some i else None)"

definition get_active_for_order :: "uuid \<Rightarrow> db \<Rightarrow> invoice option" where
  "get_active_for_order order_id d =
     List.find (\<lambda>i. inv_order_id i = order_id \<and> is_active i) (invoices d)"

definition get_active_for_order_for_actor :: "uuid \<Rightarrow> uuid \<Rightarrow> db \<Rightarrow> invoice option" where
  "get_active_for_order_for_actor order_id actor_id d =
     (if order_visible order_id actor_id d then get_active_for_order order_id d else None)"

definition lock_for_courier :: "uuid \<Rightarrow> uuid \<Rightarrow> db \<Rightarrow> invoice option" where
  "lock_for_courier invoice_id courier_id d =
     (case get_invoice invoice_id d of None \<Rightarrow> None
      | Some i \<Rightarrow> if inv_issued_by_courier_id i = courier_id then Some i else None)"

definition list_items :: "uuid \<Rightarrow> db \<Rightarrow> invoice_item list" where
  "list_items invoice_id d =
     sort_key it_position (filter (\<lambda>t. it_invoice_id t = invoice_id) (invoice_items d))"

section \<open>Service\<close>

record invoice_line_input =
  li_title :: string
  li_unit_price_amount :: money
  li_quantity :: int
  li_tax_rate :: rat
  li_description :: "string option"

record new_invoice_input =
  ni_items :: "invoice_line_input list"
  ni_courier_fee_amount :: money
  ni_promo_code :: "string option"

record promo_preview =
  pv_code :: string
  pv_discount :: money
  pv_original_total_amount :: money
  pv_total_amount :: money

definition pricing_config_of :: "settings \<Rightarrow> pricing_config" where
  "pricing_config_of s =
     (let b = business_of s
      in \<lparr>service_fee_rate = SERVICE_FEE_RATE b, service_fee_min_amount = SERVICE_FEE_MIN_AMOUNT b,
          service_fee_max_amount = SERVICE_FEE_MAX_AMOUNT b, default_vat_rate = DEFAULT_VAT_RATE b,
          max_invoice_amount = MAX_INVOICE_AMOUNT b\<rparr>)"

definition validate_line :: "settings \<Rightarrow> invoice_line_input \<Rightarrow> error + unit" where
  "validate_line s line =
     ensure (\<not> li_unit_price_amount line \<le> 0) ValidationDomainError
     (ensure (\<not> li_unit_price_amount line > MAX_ITEM_UNIT_PRICE (business_of s)) ValidationDomainError
     (ensure (1 \<le> li_quantity line \<and> li_quantity line \<le> 999) ValidationDomainError
     (ensure (0 \<le> li_tax_rate line \<and> li_tax_rate line \<le> 1) ValidationDomainError (Inr ()))))"

definition validate_items :: "settings \<Rightarrow> invoice_line_input list \<Rightarrow> error + unit" where
  "validate_items s items =
     ensure (items \<noteq> []) ValidationDomainError
     (ensure (int (length items) \<le> MAX_INVOICE_ITEMS (business_of s)) ValidationDomainError
     (fold_err (\<lambda>line _. validate_line s line) items ()))"

definition pricing_items :: "invoice_line_input list \<Rightarrow> pricing_item list" where
  "pricing_items lines = map (\<lambda>(idx, line).
     \<lparr>pit_title = li_title line, pit_unit_price_amount = li_unit_price_amount line,
      pit_quantity = li_quantity line, pit_tax_rate = li_tax_rate line,
      pit_description = li_description line, pit_position = int idx + 1\<rparr>) (List.enumerate 0 lines)"

definition discountable_base :: "pricing_item list \<Rightarrow> money \<Rightarrow> money" where
  "discountable_base items courier_fee_amount =
     (\<Sum>i \<leftarrow> items. quantize_money (pit_unit_price_amount i * of_int (pit_quantity i)))
     + quantize_money courier_fee_amount"

text \<open>The optional promo of a new invoice: a missing or empty code is no code.\<close>

definition invoice_promo ::
  "time \<Rightarrow> string option \<Rightarrow> money \<Rightarrow> uuid \<Rightarrow> db \<Rightarrow> error + promo option" where
  "invoice_promo now code base customer_id d =
     (case code of None \<Rightarrow> Inr None
      | Some c \<Rightarrow> if c = [] then Inr None
                 else and_then (validate now c base customer_id d) (\<lambda>v. Inr (Some (pv_promo v))))"

definition write_invoice ::
  "time \<Rightarrow> settings \<Rightarrow> order \<Rightarrow> uuid \<Rightarrow> promo option \<Rightarrow> pricing_result \<Rightarrow> db \<Rightarrow> error + invoice \<times> db" where
  "write_invoice now s ord courier_id promo_obj result d =
     and_then (create_draft (o_id ord) courier_id result (map_option pr_id promo_obj)
         (map_option pr_code promo_obj) d) (\<lambda>(i, d).
     and_then (fold_err (add_item (inv_id i)) (res_lines result) d) (\<lambda>d.
     and_then (case promo_obj of None \<Rightarrow> Inr d
         | Some p \<Rightarrow> reserve now p (o_customer_id ord) (inv_id i) (o_id ord)
             (res_discount_amount result) d) (\<lambda>d.
     and_then (issue i now (now + PAYMENT_EXPIRY_HOURS (business_of s) * 3600000000) d) (\<lambda>(i, d).
     and_then (flush_order now (ord\<lparr>o_status := OS_WAITING_PAYMENT,
         o_total_amount := res_total_amount result\<rparr>) d) (\<lambda>d. Inr (i, d))))))"

definition create_invoice ::
  "time \<Rightarrow> settings \<Rightarrow> uuid \<Rightarrow> uuid \<Rightarrow> new_invoice_input \<Rightarrow> db \<Rightarrow> error + invoice \<times> db" where
  "create_invoice now s order_id courier_id n d =
     or_raise (get_for_actor order_id courier_id d) NotFoundError (\<lambda>ord.
     and_then (assert_transition (o_status ord) OS_WAITING_PAYMENT) (\<lambda>_.
     ensure (get_active_for_order order_id d = None) ConflictError
     (and_then (validate_items s (ni_items n)) (\<lambda>_.
      let items = pricing_items (ni_items n); fee = ni_courier_fee_amount n
      in and_then (invoice_promo now (ni_promo_code n) (discountable_base items fee)
             (o_customer_id ord) d) (\<lambda>promo_obj.
         and_then (calculate_invoice_totals items fee (map_option to_pricing_promo promo_obj)
             (pricing_config_of s)) (\<lambda>result.
         ensure (promo_obj = None \<or> \<not> res_discount_amount result \<le> 0) ValidationDomainError
         (write_invoice now s ord courier_id promo_obj result d)))))))"

definition cancel_invoice :: "time \<Rightarrow> uuid \<Rightarrow> uuid \<Rightarrow> db \<Rightarrow> error + invoice \<times> db" where
  "cancel_invoice now invoice_id courier_id d =
     or_raise (lock_for_courier invoice_id courier_id d) NotFoundError (\<lambda>i.
     ensure (inv_status i = IS_ISSUED) InvalidStateTransitionError
     (or_raise (get_order (inv_order_id i) d) NotFoundError (\<lambda>ord.
      and_then (release now (inv_id i) d) (\<lambda>d.
      and_then (assert_transition (o_status ord) OS_ASSIGNED) (\<lambda>_.
      let i = i\<lparr>inv_status := IS_CANCELLED\<rparr>
      in and_then (flush_invoice i d) (\<lambda>d.
         and_then (flush_order now (ord\<lparr>o_status := OS_ASSIGNED, o_total_amount := 0\<rparr>) d) (\<lambda>d.
         Inr (i, d))))))))"

definition get_invoice_for_actor :: "uuid \<Rightarrow> uuid \<Rightarrow> db \<Rightarrow> error + invoice \<times> invoice_item list" where
  "get_invoice_for_actor invoice_id actor_id d =
     or_raise (get_invoice_of_actor invoice_id actor_id d) NotFoundError (\<lambda>i.
     Inr (i, list_items (inv_id i) d))"

definition get_active_invoice_for_order ::
  "uuid \<Rightarrow> uuid \<Rightarrow> db \<Rightarrow> error + invoice \<times> invoice_item list" where
  "get_active_invoice_for_order order_id actor_id d =
     or_raise (get_active_for_order_for_actor order_id actor_id d) NotFoundError (\<lambda>i.
     Inr (i, list_items (inv_id i) d))"

definition item_pricing :: "invoice_item \<Rightarrow> pricing_item" where
  "item_pricing t =
     \<lparr>pit_title = it_title t, pit_unit_price_amount = it_unit_price_amount t,
      pit_quantity = it_quantity t, pit_tax_rate = it_tax_rate t,
      pit_description = it_description t, pit_position = it_position t\<rparr>"

definition preview_promo ::
  "time \<Rightarrow> settings \<Rightarrow> uuid \<Rightarrow> string \<Rightarrow> uuid \<Rightarrow> db \<Rightarrow> error + promo_preview" where
  "preview_promo now s order_id code customer_id d =
     or_raise (get_active_for_order_for_actor order_id customer_id d) NotFoundError (\<lambda>i.
     let items = map item_pricing (list_items (inv_id i) d);
         base = discountable_base items (inv_courier_fee_amount i)
     in and_then (validate now code base customer_id d) (\<lambda>v.
        and_then (calculate_invoice_totals items (inv_courier_fee_amount i)
            (Some (to_pricing_promo (pv_promo v))) (pricing_config_of s)) (\<lambda>result.
        Inr \<lparr>pv_code = pr_code (pv_promo v), pv_discount = res_discount_amount result,
             pv_original_total_amount = inv_total_amount i,
             pv_total_amount = res_total_amount result\<rparr>)))"

section \<open>What the operations change\<close>

lemma flush_invoice_Inr [simp]:
  "flush_invoice i d = Inr d' \<longleftrightarrow> chk_invoice i \<and> sole_active i d \<and> d' = put_invoice i d"
  by (auto simp: flush_invoice_def)

end
