(* ===== verification/Payments.thy ===== *)
theory Payments
  imports Invoices
begin

text \<open>
  \<open>app/services/payment_service.py\<close>, \<open>app/repositories/payment_repository.py\<close> and the webhook
  authentication of \<open>app/integrations/streampay/real.py\<close>: top-ups, invoice payment, and the
  gateway webhook.  StreamPay is a service: creating a payment link is a parameter, as is
  HMAC-SHA256.  A webhook body is its raw bytes with what \<open>json.loads\<close> makes of them; a JSON number
  is kept as the text \<open>str\<close> gives it, and \<open>repr\<close> stands for the text of a list or an object.
\<close>

section \<open>Repository\<close>

text \<open>\<open>uq_payment_intents_streampay_link\<close>.\<close>

definition sole_link :: "payment_intent \<Rightarrow> db \<Rightarrow> bool" where
  "sole_link p d \<longleftrightarrow> pi_streampay_payment_link_id p = None \<or>
     list_all (\<lambda>q. pi_id q = pi_id p
       \<or> pi_streampay_payment_link_id q \<noteq> pi_streampay_payment_link_id p) (payment_intents d)"

definition flush_intent :: "payment_intent \<Rightarrow> db \<Rightarrow> error + db" where
  "flush_intent p d = ensure (chk_intent p \<and> sole_link p d) IntegrityError (Inr (put_intent p d))"

definition create_intent ::
  "time \<Rightarrow> uuid \<Rightarrow> payment_purpose \<Rightarrow> money \<Rightarrow> uuid option \<Rightarrow> time \<Rightarrow> db \<Rightarrow> error + payment_intent \<times> db" where
  "create_intent now user_id purpose amount invoice_id expires_at d =
     (let (n, d) = fresh d;
          p = \<lparr>pi_id = n, pi_user_id = user_id, pi_purpose = purpose, pi_amount = amount,
               pi_currency = ''SAR'', pi_status = PI_NEW, pi_checkout_provider = ''STREAMPAY'',
               pi_streampay_payment_link_id = None, pi_streampay_payment_url = None,
               pi_reference_invoice_id = invoice_id, pi_expires_at = expires_at,
               pi_paid_at = None, pi_failure_reason = None, pi_created_at = now\<rparr>
      in ensure (chk_intent p) IntegrityError (Inr (p, add_intent p d)))"

definition attach_streampay :: "payment_intent \<Rightarrow> string \<Rightarrow> string \<Rightarrow> db \<Rightarrow> error + payment_intent \<times> db" where
  "attach_streampay p link_id url d =
     (let p = p\<lparr>pi_checkout_provider := ''STREAMPAY'', pi_streampay_payment_link_id := Some link_id,
                pi_streampay_payment_url := Some url\<rparr>
      in and_then (flush_intent p d) (\<lambda>d. Inr (p, d)))"

text \<open>\<open>uq_wallet_topups_intent\<close>: one top-up row per intent.\<close>

definition create_topup_row :: "uuid \<Rightarrow> uuid \<Rightarrow> uuid \<Rightarrow> money \<Rightarrow> db \<Rightarrow> error + db" where
  "create_topup_row user_id wallet_id intent_id amount d =
     (let (n, d) = fresh d;
          t = \<lparr>wt_id = n, wt_user_id = user_id, wt_wallet_id = wallet_id,
               wt_payment_intent_id = intent_id, wt_amount = amount\<rparr>
      in ensure (chk_topup t \<and> intent_id \<notin> set (map wt_payment_intent_id (wallet_topups d)))
           IntegrityError (Inr (d\<lparr>wallet_topups := wallet_topups d @ [t]\<rparr>)))"

definition intent_by_link :: "string \<Rightarrow> db \<Rightarrow> payment_intent option" where
  "intent_by_link link_id d =
     List.find (\<lambda>p. pi_streampay_payment_link_id p = Some link_id) (payment_intents d)"

definition open_intent_for_invoice :: "uuid \<Rightarrow> db \<Rightarrow> payment_intent option" where
  "open_intent_for_invoice invoice_id d =
     List.find (\<lambda>p. pi_reference_invoice_id p = Some invoice_id \<and> pi_status p = PI_NEW)
       (payment_intents d)"

definition mark_expired :: "payment_intent \<Rightarrow> db \<Rightarrow> error + db" where
  "mark_expired p d = flush_intent (p\<lparr>pi_status := PI_EXPIRED\<rparr>) d"

definition mark_intent_paid :: "payment_intent \<Rightarrow> time \<Rightarrow> db \<Rightarrow> error + db" where
  "mark_intent_paid p paid_at d = flush_intent (p\<lparr>pi_status := PI_PAID, pi_paid_at := Some paid_at\<rparr>) d"

definition mark_failed :: "payment_intent \<Rightarrow> string \<Rightarrow> db \<Rightarrow> error + db" where
  "mark_failed p reason d =
     flush_intent (p\<lparr>pi_status := PI_FAILED, pi_failure_reason := Some (take 255 reason)\<rparr>) d"

section \<open>Hosted checkout\<close>

record streampay_customer =
  sc_external_id :: string
  sc_name :: string
  sc_phone_number :: string
  sc_email :: "string option"

record streampay_item =
  si_name :: string
  si_description :: "string option"
  si_amount :: money

record streampay_checkout =
  co_payment_link_id :: string
  co_payment_url :: string

type_synonym payment_gateway =
  "string \<Rightarrow> streampay_customer \<Rightarrow> streampay_item list \<Rightarrow> error + streampay_checkout"

definition streampay_customer_of :: "user \<Rightarrow> streampay_customer" where
  "streampay_customer_of u =
     \<lparr>sc_external_id = str_uuid (u_id u),
      sc_name = (case u_full_name u of None \<Rightarrow> ''SAFE-GIFT customer''
        | Some n \<Rightarrow> if n = [] then ''SAFE-GIFT customer'' else n),
      sc_phone_number = u_phone u, sc_email = u_email u\<rparr>"

definition quantity_text :: "int \<Rightarrow> string" where
  "quantity_text q = (if q < 0 then CHR ''-'' # digits (nat (- q)) else digits (nat q))"

definition invoice_checkout_items :: "uuid \<Rightarrow> money \<Rightarrow> invoice_item list \<Rightarrow> streampay_item list" where
  "invoice_checkout_items invoice_id payment_amount items =
     (let source_total = (\<Sum>t \<leftarrow> items. quantize_money (it_line_total_amount t))
      in if items = [] \<or> source_total > payment_amount \<or> list_ex (\<lambda>t. it_line_total_amount t < 1) items
         then [\<lparr>si_name = ''SAFE-GIFT invoice '' @ str_uuid invoice_id,
                si_description = Some ''Outstanding invoice balance'', si_amount = payment_amount\<rparr>]
         else
           let lines = map (\<lambda>t. \<lparr>si_name = it_title t,
                 si_description = Some (strip (''Quantity: '' @ quantity_text (it_quantity t) @ ''. ''
                   @ (case it_description t of None \<Rightarrow> [] | Some x \<Rightarrow> x))),
                 si_amount = quantize_money (it_line_total_amount t)\<rparr>) items;
               adjustment = quantize_money (payment_amount - source_total)
           in if adjustment \<ge> 1
              then lines @ [\<lparr>si_name = ''Invoice adjustment'',
                si_description = Some ''Delivery, service fees, tax, and discounts'',
                si_amount = adjustment\<rparr>]
              else if adjustment > 0
              then butlast lines @ [(last lines)\<lparr>si_amount :=
                quantize_money (si_amount (last lines) + adjustment)\<rparr>]
              else lines)"

definition create_checkout ::
  "payment_gateway \<Rightarrow> payment_intent \<Rightarrow> uuid \<Rightarrow> streampay_item list \<Rightarrow> db \<Rightarrow> error + streampay_checkout" where
  "create_checkout G p user_id items d =
     or_raise (get_user user_id d) NotFoundError (\<lambda>u.
     G (str_uuid (pi_id p)) (streampay_customer_of u) items)"

section \<open>Starting a payment\<close>

definition payment_expiry :: "time \<Rightarrow> settings \<Rightarrow> time" where
  "payment_expiry now s = now + PAYMENT_EXPIRY_HOURS (business_of s) * 3600000000"

record topup_result =
  tr_intent_id :: uuid
  tr_amount :: money
  tr_payment_url :: string

definition create_topup ::
  "time \<Rightarrow> settings \<Rightarrow> payment_gateway \<Rightarrow> uuid \<Rightarrow> money \<Rightarrow> db \<Rightarrow> error + topup_result \<times> db" where
  "create_topup now s G user_id amount d =
     (let amount = quantize_money amount
      in ensure (MIN_TOPUP_AMOUNT (business_of s) \<le> amount \<and> amount \<le> MAX_TOPUP_AMOUNT (business_of s))
           ValidationDomainError
         (or_raise (get_by_user user_id d) NotFoundError (\<lambda>w.
          and_then (create_intent now user_id PP_WALLET_TOPUP amount None (payment_expiry now s) d)
            (\<lambda>(p, d).
          and_then (create_topup_row user_id (w_id w) (pi_id p) amount d) (\<lambda>d.
          and_then (create_checkout G p user_id [\<lparr>si_name = ''SAFE-GIFT wallet top-up'',
              si_description = Some ''Wallet credit'', si_amount = amount\<rparr>] d) (\<lambda>co.
          and_then (attach_streampay p (co_payment_link_id co) (co_payment_url co) d) (\<lambda>(p, d).
          Inr (\<lparr>tr_intent_id = pi_id p, tr_amount = amount, tr_payment_url = co_payment_url co\<rparr>, d))))))))"

datatype pay_status = PS_PAID | PS_PENDING

record pay_result =
  pay_invoice_id :: uuid
  pay_status_of :: pay_status
  pay_from_wallet :: money
  pay_from_gateway :: money
  pay_url :: "string option"

definition settle_invoice_record ::
  "time \<Rightarrow> invoice \<Rightarrow> order \<Rightarrow> payment_method \<Rightarrow> money \<Rightarrow> money \<Rightarrow> db \<Rightarrow> error + db" where
  "settle_invoice_record now i ord method wallet_amount gateway_amount d =
     (let i = i\<lparr>inv_status := IS_PAID, inv_paid_at := Some now, inv_payment_method := Some method,
                inv_amount_from_wallet := quantize_money wallet_amount,
                inv_amount_from_gateway := quantize_money gateway_amount\<rparr>
      in and_then (assert_transition (o_status ord) OS_IN_PROGRESS) (\<lambda>_.
         and_then (consume now (inv_id i) d) (\<lambda>d.
         and_then (flush_invoice i d) (\<lambda>d.
         flush_order now (ord\<lparr>o_status := OS_IN_PROGRESS\<rparr>) d))))"

definition pay_from_balance ::
  "time \<Rightarrow> invoice \<Rightarrow> order \<Rightarrow> wallet \<Rightarrow> money \<Rightarrow> db \<Rightarrow> error + pay_result \<times> db" where
  "pay_from_balance now i ord w amount d =
     and_then (fund_escrow_for_invoice (w_id w) amount 0 (inv_id i) (o_id ord) None False d)
       (\<lambda>(_, d).
     and_then (settle_invoice_record now i ord PM_WALLET_ONLY amount 0 d) (\<lambda>d.
     Inr (\<lparr>pay_invoice_id = inv_id i, pay_status_of = PS_PAID, pay_from_wallet = amount,
           pay_from_gateway = 0, pay_url = None\<rparr>, d)))"

definition pay_through_gateway ::
  "time \<Rightarrow> settings \<Rightarrow> payment_gateway \<Rightarrow> invoice \<Rightarrow> uuid \<Rightarrow> wallet \<Rightarrow> money \<Rightarrow> money \<Rightarrow> db
     \<Rightarrow> error + pay_result \<times> db" where
  "pay_through_gateway now s G i customer_id w wallet_amount gateway_amount d =
     and_then (if wallet_amount > 0 then hold_funds (w_id w) wallet_amount d else Inr d) (\<lambda>d.
     let i = i\<lparr>inv_amount_from_wallet := wallet_amount, inv_amount_from_gateway := gateway_amount,
               inv_payment_method := Some (if wallet_amount > 0 then PM_SPLIT else PM_GATEWAY_ONLY)\<rparr>
     in and_then (flush_invoice i d) (\<lambda>d.
        and_then (create_intent now customer_id PP_ORDER_INVOICE gateway_amount (Some (inv_id i))
            (payment_expiry now s) d) (\<lambda>(p, d).
        and_then (create_checkout G p customer_id (invoice_checkout_items (inv_id i) gateway_amount
            (list_items (inv_id i) d)) d) (\<lambda>co.
        and_then (attach_streampay p (co_payment_link_id co) (co_payment_url co) d) (\<lambda>(p, d).
        Inr (\<lparr>pay_invoice_id = inv_id i, pay_status_of = PS_PENDING, pay_from_wallet = wallet_amount,
              pay_from_gateway = gateway_amount, pay_url = Some (co_payment_url co)\<rparr>, d))))))"

definition pay_invoice ::
  "time \<Rightarrow> settings \<Rightarrow> payment_gateway \<Rightarrow> uuid \<Rightarrow> uuid \<Rightarrow> db \<Rightarrow> error + pay_result \<times> db" where
  "pay_invoice now s G invoice_id customer_id d =
     or_raise (get_invoice_of_actor invoice_id customer_id d) NotFoundError (\<lambda>i.
     ensure (inv_status i = IS_ISSUED) ConflictError
     (ensure (case inv_expires_at i of None \<Rightarrow> True | Some e \<Rightarrow> \<not> now > e) ConflictError
     (or_raise (get_order (inv_order_id i) d) NotFoundError (\<lambda>ord.
      ensure (o_status ord = OS_WAITING_PAYMENT) InvalidStateTransitionError
      (or_raise (get_by_user customer_id d) NotFoundError (\<lambda>w.
       let amount = quantize_money (inv_total_amount i);
           wallet_amount = min (available_balance customer_id d) amount;
           gateway_amount = quantize_money (amount - wallet_amount)
       in if gateway_amount \<le> 0 then pay_from_balance now i ord w amount d
          else case open_intent_for_invoice (inv_id i) d of
                 Some p \<Rightarrow> (case pi_streampay_payment_url p of
                     Some url \<Rightarrow> Inr (\<lparr>pay_invoice_id = inv_id i, pay_status_of = PS_PENDING,
                       pay_from_wallet = inv_amount_from_wallet i, pay_from_gateway = pi_amount p,
                       pay_url = Some url\<rparr>, d)
                   | None \<Rightarrow> pay_through_gateway now s G i customer_id w wallet_amount gateway_amount d)
               | None \<Rightarrow> pay_through_gateway now s G i customer_id w wallet_amount gateway_amount d))))))"

section \<open>Webhook\<close>

datatype json = JNull | JBool bool | JNum string | JStr string | JArr "json list"
  | JObj "(string \<times> json) list"

record webhook_body =
  raw_bytes :: string
  parsed :: "json option"

record webhook_event =
  ev_payment_link_id :: string
  ev_status :: string
  ev_amount :: "money option"

datatype webhook_outcome = WO_processed | WO_already_processed | WO_failed

text \<open>\<open>_signature_parts\<close>: \<open>t=...,v1=...\<close>, a later value of a key replaces an earlier one.\<close>

definition signature_pairs :: "string \<Rightarrow> (string \<times> string) list" where
  "signature_pairs signature = filter (\<lambda>(k, v). k \<noteq> [] \<and> v \<noteq> [])
     (map (\<lambda>part. let p = strip part; k = takeWhile (\<lambda>c. c \<noteq> CHR ''='') p
                  in (k, drop (length k + 1) p)) (split_on (CHR '','') signature))"

definition signature_parts :: "string \<Rightarrow> string option \<times> string option" where
  "signature_parts signature =
     (let values = map_of (rev (signature_pairs signature)) in (values ''t'', values ''v1''))"

definition verify_webhook_signature ::
  "(string \<Rightarrow> string \<Rightarrow> string) \<Rightarrow> string \<Rightarrow> string \<Rightarrow> string \<Rightarrow> bool" where
  "verify_webhook_signature hmac webhook_secret raw_body signature =
     (case signature_parts signature of
        (Some timestamp, Some provided) \<Rightarrow> hmac webhook_secret (timestamp @ ''.'' @ raw_body) = provided
      | _ \<Rightarrow> False)"

text \<open>\<open>sign\<close> of the development client: the header a sender with the secret makes.\<close>

definition sign :: "(string \<Rightarrow> string \<Rightarrow> string) \<Rightarrow> string \<Rightarrow> string \<Rightarrow> string \<Rightarrow> string" where
  "sign hmac webhook_secret raw_body timestamp =
     ''t='' @ timestamp @ '',v1='' @ hmac webhook_secret (timestamp @ ''.'' @ raw_body)"

definition json_get :: "(string \<times> json) list \<Rightarrow> string \<Rightarrow> json option" where
  "json_get kvs k = map_of (rev kvs) k"

definition get_default :: "(string \<times> json) list \<Rightarrow> string \<Rightarrow> json \<Rightarrow> json" where
  "get_default kvs k v = (case json_get kvs k of None \<Rightarrow> v | Some x \<Rightarrow> x)"

fun py_str :: "(json \<Rightarrow> string) \<Rightarrow> json \<Rightarrow> string" where
  "py_str repr JNull = ''None''"
| "py_str repr (JBool b) = (if b then ''True'' else ''False'')"
| "py_str repr (JNum t) = t"
| "py_str repr (JStr t) = t"
| "py_str repr j = repr j"

definition upper_text :: "string \<Rightarrow> string" where
  "upper_text s = map upper_char s"

text \<open>The value of \<open>amount\<close>: \<open>payment.get("amount", invoice.get("amount"))\<close>; JSON \<open>null\<close> is \<open>None\<close>.\<close>

definition event_amount :: "(json \<Rightarrow> string) \<Rightarrow> (string \<times> json) list \<Rightarrow> json \<Rightarrow> error + money option" where
  "event_amount repr payment invoice =
     (let default = (case invoice of JObj kvs \<Rightarrow> get_default kvs ''amount'' JNull | _ \<Rightarrow> JNull);
          amount = get_default payment ''amount'' default
      in if amount = JNull then Inr None
         else and_then (parse_money (PyStr (py_str repr amount))) (\<lambda>m. Inr (Some m)))"

definition parse_body :: "(json \<Rightarrow> string) \<Rightarrow> json \<Rightarrow> error + webhook_event" where
  "parse_body repr j =
     (case j of JObj body \<Rightarrow>
        (case get_default body ''data'' (JObj []) of JObj details \<Rightarrow>
           (case (get_default details ''payment_link'' (JObj []), get_default details ''payment'' (JObj [])) of
              (JObj link, JObj payment) \<Rightarrow>
                or_raise (json_get link ''id'') KeyError (\<lambda>link_id.
                and_then (if upper_text (py_str repr (get_default body ''event_type'' (JStr [])))
                            = ''PAYMENT_SUCCEEDED'' then Inr ''PAID''
                          else or_raise (json_get payment ''status'') KeyError (\<lambda>st. Inr (py_str repr st)))
                  (\<lambda>status.
                and_then (event_amount repr payment (get_default details ''invoice'' (JObj []))) (\<lambda>amount.
                Inr \<lparr>ev_payment_link_id = py_str repr link_id, ev_status = status,
                     ev_amount = amount\<rparr>)))
            | _ \<Rightarrow> Inl ValueError)
         | _ \<Rightarrow> Inl ValueError)
      | _ \<Rightarrow> Inl AttributeError)"

text \<open>\<open>except (ValueError, KeyError, TypeError)\<close>: \<open>MoneyError\<close> is a \<open>ValueError\<close>; an exception of
  another class passes.\<close>

definition parse_webhook :: "(json \<Rightarrow> string) \<Rightarrow> webhook_body \<Rightarrow> error + webhook_event" where
  "parse_webhook repr b =
     map_sum (\<lambda>e. if e \<in> set [ValueError, KeyError, MoneyError] then ValidationDomainError else e) id
       (or_raise (parsed b) ValueError (parse_body repr))"

definition settle_topup :: "payment_intent \<Rightarrow> db \<Rightarrow> error + db" where
  "settle_topup p d =
     or_raise (get_by_user (pi_user_id p) d) NotFoundError (\<lambda>w.
     and_then (credit_topup (w_id w) (pi_amount p) (pi_id p) d) (\<lambda>(_, d). Inr d))"

definition settle_invoice :: "time \<Rightarrow> payment_intent \<Rightarrow> db \<Rightarrow> error + db" where
  "settle_invoice now p d =
     or_raise (pi_reference_invoice_id p) ConflictError (\<lambda>invoice_id.
     or_raise (get_invoice invoice_id d) NotFoundError (\<lambda>i.
     if inv_status i = IS_PAID then Inr d
     else
       or_raise (get_order (inv_order_id i) d) NotFoundError (\<lambda>ord.
       or_raise (get_by_user (pi_user_id p) d) NotFoundError (\<lambda>w.
       and_then (fund_escrow_for_invoice (w_id w) (inv_amount_from_wallet i) (pi_amount p) (inv_id i)
           (o_id ord) (Some (pi_id p)) (inv_amount_from_wallet i > 0) d) (\<lambda>(_, d).
       settle_invoice_record now i ord
         (case inv_payment_method i of None \<Rightarrow> PM_GATEWAY_ONLY | Some m \<Rightarrow> m)
         (inv_amount_from_wallet i) (pi_amount p) d)))))"

definition settle_locked :: "time \<Rightarrow> webhook_event \<Rightarrow> db \<Rightarrow> error + webhook_outcome \<times> db" where
  "settle_locked now ev d =
     or_raise (intent_by_link (ev_payment_link_id ev) d) NotFoundError (\<lambda>p.
     if pi_status p \<noteq> PI_NEW then Inr (WO_already_processed, d)
     else if upper_text (ev_status ev) \<noteq> ''PAID''
     then and_then (mark_failed p (ev_status ev) d) (\<lambda>d. Inr (WO_failed, d))
     else
       ensure (case ev_amount ev of None \<Rightarrow> False
         | Some a \<Rightarrow> quantize_money a = quantize_money (pi_amount p)) PaymentAmountMismatchError
       (and_then (if pi_purpose p = PP_WALLET_TOPUP then settle_topup p d else settle_invoice now p d) (\<lambda>d.
        and_then (mark_intent_paid p now d) (\<lambda>d. Inr (WO_processed, d)))))"

definition handle_webhook ::
  "time \<Rightarrow> time \<Rightarrow> (string \<Rightarrow> string \<Rightarrow> bool) \<Rightarrow> (json \<Rightarrow> string) \<Rightarrow> string \<Rightarrow> webhook_body \<Rightarrow> string \<Rightarrow> db
     \<Rightarrow> redis \<Rightarrow> (error + webhook_outcome \<times> db) \<times> redis" where
  "handle_webhook now now' verify repr token body signature d r =
     (if \<not> verify (raw_bytes body) signature then (Inl InvalidWebhookSignatureError, r)
      else case parse_webhook repr body of Inl e \<Rightarrow> (Inl e, r)
        | Inr ev \<Rightarrow> redis_lock (''lock:webhook:'' @ ev_payment_link_id ev) token 15 (now div 1000)
            (now' div 1000) (\<lambda>r. (settle_locked now ev d, r)) r)"

section \<open>What the customer is charged\<close>

lemma sum_list_last_upd:
  "xs \<noteq> [] \<Longrightarrow> (\<Sum>x \<leftarrow> butlast xs @ [(last xs)\<lparr>si_amount := si_amount (last xs) + a\<rparr>]. si_amount x)
     = (\<Sum>x \<leftarrow> xs. si_amount x) + (a :: money)"
  by (induction xs) auto

text \<open>The lines of a hosted checkout add up.  For an amount and line totals in whole halalas the
  lines sent to the gateway sum to the amount to be paid, to the halala, whether the invoice lines
  are itemised, adjusted for fees and discounts, or folded into one balance line; each line is
  positive, and at least one riyal as the gateway asks when the payment itself is.\<close>

theorem checkout_items_add_up:
  assumes "is_money payment" and "0 < payment" and "\<forall>t \<in> set items. is_money (it_line_total_amount t)"
    and "lines = invoice_checkout_items invoice_id payment items"
  shows "(\<Sum>x \<leftarrow> lines. si_amount x) = payment \<and> (\<forall>x \<in> set lines. 0 < si_amount x) \<and>
    (1 \<le> payment \<longrightarrow> (\<forall>x \<in> set lines. 1 \<le> si_amount x))"
proof -
  let ?source = "\<Sum>t \<leftarrow> items. it_line_total_amount t"
  have q: "map (\<lambda>t. quantize_money (it_line_total_amount t)) items = map it_line_total_amount items"
    using assms(3) by (simp add: quantize_money_id)
  have adj: "quantize_money (payment - ?source) = payment - ?source"
    using assms(1,3) by (intro quantize_money_id is_money_diff is_money_sum_list) auto
  define ls where "ls = map (\<lambda>t. \<lparr>si_name = it_title t,
      si_description = Some (strip (''Quantity: '' @ quantity_text (it_quantity t) @ ''. ''
        @ (case it_description t of None \<Rightarrow> [] | Some x \<Rightarrow> x))),
      si_amount = quantize_money (it_line_total_amount t)\<rparr>) items"
  have sum_ls: "(\<Sum>x \<leftarrow> ls. si_amount x) = ?source" by (simp add: ls_def o_def q del: map_eq_conv)
  consider (one) "items = [] \<or> ?source > payment \<or> list_ex (\<lambda>t. it_line_total_amount t < 1) items"
    | (lines) "items \<noteq> []" "?source \<le> payment" "\<forall>t \<in> set items. 1 \<le> it_line_total_amount t"
    unfolding list_ex_iff by (meson not_le)
  then show ?thesis
  proof cases
    case one
    then have "lines = [\<lparr>si_name = ''SAFE-GIFT invoice '' @ str_uuid invoice_id,
        si_description = Some ''Outstanding invoice balance'', si_amount = payment\<rparr>]"
      unfolding assms(4) invoice_checkout_items_def q Let_def by simp
    then show ?thesis using assms(2) by simp
  next
    case lines
    have big: "\<forall>x \<in> set ls. 1 \<le> si_amount x" using lines(3) assms(3) by (auto simp: ls_def quantize_money_id)
    have "\<not> list_ex (\<lambda>t. it_line_total_amount t < 1) items" using lines(3) by (auto simp: list_ex_iff)
    then have eq: "lines = (if payment - ?source \<ge> 1
        then ls @ [\<lparr>si_name = ''Invoice adjustment'',
          si_description = Some ''Delivery, service fees, tax, and discounts'', si_amount = payment - ?source\<rparr>]
        else if payment - ?source > 0
        then butlast ls @ [(last ls)\<lparr>si_amount := quantize_money (si_amount (last ls) + (payment - ?source))\<rparr>]
        else ls)"
      unfolding assms(4) invoice_checkout_items_def q Let_def ls_def using lines(1,2) adj by simp
    have ne: "ls \<noteq> []" using lines(1) by (simp add: ls_def)
    have m: "is_money (si_amount (last ls))"
      using last_in_set [OF ne] by (auto simp: ls_def)
    have merged: "quantize_money (si_amount (last ls) + (payment - ?source)) = si_amount (last ls) + (payment - ?source)"
      using m adj quantize_money_is_money by (metis is_money_add quantize_money_id)
    have sum: "(\<Sum>x \<leftarrow> lines. si_amount x) = payment"
      using eq merged sum_ls lines(2) sum_list_last_upd [OF ne, of "payment - ?source"] by (auto split: if_splits)
    have "1 \<le> si_amount (last ls)" using big last_in_set [OF ne] by blast
    then have "0 < payment - ?source \<Longrightarrow> 1 \<le> si_amount (last ls) + (payment - ?source)" by linarith
    then have "\<forall>x \<in> set lines. 1 \<le> si_amount x"
      unfolding eq merged using big by (auto dest: in_set_butlastD)
    with sum show ?thesis by force
  qed
qed

definition sample_item :: invoice_item where
  "sample_item =
     \<lparr>it_id = 1, it_invoice_id = 7, it_position = 1, it_title = ''Watch'', it_description = None,
      it_unit_price_amount = 100, it_quantity = 1, it_tax_rate = 0, it_line_net_amount = 100,
      it_line_discount_amount = 0, it_line_taxable_amount = 100, it_line_tax_amount = 0,
      it_line_total_amount = 100\<rparr>"

theorem checkout_items_add_up_witness:
  "(\<Sum>x \<leftarrow> invoice_checkout_items 7 (100 + 1 / 2) [sample_item]. si_amount x) = 100 + 1 / 2"
proof -
  have "is_money (100 + 1 / 2)" "is_money 100" by (simp_all add: is_money_def)
  moreover have "it_line_total_amount sample_item = 100" by (simp add: sample_item_def)
  ultimately show ?thesis
    using checkout_items_add_up [of "100 + 1 / 2" "[sample_item]" _ 7, OF _ _ _ refl] by simp
qed


section \<open>Signed webhooks\<close>

lemma split_on_clean: "c \<notin> set xs \<Longrightarrow> split_on c xs = [xs]"
  by (induction xs) auto

lemma split_on_append: "c \<notin> set xs \<Longrightarrow> split_on c (xs @ c # ys) = xs # split_on c ys"
  by (induction xs) auto

text \<open>A value that can stand in the header: not empty, no comma, no outer white space.\<close>

definition header_value :: "string \<Rightarrow> bool" where
  "header_value v \<longleftrightarrow> v \<noteq> [] \<and> CHR '','' \<notin> set v \<and> \<not> is_space (last v)"

lemma signature_parts_sign:
  assumes "header_value ts" and "header_value mac"
  shows "signature_parts (''t='' @ ts @ '',v1='' @ mac) = (Some ts, Some mac)"
proof -
  have "split_on (CHR '','') ((''t='' @ ts) @ CHR '','' # ''v1='' @ mac) = [''t='' @ ts, ''v1='' @ mac]"
    using assms by (subst split_on_append) (simp_all add: header_value_def split_on_clean)
  moreover have "strip (''t='' @ ts) = ''t='' @ ts" "strip (''v1='' @ mac) = ''v1='' @ mac"
    using assms by (intro strip_id; simp add: header_value_def is_space_def)+
  ultimately have "signature_pairs (''t='' @ ts @ '',v1='' @ mac) = [(''t'', ts), (''v1'', mac)]"
    using assms by (simp add: signature_pairs_def header_value_def)
  then show ?thesis by (simp add: signature_parts_def Let_def)
qed

text \<open>Webhook authentication.  What a sender who has the secret signs is accepted for that body;
  and a header is accepted for a body exactly when its last \<open>v1\<close> value is the MAC, under the
  secret, of its last timestamp, a dot and the raw body.  So a header that was made for one body is
  accepted for another body, or under another secret, only where the MACs collide.\<close>

theorem webhook_signature:
  assumes "header_value ts" and "\<forall>k m. header_value (hmac k m)"
  shows "verify_webhook_signature hmac secret body (sign hmac secret body ts) \<and>
    (\<forall>header. verify_webhook_signature hmac secret body header \<longleftrightarrow>
       (\<exists>t. signature_parts header = (Some t, Some (hmac secret (t @ ''.'' @ body))))) \<and>
    (\<forall>secret' body'. verify_webhook_signature hmac secret' body' (sign hmac secret body ts) \<longleftrightarrow>
       hmac secret' (ts @ ''.'' @ body') = hmac secret (ts @ ''.'' @ body))"
proof -
  have "signature_parts (sign hmac secret body ts) = (Some ts, Some (hmac secret (ts @ ''.'' @ body)))"
    unfolding sign_def using assms by (intro signature_parts_sign) auto
  then show ?thesis
    by (auto simp: verify_webhook_signature_def split: prod.splits option.splits)
qed

theorem webhook_signature_witness:
  "verify_webhook_signature (\<lambda>k m. ''ab'') ''secret'' ''{}'' ''t=17,v1=ab''"
proof -
  have "header_value ''17''" "header_value ''ab''" by (simp_all add: header_value_def is_space_def)
  then have "verify_webhook_signature (\<lambda>k m. ''ab'') ''secret'' ''{}'' (sign (\<lambda>k m. ''ab'') ''secret'' ''{}'' ''17'')"
    using webhook_signature [of "''17''" "\<lambda>k m. ''ab''"] by blast
  then show ?thesis by (simp add: sign_def)
qed

section \<open>Settlement of a webhook\<close>

lemma flush_intent_Inr [simp]:
  "flush_intent p d = Inr d' \<longleftrightarrow> chk_intent p \<and> sole_link p d \<and> d' = put_intent p d"
  by (auto simp: flush_intent_def)

lemma settle_record_books:
  assumes "books d"
  shows "on_ok (settle_invoice_record now i ord m a g d) (\<lambda>d'. books d' \<and> payment_intents d' = payment_intents d)"
  unfolding settle_invoice_record_def Let_def on_ok_and_then
  by (rule on_okI, rule consume_move.books_wp [OF assms])
     (auto simp: on_ok_def promo_frame_tables put_invoice_def put_order_def)

lemma settle_topup_books:
  assumes "books d"
  shows "on_ok (settle_topup p d) (\<lambda>d'. books d' \<and> payment_intents d' = payment_intents d)"
  unfolding settle_topup_def wp
  by (intro allI impI, rule topup_move.books_wp [OF assms]) (simp add: money_frame_tables)

lemma settle_invoice_books:
  assumes "books d"
  shows "on_ok (settle_invoice now p d) (\<lambda>d'. books d' \<and> payment_intents d' = payment_intents d)"
proof -
  have "on_ok (and_then (fund_escrow_for_invoice c a g iid oid pid held d) (\<lambda>(_, d). settle_invoice_record now i ord m x y d))
      (\<lambda>d'. books d' \<and> payment_intents d' = payment_intents d)" for c a g iid oid pid held i ord m x y
    unfolding on_ok_and_then
    by (rule fund_move.books_wp [OF assms], drule settle_record_books) (auto simp: on_ok_def money_frame_tables)
  then show ?thesis
    using assms by (simp add: settle_invoice_def wp)
qed


definition settled_as :: "webhook_outcome \<Rightarrow> payment_intent \<Rightarrow> payment_intent_status" where
  "settled_as out p = (case out of WO_processed \<Rightarrow> PI_PAID | WO_failed \<Rightarrow> PI_FAILED
     | WO_already_processed \<Rightarrow> pi_status p)"

lemma settle_locked_effect:
  assumes "settle_locked now ev d = Inr (out, d')" and "books d"
    and ids: "distinct (map pi_id (payment_intents d))"
  obtains p p' where "intent_by_link (ev_payment_link_id ev) d = Some p"
    and "out = WO_already_processed \<longleftrightarrow> pi_status p \<noteq> PI_NEW"
    and "out = WO_already_processed \<Longrightarrow> d' = d"
    and "out = WO_failed \<Longrightarrow> wallets d' = wallets d \<and> transactions d' = transactions d"
    and "out = WO_processed \<Longrightarrow> upper_text (ev_status ev) = ''PAID'' \<and>
      (\<exists>a. ev_amount ev = Some a \<and> quantize_money a = quantize_money (pi_amount p))"
    and "books d'" and "intent_by_link (ev_payment_link_id ev) d' = Some p'" and "pi_id p' = pi_id p"
    and "pi_status p' = settled_as out p"
proof -
  let ?l = "ev_payment_link_id ev"
  obtain p where p: "intent_by_link ?l d = Some p" using assms(1) by (auto simp: settle_locked_def)
  have link: "pi_streampay_payment_link_id p = Some ?l"
    using p by (auto simp: intent_by_link_def find_Some_iff)
  have put: "intent_by_link ?l (put_intent (p\<lparr>pi_status := st, pi_paid_at := pa, pi_failure_reason := fr\<rparr>) e)
      = Some (p\<lparr>pi_status := st, pi_paid_at := pa, pi_failure_reason := fr\<rparr>)"
    if "payment_intents e = payment_intents d" for st pa fr e
    using find_put_by [OF p [unfolded intent_by_link_def] ids,
        of "p\<lparr>pi_status := st, pi_paid_at := pa, pi_failure_reason := fr\<rparr>"] link that
    by (simp add: intent_by_link_def put_intent_def)
  note D = that [OF p]
  consider (seen) "pi_status p \<noteq> PI_NEW" | (failed) "pi_status p = PI_NEW" "upper_text (ev_status ev) \<noteq> ''PAID''"
    | (paid) "pi_status p = PI_NEW" "upper_text (ev_status ev) = ''PAID''" by blast
  then show thesis
  proof cases
    case seen
    then show ?thesis using assms(1,2) p by (intro D) (auto simp: settle_locked_def settled_as_def)
  next
    case failed
    then have d': "out = WO_failed" "mark_failed p (ev_status ev) d = Inr d'"
      using assms(1) p by (auto simp: settle_locked_def)
    let ?q = "p\<lparr>pi_status := PI_FAILED, pi_paid_at := pi_paid_at p,
        pi_failure_reason := Some (take 255 (ev_status ev))\<rparr>"
    have q: "d' = put_intent ?q d" using d'(2) by (simp add: mark_failed_def)
    have "wallets d' = wallets d \<and> transactions d' = transactions d \<and> books d'"
      using assms(2) by (simp add: q put_intent_def)
    moreover have "intent_by_link ?l d' = Some ?q" unfolding q by (rule put) simp
    ultimately show ?thesis
      using d'(1) failed by (intro D [where p' = ?q]) (simp_all add: settled_as_def)
  next
    case paid
    obtain e a where e: "(if pi_purpose p = PP_WALLET_TOPUP then settle_topup p d else settle_invoice now p d) = Inr e"
      and a: "ev_amount ev = Some a" "quantize_money a = quantize_money (pi_amount p)"
      and d': "mark_intent_paid p now e = Inr d'" "out = WO_processed"
      using assms(1) p paid by (auto simp: settle_locked_def split: option.splits)
    have e': "books e" "payment_intents e = payment_intents d"
      using e on_okD [OF settle_topup_books [OF assms(2), of p]]
        on_okD [OF settle_invoice_books [OF assms(2), of now p]] by (auto split: if_splits)
    let ?q = "p\<lparr>pi_status := PI_PAID, pi_paid_at := Some now, pi_failure_reason := pi_failure_reason p\<rparr>"
    have q: "d' = put_intent ?q e" using d'(1) by (simp add: mark_intent_paid_def)
    then have "books d'" using e'(1) by (simp add: put_intent_def)
    moreover have "intent_by_link ?l d' = Some ?q" unfolding q by (rule put [OF e'(2)])
    ultimately show ?thesis
      using d'(2) paid a by (intro D [where p' = ?q]) (simp_all add: settled_as_def)
  qed
qed


lemma get_by_user_not_system:
  assumes "ledger_ok d" and "get_by_user u d = Some w" and "get_system ty d = Inr x"
  shows "w_id w \<noteq> w_id x"
proof
  assume eq: "w_id w = w_id x"
  have w: "w \<in> set (wallets d)" "w_user_id w = Some u"
    using assms(2) by (auto simp: get_by_user_def dest: find_by_SomeD)
  have x: "x \<in> set (wallets d)" "w_user_id x = None"
    using assms(3) by (auto simp: get_system_def find_Some_iff)
  have "w = x" using eq w(1) x(1) ledger_okD(1) [OF assms(1)] by (simp add: distinct_map inj_on_def)
  then show False using w(2) x(2) by simp
qed

lemma credit_topup_balance:
  assumes "credit_topup (w_id w) a pid d = Inr (b, d')" and "ledger_ok d" and "get_by_user u d = Some w"
    and "is_money a"
  shows "b \<longleftrightarrow> \<not> idempotency_key_exists (topup_key pid) d"
    and "balance_of (w_id w) d' = balance_of (w_id w) d + (if b then a else 0)"
proof -
  obtain gw where gw: "get_system WT_SYSTEM_GATEWAY d = Inr gw"
    and p: "post_group [(leg_of (w_id w) (quantize_money a) TT_TOPUP)
        \<lparr>leg_idempotency_key := Some (topup_key pid), leg_reference_intent_id := Some pid\<rparr>,
      (leg_of (w_id gw) (- quantize_money a) TT_TOPUP)\<lparr>leg_reference_intent_id := Some pid\<rparr>]
      (next_id d) (d\<lparr>next_id := next_id d + 1\<rparr>) = Inr (b, d')"
    by (rule credit_topup_posts [OF assms(1)])
  show "b \<longleftrightarrow> \<not> idempotency_key_exists (topup_key pid) d"
    using post_group_cases [OF p] by (auto simp: any_key_exists_def idempotency_key_exists_def topup_key_def leg_of_def)
  have "w_id gw \<noteq> w_id w" using get_by_user_not_system [OF assms(2,3) gw] by simp
  then show "balance_of (w_id w) d' = balance_of (w_id w) d + (if b then a else 0)"
    using post_fresh_balance(1) [OF p assms(2), of "w_id w"] assms(4)
    by (simp add: quantize_money_id is_money_uminus leg_of_def)
qed

text \<open>C26: A payment is settled at most once.  Processing a gateway event either finds the intent no
  longer open, and then changes nothing; or marks it failed, and then moves no money; or, for an
  event that says paid with the amount of the intent to the halala, settles it.  Afterwards every
  further event for the same payment link, whatever it says, is answered as already processed and
  changes nothing.  A settled top-up credits the wallet of its user with its amount unless the
  ledger already has it, and the ledger and promo invariants hold throughout.\<close>

theorem webhook_settles_once:
  assumes "settle_locked now ev d = Inr (out, d')" and "books d"
    and "distinct (map pi_id (payment_intents d))"
    and "intent_by_link (ev_payment_link_id ev) d = Some p" and "is_money (pi_amount p)"
  shows "(out = WO_already_processed \<longleftrightarrow> pi_status p \<noteq> PI_NEW) \<and>
    (out = WO_already_processed \<longrightarrow> d' = d) \<and>
    (out = WO_failed \<longrightarrow> wallets d' = wallets d \<and> transactions d' = transactions d) \<and>
    (out = WO_processed \<longrightarrow> upper_text (ev_status ev) = ''PAID'' \<and>
       (\<exists>a. ev_amount ev = Some a \<and> quantize_money a = pi_amount p)) \<and>
    (out = WO_processed \<and> pi_purpose p = PP_WALLET_TOPUP \<longrightarrow>
       (\<exists>w. get_by_user (pi_user_id p) d = Some w \<and> balance_of (w_id w) d' = balance_of (w_id w) d +
          (if idempotency_key_exists (topup_key (pi_id p)) d then 0 else pi_amount p))) \<and>
    (\<forall>now' ev'. ev_payment_link_id ev' = ev_payment_link_id ev \<longrightarrow>
       settle_locked now' ev' d' = Inr (WO_already_processed, d')) \<and> books d'"
proof -
  obtain p' where E: "out = WO_already_processed \<longleftrightarrow> pi_status p \<noteq> PI_NEW"
    "out = WO_already_processed \<Longrightarrow> d' = d"
    "out = WO_failed \<Longrightarrow> wallets d' = wallets d \<and> transactions d' = transactions d"
    "out = WO_processed \<Longrightarrow> upper_text (ev_status ev) = ''PAID'' \<and>
       (\<exists>a. ev_amount ev = Some a \<and> quantize_money a = quantize_money (pi_amount p))"
    "books d'" "intent_by_link (ev_payment_link_id ev) d' = Some p'" "pi_status p' = settled_as out p"
    using settle_locked_effect [OF assms(1-3)] assms(4) by (metis option.inject)
  have "pi_status p' \<noteq> PI_NEW" using E(1,7) by (cases out) (auto simp: settled_as_def)
  then have again: "settle_locked now' ev' d' = Inr (WO_already_processed, d')"
    if "ev_payment_link_id ev' = ev_payment_link_id ev" for now' ev'
    using E(6) that by (simp add: settle_locked_def)
  have credit: "\<exists>w. get_by_user (pi_user_id p) d = Some w \<and> balance_of (w_id w) d' = balance_of (w_id w) d +
      (if idempotency_key_exists (topup_key (pi_id p)) d then 0 else pi_amount p)"
    if out: "out = WO_processed" "pi_purpose p = PP_WALLET_TOPUP"
  proof -
    obtain w b e where w: "get_by_user (pi_user_id p) d = Some w"
      and c: "credit_topup (w_id w) (pi_amount p) (pi_id p) d = Inr (b, e)"
      and m: "mark_intent_paid p now e = Inr d'"
      using assms(1,4) out E(1) by (auto simp: settle_locked_def settle_topup_def split: if_splits)
    have "balance_of (w_id w) d' = balance_of (w_id w) e"
      using m by (auto simp: mark_intent_paid_def balance_of_def get_wallet_def put_intent_def)
    then show ?thesis
      using credit_topup_balance [OF c _ w assms(5)] assms(2) w by (auto simp: books_def)
  qed
  show ?thesis using E(1-5) again credit quantize_money_id [OF assms(5)] by auto
qed


definition sample_intent :: payment_intent where
  "sample_intent = \<lparr>pi_id = 12, pi_user_id = 10, pi_purpose = PP_WALLET_TOPUP, pi_amount = 1000,
     pi_currency = ''SAR'', pi_status = PI_NEW, pi_checkout_provider = ''STREAMPAY'',
     pi_streampay_payment_link_id = Some ''L'', pi_streampay_payment_url = Some ''U'',
     pi_reference_invoice_id = None, pi_expires_at = 9, pi_paid_at = None, pi_failure_reason = None,
     pi_created_at = 0\<rparr>"

definition topup_db :: db where
  "topup_db = sample_db\<lparr>payment_intents := [sample_intent]\<rparr>"

definition sample_event :: webhook_event where
  "sample_event = \<lparr>ev_payment_link_id = ''L'', ev_status = ''paid'', ev_amount = Some 1000\<rparr>"

lemma sample_settles: "\<exists>d'. settle_locked 5 sample_event topup_db = Inr (WO_processed, d')"
proof -
  have "case settle_locked 5 sample_event topup_db of Inl e \<Rightarrow> False | Inr (out, d') \<Rightarrow> out = WO_processed"
    by code_simp
  then show ?thesis by (auto split: sum.splits)
qed

theorem webhook_settles_once_witness:
  "\<exists>d'. settle_locked 5 sample_event topup_db = Inr (WO_processed, d') \<and> balance_of 4 d' = 1000 \<and>
     settle_locked 6 sample_event d' = Inr (WO_already_processed, d')"
proof -
  obtain d' where s: "settle_locked 5 sample_event topup_db = Inr (WO_processed, d')"
    using sample_settles by blast
  have b: "books topup_db" using sample_books by (simp add: topup_db_def)
  have i: "intent_by_link (ev_payment_link_id sample_event) topup_db = Some sample_intent"
    by (simp add: intent_by_link_def topup_db_def sample_event_def sample_intent_def)
  have d: "distinct (map pi_id (payment_intents topup_db))" by (simp add: topup_db_def)
  have m: "is_money (pi_amount sample_intent)" by (simp add: sample_intent_def is_money_def)
  note W = webhook_settles_once [OF s b d i m]
  have "map_option w_id (get_by_user 10 topup_db) = Some 4" "balance_of 4 topup_db = 0"
    "\<not> idempotency_key_exists (topup_key 12) topup_db" by code_simp+
  then have "balance_of 4 d' = 1000"
    using W by (auto simp: sample_intent_def)
  with s W show ?thesis by blast
qed

end
