(* ===== verification/Fulfillment.thy ===== *)
theory Fulfillment
  imports Payments
begin

text \<open>
  \<open>app/services/fulfillment_service.py\<close>, \<open>app/repositories/dispute_repository.py\<close> and
  \<open>app/services/rating_service.py\<close> with \<open>app/repositories/rating_repository.py\<close>: delivery, approval
  with the release of the escrow, disputes and their resolution, ratings.  The distance PostGIS
  computes between two points is the parameter \<open>st_distance\<close>.
\<close>

section \<open>Delivery and approval\<close>

record delivery_input =
  dl_latitude :: rat
  dl_longitude :: rat
  dl_proof_media_keys :: "string list"

type_synonym distance = "rat \<times> rat \<Rightarrow> rat \<times> rat \<Rightarrow> rat"

definition distance_to_delivery :: "distance \<Rightarrow> uuid \<Rightarrow> rat \<Rightarrow> rat \<Rightarrow> db \<Rightarrow> rat option" where
  "distance_to_delivery st_distance order_id longitude latitude d =
     map_option (\<lambda>ord. st_distance (o_delivery_location ord) (longitude, latitude)) (get_order order_id d)"

definition submit_delivery ::
  "time \<Rightarrow> settings \<Rightarrow> object_store \<Rightarrow> distance \<Rightarrow> uuid \<Rightarrow> uuid \<Rightarrow> delivery_input \<Rightarrow> db
     \<Rightarrow> error + order \<times> db" where
  "submit_delivery now s S st_distance order_id courier_id inp d =
     ensure (get_for_actor order_id courier_id d \<noteq> None) NotFoundError
     (or_raise (get_order order_id d) NotFoundError (\<lambda>ord.
      and_then (assert_transition (o_status ord) OS_DELIVERED) (\<lambda>_.
      ensure (dl_proof_media_keys inp \<noteq> []) ValidationDomainError
      (ensure (length (dl_proof_media_keys inp) \<le> 5) ValidationDomainError
      (ensure (case distance_to_delivery st_distance order_id (dl_longitude inp) (dl_latitude inp) d of
          None \<Rightarrow> False | Some m \<Rightarrow> \<not> m > of_int (MAX_DELIVERY_RADIUS_METERS (business_of s)))
        ValidationDomainError
      (and_then (fold_err (\<lambda>k _. confirm s S k) (dl_proof_media_keys inp) ()) (\<lambda>_.
       and_then (fold_err (\<lambda>k. add_media (o_id ord) courier_id MT_DELIVERY_PROOF k ''image/jpeg'' 0
           (Some (dl_longitude inp, dl_latitude inp)) (Some now)) (dl_proof_media_keys inp) d) (\<lambda>d.
       let ord = ord\<lparr>o_status := OS_DELIVERED, o_delivered_at := Some now\<rparr>
       in and_then (flush_order now ord d) (\<lambda>d. Inr (ord, d))))))))))"

definition paid_invoice_of :: "order \<Rightarrow> db \<Rightarrow> error + invoice" where
  "paid_invoice_of ord d =
     or_raise (get_active_for_order (o_id ord) d) ConflictError (\<lambda>i.
     ensure (inv_status i = IS_PAID) ConflictError (Inr i))"

definition invoice_settlement :: "settings \<Rightarrow> invoice \<Rightarrow> settlement" where
  "invoice_settlement s i =
     compute_settlement (inv_items_net_amount i) (inv_courier_fee_amount i) (inv_tax_amount i)
       (inv_total_amount i) (PLATFORM_COMMISSION_RATE (business_of s))"

definition release_to_courier ::
  "order \<Rightarrow> invoice \<Rightarrow> wallet \<Rightarrow> settlement \<Rightarrow> db \<Rightarrow> error + bool \<times> db" where
  "release_to_courier ord i w st d =
     release_escrow_on_completion (o_id ord) (inv_id i) (w_id w) (courier_payout_amount st)
       (settle_tax_amount st) (platform_revenue_amount st) d"

definition complete_and_release :: "time \<Rightarrow> settings \<Rightarrow> order \<Rightarrow> db \<Rightarrow> error + order \<times> db" where
  "complete_and_release now s ord d =
     and_then (assert_transition (o_status ord) OS_COMPLETED) (\<lambda>_.
     and_then (paid_invoice_of ord d) (\<lambda>i.
     or_raise (o_courier_id ord) ConflictError (\<lambda>courier_id.
     or_raise (get_by_user courier_id d) NotFoundError (\<lambda>w.
     let st = invoice_settlement s i
     in and_then (release_to_courier ord i w st d) (\<lambda>(_, d).
        let ord = ord\<lparr>o_status := OS_COMPLETED, o_completed_at := Some now,
                      o_commission_amount := commission_amount st,
                      o_courier_payout_amount := courier_payout_amount st\<rparr>
        in and_then (flush_order now ord d) (\<lambda>d. Inr (ord, d)))))))"

definition approve_order :: "time \<Rightarrow> settings \<Rightarrow> uuid \<Rightarrow> uuid \<Rightarrow> db \<Rightarrow> error + order \<times> db" where
  "approve_order now s order_id customer_id d =
     ensure (get_for_actor order_id customer_id d \<noteq> None) NotFoundError
     (or_raise (get_order order_id d) NotFoundError (\<lambda>ord. complete_and_release now s ord d))"

definition auto_approve :: "time \<Rightarrow> settings \<Rightarrow> uuid \<Rightarrow> db \<Rightarrow> error + bool \<times> db" where
  "auto_approve now s order_id d =
     (case get_order order_id d of None \<Rightarrow> Inr (False, d)
      | Some ord \<Rightarrow> if o_status ord \<noteq> OS_DELIVERED then Inr (False, d)
          else and_then (complete_and_release now s ord d) (\<lambda>(_, d). Inr (True, d)))"

definition auto_approve_cutoff :: "time \<Rightarrow> settings \<Rightarrow> time" where
  "auto_approve_cutoff now s = now - AUTO_APPROVE_HOURS (business_of s) * 3600000000"

section \<open>Disputes\<close>

definition dispute_for_order :: "uuid \<Rightarrow> db \<Rightarrow> dispute option" where
  "dispute_for_order order_id d = find_by dp_order_id order_id (disputes d)"

definition create_dispute :: "uuid \<Rightarrow> uuid \<Rightarrow> string \<Rightarrow> db \<Rightarrow> error + dispute \<times> db" where
  "create_dispute order_id raised_by reason d =
     (let (n, d) = fresh d;
          x = \<lparr>dp_id = n, dp_order_id = order_id, dp_raised_by_user_id = raised_by, dp_reason = reason,
               dp_status = DS_OPEN, dp_resolution_note = None, dp_resolved_by_admin_id = None,
               dp_resolved_at = None\<rparr>
      in ensure (order_id \<notin> set (map dp_order_id (disputes d))) IntegrityError (Inr (x, add_dispute x d)))"

definition resolve_row :: "dispute \<Rightarrow> dispute_status \<Rightarrow> uuid \<Rightarrow> string option \<Rightarrow> time \<Rightarrow> dispute" where
  "resolve_row x status admin_id txt now =
     x\<lparr>dp_status := status, dp_resolved_by_admin_id := Some admin_id, dp_resolution_note := txt,
       dp_resolved_at := Some now\<rparr>"

definition raise_dispute :: "time \<Rightarrow> uuid \<Rightarrow> uuid \<Rightarrow> string \<Rightarrow> db \<Rightarrow> error + dispute \<times> db" where
  "raise_dispute now order_id actor_id reason d =
     ensure (get_for_actor order_id actor_id d \<noteq> None) NotFoundError
     (or_raise (get_order order_id d) NotFoundError (\<lambda>ord.
      ensure (dispute_for_order (o_id ord) d = None) ConflictError
      (and_then (assert_transition (o_status ord) OS_DISPUTED) (\<lambda>_.
       and_then (flush_order now (ord\<lparr>o_status := OS_DISPUTED\<rparr>) d) (\<lambda>d.
       create_dispute (o_id ord) actor_id reason d)))))"

text \<open>\<open>_apply_dispute_outcome\<close>: the order with its new amounts, the target status, the state.\<close>

definition apply_dispute_outcome ::
  "settings \<Rightarrow> order \<Rightarrow> invoice \<Rightarrow> dispute_status \<Rightarrow> money option \<Rightarrow> db
     \<Rightarrow> error + order \<times> order_status \<times> db" where
  "apply_dispute_outcome s ord i outcome courier_amount d =
     or_raise (o_courier_id ord) ConflictError (\<lambda>courier_id.
     or_raise (get_by_user courier_id d) NotFoundError (\<lambda>courier_wallet.
     or_raise (get_by_user (o_customer_id ord) d) NotFoundError (\<lambda>customer_wallet.
     case outcome of
       DS_RESOLVED_CUSTOMER \<Rightarrow>
         and_then (refund_escrow (o_id ord) (inv_id i) (w_id customer_wallet) (inv_total_amount i) d)
           (\<lambda>(_, d). Inr (ord, OS_REFUNDED, d))
     | DS_RESOLVED_COURIER \<Rightarrow>
         let st = invoice_settlement s i
         in and_then (release_to_courier ord i courier_wallet st d) (\<lambda>(_, d).
            Inr (ord\<lparr>o_commission_amount := commission_amount st,
                     o_courier_payout_amount := courier_payout_amount st\<rparr>, OS_COMPLETED, d))
     | DS_RESOLVED_SPLIT \<Rightarrow>
         or_raise courier_amount ValidationDomainError (\<lambda>a.
         let share = quantize_money a
         in ensure (\<not> (share < 0 \<or> share > quantize_money (inv_total_amount i))) ValidationDomainError
            (and_then (split_escrow (o_id ord) (inv_id i) (w_id courier_wallet) (w_id customer_wallet)
                share (inv_total_amount i - share) d) (\<lambda>(_, d).
             Inr (ord\<lparr>o_courier_payout_amount := share\<rparr>, OS_COMPLETED, d))))
     | DS_OPEN \<Rightarrow> Inl ValidationDomainError)))"

definition resolve_dispute ::
  "time \<Rightarrow> settings \<Rightarrow> uuid \<Rightarrow> uuid \<Rightarrow> dispute_status \<Rightarrow> string option \<Rightarrow> money option \<Rightarrow> db
     \<Rightarrow> error + dispute \<times> db" where
  "resolve_dispute now s dispute_id admin_id outcome txt courier_amount d =
     or_raise (get_dispute dispute_id d) NotFoundError (\<lambda>x.
     ensure (dp_status x = DS_OPEN) ConflictError
     (or_raise (get_order (dp_order_id x) d) NotFoundError (\<lambda>ord.
      and_then (paid_invoice_of ord d) (\<lambda>i.
      and_then (apply_dispute_outcome s ord i outcome courier_amount d) (\<lambda>(ord, target, d).
      and_then (assert_transition (o_status ord) target) (\<lambda>_.
      let ord = ord\<lparr>o_status := target,
            o_completed_at := (if target = OS_COMPLETED then Some now else o_completed_at ord)\<rparr>;
          x = resolve_row x outcome admin_id txt now
      in and_then (flush_order now ord d) (\<lambda>d. Inr (x, put_dispute x d))))))))"

section \<open>Ratings\<close>

definition exists_for_rater :: "uuid \<Rightarrow> uuid \<Rightarrow> db \<Rightarrow> bool" where
  "exists_for_rater order_id rater_id d \<longleftrightarrow>
     list_ex (\<lambda>r. ra_order_id r = order_id \<and> ra_rater_id r = rater_id) (ratings d)"

text \<open>\<open>uq_ratings_order_rater\<close> and the two check constraints.\<close>

definition create_rating :: "uuid \<Rightarrow> uuid \<Rightarrow> uuid \<Rightarrow> int \<Rightarrow> string option \<Rightarrow> db \<Rightarrow> error + rating \<times> db" where
  "create_rating order_id rater_id rated score comment d =
     (let (n, d) = fresh d;
          r = \<lparr>ra_id = n, ra_order_id = order_id, ra_rater_id = rater_id, ra_rated_user_id = rated,
               ra_score = score, ra_comment = comment\<rparr>
      in ensure (chk_rating r \<and> \<not> exists_for_rater order_id rater_id d) IntegrityError
         (Inr (r, d\<lparr>ratings := ratings d @ [r]\<rparr>)))"

definition rate :: "uuid \<Rightarrow> uuid \<Rightarrow> int \<Rightarrow> string option \<Rightarrow> db \<Rightarrow> error + rating \<times> db" where
  "rate order_id rater_id score comment d =
     or_raise (get_for_actor order_id rater_id d) NotFoundError (\<lambda>ord.
     ensure (o_status ord = OS_COMPLETED) ConflictError
     (or_raise (if rater_id = o_customer_id ord then o_courier_id ord else Some (o_customer_id ord))
        ConflictError (\<lambda>rated.
      ensure (\<not> exists_for_rater order_id rater_id d) ConflictError
      (create_rating order_id rater_id rated score comment d))))"

end
