(* ===== verification/Withdrawals.thy ===== *)
theory Withdrawals
  imports Fulfillment
begin

text \<open>
  \<open>app/services/withdrawal_service.py\<close>, \<open>app/repositories/withdrawal_repository.py\<close> and the
  append of \<open>app/repositories/audit_repository.py\<close>: the courier's payout request over held funds,
  its approval, rejection and settlement.  The savepoint of a request is rolled back when its
  write meets the unique index, after which the earlier request is returned.
\<close>

definition record_audit :: "uuid option \<Rightarrow> string \<Rightarrow> string \<Rightarrow> uuid option \<Rightarrow> db \<Rightarrow> db" where
  "record_audit actor action entity_type entity_id d =
     d\<lparr>audit_logs := audit_logs d @ [\<lparr>al_actor_user_id = actor, al_action = action,
       al_entity_type = entity_type, al_entity_id = entity_id\<rparr>]\<rparr>"

definition by_idempotency :: "uuid \<Rightarrow> string \<Rightarrow> db \<Rightarrow> withdrawal option" where
  "by_idempotency courier_id k d =
     List.find (\<lambda>w. wd_courier_id w = courier_id \<and> wd_idempotency_key w = Some k) (withdrawals d)"

text \<open>\<open>uq_withdrawals_courier_idempotency\<close>.\<close>

definition create_withdrawal ::
  "uuid \<Rightarrow> uuid \<Rightarrow> uuid \<Rightarrow> money \<Rightarrow> string \<Rightarrow> string \<Rightarrow> string \<Rightarrow> db \<Rightarrow> error + withdrawal \<times> db" where
  "create_withdrawal withdrawal_id courier_id wallet_id amount enc last4 k d =
     (let w = \<lparr>wd_id = withdrawal_id, wd_courier_id = courier_id, wd_wallet_id = wallet_id,
               wd_amount = amount, wd_iban_encrypted = enc, wd_iban_last4 = last4,
               wd_status = WS_REQUESTED, wd_processed_by_admin_id = None,
               wd_rejection_reason = None, wd_idempotency_key = Some k\<rparr>
      in ensure (chk_withdrawal w \<and> by_idempotency courier_id k d = None) IntegrityError
         (Inr (w, add_withdrawal w d)))"

definition set_withdrawal_status ::
  "withdrawal \<Rightarrow> withdrawal_status \<Rightarrow> uuid \<Rightarrow> string option \<Rightarrow> db \<Rightarrow> error + withdrawal \<times> db" where
  "set_withdrawal_status w status admin_id reason d =
     (let w = w\<lparr>wd_status := status, wd_processed_by_admin_id := Some admin_id,
                wd_rejection_reason := reason\<rparr>
      in ensure (chk_withdrawal w) IntegrityError (Inr (w, put_withdrawal w d)))"

text \<open>\<open>before\<close> is the state the first key look-up saw: a concurrent request may commit in between,
  and then the unique index decides.\<close>

definition request_withdrawal_at ::
  "db \<Rightarrow> settings \<Rightarrow> aead \<Rightarrow> string \<Rightarrow> uuid \<Rightarrow> money \<Rightarrow> string \<Rightarrow> string \<Rightarrow> db
     \<Rightarrow> error + withdrawal \<times> db" where
  "request_withdrawal_at before s A iv courier_id amount iban k d =
     (case by_idempotency courier_id k before of Some w \<Rightarrow> Inr (w, d)
      | None \<Rightarrow>
        let amount = quantize_money amount; b = business_of s
        in ensure (MIN_WITHDRAWAL_AMOUNT b \<le> amount \<and> amount \<le> MAX_WITHDRAWAL_AMOUNT b)
             ValidationDomainError
           (or_raise (get_by_user courier_id d) NotFoundError (\<lambda>w.
            let (n, d) = fresh d
            in and_then (settings_cipher s) (\<lambda>c.
               and_then (encrypt A c iv iban (iban_aad n)) (\<lambda>enc.
               case and_then (hold_funds (w_id w) amount d)
                      (create_withdrawal n courier_id (w_id w) amount enc
                         (drop (length iban - 4) iban) k) of
                 Inr res \<Rightarrow> Inr res
               | Inl e \<Rightarrow> if e = IntegrityError
                   then or_raise (by_idempotency courier_id k d) IntegrityError (\<lambda>w. Inr (w, d))
                   else Inl e)))))"

definition request_withdrawal ::
  "settings \<Rightarrow> aead \<Rightarrow> string \<Rightarrow> uuid \<Rightarrow> money \<Rightarrow> string \<Rightarrow> string \<Rightarrow> db \<Rightarrow> error + withdrawal \<times> db" where
  "request_withdrawal s A iv courier_id amount iban k d =
     request_withdrawal_at d s A iv courier_id amount iban k d"

definition approve_withdrawal :: "uuid \<Rightarrow> uuid \<Rightarrow> db \<Rightarrow> error + withdrawal \<times> db" where
  "approve_withdrawal withdrawal_id admin_id d =
     or_raise (get_withdrawal withdrawal_id d) NotFoundError (\<lambda>w.
     if wd_status w = WS_APPROVED then Inr (w, d)
     else ensure (wd_status w = WS_REQUESTED) InvalidStateTransitionError
       (and_then (set_withdrawal_status w WS_APPROVED admin_id None d) (\<lambda>(w, d).
        Inr (w, record_audit (Some admin_id) ''WITHDRAWAL_APPROVE'' ''withdrawals'' (Some (wd_id w)) d))))"

definition reject_withdrawal :: "uuid \<Rightarrow> uuid \<Rightarrow> string \<Rightarrow> db \<Rightarrow> error + withdrawal \<times> db" where
  "reject_withdrawal withdrawal_id admin_id reason d =
     or_raise (get_withdrawal withdrawal_id d) NotFoundError (\<lambda>w.
     if wd_status w = WS_REJECTED then Inr (w, d)
     else ensure (wd_status w = WS_REQUESTED \<or> wd_status w = WS_APPROVED) InvalidStateTransitionError
       (and_then (release_hold (wd_wallet_id w) (wd_amount w) d) (\<lambda>d.
        and_then (set_withdrawal_status w WS_REJECTED admin_id (Some reason) d) (\<lambda>(w, d).
        Inr (w, record_audit (Some admin_id) ''WITHDRAWAL_REJECT'' ''withdrawals'' (Some (wd_id w)) d)))))"

definition mark_withdrawal_paid :: "uuid \<Rightarrow> uuid \<Rightarrow> db \<Rightarrow> error + withdrawal \<times> db" where
  "mark_withdrawal_paid withdrawal_id admin_id d =
     or_raise (get_withdrawal withdrawal_id d) NotFoundError (\<lambda>w.
     if wd_status w = WS_PAID then Inr (w, d)
     else ensure (wd_status w = WS_APPROVED) InvalidStateTransitionError
       (and_then (pay_withdrawal (wd_wallet_id w) (wd_amount w) (wd_id w) d) (\<lambda>(posted, d).
        ensure posted InvalidStateTransitionError
        (and_then (set_withdrawal_status w WS_PAID admin_id None d) (\<lambda>(w, d).
         Inr (w, record_audit (Some admin_id) ''WITHDRAWAL_PAID'' ''withdrawals'' (Some (wd_id w)) d))))))"

end
