(* ===== verification/Workers.thy ===== *)
theory Workers
  imports Withdrawals
begin

text \<open>
  The scheduled jobs: \<open>app/workers/expiry.py\<close>, \<open>app/workers/auto_approve.py\<close>,
  \<open>app/workers/receipts.py\<close> with \<open>app/services/receipt_service.py\<close>, and
  \<open>app/workers/reconciliation.py\<close>.  Every item runs in a transaction of its own: an exception
  rolls that item back and the sweep goes on.  A job holds a Redis lock while it runs.  Sending an
  email may raise; the messages that were handed to the provider are part of the state.
\<close>

section \<open>Expiry of invoices and intents\<close>

definition list_expired_issued :: "time \<Rightarrow> nat \<Rightarrow> db \<Rightarrow> invoice list" where
  "list_expired_issued now limit d =
     take limit (sort_key (\<lambda>i. the (inv_expires_at i))
       (filter (\<lambda>i. inv_status i = IS_ISSUED \<and>
          (case inv_expires_at i of None \<Rightarrow> False | Some e \<Rightarrow> e < now)) (invoices d)))"

definition list_expired_new :: "time \<Rightarrow> nat \<Rightarrow> db \<Rightarrow> payment_intent list" where
  "list_expired_new now limit d =
     take limit (sort_key pi_expires_at
       (filter (\<lambda>p. pi_status p = PI_NEW \<and> pi_expires_at p < now) (payment_intents d)))"

definition release_invoice_hold :: "invoice \<Rightarrow> db \<Rightarrow> error + db" where
  "release_invoice_hold i d =
     (case open_intent_for_invoice (inv_id i) d of None \<Rightarrow> Inr d
      | Some p \<Rightarrow>
        and_then (if inv_amount_from_wallet i > 0
                  then case get_by_user (pi_user_id p) d of None \<Rightarrow> Inr d
                    | Some w \<Rightarrow> release_hold (w_id w) (inv_amount_from_wallet i) d
                  else Inr d) (\<lambda>d. mark_expired p d))"

definition expire_invoice_tx :: "time \<Rightarrow> invoice \<Rightarrow> db \<Rightarrow> error + db" where
  "expire_invoice_tx now i d =
     and_then (release_invoice_hold i d) (\<lambda>d.
     and_then (release now (inv_id i) d) (\<lambda>d.
     and_then (flush_invoice (i\<lparr>inv_status := IS_EXPIRED\<rparr>) d) (\<lambda>d.
     case get_order (inv_order_id i) d of None \<Rightarrow> Inr d
     | Some ord \<Rightarrow>
         if o_status ord = OS_WAITING_PAYMENT
         then and_then (assert_transition (o_status ord) OS_ASSIGNED) (\<lambda>_.
              flush_order now (ord\<lparr>o_status := OS_ASSIGNED, o_total_amount := 0\<rparr>) d)
         else Inr d)))"

text \<open>The transaction of one item: the state after a commit, or the old state.\<close>

definition attempt_tx :: "error + db \<Rightarrow> db \<Rightarrow> bool \<times> db" where
  "attempt_tx m d = (case m of Inl e \<Rightarrow> (False, d) | Inr d' \<Rightarrow> (True, d'))"

definition expire_invoice :: "time \<Rightarrow> uuid \<Rightarrow> db \<Rightarrow> bool \<times> db" where
  "expire_invoice now invoice_id d =
     (case get_invoice invoice_id d of None \<Rightarrow> (False, d)
      | Some i \<Rightarrow> if inv_status i \<noteq> IS_ISSUED then (False, d)
          else attempt_tx (expire_invoice_tx now i d) d)"

definition expire_topup_intent :: "uuid \<Rightarrow> db \<Rightarrow> bool \<times> db" where
  "expire_topup_intent intent_id d =
     (case get_intent intent_id d of None \<Rightarrow> (False, d)
      | Some p \<Rightarrow> if pi_purpose p \<noteq> PP_WALLET_TOPUP then (False, d)
          else attempt_tx (mark_expired p d) d)"

fun sweep :: "('k \<Rightarrow> db \<Rightarrow> bool \<times> db) \<Rightarrow> 'k list \<Rightarrow> db \<Rightarrow> nat \<times> db" where
  "sweep f [] d = (0, d)"
| "sweep f (k # ks) d =
     (let (done_it, d) = f k d; (n, d) = sweep f ks d in (n + (if done_it then 1 else 0), d))"

definition expire_stale :: "time \<Rightarrow> nat \<Rightarrow> db \<Rightarrow> (nat \<times> nat) \<times> db" where
  "expire_stale now limit d =
     (let invoice_ids = map inv_id (list_expired_issued now limit d);
          topup_ids = map pi_id (filter (\<lambda>p. pi_purpose p = PP_WALLET_TOPUP) (list_expired_new now limit d));
          (n, d) = sweep (expire_invoice now) invoice_ids d;
          (m, d) = sweep expire_topup_intent topup_ids d
      in ((n, m), d))"

text \<open>The nightly purge of long-expired refresh tokens; the number of rows deleted.\<close>

definition purge_refresh_tokens :: "time \<Rightarrow> settings \<Rightarrow> db \<Rightarrow> nat \<times> db" where
  "purge_refresh_tokens now s d =
     (let cutoff = now - REFRESH_TOKEN_RETENTION_DAYS (hardening_of s) * 86400000000
      in (length (filter (\<lambda>t. rt_expires_at t < cutoff) (refresh_tokens d)),
          d\<lparr>refresh_tokens := filter (\<lambda>t. \<not> rt_expires_at t < cutoff) (refresh_tokens d)\<rparr>))"

section \<open>Auto-approval\<close>

definition list_auto_approve_due :: "time \<Rightarrow> nat \<Rightarrow> db \<Rightarrow> order list" where
  "list_auto_approve_due cutoff limit d =
     take limit (sort_key (\<lambda>ord. the (o_delivered_at ord))
       (filter (\<lambda>ord. o_status ord = OS_DELIVERED \<and>
          (case o_delivered_at ord of None \<Rightarrow> False | Some t \<Rightarrow> t \<le> cutoff)) (orders d)))"

definition auto_approve_one :: "time \<Rightarrow> settings \<Rightarrow> uuid \<Rightarrow> db \<Rightarrow> bool \<times> db" where
  "auto_approve_one now s order_id d =
     (case auto_approve now s order_id d of Inl e \<Rightarrow> (False, d) | Inr res \<Rightarrow> res)"

definition auto_approve_delivered :: "time \<Rightarrow> settings \<Rightarrow> nat \<Rightarrow> db \<Rightarrow> nat \<times> db" where
  "auto_approve_delivered now s limit d =
     sweep (auto_approve_one now s)
       (map o_id (list_auto_approve_due (auto_approve_cutoff now s) limit d)) d"

section \<open>Receipts\<close>

record email =
  em_to :: string
  em_template :: string
  em_variables :: "(string \<times> string) list"
  em_paid_at :: "time option"

record outbox =
  ob_db :: db
  ob_sent :: "email list"

definition receipt_variables :: "invoice \<Rightarrow> (string \<times> string) list" where
  "receipt_variables i =
     [(''invoice_id'', str_uuid (inv_id i)), (''order_id'', str_uuid (inv_order_id i)),
      (''currency'', inv_currency i), (''items_net_amount'', money_str (inv_items_net_amount i)),
      (''courier_fee_amount'', money_str (inv_courier_fee_amount i)),
      (''service_fee_amount'', money_str (inv_service_fee_amount i)),
      (''discount_amount'', money_str (inv_discount_amount i)),
      (''tax_amount'', money_str (inv_tax_amount i)), (''total_amount'', money_str (inv_total_amount i)),
      (''promo_code'', (case inv_promo_code_snapshot i of None \<Rightarrow> [] | Some c \<Rightarrow> c))]"

definition template_key :: "settings \<Rightarrow> string" where
  "template_key s = (case SNDR_INVOICE_PAID_TEMPLATE_KEY (integration_of s) of
     None \<Rightarrow> ''invoice_paid_receipt'' | Some k \<Rightarrow> if k = [] then ''invoice_paid_receipt'' else k)"

definition mark_receipt_sent :: "time \<Rightarrow> invoice \<Rightarrow> db \<Rightarrow> error + db" where
  "mark_receipt_sent now i d = flush_invoice (i\<lparr>inv_receipt_email_sent_at := Some now\<rparr>) d"

definition customer_email :: "invoice \<Rightarrow> db \<Rightarrow> string option" where
  "customer_email i d =
     (case get_order (inv_order_id i) d of None \<Rightarrow> None
      | Some ord \<Rightarrow> (case get_user (o_customer_id ord) d of None \<Rightarrow> None
          | Some u \<Rightarrow> if u_email u = Some [] then None else u_email u))"

text \<open>\<open>provider\<close> says whether handing a message to the provider raises.  A message that was
  handed over stays sent even when the stamp is rolled back.\<close>

definition send_receipt ::
  "time \<Rightarrow> settings \<Rightarrow> (email \<Rightarrow> bool) \<Rightarrow> uuid \<Rightarrow> outbox \<Rightarrow> bool \<times> outbox" where
  "send_receipt now s provider invoice_id ob =
     (let d = ob_db ob in
      case get_invoice invoice_id d of None \<Rightarrow> (False, ob)
      | Some i \<Rightarrow>
        if inv_status i \<noteq> IS_PAID \<or> inv_receipt_email_sent_at i \<noteq> None then (False, ob)
        else case customer_email i d of
            None \<Rightarrow> (False, ob\<lparr>ob_db := snd (attempt_tx (mark_receipt_sent now i d) d)\<rparr>)
          | Some addr \<Rightarrow>
              let m = \<lparr>em_to = addr, em_template = template_key s,
                       em_variables = receipt_variables i, em_paid_at = inv_paid_at i\<rparr>
              in if \<not> provider m then (False, ob)
                 else case attempt_tx (mark_receipt_sent now i d) d of
                   (ok, d) \<Rightarrow> (ok, ob\<lparr>ob_db := d, ob_sent := ob_sent ob @ [m]\<rparr>))"

definition list_receipt_pending :: "nat \<Rightarrow> db \<Rightarrow> invoice list" where
  "list_receipt_pending limit d =
     take limit (sort_key (\<lambda>i. the (inv_paid_at i))
       (filter (\<lambda>i. inv_status i = IS_PAID \<and> inv_receipt_email_sent_at i = None) (invoices d)))"

fun send_all :: "time \<Rightarrow> settings \<Rightarrow> (email \<Rightarrow> bool) \<Rightarrow> uuid list \<Rightarrow> outbox \<Rightarrow> nat \<times> outbox" where
  "send_all now s provider [] ob = (0, ob)"
| "send_all now s provider (i # is) ob =
     (let (b, ob) = send_receipt now s provider i ob; (n, ob) = send_all now s provider is ob
      in (n + (if b then 1 else 0), ob))"

definition send_pending_receipts ::
  "time \<Rightarrow> settings \<Rightarrow> (email \<Rightarrow> bool) \<Rightarrow> nat \<Rightarrow> outbox \<Rightarrow> nat \<times> outbox" where
  "send_pending_receipts now s provider limit ob =
     send_all now s provider (map inv_id (list_receipt_pending limit (ob_db ob))) ob"

section \<open>Scheduling\<close>

text \<open>A job body under its Redis lock; a job that finds the lock taken is skipped.\<close>

definition run_job :: "string \<Rightarrow> int \<Rightarrow> string \<Rightarrow> ms \<Rightarrow> ms \<Rightarrow> ('s \<Rightarrow> 's) \<Rightarrow> 's \<Rightarrow> redis \<Rightarrow> 's \<times> redis" where
  "run_job key ttl token t t' body s r =
     (case redis_lock key token ttl t t' (\<lambda>r. (Inr (body s), r)) r of
        (Inl e, r) \<Rightarrow> (s, r) | (Inr s', r) \<Rightarrow> (s', r))"

definition run_expire_stale :: "string \<Rightarrow> time \<Rightarrow> time \<Rightarrow> db \<Rightarrow> redis \<Rightarrow> db \<times> redis" where
  "run_expire_stale token now now' d r =
     run_job ''job:expire_stale'' 300 token (now div 1000) (now' div 1000)
       (\<lambda>d. snd (expire_stale now 200 d)) d r"

definition run_auto_approve :: "settings \<Rightarrow> string \<Rightarrow> time \<Rightarrow> time \<Rightarrow> db \<Rightarrow> redis \<Rightarrow> db \<times> redis" where
  "run_auto_approve s token now now' d r =
     run_job ''job:auto_approve'' 300 token (now div 1000) (now' div 1000)
       (\<lambda>d. snd (auto_approve_delivered now s 100 d)) d r"

definition run_purge_refresh_tokens :: "settings \<Rightarrow> string \<Rightarrow> time \<Rightarrow> time \<Rightarrow> db \<Rightarrow> redis \<Rightarrow> db \<times> redis" where
  "run_purge_refresh_tokens s token now now' d r =
     run_job ''job:purge_refresh_tokens'' 120 token (now div 1000) (now' div 1000)
       (\<lambda>d. snd (purge_refresh_tokens now s d)) d r"

definition deliver_pending_receipts ::
  "settings \<Rightarrow> (email \<Rightarrow> bool) \<Rightarrow> string \<Rightarrow> time \<Rightarrow> time \<Rightarrow> outbox \<Rightarrow> redis \<Rightarrow> outbox \<times> redis" where
  "deliver_pending_receipts s provider token now now' ob r =
     run_job ''job:send_receipts'' 300 token (now div 1000) (now' div 1000)
       (\<lambda>ob. snd (send_pending_receipts now s provider 100 ob)) ob r"

text \<open>The reconciliation job reads the ledger; what it logs is its report.\<close>

definition run_reconciliation :: "db \<Rightarrow> reconcile_report" where
  "run_reconciliation d = reconcile d"

end
