(* ===== verification/Escrow.thy ===== *)
theory Escrow
  imports Workers
begin

text \<open>
  The invariant of the order business.  A state is solvent when the escrow wallet
  holds exactly what the paid invoices of the orders under way are worth, next to the
  invariants of the ledger and of the promos and the facts about invoices, intents and
  idempotency keys that keep it so.  This theory states the invariant and shows what the
  movements of the money service and single writes do to it.
\<close>

section \<open>What escrow owes\<close>

definition under_way :: "order_status \<Rightarrow> bool" where
  "under_way st \<longleftrightarrow> st = OS_IN_PROGRESS \<or> st = OS_DELIVERED \<or> st = OS_DISPUTED"

definition paid_sum :: "uuid \<Rightarrow> db \<Rightarrow> money" where
  "paid_sum order_id d = sum_list (map inv_total_amount
     (filter (\<lambda>i. inv_order_id i = order_id \<and> inv_status i = IS_PAID) (invoices d)))"

definition owed :: "db \<Rightarrow> money" where
  "owed d = sum_list (map (\<lambda>ord. paid_sum (o_id ord) d) (filter (\<lambda>ord. under_way (o_status ord)) (orders d)))"

lemma paid_sum_cong: "invoices d' = invoices d \<Longrightarrow> paid_sum i d' = paid_sum i d"
  by (simp add: paid_sum_def)

lemma owed_cong: "invoices d' = invoices d \<Longrightarrow> orders d' = orders d \<Longrightarrow> owed d' = owed d"
  by (simp add: owed_def paid_sum_def)

lemma owed_put_order:
  assumes "distinct (map o_id (orders d))" and "get_order (o_id ord) d = Some old"
  shows "owed (put_order ord d) = owed d - (if under_way (o_status old) then paid_sum (o_id ord) d else 0)
    + (if under_way (o_status ord) then paid_sum (o_id ord) d else 0)"
proof -
  have "paid_sum i (put_order ord d) = paid_sum i d" for i by (simp add: paid_sum_def)
  moreover have "o_id old = o_id ord" using assms(2) by (rule order_tab.get_key)
  ultimately show ?thesis
    using sum_list_filter_put_by [OF assms(1) assms(2) [unfolded get_order_def], of "\<lambda>x. paid_sum (o_id x) d"
        "\<lambda>x. under_way (o_status x)"]
    by (simp add: owed_def)
qed

lemma paid_sum_put_invoice:
  assumes "distinct (map inv_id (invoices d))" and "get_invoice (inv_id i) d = Some old"
  shows "paid_sum oid (put_invoice i d) = paid_sum oid d
    - (if inv_order_id old = oid \<and> inv_status old = IS_PAID then inv_total_amount old else 0)
    + (if inv_order_id i = oid \<and> inv_status i = IS_PAID then inv_total_amount i else 0)"
  using sum_list_filter_put_by [OF assms(1) assms(2) [unfolded get_invoice_def], of inv_total_amount
      "\<lambda>i. inv_order_id i = oid \<and> inv_status i = IS_PAID"]
  by (simp add: paid_sum_def put_invoice_def)

lemma owed_put_invoice:
  assumes "distinct (map inv_id (invoices d))" and "get_invoice (inv_id i) d = Some old"
    and "inv_order_id i = inv_order_id old" and "inv_total_amount i = inv_total_amount old"
    and "inv_status old = IS_PAID \<longleftrightarrow> inv_status i = IS_PAID"
  shows "owed (put_invoice i d) = owed d"
proof -
  have "paid_sum oid (put_invoice i d) = paid_sum oid d" for oid
    using paid_sum_put_invoice [OF assms(1,2), of oid] assms(3-5) by simp
  then show ?thesis unfolding owed_def by (simp add: put_invoice_def)
qed

lemma owed_pay_invoice:
  assumes "distinct (map inv_id (invoices d))" and "get_invoice (inv_id i) d = Some old"
    and "distinct (map o_id (orders d))" and "get_order (inv_order_id i) d = Some ord"
    and "\<not> under_way (o_status ord)" and "inv_status old \<noteq> IS_PAID"
  shows "owed (put_invoice i d) = owed d"
proof -
  have "paid_sum (o_id x) (put_invoice i d) = paid_sum (o_id x) d"
    if "x \<in> set (orders d)" "under_way (o_status x)" for x
  proof -
    have "o_id x \<noteq> inv_order_id i"
    proof
      assume "o_id x = inv_order_id i"
      then have "get_order (inv_order_id i) d = Some x"
        using find_by_mem [OF assms(3) that(1)] by (simp add: get_order_def)
      with assms(4,5) that(2) show False by simp
    qed
    then show ?thesis using paid_sum_put_invoice [OF assms(1,2)] assms(6) by simp
  qed
  then have "map (\<lambda>x. paid_sum (o_id x) (put_invoice i d)) (filter (\<lambda>x. under_way (o_status x)) (orders d))
      = map (\<lambda>x. paid_sum (o_id x) d) (filter (\<lambda>x. under_way (o_status x)) (orders d))" by auto
  then show ?thesis unfolding owed_def by (simp add: put_invoice_def del: map_eq_conv)
qed

text \<open>The only paid invoice of an order is its sum.\<close>

lemma paid_sum_sole:
  assumes "distinct (map inv_id (invoices d))" and "i \<in> set (invoices d)" and "inv_status i = IS_PAID"
    and "\<And>j. j \<in> set (invoices d) \<Longrightarrow> inv_order_id j = inv_order_id i \<Longrightarrow> inv_status j = IS_PAID \<Longrightarrow>
      inv_id j = inv_id i"
  shows "paid_sum (inv_order_id i) d = inv_total_amount i"
proof -
  let ?P = "\<lambda>j. inv_order_id j = inv_order_id i \<and> inv_status j = IS_PAID"
  have "distinct (map inv_id (filter ?P (invoices d)))" using assms(1) by (rule distinct_map_filter)
  moreover have "set (filter ?P (invoices d)) = {i}"
    using assms by (auto simp: distinct_map inj_on_def)
  ultimately have "filter ?P (invoices d) = [i]"
    by (metis (no_types, lifting) distinct_map distinct.simps(2) insert_absorb insert_not_empty list.exhaust
        list.set(1) list.set(2) singletonD list.set_intros(1) subset_singletonD set_subset_Cons)
  then show ?thesis by (simp add: paid_sum_def)
qed

section \<open>Solvency\<close>

definition money_opt :: "money option \<Rightarrow> bool" where
  "money_opt x \<longleftrightarrow> (case x of None \<Rightarrow> True | Some a \<Rightarrow> is_money a)"

definition promos_money :: "db \<Rightarrow> bool" where
  "promos_money d \<longleftrightarrow> list_all (\<lambda>p. money_opt (pr_fixed_amount p) \<and> money_opt (pr_max_discount_amount p)) (promos d)"

text \<open>An order that has been invoiced is no longer new.\<close>

definition past_new :: "invoice \<Rightarrow> db \<Rightarrow> bool" where
  "past_new i d \<longleftrightarrow> list_ex (\<lambda>ord. o_id ord = inv_order_id i \<and> o_status ord \<noteq> OS_NEW) (orders d)"

definition orders_ok :: "db \<Rightarrow> bool" where
  "orders_ok d \<longleftrightarrow> distinct (map o_id (orders d)) \<and> list_all (\<lambda>ord. o_id ord < next_id d) (orders d) \<and>
     list_all (\<lambda>i. past_new i d) (invoices d)"

lemma past_new_cong: "orders d' = orders d \<Longrightarrow> past_new i d' = past_new i d"
  by (simp add: past_new_def)

lemma past_new_put_order:
  assumes "past_new i d" and "get_order (o_id r) d = Some old" and "distinct (map o_id (orders d))"
    and "o_status r = OS_NEW \<Longrightarrow> o_status old = OS_NEW"
  shows "past_new i (put_order r d)"
proof -
  obtain x where x: "x \<in> set (orders d)" "o_id x = inv_order_id i" "o_status x \<noteq> OS_NEW"
    using assms(1) by (auto simp: past_new_def list_ex_iff)
  show ?thesis
  proof (cases "o_id x = o_id r")
    case True
    then have "old = x" using find_by_mem [OF assms(3) x(1)] assms(2) by (simp add: get_order_def)
    then have "o_status r \<noteq> OS_NEW" using assms(4) x(3) by auto
    with x True show ?thesis by (force simp: past_new_def list_ex_iff put_order_def put_by_def)
  next
    case False
    with x show ?thesis by (force simp: past_new_def list_ex_iff put_order_def put_by_def)
  qed
qed

definition invoice_money :: "invoice \<Rightarrow> bool" where
  "invoice_money i \<longleftrightarrow> is_money (inv_total_amount i) \<and> is_money (inv_items_net_amount i) \<and>
     is_money (inv_courier_fee_amount i) \<and> is_money (inv_tax_amount i) \<and>
     is_money (inv_amount_from_wallet i) \<and> 0 \<le> inv_amount_from_wallet i \<and> 0 \<le> inv_total_amount i \<and>
     0 \<le> inv_items_net_amount i \<and> 0 \<le> inv_courier_fee_amount i"

text \<open>Distinct invoices in whole halalas, at most one active per order.\<close>

definition invoices_ok :: "db \<Rightarrow> bool" where
  "invoices_ok d \<longleftrightarrow> distinct (map inv_id (invoices d)) \<and>
     list_all (\<lambda>i. inv_id i < next_id d \<and> invoice_money i \<and> sole_active i d) (invoices d)"

text \<open>An open intent for an unpaid invoice covers what the wallet part leaves, and has its link.\<close>

definition intent_ok :: "payment_intent \<Rightarrow> db \<Rightarrow> bool" where
  "intent_ok p d \<longleftrightarrow> pi_id p < next_id d \<and> is_money (pi_amount p) \<and> 0 < pi_amount p \<and>
     (pi_status p = PI_NEW \<longrightarrow> pi_streampay_payment_url p \<noteq> None \<and>
       (case pi_reference_invoice_id p of None \<Rightarrow> True
        | Some n \<Rightarrow> (case get_invoice n d of None \<Rightarrow> False
            | Some i \<Rightarrow> inv_status i \<noteq> IS_PAID \<longrightarrow>
                inv_amount_from_wallet i + pi_amount p = inv_total_amount i)))"

definition intents_ok :: "db \<Rightarrow> bool" where
  "intents_ok d \<longleftrightarrow> distinct (map pi_id (payment_intents d)) \<and> list_all (\<lambda>p. intent_ok p d) (payment_intents d)"

text \<open>A booked funding belongs to a paid invoice, a booked settlement to a finished order.\<close>

definition settle_keys :: "uuid \<Rightarrow> string set" where
  "settle_keys n = {release_key n, refund_key n, split_key n}"

definition keys_ok :: "db \<Rightarrow> bool" where
  "keys_ok d \<longleftrightarrow>
     (\<forall>n. idempotency_key_exists (escrow_key n) d \<longrightarrow>
        (\<exists>i. get_invoice n d = Some i \<and> inv_status i = IS_PAID)) \<and>
     (\<forall>n. \<forall>k \<in> settle_keys n. idempotency_key_exists k d \<longrightarrow>
        (\<exists>ord. get_order n d = Some ord \<and> (o_status ord = OS_COMPLETED \<or> o_status ord = OS_REFUNDED)))"

definition escrow_ok :: "db \<Rightarrow> bool" where
  "escrow_ok d \<longleftrightarrow> (\<exists>e. get_system WT_SYSTEM_ESCROW d = Inr e \<and> balance_of (w_id e) d = owed d)"

text \<open>Payouts go to wallets of users.\<close>

definition user_wallet :: "uuid \<Rightarrow> db \<Rightarrow> bool" where
  "user_wallet i d \<longleftrightarrow> (case get_wallet i d of None \<Rightarrow> False | Some x \<Rightarrow> w_user_id x \<noteq> None)"

lemma user_wallet_iff: "user_wallet i d \<longleftrightarrow> (\<exists>x. get_wallet i d = Some x \<and> w_user_id x \<noteq> None)"
  by (simp add: user_wallet_def split: option.split)

definition withdrawals_ok :: "db \<Rightarrow> bool" where
  "withdrawals_ok d \<longleftrightarrow> list_all (\<lambda>w. user_wallet (wd_wallet_id w) d) (withdrawals d)"

text \<open>No user has more money on hold than in the wallet.\<close>

definition covered :: "db \<Rightarrow> bool" where
  "covered d \<longleftrightarrow> list_all (\<lambda>w. w_user_id w = None \<or> w_held_balance w \<le> w_balance w) (wallets d)"

lemma covered_cong: "wallets d' = wallets d \<Longrightarrow> covered d' = covered d"
  by (simp add: covered_def)

definition solvent :: "db \<Rightarrow> bool" where
  "solvent d \<longleftrightarrow> books d \<and> promos_money d \<and> orders_ok d \<and> invoices_ok d \<and> intents_ok d \<and>
     withdrawals_ok d \<and> keys_ok d \<and> escrow_ok d \<and> covered d"

lemma solventD:
  assumes "solvent d"
  shows "books d" "ledger_ok d" "promos_money d" "orders_ok d" "invoices_ok d" "intents_ok d" "keys_ok d" "escrow_ok d"
    "withdrawals_ok d" "distinct (map o_id (orders d))" "distinct (map inv_id (invoices d))" "distinct (map pi_id (payment_intents d))"
    "covered d"
  using assms by (auto simp: solvent_def books_def orders_ok_def invoices_ok_def intents_ok_def)

lemma invoice_row:
  assumes "solvent d" and "get_invoice n d = Some i"
  shows "i \<in> set (invoices d)" "inv_id i = n" "invoice_money i" "sole_active i d"
proof -
  show i: "i \<in> set (invoices d)" "inv_id i = n"
    using assms(2) by (auto dest: invoice_tab.get_mem invoice_tab.get_key)
  show "invoice_money i" "sole_active i d"
    using solventD(5) [OF assms(1)] i(1) by (auto simp: invoices_ok_def list_all_iff)
qed

subsection \<open>Ledger facts\<close>

lemma find_map_keep:
  "(\<And>x. P (f x) = P x) \<Longrightarrow> List.find P (map f xs) = map_option f (List.find P xs)"
  by (induction xs) auto

text \<open>The wallets keep their identity, type and owner.\<close>

definition reshaped :: "db \<Rightarrow> db \<Rightarrow> bool" where
  "reshaped d d' \<longleftrightarrow> (\<exists>f. wallets d' = map f (wallets d) \<and>
     (\<forall>w. w_id (f w) = w_id w \<and> w_type (f w) = w_type w \<and> w_user_id (f w) = w_user_id w))"

lemma reshapedI:
  "wallets d' = map f (wallets d) \<Longrightarrow>
   (\<And>w. w_id (f w) = w_id w \<and> w_type (f w) = w_type w \<and> w_user_id (f w) = w_user_id w) \<Longrightarrow> reshaped d d'"
  unfolding reshaped_def by blast

lemma reshaped_same [simp]: "wallets d' = wallets d \<Longrightarrow> reshaped d d'"
  by (rule reshapedI [of _ "\<lambda>w. w"]) auto

lemma reshaped_trans:
  assumes "reshaped d e" "reshaped e f"
  shows "reshaped d f"
proof -
  obtain g h where "wallets e = map g (wallets d)" "wallets f = map h (wallets e)"
    "\<And>w. w_id (g w) = w_id w \<and> w_type (g w) = w_type w \<and> w_user_id (g w) = w_user_id w"
    "\<And>w. w_id (h w) = w_id w \<and> w_type (h w) = w_type w \<and> w_user_id (h w) = w_user_id w"
    using assms unfolding reshaped_def by metis
  then show ?thesis by (intro reshapedI [of _ "h \<circ> g"]) auto
qed

lemma reshaped_system:
  assumes "reshaped d d'" and "get_system t d = Inr e"
  obtains e' where "get_system t d' = Inr e'" and "w_id e' = w_id e"
proof -
  obtain f where f: "wallets d' = map f (wallets d)"
    "\<And>w. w_id (f w) = w_id w \<and> w_type (f w) = w_type w \<and> w_user_id (f w) = w_user_id w"
    using assms(1) unfolding reshaped_def by metis
  have "get_system t d' = Inr (f e)" using assms(2) f by (auto simp: get_system_def find_map_keep)
  with f(2) that show thesis by blast
qed

lemma reshaped_wallet:
  assumes "reshaped d d'" and "get_wallet i d = Some w"
  obtains w' where "get_wallet i d' = Some w'" and "w_user_id w' = w_user_id w"
proof -
  obtain f where f: "wallets d' = map f (wallets d)"
    "\<And>w. w_id (f w) = w_id w \<and> w_type (f w) = w_type w \<and> w_user_id (f w) = w_user_id w"
    using assms(1) unfolding reshaped_def by metis
  have "get_wallet i d' = Some (f w)"
    using assms(2) f by (simp add: get_wallet_def find_by_map_key)
  with f(2) that show thesis by blast
qed

lemma reshaped_user_wallet: "reshaped d d' \<Longrightarrow> user_wallet i d \<Longrightarrow> user_wallet i d'"
  unfolding user_wallet_iff by (metis reshaped_wallet)

lemma reshaped_withdrawals:
  "reshaped d d' \<Longrightarrow> withdrawals d' = withdrawals d \<Longrightarrow> withdrawals_ok d \<Longrightarrow> withdrawals_ok d'"
  using reshaped_user_wallet by (auto simp: withdrawals_ok_def list_all_iff)

definition idle_key :: "string \<Rightarrow> bool" where
  "idle_key k \<longleftrightarrow> (\<forall>n. k \<noteq> escrow_key n \<and> k \<notin> settle_keys n)"

lemma post_group_keys:
  assumes "post_group legs c d = Inr (b, d')" and "ledger_ok d" and "legs_ok legs"
  shows "idempotency_key_exists k d' \<longleftrightarrow> idempotency_key_exists k d \<or>
    b \<and> Some k \<in> leg_idempotency_key ` set legs"
proof (cases b)
  case True
  then have w: "write_group legs c d = Inr d'" using post_group_cases [OF assms(1)] by auto
  obtain ts where ts: "transactions d' = transactions d @ ts" "list_all2 (row_of_leg c) legs ts"
    using write_group_effect(5) [OF w assms(2,3)] by blast
  have "tx_idempotency_key ` set ts = leg_idempotency_key ` set legs"
    using rows_amounts(6) [OF ts(2)] by (metis set_map)
  with True show ?thesis by (simp add: key_exists_append [OF ts(1)])
next
  case False
  then show ?thesis using post_group_cases [OF assms(1)] by auto
qed

lemma post_fresh_keys:
  assumes "post_group legs (next_id d) (d\<lparr>next_id := next_id d + 1\<rparr>) = Inr (b, d')"
    and "ledger_ok d" and "legs_ok legs"
  shows "idempotency_key_exists k d' \<longleftrightarrow> idempotency_key_exists k d \<or>
    b \<and> Some k \<in> leg_idempotency_key ` set legs"
proof -
  have "ledger_ok (d\<lparr>next_id := next_id d + 1\<rparr>)" using assms(2) by (intro ledger_ok_next_id) auto
  from post_group_keys [OF assms(1) this assms(3), of k] show ?thesis
    by (simp add: idempotency_key_exists_def)
qed

lemma hold_transactions:
  "hold_funds i a d = Inr d' \<Longrightarrow> transactions d' = transactions d"
  "release_hold i a d = Inr d' \<Longrightarrow> transactions d' = transactions d"
  by (auto simp: hold_funds_def release_hold_def flush_wallet_def check_wallet_row_def put_wallet_def Let_def)

text \<open>A movement that changes escrow by \<open>a\<close> and books, of the keys of orders and invoices, at
  most those in \<open>K\<close>.\<close>

definition shifts :: "money \<Rightarrow> string set \<Rightarrow> db \<Rightarrow> db \<Rightarrow> bool" where
  "shifts a K d d' \<longleftrightarrow> books d' \<and> money_frame d d' \<and> reshaped d d' \<and>
     (\<forall>e. get_system WT_SYSTEM_ESCROW d = Inr e \<longrightarrow> balance_of (w_id e) d' = balance_of (w_id e) d + a) \<and>
     (\<forall>k. idempotency_key_exists k d' \<longrightarrow> idempotency_key_exists k d \<or> idle_key k \<or> k \<in> K)"

definition moves :: "money \<Rightarrow> string set \<Rightarrow> db \<Rightarrow> db \<Rightarrow> bool" where
  "moves a K d d' \<longleftrightarrow> shifts a K d d' \<and> covered d'"

lemma intent_ok_cong:
  "invoices d' = invoices d \<Longrightarrow> next_id d \<le> next_id d' \<Longrightarrow> intent_ok p d \<Longrightarrow> intent_ok p d'"
  by (auto simp: intent_ok_def get_invoice_def split: option.splits)

lemma paper_cong:
  assumes "orders d' = orders d" "invoices d' = invoices d" "payment_intents d' = payment_intents d"
    and "promos d' = promos d" "next_id d \<le> next_id d'"
  shows "promos_money d \<Longrightarrow> promos_money d'" "orders_ok d \<Longrightarrow> orders_ok d'"
    "invoices_ok d \<Longrightarrow> invoices_ok d'" "intents_ok d \<Longrightarrow> intents_ok d'"
proof -
  show "promos_money d \<Longrightarrow> promos_money d'" "orders_ok d \<Longrightarrow> orders_ok d'" "invoices_ok d \<Longrightarrow> invoices_ok d'"
    using assms by (auto simp: promos_money_def orders_ok_def past_new_def invoices_ok_def sole_active_def list_all_iff)
  show "intents_ok d \<Longrightarrow> intents_ok d'"
    using assms(3) intent_ok_cong [OF assms(2,5)] by (auto simp: intents_ok_def list_all_iff)
qed

text \<open>The order, invoice and intent tables and the rest survive a movement; the equation of escrow
  and the keys are the business of the caller.\<close>

lemma moves_paper:
  assumes "moves a K d d'" and "solvent d"
  shows "books d'" "promos_money d'" "orders_ok d'" "invoices_ok d'" "intents_ok d'" "withdrawals_ok d'"
    "orders d' = orders d" "invoices d' = invoices d" "payment_intents d' = payment_intents d"
    "owed d' = owed d" "next_id d \<le> next_id d'"
    "\<exists>e. get_system WT_SYSTEM_ESCROW d' = Inr e \<and> balance_of (w_id e) d' = owed d + a"
    "covered d'"
proof -
  have f: "money_frame d d'" and r: "reshaped d d'" using assms(1) by (auto simp: moves_def shifts_def)
  note t = money_frame_tables [OF f] and S = solventD [OF assms(2)]
  show "books d'" using assms(1) by (simp add: moves_def shifts_def)
  show "covered d'" using assms(1) by (simp add: moves_def)
  show "promos_money d'" "orders_ok d'" "invoices_ok d'" "intents_ok d'"
    using paper_cong [OF t(5,8,11,7,20)] S by auto
  show "withdrawals_ok d'" using reshaped_withdrawals [OF r t(15)] S by simp
  show "orders d' = orders d" "invoices d' = invoices d" "payment_intents d' = payment_intents d"
    "owed d' = owed d" "next_id d \<le> next_id d'"
    using t owed_cong [OF t(8,5)] by auto
  obtain e where e: "get_system WT_SYSTEM_ESCROW d = Inr e" "balance_of (w_id e) d = owed d"
    using S(8) by (auto simp: escrow_ok_def)
  obtain e' where "get_system WT_SYSTEM_ESCROW d' = Inr e'" "w_id e' = w_id e"
    by (rule reshaped_system [OF r e(1)])
  then show "\<exists>e. get_system WT_SYSTEM_ESCROW d' = Inr e \<and> balance_of (w_id e) d' = owed d + a"
    using assms(1) e by (auto simp: moves_def shifts_def)
qed

lemma quiet_solvent:
  assumes "moves 0 {} d d'" and "solvent d"
  shows "solvent d'"
proof -
  note M = moves_paper [OF assms] and S = solventD [OF assms(2)]
  have "keys_ok d'"
    using assms(1) S(7) M(7,8)
    unfolding keys_ok_def moves_def shifts_def idle_key_def get_invoice_def get_order_def empty_iff by metis
  with M show ?thesis by (auto simp: solvent_def escrow_ok_def)
qed

subsection \<open>The movements of the money service\<close>

lemma key_ends [simp]:
  "hd (escrow_key n) = CHR ''i''" "last (escrow_key n) = CHR ''w''" "hd (topup_key n) = CHR ''i''"
  "last (topup_key n) = CHR ''p''" "hd (withdrawal_key n) = CHR ''w''" "hd (release_key n) = CHR ''o''"
  "last (release_key n) = CHR ''e''" "hd (refund_key n) = CHR ''o''" "last (refund_key n) = CHR ''d''"
  "hd (split_key n) = CHR ''o''" "last (split_key n) = CHR ''t''"
  by (simp_all add: escrow_key_def topup_key_def withdrawal_key_def release_key_def refund_key_def
      split_key_def)

lemma idle_keys: "idle_key (topup_key n)" "idle_key (withdrawal_key n)"
proof -
  show "idle_key (topup_key n)"
    unfolding idle_key_def settle_keys_def by (auto dest: arg_cong [where f = last])
  show "idle_key (withdrawal_key n)"
    unfolding idle_key_def settle_keys_def by (auto dest: arg_cong [where f = hd])
qed

lemma key_inject [simp]:
  "escrow_key m = escrow_key n \<longleftrightarrow> m = n" "release_key m = release_key n \<longleftrightarrow> m = n"
  "refund_key m = refund_key n \<longleftrightarrow> m = n" "split_key m = split_key n \<longleftrightarrow> m = n"
  by (simp_all add: escrow_key_def release_key_def refund_key_def split_key_def)

lemma settle_keys_kind: "escrow_key m \<notin> settle_keys n"
  by (auto simp: settle_keys_def dest: arg_cong [where f = hd])

lemma settle_keys_inject:
  assumes "k \<in> settle_keys m" and "k \<in> settle_keys n"
  shows "m = n"
proof -
  have "release_key m \<noteq> refund_key n" "release_key m \<noteq> split_key n" "refund_key m \<noteq> split_key n" for m n
    by (auto dest: arg_cong [where f = last])
  with assms show ?thesis unfolding settle_keys_def by (metis empty_iff insert_iff key_inject(2-4))
qed

lemma system_ids_distinct:
  assumes "ledger_ok d" and "get_system t d = Inr x" and "get_system t' d = Inr y" and "t \<noteq> t'"
  shows "w_id x \<noteq> w_id y"
proof
  assume eq: "w_id x = w_id y"
  have x: "x \<in> set (wallets d)" "w_type x = t" and y: "y \<in> set (wallets d)" "w_type y = t'"
    using assms(2,3) by (auto simp: get_system_def find_Some_iff)
  have "x = y" using eq x(1) y(1) ledger_okD(1) [OF assms(1)] by (simp add: distinct_map inj_on_def)
  with x y assms(4) show False by simp
qed

lemma ledger_books: "books d \<Longrightarrow> ledger_ok d' \<Longrightarrow> money_frame d d' \<Longrightarrow> books d'"
  unfolding books_def using off_promo_ok [of d d'] by (auto simp: off_promo_def money_frame_tables)

lemma shifts_post:
  assumes "post_group legs (next_id d) (d\<lparr>next_id := next_id d + 1\<rparr>) = Inr (b, d')"
    and "books d" and "legs_ok legs"
    and "\<And>e. get_system WT_SYSTEM_ESCROW d = Inr e \<Longrightarrow> a = (if b then legs_delta (w_id e) legs else 0)"
    and "\<And>k. Some k \<in> leg_idempotency_key ` set legs \<Longrightarrow> idle_key k \<or> k \<in> K"
  shows "shifts a K d d'"
proof -
  have ok: "ledger_ok d" using assms(2) by (simp add: books_def)
  note P = post_fresh_ledger_ok [OF assms(1) ok assms(3)]
  have "reshaped d d'"
    using P(3) by (cases b) (auto intro: reshapedI [of _ "apply_legs legs"])
  moreover have "books d'" by (rule ledger_books [OF assms(2) P(1,2)])
  ultimately show ?thesis
    using P(2) post_fresh_balance(1) [OF assms(1) ok assms(3)] post_fresh_keys [OF assms(1) ok assms(3)]
      assms(4,5) unfolding shifts_def by metis
qed

text \<open>The wallet of a user is not a system wallet.\<close>

lemma user_wallet_not_system:
  assumes "ledger_ok d" and "user_wallet i d" and "get_system t d = Inr e"
  shows "i \<noteq> w_id e"
proof
  assume "i = w_id e"
  moreover have "e \<in> set (wallets d)" "w_user_id e = None"
    using assms(3) by (auto simp: get_system_def find_Some_iff)
  ultimately have "get_wallet i d = Some e"
    using find_by_mem [OF ledger_okD(1) [OF assms(1)]] by (simp add: get_wallet_def)
  with assms(2) \<open>w_user_id e = None\<close> show False by (simp add: user_wallet_def)
qed

lemma get_by_user_wallet:
  assumes "ledger_ok d" and "get_by_user u d = Some w"
  shows "user_wallet (w_id w) d" and "get_wallet (w_id w) d = Some w"
proof -
  have w: "w \<in> set (wallets d)" "w_user_id w = Some u"
    using assms(2) by (auto simp: get_by_user_def dest: find_by_SomeD)
  then show g: "get_wallet (w_id w) d = Some w"
    using find_by_mem [OF ledger_okD(1) [OF assms(1)]] by (simp add: get_wallet_def)
  show "user_wallet (w_id w) d" using g w(2) by (simp add: user_wallet_def)
qed

lemma shifts_trans:
  assumes "shifts a K d e" and "shifts b L e f"
  shows "shifts (a + b) (K \<union> L) d f"
proof -
  have 1: "money_frame d e" "reshaped d e" and 2: "books f" "money_frame e f" "reshaped e f"
    using assms by (auto simp: shifts_def)
  have "balance_of (w_id x) f = balance_of (w_id x) d + (a + b)"
    if x: "get_system WT_SYSTEM_ESCROW d = Inr x" for x
  proof -
    obtain y where "get_system WT_SYSTEM_ESCROW e = Inr y" "w_id y = w_id x"
      by (rule reshaped_system [OF 1(2) x])
    then show ?thesis using assms x unfolding shifts_def by (metis add.assoc)
  qed
  then show ?thesis
    using 2(1) money_frame_trans [OF 1(1) 2(2)] reshaped_trans [OF 1(2) 2(3)] assms
    unfolding shifts_def by blast
qed

lemma shifts_hold:
  assumes "books d" and "hold_funds i a d = Inr d'"
  shows "shifts 0 {} d d'"
proof -
  have ok: "ledger_ok d" using assms(1) by (simp add: books_def)
  obtain w :: wallet where "ledger_ok d'" "money_frame d d'"
    "wallets d' = map (\<lambda>x. if w_id x = i then x\<lparr>w_held_balance := w_held_balance w + quantize_money a,
       w_version := w_version w + 1\<rparr> else x) (wallets d)"
    by (rule hold_funds_effect [OF assms(2) ok]) blast
  then show ?thesis
    using ledger_books [OF assms(1)] hold_funds_balances(1) [OF assms(2) ok] hold_transactions(1) [OF assms(2)]
    unfolding shifts_def idempotency_key_exists_def by (auto intro: reshapedI)
qed

lemma shifts_release_hold:
  assumes "books d" and "release_hold i a d = Inr d'"
  shows "shifts 0 {} d d'"
proof -
  have ok: "ledger_ok d" using assms(1) by (simp add: books_def)
  obtain w :: wallet where "ledger_ok d'" "money_frame d d'"
    "wallets d' = map (\<lambda>x. if w_id x = i
       then x\<lparr>w_held_balance := max 0 (w_held_balance w - quantize_money a),
              w_version := w_version w + 1\<rparr> else x) (wallets d)"
    by (rule release_hold_effect [OF assms(2) ok]) blast
  then show ?thesis
    using ledger_books [OF assms(1)] release_hold_balances(1) [OF assms(2) ok] hold_transactions(2) [OF assms(2)]
    unfolding shifts_def idempotency_key_exists_def by (auto intro: reshapedI)
qed

lemma shifts_refl: "books d \<Longrightarrow> shifts 0 K d d"
  by (simp add: shifts_def)

lemma shifts_topup:
  assumes "books d" and "user_wallet i d" and "credit_topup i a pid d = Inr (b, d')"
  shows "shifts 0 {} d d'"
proof (rule credit_topup_posts [OF assms(3)])
  fix gw
  assume gw: "get_system WT_SYSTEM_GATEWAY d = Inr gw"
    and p: "post_group [(leg_of i (quantize_money a) TT_TOPUP)
        \<lparr>leg_idempotency_key := Some (topup_key pid), leg_reference_intent_id := Some pid\<rparr>,
      (leg_of (w_id gw) (- quantize_money a) TT_TOPUP)\<lparr>leg_reference_intent_id := Some pid\<rparr>]
      (next_id d) (d\<lparr>next_id := next_id d + 1\<rparr>) = Inr (b, d')"
  have ok: "ledger_ok d" using assms(1) by (simp add: books_def)
  show ?thesis
    by (rule shifts_post [OF p assms(1)])
       (use system_ids_distinct [OF ok gw] user_wallet_not_system [OF ok assms(2)] idle_keys in
         \<open>auto simp: leg_of_def is_money_uminus\<close>)
qed

lemma shifts_withdrawal:
  assumes "books d" and "user_wallet i d" and "pay_withdrawal i a wid d = Inr (b, d')"
  shows "shifts 0 {} d d'"
proof (rule pay_withdrawal_posts [OF assms(3)])
  fix gw d1
  assume gw: "get_system WT_SYSTEM_GATEWAY d = Inr gw"
    and p: "post_group [(leg_of i (- quantize_money a) TT_WITHDRAWAL)
        \<lparr>leg_idempotency_key := Some (withdrawal_key wid),
         leg_description := Some (''Courier withdrawal '' @ str_uuid wid)\<rparr>,
      (leg_of (w_id gw) (quantize_money a) TT_WITHDRAWAL)
        \<lparr>leg_description := Some (''Courier withdrawal '' @ str_uuid wid)\<rparr>]
      (next_id d) (d\<lparr>next_id := next_id d + 1\<rparr>) = Inr (b, d1)"
    and r: "if b then release_hold i (quantize_money a) d1 = Inr d' else d' = d1"
  have ok: "ledger_ok d" using assms(1) by (simp add: books_def)
  have 1: "shifts 0 {} d d1"
    by (rule shifts_post [OF p assms(1)])
       (use system_ids_distinct [OF ok gw] user_wallet_not_system [OF ok assms(2)] idle_keys in
         \<open>auto simp: leg_of_def is_money_uminus\<close>)
  then have "shifts 0 {} d1 d'"
    using r shifts_release_hold [of d1] shifts_refl [of d1] by (auto simp: shifts_def split: if_splits)
  with shifts_trans [OF 1] show ?thesis by fastforce
qed

lemma key_nonempty [simp]: "escrow_key n \<noteq> []" "release_key n \<noteq> []" "refund_key n \<noteq> []" "split_key n \<noteq> []"
  by (simp_all add: escrow_key_def release_key_def refund_key_def split_key_def)

text \<open>A group with one key is posted exactly when the key is new.\<close>

lemma posted_iff:
  assumes "post_group legs (next_id d) (d\<lparr>next_id := next_id d + 1\<rparr>) = Inr (b, d')" and "k \<noteq> []"
    and "leg_idempotency_key ` set legs \<subseteq> {None, Some k}" and "Some k \<in> leg_idempotency_key ` set legs"
  shows "b \<longleftrightarrow> \<not> idempotency_key_exists k d"
proof -
  obtain l where l: "l \<in> set legs" "leg_idempotency_key l = Some k" using assms(4) by auto
  have "any_key_exists legs e \<longleftrightarrow> idempotency_key_exists k e" for e
  proof
    assume "any_key_exists legs e"
    then obtain m k' where "m \<in> set legs" "leg_idempotency_key m = Some k'" "idempotency_key_exists k' e"
      by (auto simp: any_key_exists_def list_ex_iff split: option.splits)
    then show "idempotency_key_exists k e" using assms(3) by force
  next
    assume "idempotency_key_exists k e"
    with l assms(2) show "any_key_exists legs e"
      unfolding any_key_exists_def list_ex_iff by (intro bexI [of _ l]) auto
  qed
  then show ?thesis
    using post_group_cases [OF assms(1)] by (auto simp: idempotency_key_exists_def)
qed

lemma system_wallet_ids:
  assumes "ledger_ok d" and "get_system WT_SYSTEM_ESCROW d = Inr e" and "user_wallet i d"
  shows "i \<noteq> w_id e" and "get_system WT_SYSTEM_GATEWAY d = Inr x \<Longrightarrow> w_id x \<noteq> w_id e"
    and "get_system WT_SYSTEM_TAX_PAYABLE d = Inr x \<Longrightarrow> w_id x \<noteq> w_id e"
    and "get_system WT_SYSTEM_REVENUE d = Inr x \<Longrightarrow> w_id x \<noteq> w_id e"
  using user_wallet_not_system [OF assms(1,3,2)] system_ids_distinct [OF assms(1) _ assms(2)] by auto

lemma shifts_fund:
  assumes "books d" and "user_wallet i d" and "is_money a" "is_money g" "0 \<le> a" "0 \<le> g"
    and "fund_escrow_for_invoice i a g iid oid pid held d = Inr (b, d')"
  shows "shifts (if b then a + g else 0) {escrow_key iid} d d'"
    and "b \<longleftrightarrow> \<not> idempotency_key_exists (escrow_key iid) d"
proof -
  note q = quantize_money_id [OF assms(3)] quantize_money_id [OF assms(4)]
  have ok: "ledger_ok d" using assms(1) by (simp add: books_def)
  obtain e gw d1 where e: "get_system WT_SYSTEM_ESCROW d = Inr e" and gw: "get_system WT_SYSTEM_GATEWAY d = Inr gw"
    and p: "post_group (escrow_legs iid oid pid i (w_id gw) (w_id e) a g)
       (next_id d) (d\<lparr>next_id := next_id d + 1\<rparr>) = Inr (b, d1)"
    and r: "if b \<and> held \<and> 0 < a then release_hold i a d1 = Inr d' else d' = d1"
    by (rule fund_escrow_posts [OF assms(7), unfolded q])
  note ids = system_wallet_ids [OF ok e assms(2)]
  have "quantize_money (a + g) = a + g" using assms(3,4) by (simp add: quantize_money_id is_money_add)
  then have delta: "legs_delta (w_id e) (escrow_legs iid oid pid i (w_id gw) (w_id e) a g) = a + g"
    using ids(1) ids(2) [OF gw] by (simp add: escrow_legs_def payment_leg_def leg_of_def)
  have keys: "leg_idempotency_key ` set (escrow_legs iid oid pid i (w_id gw) (w_id e) a g)
      \<subseteq> {None, Some (escrow_key iid)}"
    by (auto simp: escrow_legs_def payment_leg_def leg_of_def)
  have 1: "shifts (if b then a + g else 0) {escrow_key iid} d d1"
    by (rule shifts_post [OF p assms(1) legs_ok_escrow [OF assms(3,4)]]) (use delta keys e in auto)
  then have "shifts 0 {} d1 d'"
    using r shifts_release_hold [of d1] shifts_refl [of d1] by (auto simp: shifts_def split: if_splits)
  with shifts_trans [OF 1] show "shifts (if b then a + g else 0) {escrow_key iid} d d'" by fastforce
  show "b \<longleftrightarrow> \<not> idempotency_key_exists (escrow_key iid) d"
    by (rule posted_iff [OF p _ keys]) (simp_all add: escrow_legs_def)
qed

lemma shifts_release:
  assumes "books d" and "user_wallet i d" and "is_money p" "is_money t" "is_money r"
    and "release_escrow_on_completion oid iid i p t r d = Inr (b, d')"
  shows "shifts (if b then - (p + t + r) else 0) {release_key oid} d d'"
    and "b \<longleftrightarrow> \<not> idempotency_key_exists (release_key oid) d"
proof -
  note q = quantize_money_id [OF assms(3)] quantize_money_id [OF assms(4)] quantize_money_id [OF assms(5)]
  have ok: "ledger_ok d" using assms(1) by (simp add: books_def)
  obtain e tw rw where e: "get_system WT_SYSTEM_ESCROW d = Inr e"
    and tw: "get_system WT_SYSTEM_TAX_PAYABLE d = Inr tw" and rw: "get_system WT_SYSTEM_REVENUE d = Inr rw"
    and p: "post_group (release_legs oid iid (w_id e) i (w_id tw) (w_id rw) p t r)
       (next_id d) (d\<lparr>next_id := next_id d + 1\<rparr>) = Inr (b, d')"
    by (rule release_escrow_posts [OF assms(6), unfolded q])
  note ids = system_wallet_ids [OF ok e assms(2)]
  have "quantize_money (p + t + r) = p + t + r" using assms(3-5) by (simp add: quantize_money_id is_money_add)
  then have delta: "legs_delta (w_id e) (release_legs oid iid (w_id e) i (w_id tw) (w_id rw) p t r) = - (p + t + r)"
    using ids(1) ids(3) [OF tw] ids(4) [OF rw] by (simp add: release_legs_def order_leg_def leg_of_def)
  have keys: "leg_idempotency_key ` set (release_legs oid iid (w_id e) i (w_id tw) (w_id rw) p t r)
      \<subseteq> {None, Some (release_key oid)}"
    by (auto simp: release_legs_def order_leg_def leg_of_def)
  show "shifts (if b then - (p + t + r) else 0) {release_key oid} d d'"
    by (rule shifts_post [OF p assms(1) legs_ok_release [OF assms(3-5)]]) (use delta keys e in auto)
  show "b \<longleftrightarrow> \<not> idempotency_key_exists (release_key oid) d"
    by (rule posted_iff [OF p _ keys]) (simp_all add: release_legs_def)
qed

lemma shifts_refund:
  assumes "books d" and "user_wallet i d" and "is_money a"
    and "refund_escrow oid iid i a d = Inr (b, d')"
  shows "shifts (if b then - a else 0) {refund_key oid} d d'"
    and "b \<longleftrightarrow> \<not> idempotency_key_exists (refund_key oid) d"
proof -
  have ok: "ledger_ok d" using assms(1) by (simp add: books_def)
  obtain e where e: "get_system WT_SYSTEM_ESCROW d = Inr e"
    and p: "post_group [(order_leg oid iid (w_id e) (- a) TT_REFUND)
        \<lparr>leg_idempotency_key := Some (refund_key oid)\<rparr>, order_leg oid iid i a TT_REFUND]
      (next_id d) (d\<lparr>next_id := next_id d + 1\<rparr>) = Inr (b, d')"
    by (rule refund_escrow_posts [OF assms(4), unfolded quantize_money_id [OF assms(3)]])
  note ids = system_wallet_ids [OF ok e assms(2)]
  show "shifts (if b then - a else 0) {refund_key oid} d d'"
    by (rule shifts_post [OF p assms(1)])
       (use ids(1) e assms(3) in \<open>auto simp: order_leg_def leg_of_def is_money_uminus\<close>)
  show "b \<longleftrightarrow> \<not> idempotency_key_exists (refund_key oid) d"
    using post_group_cases [OF p]
    by (auto simp: any_key_exists_def idempotency_key_exists_def order_leg_def leg_of_def refund_key_def)
qed

lemma shifts_split:
  assumes "books d" and "user_wallet c d" and "user_wallet cu d" and "is_money x" "is_money y"
    and "split_escrow oid iid c cu x y d = Inr (b, d')"
  shows "shifts (if b then - (x + y) else 0) {split_key oid} d d'"
    and "b \<longleftrightarrow> \<not> idempotency_key_exists (split_key oid) d"
proof -
  note q = quantize_money_id [OF assms(4)] quantize_money_id [OF assms(5)]
  have ok: "ledger_ok d" using assms(1) by (simp add: books_def)
  obtain e where e: "get_system WT_SYSTEM_ESCROW d = Inr e"
    and p: "post_group (split_legs oid iid (w_id e) c cu x y)
      (next_id d) (d\<lparr>next_id := next_id d + 1\<rparr>) = Inr (b, d')"
    by (rule split_escrow_posts [OF assms(6), unfolded q])
  have ids: "c \<noteq> w_id e" "cu \<noteq> w_id e"
    using system_wallet_ids(1) [OF ok e] assms(2,3) by auto
  have "quantize_money (x + y) = x + y" using assms(4,5) by (simp add: quantize_money_id is_money_add)
  then have delta: "legs_delta (w_id e) (split_legs oid iid (w_id e) c cu x y) = - (x + y)"
    using ids by (simp add: split_legs_def order_leg_def leg_of_def)
  have keys: "leg_idempotency_key ` set (split_legs oid iid (w_id e) c cu x y) \<subseteq> {None, Some (split_key oid)}"
    by (auto simp: split_legs_def order_leg_def leg_of_def)
  show "shifts (if b then - (x + y) else 0) {split_key oid} d d'"
    by (rule shifts_post [OF p assms(1) legs_ok_split [OF assms(4,5)]]) (use delta keys e in auto)
  show "b \<longleftrightarrow> \<not> idempotency_key_exists (split_key oid) d"
    by (rule posted_iff [OF p _ keys]) (simp_all add: split_legs_def)
qed

text \<open>Each operation keeps the holds covered.\<close>

lemma user_walletD:
  assumes "user_wallet i d"
  obtains w where "get_wallet i d = Some w" and "w \<in> set (wallets d)" and "w_id w = i" and "w_user_id w \<noteq> None"
  using assms wallet_tab.get_mem wallet_tab.get_key unfolding user_wallet_iff by blast

lemma covered_iff:
  assumes "ledger_ok d"
  shows "covered d \<longleftrightarrow> (\<forall>i. user_wallet i d \<longrightarrow> held_of i d \<le> balance_of i d)"
proof -
  have get: "get_wallet (w_id w) d = Some w" if "w \<in> set (wallets d)" for w
    using find_by_mem [OF ledger_okD(1) [OF assms] that] by (simp add: get_wallet_def)
  show ?thesis
  proof
    assume "covered d"
    then show "\<forall>i. user_wallet i d \<longrightarrow> held_of i d \<le> balance_of i d"
      by (auto simp: covered_def list_all_iff held_of_def balance_of_def elim!: user_walletD)
  next
    assume c: "\<forall>i. user_wallet i d \<longrightarrow> held_of i d \<le> balance_of i d"
    have "w_user_id w = None \<or> w_held_balance w \<le> w_balance w" if w: "w \<in> set (wallets d)" for w
      using c [rule_format, of "w_id w"] get [OF w]
      by (cases "w_user_id w") (simp_all add: user_wallet_def held_of_def balance_of_def)
    then show "covered d" by (simp add: covered_def list_all_iff)
  qed
qed

lemma user_balance_nonneg:
  assumes "ledger_ok d" and "user_wallet i d"
  shows "0 \<le> balance_of i d"
proof -
  obtain w where w: "get_wallet i d = Some w" "w \<in> set (wallets d)" "w_user_id w \<noteq> None"
    using assms(2) by (elim user_walletD)
  then show ?thesis
    using ledger_okD(5) [OF assms(1) w(2)] by (auto simp: balance_of_def chk_wallet_def is_user_wallet_type_def)
qed

lemma reshaped_user_wallet_iff: "reshaped d d' \<Longrightarrow> user_wallet i d' \<longleftrightarrow> user_wallet i d"
  unfolding reshaped_def user_wallet_def
  by (auto simp: get_wallet_def find_by_map_key split: option.splits)

lemma moves_shifts:
  assumes "shifts a K d d'" and "books d" and "covered d"
    and "\<And>j. user_wallet j d \<Longrightarrow> held_of j d \<le> balance_of j d \<Longrightarrow> user_wallet j d' \<Longrightarrow> 0 \<le> balance_of j d' \<Longrightarrow>
      held_of j d' \<le> balance_of j d'"
  shows "moves a K d d'"
proof -
  have ok: "ledger_ok d" "ledger_ok d'" and r: "reshaped d d'"
    using assms(1,2) by (auto simp: shifts_def books_def)
  show ?thesis
    unfolding moves_def covered_iff [OF ok(2)]
    using assms(1,4) covered_iff [OF ok(1)] assms(3) reshaped_user_wallet_iff [OF r]
      user_balance_nonneg [OF ok(2)] by blast
qed

lemma post_group_books: "books d \<Longrightarrow> ledger_ok d"
  by (simp add: books_def)

lemma moves_hold:
  assumes "books d" and "covered d" and "hold_funds i a d = Inr d'"
  shows "moves 0 {} d d'"
proof (rule moves_shifts [OF shifts_hold [OF assms(1,3)] assms(1,2)])
  fix j assume "held_of j d \<le> balance_of j d"
  with hold_funds_balances [OF assms(3) post_group_books [OF assms(1)]] show "held_of j d' \<le> balance_of j d'"
    by (cases "j = i") auto
qed

lemma moves_release_hold:
  assumes "books d" and "covered d" and "0 \<le> a" and "release_hold i a d = Inr d'"
  shows "moves 0 {} d d'"
proof (rule moves_shifts [OF shifts_release_hold [OF assms(1,4)] assms(1,2)])
  fix j assume "held_of j d \<le> balance_of j d" "0 \<le> balance_of j d'"
  with release_hold_balances [OF assms(4) post_group_books [OF assms(1)], of j] quantize_money_nonneg [OF assms(3)]
  show "held_of j d' \<le> balance_of j d'" by (auto split: if_splits)
qed

lemma moves_refl: "books d \<Longrightarrow> covered d \<Longrightarrow> moves 0 K d d"
  by (simp add: moves_def shifts_refl)

lemma moves_topup:
  assumes "books d" and "covered d" and "user_wallet i d" and "0 \<le> a" and "credit_topup i a pid d = Inr (b, d')"
  shows "moves 0 {} d d'"
proof (rule moves_shifts [OF shifts_topup [OF assms(1,3,5)] assms(1,2)])
  fix j assume j: "held_of j d \<le> balance_of j d" "user_wallet j d"
  note ok = post_group_books [OF assms(1)]
  show "held_of j d' \<le> balance_of j d'"
  proof (rule credit_topup_posts [OF assms(5)])
    fix gw assume gw: "get_system WT_SYSTEM_GATEWAY d = Inr gw"
      and p: "post_group [(leg_of i (quantize_money a) TT_TOPUP)
          \<lparr>leg_idempotency_key := Some (topup_key pid), leg_reference_intent_id := Some pid\<rparr>,
        (leg_of (w_id gw) (- quantize_money a) TT_TOPUP)\<lparr>leg_reference_intent_id := Some pid\<rparr>]
        (next_id d) (d\<lparr>next_id := next_id d + 1\<rparr>) = Inr (b, d')"
    have "j \<noteq> w_id gw" by (rule user_wallet_not_system [OF ok j(2) gw])
    then show ?thesis
      using post_fresh_balance [OF p ok, of j] j(1) quantize_money_nonneg [OF assms(4)]
      by (auto simp: leg_of_def is_money_uminus split: if_splits)
  qed
qed

lemma moves_withdrawal:
  assumes "books d" and "covered d" and "user_wallet i d" and "pay_withdrawal i a wid d = Inr (b, d')"
  shows "moves 0 {} d d'"
proof (rule moves_shifts [OF shifts_withdrawal [OF assms(1,3,4)] assms(1,2)])
  fix j assume j: "held_of j d \<le> balance_of j d" "user_wallet j d" "0 \<le> balance_of j d'"
  note ok = post_group_books [OF assms(1)]
  show "held_of j d' \<le> balance_of j d'"
  proof (rule pay_withdrawal_posts [OF assms(4)])
    fix gw d1
    assume gw: "get_system WT_SYSTEM_GATEWAY d = Inr gw"
      and p: "post_group [(leg_of i (- quantize_money a) TT_WITHDRAWAL)
          \<lparr>leg_idempotency_key := Some (withdrawal_key wid),
           leg_description := Some (''Courier withdrawal '' @ str_uuid wid)\<rparr>,
        (leg_of (w_id gw) (quantize_money a) TT_WITHDRAWAL)
          \<lparr>leg_description := Some (''Courier withdrawal '' @ str_uuid wid)\<rparr>]
        (next_id d) (d\<lparr>next_id := next_id d + 1\<rparr>) = Inr (b, d1)"
      and r: "if b then release_hold i (quantize_money a) d1 = Inr d' else d' = d1"
    have n: "j \<noteq> w_id gw" by (rule user_wallet_not_system [OF ok j(2) gw])
    have B: "balance_of j d1 = balance_of j d - (if b \<and> i = j then quantize_money a else 0)" "held_of j d1 = held_of j d"
      and ok1: "ledger_ok d1"
      using post_fresh_balance [OF p ok, of j] post_fresh_ledger_ok(1) [OF p ok] n
      by (auto simp: leg_of_def is_money_uminus split: if_splits)
    show ?thesis
    proof (cases b)
      case True
      with r have "release_hold i (quantize_money a) d1 = Inr d'" by simp
      note R = release_hold_balances [OF this ok1, of j]
      show ?thesis using R B j(1,3) True by (auto split: if_splits)
    next
      case False
      with r B j(1) show ?thesis by simp
    qed
  qed
qed

lemma moves_fund:
  assumes "books d" and "covered d" and "user_wallet i d" and "is_money a" "is_money g" "0 \<le> a" "0 \<le> g"
    and "fund_escrow_for_invoice i a g iid oid pid held d = Inr (b, d')"
    and free: "held \<or> a \<le> balance_of i d - held_of i d"
  shows "moves (if b then a + g else 0) {escrow_key iid} d d'"
    and "b \<longleftrightarrow> \<not> idempotency_key_exists (escrow_key iid) d"
proof -
  note F = shifts_fund [OF assms(1,3-8)] and ok = post_group_books [OF assms(1)]
  note q = quantize_money_id [OF assms(4)] quantize_money_id [OF assms(5)]
  show "b \<longleftrightarrow> \<not> idempotency_key_exists (escrow_key iid) d" by (rule F(2))
  obtain e gw d1 where e: "get_system WT_SYSTEM_ESCROW d = Inr e" and gw: "get_system WT_SYSTEM_GATEWAY d = Inr gw"
    and p: "post_group (escrow_legs iid oid pid i (w_id gw) (w_id e) a g)
       (next_id d) (d\<lparr>next_id := next_id d + 1\<rparr>) = Inr (b, d1)"
    and r: "if b \<and> held \<and> 0 < a then release_hold i a d1 = Inr d' else d' = d1"
    by (rule fund_escrow_posts [OF assms(8), unfolded q])
  note P = post_fresh_balance [OF p ok legs_ok_escrow [OF assms(4,5)]]
    and ok1 = post_fresh_ledger_ok(1) [OF p ok legs_ok_escrow [OF assms(4,5)]]
  show "moves (if b then a + g else 0) {escrow_key iid} d d'"
  proof (rule moves_shifts [OF F(1) assms(1,2)])
    fix j assume j: "held_of j d \<le> balance_of j d" "user_wallet j d" "0 \<le> balance_of j d'"
    have n: "j \<noteq> w_id gw" "j \<noteq> w_id e" using user_wallet_not_system [OF ok j(2)] gw e by auto
    have "legs_delta j (escrow_legs iid oid pid i (w_id gw) (w_id e) a g) = (if i = j then - a else 0)"
      using n assms(6) by (auto simp: escrow_legs_def payment_leg_def leg_of_def)
    then have B: "balance_of j d1 = balance_of j d - (if b \<and> i = j then a else 0)" "held_of j d1 = held_of j d"
      using P [of j] by auto
    show "held_of j d' \<le> balance_of j d'"
    proof (cases "b \<and> held \<and> 0 < a")
      case True
      with r have "release_hold i a d1 = Inr d'" by simp
      note R = release_hold_balances [OF this ok1, of j]
      show ?thesis using R B j(1,3) True q by (auto split: if_splits)
    next
      case False
      with r have "d' = d1" by (simp split: if_splits)
      then show ?thesis using B j(1) False free assms(6) by (auto split: if_splits)
    qed
  qed
qed

text \<open>Escrow pays users out.\<close>

lemma moves_payout:
  assumes "shifts x K d d'" and "books d" and "covered d"
    and "post_group legs (next_id d) (d\<lparr>next_id := next_id d + 1\<rparr>) = Inr (b, d')" and "legs_ok legs"
    and "\<And>j. user_wallet j d \<Longrightarrow> 0 \<le> legs_delta j legs"
  shows "moves x K d d'"
  by (rule moves_shifts [OF assms(1-3)])
     (use post_fresh_balance [OF assms(4) post_group_books [OF assms(2)] assms(5)] assms(6) in fastforce)

lemma moves_release:
  assumes "books d" and "covered d" and "user_wallet i d" and "is_money p" "is_money t" "is_money r" "0 \<le> p"
    and "release_escrow_on_completion oid iid i p t r d = Inr (b, d')"
  shows "moves (if b then - (p + t + r) else 0) {release_key oid} d d'"
    and "b \<longleftrightarrow> \<not> idempotency_key_exists (release_key oid) d"
proof -
  note F = shifts_release [OF assms(1,3-6,8)] and ok = post_group_books [OF assms(1)]
  note q = quantize_money_id [OF assms(4)] quantize_money_id [OF assms(5)] quantize_money_id [OF assms(6)]
  show "b \<longleftrightarrow> \<not> idempotency_key_exists (release_key oid) d" by (rule F(2))
  obtain e tw rw where s: "get_system WT_SYSTEM_ESCROW d = Inr e" "get_system WT_SYSTEM_TAX_PAYABLE d = Inr tw"
      "get_system WT_SYSTEM_REVENUE d = Inr rw"
    and p: "post_group (release_legs oid iid (w_id e) i (w_id tw) (w_id rw) p t r)
       (next_id d) (d\<lparr>next_id := next_id d + 1\<rparr>) = Inr (b, d')"
    by (rule release_escrow_posts [OF assms(8), unfolded q])
  have "0 \<le> legs_delta j (release_legs oid iid (w_id e) i (w_id tw) (w_id rw) p t r)" if j: "user_wallet j d" for j
    using user_wallet_not_system [OF ok j] s assms(7) by (auto simp: release_legs_def order_leg_def leg_of_def)
  then show "moves (if b then - (p + t + r) else 0) {release_key oid} d d'"
    by (rule moves_payout [OF F(1) assms(1,2) p legs_ok_release [OF assms(4-6)]])
qed

lemma moves_refund:
  assumes "books d" and "covered d" and "user_wallet i d" and "is_money a" and "0 \<le> a"
    and "refund_escrow oid iid i a d = Inr (b, d')"
  shows "moves (if b then - a else 0) {refund_key oid} d d'"
    and "b \<longleftrightarrow> \<not> idempotency_key_exists (refund_key oid) d"
proof -
  note F = shifts_refund [OF assms(1,3,4,6)] and ok = post_group_books [OF assms(1)]
  show "b \<longleftrightarrow> \<not> idempotency_key_exists (refund_key oid) d" by (rule F(2))
  obtain e where s: "get_system WT_SYSTEM_ESCROW d = Inr e"
    and p: "post_group [(order_leg oid iid (w_id e) (- a) TT_REFUND)
        \<lparr>leg_idempotency_key := Some (refund_key oid)\<rparr>, order_leg oid iid i a TT_REFUND]
      (next_id d) (d\<lparr>next_id := next_id d + 1\<rparr>) = Inr (b, d')"
    by (rule refund_escrow_posts [OF assms(6), unfolded quantize_money_id [OF assms(4)]])
  show "moves (if b then - a else 0) {refund_key oid} d d'"
    by (rule moves_payout [OF F(1) assms(1,2) p])
       (use user_wallet_not_system [OF ok _ s] assms(4,5) in
         \<open>auto simp: order_leg_def leg_of_def is_money_uminus\<close>)
qed

lemma moves_split:
  assumes "books d" and "covered d" and "user_wallet c d" and "user_wallet cu d" and "is_money x" "is_money y"
    and "0 \<le> x" "0 \<le> y" and "split_escrow oid iid c cu x y d = Inr (b, d')"
  shows "moves (if b then - (x + y) else 0) {split_key oid} d d'"
    and "b \<longleftrightarrow> \<not> idempotency_key_exists (split_key oid) d"
proof -
  note F = shifts_split [OF assms(1,3-6,9)] and ok = post_group_books [OF assms(1)]
  note q = quantize_money_id [OF assms(5)] quantize_money_id [OF assms(6)]
  show "b \<longleftrightarrow> \<not> idempotency_key_exists (split_key oid) d" by (rule F(2))
  obtain e where s: "get_system WT_SYSTEM_ESCROW d = Inr e"
    and p: "post_group (split_legs oid iid (w_id e) c cu x y)
      (next_id d) (d\<lparr>next_id := next_id d + 1\<rparr>) = Inr (b, d')"
    by (rule split_escrow_posts [OF assms(9), unfolded q])
  show "moves (if b then - (x + y) else 0) {split_key oid} d d'"
    by (rule moves_payout [OF F(1) assms(1,2) p legs_ok_split [OF assms(5,6)]])
       (use user_wallet_not_system [OF ok _ s] assms(7,8) in
         \<open>auto simp: split_legs_def order_leg_def leg_of_def\<close>)
qed

subsection \<open>Writes to orders, invoices and intents\<close>

definition paper :: "db \<Rightarrow> bool" where
  "paper d \<longleftrightarrow> covered d \<and> books d \<and> promos_money d \<and> orders_ok d \<and> invoices_ok d \<and> intents_ok d \<and> withdrawals_ok d"

definition escrow_at :: "money \<Rightarrow> db \<Rightarrow> bool" where
  "escrow_at a d \<longleftrightarrow> (\<exists>e. get_system WT_SYSTEM_ESCROW d = Inr e \<and> balance_of (w_id e) d = a)"

lemma solvent_iff: "solvent d \<longleftrightarrow> paper d \<and> keys_ok d \<and> escrow_at (owed d) d"
  by (auto simp: solvent_def paper_def escrow_ok_def escrow_at_def)

lemma moves_parts:
  assumes "moves a K d d'" and "solvent d"
  shows "paper d'" "escrow_at (owed d + a) d'"
  using moves_paper [OF assms] by (auto simp: paper_def escrow_at_def)

lemma wallet_reads [simp]:
  "get_system t (put_order r d) = get_system t d" "get_wallet j (put_order r d) = get_wallet j d"
  "get_system t (put_invoice s d) = get_system t d" "get_wallet j (put_invoice s d) = get_wallet j d"
  "get_system t (put_intent p d) = get_system t d" "get_wallet j (put_intent p d) = get_wallet j d"
  by (simp_all add: get_system_def get_wallet_def put_order_def put_invoice_def put_intent_def)

lemma escrow_at_put [simp]:
  "escrow_at a (put_order r d) = escrow_at a d" "escrow_at a (put_invoice s d) = escrow_at a d"
  "escrow_at a (put_intent p d) = escrow_at a d"
  by (simp_all add: escrow_at_def balance_of_def)

lemma key_exists_put [simp]:
  "idempotency_key_exists k (put_order r d) = idempotency_key_exists k d"
  "idempotency_key_exists k (put_invoice s d) = idempotency_key_exists k d"
  "idempotency_key_exists k (put_intent p d) = idempotency_key_exists k d"
  by (simp_all add: idempotency_key_exists_def put_order_def put_invoice_def put_intent_def)

lemma row_reads [simp]:
  "get_invoice n (put_order r d) = get_invoice n d" "get_order n (put_invoice s d) = get_order n d"
  "get_invoice n (put_intent p d) = get_invoice n d" "get_order n (put_intent p d) = get_order n d"
  by (simp_all add: get_invoice_def get_order_def put_order_def put_invoice_def put_intent_def)

lemma list_all_put_by:
  "list_all P rs \<Longrightarrow> P r \<Longrightarrow> list_all P (put_by key r rs)"
  by (auto simp: list_all_iff put_by_def)

lemma put_order_paper:
  assumes "paper d" and "get_order (o_id r) d = Some old" and "o_status r = OS_NEW \<Longrightarrow> o_status old = OS_NEW"
  shows "paper (put_order r d)"
proof -
  have "o_id r < next_id d"
    using assms order_tab.get_mem [OF assms(2)] order_tab.get_key [OF assms(2)]
    by (auto simp: paper_def orders_ok_def list_all_iff)
  moreover have "list_all (\<lambda>i. past_new i (put_order r d)) (invoices d)"
    using assms(1) past_new_put_order [OF _ assms(2) _ assms(3)] by (auto simp: paper_def orders_ok_def list_all_iff)
  ultimately have "orders_ok (put_order r d)"
    using assms(1) by (auto simp: paper_def orders_ok_def intro!: list_all_put_by)
  moreover have "books (put_order r d)" using assms(1) by (simp add: paper_def put_order_def)
  moreover have "intent_ok p (put_order r d) = intent_ok p d" for p
    by (cases "pi_reference_invoice_id p") (simp_all add: intent_ok_def)
  then have "intents_ok (put_order r d) = intents_ok d" by (simp add: intents_ok_def)
  moreover have "invoices_ok (put_order r d) = invoices_ok d" "promos_money (put_order r d) = promos_money d"
    by (simp_all add: invoices_ok_def sole_active_def promos_money_def)
  moreover have "withdrawals_ok (put_order r d) = withdrawals_ok d" "covered (put_order r d) = covered d"
    by (simp add: withdrawals_ok_def user_wallet_def, simp_all add: put_order_def covered_def)
  ultimately show ?thesis using assms(1) by (simp add: paper_def)
qed

lemma sole_active_put:
  assumes "sole_active i d" and "sole_active j d" and "inv_id j \<noteq> inv_id i \<Longrightarrow> inv_order_id j = inv_order_id i \<Longrightarrow>
      is_active j \<Longrightarrow> \<not> is_active i"
  shows "sole_active j (put_invoice i d)"
  using assms by (auto simp: sole_active_def list_all_iff put_invoice_def put_by_def)

lemma put_invoice_paper:
  assumes "paper d" and "get_invoice (inv_id i) d = Some old" and "invoice_money i" and "sole_active i d"
    and "inv_order_id i = inv_order_id old" and "\<And>p. p \<in> set (payment_intents d) \<Longrightarrow> pi_status p = PI_NEW \<Longrightarrow> pi_reference_invoice_id p = Some (inv_id i) \<Longrightarrow>
      inv_status i \<noteq> IS_PAID \<Longrightarrow> inv_amount_from_wallet i + pi_amount p = inv_total_amount i"
  shows "paper (put_invoice i d)"
proof -
  have id: "inv_id i < next_id d"
    using assms(1) invoice_tab.get_mem [OF assms(2)] invoice_tab.get_key [OF assms(2)]
    by (auto simp: paper_def invoices_ok_def list_all_iff)
  have rows: "inv_id j < next_id d \<and> invoice_money j \<and> sole_active j d" if "j \<in> set (invoices d)" for j
    using assms(1) that by (auto simp: paper_def invoices_ok_def list_all_iff)
  have sole: "sole_active j (put_invoice i d)" if "j \<in> set (invoices d)" "inv_id j \<noteq> inv_id i" for j
    by (rule sole_active_put [OF assms(4)]) (use rows that assms(4) in \<open>auto simp: sole_active_def list_all_iff\<close>)
  have "list_all (\<lambda>j. inv_id j < next_id d \<and> invoice_money j \<and> sole_active j (put_invoice i d))
      (invoices (put_invoice i d))"
    using rows sole id assms(3) sole_active_put [OF assms(4,4)]
    by (auto simp: list_all_iff put_invoice_def put_by_def)
  then have "invoices_ok (put_invoice i d)"
    using assms(1) by (simp add: paper_def invoices_ok_def, simp add: put_invoice_def)
  moreover have "intent_ok p (put_invoice i d)" if "p \<in> set (payment_intents d)" for p
  proof -
    have "intent_ok p d" using assms(1) that by (auto simp: paper_def intents_ok_def list_all_iff)
    then show ?thesis
      using assms(6) [OF that] invoice_tab.get_put [of _ i d] assms(2)
      by (auto simp: intent_ok_def put_invoice_def split: option.splits)
  qed
  then have "intents_ok (put_invoice i d)"
    using assms(1) by (auto simp: paper_def intents_ok_def list_all_iff put_invoice_def)
  moreover have "past_new i d"
    using assms(1,5) invoice_tab.get_mem [OF assms(2)] by (auto simp: paper_def orders_ok_def past_new_def list_all_iff)
  then have "orders_ok (put_invoice i d)"
    using assms(1) by (auto simp: paper_def orders_ok_def past_new_def put_invoice_def intro!: list_all_put_by)
  moreover have "books (put_invoice i d)" "promos_money (put_invoice i d)"
    using assms(1) by (simp_all add: paper_def put_invoice_def promos_money_def)
  moreover have "withdrawals_ok (put_invoice i d) = withdrawals_ok d" "covered (put_invoice i d) = covered d"
    by (simp add: withdrawals_ok_def user_wallet_def, simp_all add: put_invoice_def covered_def)
  ultimately show ?thesis using assms(1) by (simp add: paper_def)
qed

text \<open>A write to an order that neither starts nor ends its escrow.\<close>

lemma put_order_solvent:
  assumes "solvent d" and "get_order (o_id r) d = Some old"
    and "under_way (o_status r) \<longleftrightarrow> under_way (o_status old)"
    and "o_status old = OS_COMPLETED \<or> o_status old = OS_REFUNDED \<Longrightarrow> o_status r = o_status old"
    and "o_status r = OS_NEW \<Longrightarrow> o_status old = OS_NEW"
  shows "solvent (put_order r d)"
proof -
  have S: "paper d" "keys_ok d" "escrow_at (owed d) d" "distinct (map o_id (orders d))"
    using assms(1) solventD(10) by (auto simp: solvent_iff)
  have "owed (put_order r d) = owed d" using owed_put_order [OF S(4) assms(2)] assms(3) by simp
  moreover have "keys_ok (put_order r d)"
    using S(2) assms(2,4) unfolding keys_ok_def by (auto simp: order_tab.get_put)
  ultimately show ?thesis using S put_order_paper [OF S(1) assms(2,5)] by (simp add: solvent_iff)
qed

lemma paid_sum_paid:
  assumes "solvent d" and "i \<in> set (invoices d)" and "inv_status i = IS_PAID"
  shows "paid_sum (inv_order_id i) d = inv_total_amount i"
proof (rule paid_sum_sole [OF solventD(11) [OF assms(1)] assms(2,3)])
  fix j assume "j \<in> set (invoices d)" "inv_order_id j = inv_order_id i" "inv_status j = IS_PAID"
  moreover have "sole_active i d"
    using solventD(5) [OF assms(1)] assms(2) by (auto simp: invoices_ok_def list_all_iff)
  ultimately show "inv_id j = inv_id i"
    using assms(3) by (auto simp: sole_active_def is_active_def active_statuses_def list_all_iff)
qed

text \<open>Paying the escrow of an order out ends it.\<close>

lemma order_settles:
  assumes "solvent d" and m: "moves (- inv_total_amount i) K d e"
    and K: "K \<subseteq> settle_keys (o_id r)"
    and "get_order (o_id r) d = Some old" and "under_way (o_status old)"
    and "i \<in> set (invoices d)" and "inv_status i = IS_PAID" and "inv_order_id i = o_id r"
    and "o_status r = OS_COMPLETED \<or> o_status r = OS_REFUNDED"
  shows "solvent (put_order r e)"
proof -
  note M = moves_parts [OF m assms(1)] and T = moves_paper [OF m assms(1)] and S = solventD [OF assms(1)]
  have e: "get_order (o_id r) e = Some old" using assms(4) T(7) by (simp add: get_order_def)
  have "paid_sum (o_id r) e = inv_total_amount i"
    using paid_sum_paid [OF assms(1,6,7)] assms(8) paid_sum_cong [OF T(8)] by simp
  then have "owed (put_order r e) = owed d - inv_total_amount i"
    using owed_put_order [OF _ e] S(10) T(7,10) assms(5,9) by (auto simp: under_way_def)
  moreover have "keys_ok (put_order r e)"
  proof -
    have new: "idempotency_key_exists k d \<or> idle_key k \<or> k \<in> K" if "idempotency_key_exists k e" for k
      using m that by (auto simp: moves_def shifts_def)
    have rows: "get_order n e = get_order n d" "get_invoice n e = get_invoice n d" for n
      using T(7,8) by (simp_all add: get_order_def get_invoice_def)
    have "\<exists>j. get_invoice n (put_order r e) = Some j \<and> inv_status j = IS_PAID"
      if "idempotency_key_exists (escrow_key n) e" for n
    proof -
      have "idempotency_key_exists (escrow_key n) d"
        using new [OF that] K settle_keys_kind by (auto simp: idle_key_def)
      then show ?thesis using S(7) rows by (simp add: keys_ok_def)
    qed
    moreover have "\<exists>x. get_order n (put_order r e) = Some x \<and> (o_status x = OS_COMPLETED \<or> o_status x = OS_REFUNDED)"
      if "idempotency_key_exists k e" "k \<in> settle_keys n" for n k
    proof (cases "n = o_id r")
      case True
      then show ?thesis using e assms(9) by (simp add: order_tab.get_put)
    next
      case False
      then have "idempotency_key_exists k d"
        using new [OF that(1)] that(2) K settle_keys_inject by (auto simp: idle_key_def)
      then show ?thesis using S(7) rows that(2) False by (auto simp: keys_ok_def order_tab.get_put)
    qed
    ultimately show ?thesis unfolding keys_ok_def by auto
  qed
  ultimately show ?thesis
    using M put_order_paper [OF M(1) e] assms(9) by (auto simp: solvent_iff)
qed

subsection \<open>Promo bookkeeping\<close>

lemma promo_parts:
  assumes "promo_frame d d'" and "books d'" and "promos_money d'" and "next_id d \<le> next_id d'"
  shows "paper d \<Longrightarrow> paper d'" "owed d' = owed d" "escrow_at a d \<longleftrightarrow> escrow_at a d'"
    "get_order n d' = get_order n d" "get_invoice n d' = get_invoice n d" "payment_intents d' = payment_intents d"
    "idempotency_key_exists k d' \<longleftrightarrow> idempotency_key_exists k d" "sole_active i d' \<longleftrightarrow> sole_active i d"
proof -
  note t = promo_frame_tables [OF assms(1)]
  have intent: "intent_ok p d \<Longrightarrow> intent_ok p d'" for p
    by (rule intent_ok_cong [OF t(3) assms(4)])
  show "paper d \<Longrightarrow> paper d'"
    using assms(2-4) t intent
    by (auto simp: paper_def orders_ok_def past_new_def invoices_ok_def intents_ok_def withdrawals_ok_def user_wallet_def
        get_wallet_def sole_active_def covered_def list_all_iff)
  show "owed d' = owed d" by (rule owed_cong [OF t(3,2)])
  show "escrow_at a d \<longleftrightarrow> escrow_at a d'"
    by (simp add: escrow_at_def get_system_def balance_of_def get_wallet_def t)
  show "get_order n d' = get_order n d" "get_invoice n d' = get_invoice n d" "payment_intents d' = payment_intents d"
    "idempotency_key_exists k d' \<longleftrightarrow> idempotency_key_exists k d" "sole_active i d' \<longleftrightarrow> sole_active i d"
    by (simp_all add: t get_order_def get_invoice_def idempotency_key_exists_def sole_active_def)
qed

lemma promo_solvent:
  assumes "promo_frame d d'" and "books d'" and "promos_money d'" and "next_id d \<le> next_id d'" and "solvent d"
  shows "solvent d'"
  using promo_parts [OF assms(1-4)] assms(5) by (simp add: solvent_iff keys_ok_def)

lemma consume_promos: "consume now n d = Inr d' \<Longrightarrow> promos d' = promos d"
  by (auto simp: consume_def set_redemption_status_def put_redemption_def Let_def split: option.splits if_splits)

lemma flush_promo_money:
  assumes "flush_promo q d = Inr d'" and "promos_money d" and "money_opt (pr_fixed_amount q)"
    and "money_opt (pr_max_discount_amount q)"
  shows "promos_money d'"
proof -
  have "d' = put_promo q d" using assms(1) by (auto simp: flush_promo_def)
  then show ?thesis using assms(2-4) by (auto simp: promos_money_def put_promo_def intro!: list_all_put_by)
qed

lemma promo_row_money:
  "promos_money d \<Longrightarrow> get_promo n d = Some q \<Longrightarrow> money_opt (pr_fixed_amount q) \<and> money_opt (pr_max_discount_amount q)"
  by (auto simp: promos_money_def list_all_iff dest: promo_tab.get_mem)

lemma release_promos:
  assumes "release now n d = Inr d'" and "promos_money d"
  shows "promos_money d'"
proof -
  have "promos_money (put_redemption r d) = promos_money d" for r
    by (simp add: promos_money_def put_redemption_def)
  then show ?thesis
    using assms flush_promo_money promo_row_money
    by (fastforce simp: release_def set_redemption_status_def atomic_release_def Let_def
        split: option.splits if_splits)
qed

lemma release_solvent:
  assumes "solvent d" and "release now n d = Inr d'"
  shows "solvent d'" and "promo_frame d d'"
proof -
  note R = release_move_promo.books [OF solventD(1) [OF assms(1)] assms(2)]
  show "promo_frame d d'" by (rule R(2))
  show "solvent d'"
    by (rule promo_solvent [OF R(2,1) release_promos [OF assms(2) solventD(3) [OF assms(1)]] R(3) assms(1)])
qed

subsection \<open>Paying an invoice\<close>

lemma invoice_pays:
  assumes "solvent d" and m: "moves (inv_total_amount old) {escrow_key (inv_id i)} d e"
    and c: "consume now n e = Inr f"
    and "get_invoice (inv_id i) d = Some old" and "inv_status old \<noteq> IS_PAID"
    and "inv_order_id i = inv_order_id old" and "inv_total_amount i = inv_total_amount old"
    and "inv_status i = IS_PAID" and "invoice_money i" and "sole_active i f"
    and "get_order (o_id r) d = Some ord" and "\<not> under_way (o_status ord)" and "o_id r = inv_order_id old"
    and "o_status ord \<noteq> OS_COMPLETED" "o_status ord \<noteq> OS_REFUNDED" and "under_way (o_status r)"
  shows "solvent (put_order r (put_invoice i f))"
proof -
  note M = moves_parts [OF m assms(1)] and T = moves_paper [OF m assms(1)] and S = solventD [OF assms(1)]
  have pm: "promos_money f" using T(2) consume_promos [OF c] by (simp add: promos_money_def)
  note B = consume_move.books [OF T(1) c] and F = promo_parts [OF consume_move.books(2,1) [OF T(1) c] pm
      consume_move.books(3) [OF T(1) c]]
  have rows: "get_order k f = get_order k d" "get_invoice k f = get_invoice k d" for k
    using F(4,5) T(7,8) by (simp_all add: get_order_def get_invoice_def)
  have inv: "get_invoice (inv_id i) f = Some old" and ordr: "get_order (o_id r) f = Some ord"
    using rows assms(4,11) by simp_all
  have pf: "paper f" "escrow_at (owed d + inv_total_amount old) f"
    using F(1-3) M by auto
  have dist: "distinct (map inv_id (invoices f))" "distinct (map o_id (orders f))"
    using pf(1) by (auto simp: paper_def invoices_ok_def orders_ok_def)
  let ?g = "put_invoice i f"
  have pg: "paper ?g"
    by (rule put_invoice_paper [OF pf(1) inv assms(9,10,6)]) (simp add: assms(8))
  have og: "owed ?g = owed d"
    using owed_pay_invoice [OF dist(1) inv dist(2), of ord] ordr assms(5,6,12,13) F(2) T(10) by simp
  have gi: "get_invoice (inv_id i) ?g = Some i" using inv by (simp add: invoice_tab.get_put)
  have "paid_sum (o_id r) ?g = inv_total_amount i"
  proof -
    have "i \<in> set (invoices ?g)" using gi by (rule invoice_tab.get_mem)
    moreover have "sole_active i ?g" "distinct (map inv_id (invoices ?g))"
      using pg calculation by (auto simp: paper_def invoices_ok_def list_all_iff)
    ultimately have "paid_sum (inv_order_id i) ?g = inv_total_amount i"
      using assms(8)
      by (intro paid_sum_sole) (auto simp: sole_active_def is_active_def active_statuses_def list_all_iff)
    then show ?thesis using assms(6,13) by simp
  qed
  then have owed: "owed (put_order r ?g) = owed d + inv_total_amount old"
    using owed_put_order [of ?g r ord] pg ordr assms(7,12,16) og
    by (simp add: paper_def orders_ok_def)
  have "keys_ok (put_order r ?g)"
  proof -
    have new: "idempotency_key_exists k d \<or> idle_key k \<or> k = escrow_key (inv_id i)"
      if "idempotency_key_exists k f" for k
      using m that F(7) by (auto simp: moves_def shifts_def)
    have "\<exists>j. get_invoice k (put_order r ?g) = Some j \<and> inv_status j = IS_PAID"
      if "idempotency_key_exists (escrow_key k) f" for k
      using new [OF that] S(7) assms(5,8) gi inv rows
      by (auto simp: keys_ok_def idle_key_def invoice_tab.get_put)
    moreover have "\<exists>x. get_order j (put_order r ?g) = Some x \<and> (o_status x = OS_COMPLETED \<or> o_status x = OS_REFUNDED)"
      if kf: "idempotency_key_exists k f" and kj: "k \<in> settle_keys j" for j k
    proof -
      have "idempotency_key_exists k d"
        using new [OF kf] kj settle_keys_kind by (auto simp: idle_key_def)
      then obtain x where x: "get_order j d = Some x" "o_status x = OS_COMPLETED \<or> o_status x = OS_REFUNDED"
        using S(7) kj unfolding keys_ok_def by blast
      then have "j \<noteq> o_id r" using assms(11,14,15) by auto
      with x rows show ?thesis by (simp add: order_tab.get_put)
    qed
    ultimately show ?thesis unfolding keys_ok_def by auto
  qed
  then show ?thesis
    using put_order_paper [OF pg, of r ord] ordr owed pf(2) assms(16) by (auto simp: solvent_iff under_way_def)
qed

subsection \<open>Writes to the other tables\<close>

definition aside :: "db \<Rightarrow> db \<Rightarrow> bool" where
  "aside d d' \<longleftrightarrow> off_books d d' \<and> orders d' = orders d \<and> invoices d' = invoices d \<and>
     payment_intents d' = payment_intents d \<and> withdrawals d' = withdrawals d"

lemma aside_solvent:
  assumes "aside d d'" and "solvent d"
  shows "solvent d'"
proof -
  have t: "orders d' = orders d" "invoices d' = invoices d" "payment_intents d' = payment_intents d"
    "withdrawals d' = withdrawals d" "promos d' = promos d" "wallets d' = wallets d"
    "transactions d' = transactions d" "next_id d \<le> next_id d'"
    using assms(1) by (auto simp: aside_def off_books_iff)
  have "books d'" using assms by (auto simp: aside_def solvent_def intro: off_books_ok)
  moreover have "keys_ok d' = keys_ok d"
    by (simp add: keys_ok_def t idempotency_key_exists_def get_order_def get_invoice_def)
  moreover have "withdrawals_ok d' = withdrawals_ok d"
    by (simp add: withdrawals_ok_def t user_wallet_def get_wallet_def)
  moreover have "escrow_ok d' = escrow_ok d"
    using owed_cong [OF t(2,1)] by (simp add: escrow_ok_def get_system_def balance_of_def get_wallet_def t)
  ultimately show ?thesis
    using assms(2) paper_cong [OF t(1,2,3,5,8)] covered_cong [OF t(6)] by (simp add: solvent_def)
qed

lemma aside_cong: "aside d d' \<Longrightarrow> aside d' d \<Longrightarrow> solvent d' = solvent d"
  using aside_solvent by blast

lemma solvent_upd [simp]:
  "solvent (d\<lparr>users := u0\<rparr>) = solvent d"
  "solvent (d\<lparr>courier_profiles := u1\<rparr>) = solvent d"
  "solvent (d\<lparr>refresh_tokens := u2\<rparr>) = solvent d"
  "solvent (d\<lparr>device_tokens := u3\<rparr>) = solvent d"
  "solvent (d\<lparr>order_medias := u4\<rparr>) = solvent d"
  "solvent (d\<lparr>invoice_items := u5\<rparr>) = solvent d"
  "solvent (d\<lparr>wallet_topups := u6\<rparr>) = solvent d"
  "solvent (d\<lparr>conversations := u7\<rparr>) = solvent d"
  "solvent (d\<lparr>messages := u8\<rparr>) = solvent d"
  "solvent (d\<lparr>ratings := u9\<rparr>) = solvent d"
  "solvent (d\<lparr>disputes := u10\<rparr>) = solvent d"
  "solvent (d\<lparr>admin_sessions := u11\<rparr>) = solvent d"
  "solvent (d\<lparr>audit_logs := u12\<rparr>) = solvent d"
  by (rule aside_cong; simp add: aside_def off_books_iff)+

lemma solvent_next [simp]: "solvent d \<Longrightarrow> next_id d \<le> n \<Longrightarrow> solvent (d\<lparr>next_id := n\<rparr>)"
  by (rule aside_solvent) (simp_all add: aside_def off_books_iff)

end
