(* ===== verification/Solvency.thy ===== *)
theory Solvency
  imports Escrow
begin

text \<open>
  Every operation of the order, invoice, payment, fulfilment, withdrawal and worker components
  keeps a solvent state solvent.
\<close>

section \<open>Orders\<close>


lemma add_order_solvent:
  assumes "solvent d" and "o_id r = next_id d" and "\<not> under_way (o_status r)"
  shows "solvent (add_order r (d\<lparr>next_id := next_id d + 1\<rparr>))"
proof -
  let ?d = "add_order r (d\<lparr>next_id := next_id d + 1\<rparr>)"
  note S = solventD [OF assms(1)]
  have fresh: "next_id d \<notin> o_id ` set (orders d)"
    using S(4) by (auto simp: orders_ok_def list_all_iff)
  then have "orders_ok ?d"
    using S(4) assms(2) by (auto simp: orders_ok_def past_new_def add_order_def list_all_iff)
  moreover have "get_order n ?d = Some x" if "get_order n d = Some x" for n x
    using that by (simp add: get_order_def add_order_def find_by_append)
  then have "keys_ok ?d"
    using S(7) unfolding keys_ok_def idempotency_key_exists_def
    by (simp add: add_order_def get_invoice_def, blast)
  moreover have "paid_sum n ?d = paid_sum n d" for n by (simp add: paid_sum_def add_order_def)
  then have "owed ?d = owed d" using assms(3) by (simp add: owed_def, simp add: add_order_def)
  then have "escrow_ok ?d"
    using S(8) by (simp add: escrow_ok_def get_system_def balance_of_def get_wallet_def add_order_def)
  moreover have "intent_ok p d \<Longrightarrow> intent_ok p ?d" for p
    by (rule intent_ok_cong) (simp_all add: add_order_def)
  then have "intents_ok ?d" using S(6) by (auto simp: intents_ok_def list_all_iff add_order_def)
  moreover have "invoices_ok ?d"
    using S(5) by (auto simp: invoices_ok_def list_all_iff add_order_def sole_active_def)
  moreover have "withdrawals_ok ?d" "promos_money ?d" "books ?d" "covered ?d"
    using S by (simp_all add: covered_def withdrawals_ok_def user_wallet_def get_wallet_def promos_money_def add_order_def)
  ultimately show ?thesis by (simp add: solvent_def)
qed

lemma add_media_solvent: "solvent d \<Longrightarrow> add_media oid u mt k ct sz l c d = Inr d' \<Longrightarrow> solvent d'"
  by (auto simp: add_media_def fresh_def Let_def)

lemma add_medias_solvent:
  "solvent d \<Longrightarrow> fold_err (\<lambda>k. add_media oid u mt k ct sz l c) ks d = Inr d' \<Longrightarrow> solvent d'"
  by (rule fold_err_invariant [where P = solvent]) (auto intro: add_media_solvent)

lemma create_order_solvent:
  assumes "solvent d" and "create_order now s S c n d = Inr (ord, d')"
  shows "solvent d'"
proof -
  obtain e where "create_order_row now c n None d = Inr (ord, e)"
    and m: "fold_err (\<lambda>k. add_media (o_id ord) c MT_CUSTOMER_REQUEST k ''image/jpeg'' 0 None None)
      (no_request_media_keys n) e = Inr d'"
    using assms(2) by (auto simp: create_order_def)
  then have "solvent e"
    using add_order_solvent [OF assms(1)]
    by (auto simp: create_order_row_def fresh_def Let_def under_way_def)
  then show ?thesis using m by (rule add_medias_solvent)
qed

lemma system_message_solvent:
  "solvent d \<Longrightarrow> write_system_message now s A iv c u t d = Inr d' \<Longrightarrow> solvent d'"
  by (auto simp: write_system_message_def add_system_message_def add_message_def fresh_def Let_def)

lemma create_conversation_solvent:
  "solvent d \<Longrightarrow> create_conversation now oid a b d = Inr (c, d') \<Longrightarrow> solvent d'"
  by (auto simp: create_conversation_def add_conversation_def fresh_def Let_def)

lemma assign_locked_solvent:
  assumes "solvent d" and "assign_locked now s A iv oid c d = Inr (ord, d')"
  shows "solvent d'"
proof -
  obtain old conv e where old: "get_order oid d = Some old" "o_status old = OS_NEW"
    and cv: "create_conversation now oid (o_customer_id old) c
      (put_order (old\<lparr>o_courier_id := Some c, o_status := OS_ASSIGNED, o_assigned_at := Some now\<rparr>) d) = Inr (conv, e)"
    and ms: "write_system_message now s A iv (cv_id conv) c ''A courier accepted your order.'' e = Inr d'"
    using assms(2) by (auto simp: assign_locked_def Let_def)
  have "solvent (put_order (old\<lparr>o_courier_id := Some c, o_status := OS_ASSIGNED, o_assigned_at := Some now\<rparr>) d)"
    by (rule put_order_solvent [OF assms(1)])
       (use old order_tab.get_key [OF old(1)] in \<open>auto simp: under_way_def\<close>)
  then show ?thesis using cv ms create_conversation_solvent system_message_solvent by blast
qed

lemma get_for_actorD: "get_for_actor oid a d = Some ord \<Longrightarrow> get_order oid d = Some ord"
  by (auto simp: get_for_actor_def split: option.splits if_splits)

lemma cancel_order_solvent:
  assumes "solvent d" and "cancel_order now oid a reason d = Inr (ord, d')"
  shows "solvent d'"
proof -
  obtain old where old: "get_order oid d = Some old" "can_transition (o_status old) OS_CANCELLED"
    and d': "d' = put_order (old\<lparr>o_status := OS_CANCELLED, o_cancelled_reason := reason\<rparr>) d"
    using assms(2) by (auto simp: cancel_order_def Let_def dest: get_for_actorD)
  show ?thesis unfolding d'
    by (rule put_order_solvent [OF assms(1)])
       (use old order_tab.get_key [OF old(1)] in \<open>auto simp: under_way_def\<close>)
qed

section \<open>Invoices\<close>

lemma put_invoice_solvent:
  assumes "solvent d" and "get_invoice (inv_id i) d = Some old" and "invoice_money i" and "sole_active i d"
    and "inv_order_id i = inv_order_id old" and "inv_total_amount i = inv_total_amount old"
    and "inv_status old = IS_PAID \<longleftrightarrow> inv_status i = IS_PAID"
    and "\<And>p. p \<in> set (payment_intents d) \<Longrightarrow> pi_status p = PI_NEW \<Longrightarrow> pi_reference_invoice_id p = Some (inv_id i) \<Longrightarrow>
      inv_status i \<noteq> IS_PAID \<Longrightarrow> inv_amount_from_wallet i + pi_amount p = inv_total_amount i"
  shows "solvent (put_invoice i d)"
proof -
  have S: "paper d" "keys_ok d" "escrow_at (owed d) d" using assms(1) by (auto simp: solvent_iff)
  have "paper (put_invoice i d)" by (rule put_invoice_paper [OF S(1) assms(2-5,8)])
  moreover have "owed (put_invoice i d) = owed d"
    by (rule owed_put_invoice [OF solventD(11) [OF assms(1)] assms(2,5-7)])
  moreover have "keys_ok (put_invoice i d)"
    using S(2) assms(2,7) unfolding keys_ok_def by (auto simp: invoice_tab.get_put)
  ultimately show ?thesis using S(3) by (simp add: solvent_iff)
qed

lemma add_invoice_solvent:
  assumes "solvent d" and "inv_id i = next_id d" and "invoice_money i" and "sole_active i d"
    and "inv_status i \<noteq> IS_PAID" and "past_new i d"
  shows "solvent (add_invoice i (d\<lparr>next_id := next_id d + 1\<rparr>))"
proof -
  let ?d = "add_invoice i (d\<lparr>next_id := next_id d + 1\<rparr>)"
  note S = solventD [OF assms(1)]
  have rows: "inv_id j < next_id d \<and> invoice_money j \<and> sole_active j d" if "j \<in> set (invoices d)" for j
    using S(5) that by (auto simp: invoices_ok_def list_all_iff)
  have inv: "invoices (add_invoice i e) = invoices e @ [i]" for e by (simp add: add_invoice_def)
  have sole: "sole_active j ?d" if "j = i \<or> j \<in> set (invoices d)" for j
    using that rows [of j] assms(2,4) by (auto simp: sole_active_def list_all_iff inv)
  have "next_id d \<notin> inv_id ` set (invoices d)" using rows by fastforce
  then have "invoices_ok ?d"
    using S(5,11) rows sole assms(2,3) by (auto simp: invoices_ok_def inv list_all_iff, auto simp: add_invoice_def less_SucI)
  moreover have found: "get_invoice n ?d = Some x" if "get_invoice n d = Some x" for n x
    using that by (simp add: get_invoice_def inv find_by_append)
  have "intent_ok p ?d" if "intent_ok p d" for p
  proof -
    have "next_id ?d = next_id d + 1" by (simp add: add_invoice_def)
    with that found show ?thesis
      by (cases "pi_reference_invoice_id p"; cases "get_invoice (the (pi_reference_invoice_id p)) d")
         (auto simp: intent_ok_def)
  qed
  then have "intents_ok ?d" using S(6) by (auto simp: intents_ok_def list_all_iff add_invoice_def)
  moreover have "keys_ok ?d"
    using S(7) found unfolding keys_ok_def idempotency_key_exists_def
    by (simp add: get_order_def, simp add: add_invoice_def, blast)
  moreover have "paid_sum n ?d = paid_sum n d" for n using assms(5) by (simp add: paid_sum_def inv)
  then have "owed ?d = owed d" by (simp add: owed_def, simp add: add_invoice_def)
  then have "escrow_ok ?d"
    using S(8) by (simp add: escrow_ok_def get_system_def balance_of_def get_wallet_def add_invoice_def)
  moreover have "orders_ok ?d" "withdrawals_ok ?d" "promos_money ?d" "books ?d" "covered ?d"
    using S assms(6) by (auto simp: covered_def orders_ok_def past_new_def withdrawals_ok_def user_wallet_def get_wallet_def promos_money_def
        add_invoice_def list_all_iff)
  ultimately show ?thesis by (simp add: solvent_def)
qed

text \<open>The rates pass the check at start-up and the configured fee bounds are whole halalas.\<close>

definition fees_ok :: "settings \<Rightarrow> bool" where
  "fees_ok s \<longleftrightarrow> validate_rates s = Inr () \<and> is_money (SERVICE_FEE_MIN_AMOUNT (business_of s)) \<and> is_money (SERVICE_FEE_MAX_AMOUNT (business_of s))"

lemma price_lines_tax_money:
  "x \<in> set (price_lines k items nets allocs) \<Longrightarrow> is_money (pl_line_tax_amount x)"
  by (induction k items nets allocs rule: price_lines.induct) (auto simp: price_line_def Let_def)

lemma compute_discount_money:
  assumes "compute_discount base promo = Inr x" and "is_money base"
    and "\<And>p. promo = Some p \<Longrightarrow> money_opt (pp_fixed_amount p) \<and> money_opt (pp_max_discount_amount p)"
  shows "is_money x"
  using assms
  by (auto simp: compute_discount_def money_opt_def Let_def is_money_min
      split: option.splits promo_discount_kind.splits)

lemma result_money:
  assumes "calculate_invoice_totals items fee promo cfg = Inr r"
    and "is_money (service_fee_min_amount cfg)" "is_money (service_fee_max_amount cfg)"
    and "\<And>p. promo = Some p \<Longrightarrow> money_opt (pp_fixed_amount p) \<and> money_opt (pp_max_discount_amount p)"
  shows "is_money (res_total_amount r)" "is_money (res_items_net_amount r)" "is_money (res_courier_fee_amount r)"
    "is_money (res_tax_amount r)"
proof -
  have nets: "is_money (sum_list (map line_net items))"
    by (rule is_money_sum_list) (auto simp: line_net_def)
  define base where "base = sum_list (map line_net items) + quantize_money fee"
  have base: "is_money base" using nets by (simp add: base_def is_money_add)
  obtain x la ca where x: "compute_discount base promo = Inr x"
    and tax: "res_tax_amount r = sum_list (map pl_line_tax_amount (price_lines 0 items (map line_net items) la))
      + (quantize_money ((quantize_money fee - ca) * default_vat_rate cfg)
         + quantize_money (compute_service_fee base cfg * default_vat_rate cfg))"
    and rest: "res_items_net_amount r = sum_list (map line_net items)" "res_courier_fee_amount r = quantize_money fee"
      "res_total_amount r = sum_list (map line_net items) + quantize_money fee + compute_service_fee base cfg - x
        + res_tax_amount r"
    using assms(1) unfolding calculate_invoice_totals_def Let_def base_def by (auto split: prod.splits)
  have t: "is_money (res_tax_amount r)"
    unfolding tax using price_lines_tax_money
    by (intro is_money_add is_money_sum_list quantize_money_is_money) auto
  have "is_money x" by (rule compute_discount_money [OF x base assms(4)])
  then show "is_money (res_total_amount r)"
    unfolding rest by (intro is_money_add is_money_diff nets quantize_money_is_money t is_money_service_fee assms(2,3))
  show "is_money (res_items_net_amount r)" "is_money (res_courier_fee_amount r)" "is_money (res_tax_amount r)"
    using nets t rest by simp_all
qed

lemma add_items_solvent:
  "solvent d \<Longrightarrow> fold_err (add_item n) ls d = Inr d' \<Longrightarrow>
     solvent d' \<and> get_invoice m d' = get_invoice m d \<and> promos d' = promos d \<and> invoices d' = invoices d \<and>
     payment_intents d' = payment_intents d \<and> orders d' = orders d"
  by (rule fold_err_invariant [where P = "\<lambda>e. solvent e \<and> get_invoice m e = get_invoice m d \<and> promos e = promos d \<and>
        invoices e = invoices d \<and> payment_intents e = payment_intents d \<and> orders e = orders d"])
     (auto simp: add_item_def fresh_def Let_def get_invoice_def)

lemma reserve_solvent:
  assumes "solvent d" and "reserve now p u iid oid amt d = Inr d'" and "get_promo (pr_id p) d = Some p"
  shows "solvent d'" and "promo_frame d d'"
proof -
  note S = solventD [OF assms(1)]
  have inv: "promo_inv d" "user_caps d" using S(1) by (auto simp: books_def)
  obtain q r where E: "promos d' = map (\<lambda>x. if pr_id x = pr_id p then x\<lparr>pr_used_count := pr_used_count x + 1\<rparr> else x)
        (promos d)" "next_id d' = next_id d + 1" "promo_frame d d'"
    by (rule reserve_effect [OF assms(2) inv(1)]) blast
  then show "promo_frame d d'" by simp
  have "promo_inv d'" by (rule reserve_keeps [OF assms(2) inv(1)])
  moreover have "user_caps d'" by (rule reserve_keeps_user_caps [OF assms(2) inv]) (simp add: assms(3))
  moreover have "ledger_ok d'" by (rule promo_frame_ledger [OF E(3) S(2)]) (simp add: E(2))
  ultimately have "books d'" by (simp add: books_def)
  moreover have "promos_money d'" using S(3) by (auto simp: promos_money_def list_all_iff E(1))
  ultimately show "solvent d'" using promo_solvent [OF E(3) _ _ _ assms(1)] E(2) by simp
qed


lemma promo_optD:
  assumes "invoice_promo now code base u d = Inr po" and "books d" and "po = Some p"
  shows "get_promo (pr_id p) d = Some p"
proof -
  obtain c where "find_by pr_code c (promos d) = Some p"
    using assms(1,3) by (auto simp: invoice_promo_def validate_def get_by_code_def split: option.splits if_splits)
  then have "p \<in> set (promos d)" by (auto dest: find_by_SomeD)
  moreover have "distinct (map pr_id (promos d))" using assms(2) by (simp add: books_def promo_inv_def)
  ultimately show ?thesis by (simp add: get_promo_def find_by_mem)
qed

lemma fresh_invoice_intents:
  assumes "solvent d" and "p \<in> set (payment_intents d)" and "pi_status p = PI_NEW"
    and "pi_reference_invoice_id p = Some n"
  shows "n < next_id d"
proof -
  obtain i where i: "get_invoice n d = Some i"
    using solventD(6) [OF assms(1)] assms(2-4)
    by (auto simp: intents_ok_def list_all_iff intent_ok_def split: option.splits)
  then show ?thesis
    using invoice_row [OF assms(1) i] solventD(5) [OF assms(1)] by (auto simp: invoices_ok_def list_all_iff)
qed

lemma write_invoice_solvent:
  assumes "solvent d" and "write_invoice now s ord c po r d = Inr (i, d')"
    and ord: "get_order (o_id ord) d = Some ord" "can_transition (o_status ord) OS_WAITING_PAYMENT"
    and po: "\<And>p. po = Some p \<Longrightarrow> get_promo (pr_id p) d = Some p"
    and m: "is_money (res_total_amount r)" "is_money (res_items_net_amount r)" "is_money (res_courier_fee_amount r)"
      "is_money (res_tax_amount r)"
  shows "solvent d'"
proof -
  obtain j d1 d2 d3 where cd: "create_draft (o_id ord) c r (map_option pr_id po) (map_option pr_code po) d = Inr (j, d1)"
    and it: "fold_err (add_item (inv_id j)) (res_lines r) d1 = Inr d2"
    and rs: "(case po of None \<Rightarrow> Inr d2 | Some p \<Rightarrow> reserve now p (o_customer_id ord) (inv_id j) (o_id ord)
        (res_discount_amount r) d2) = Inr d3"
    and d': "d' = put_order (ord\<lparr>o_status := OS_WAITING_PAYMENT, o_total_amount := res_total_amount r\<rparr>)
        (put_invoice (j\<lparr>inv_status := IS_ISSUED, inv_issued_at := Some now,
           inv_expires_at := Some (now + PAYMENT_EXPIRY_HOURS (business_of s) * 3600000000)\<rparr>) d3)"
    and sole: "sole_active (j\<lparr>inv_status := IS_ISSUED, inv_issued_at := Some now,
           inv_expires_at := Some (now + PAYMENT_EXPIRY_HOURS (business_of s) * 3600000000)\<rparr>) d3"
    using assms(2) by (auto simp: write_invoice_def issue_def Let_def)
  have j: "inv_id j = next_id d" "inv_status j = IS_DRAFT" "invoice_money j"
    "d1 = add_invoice j (d\<lparr>next_id := next_id d + 1\<rparr>)" "sole_active j d" "inv_order_id j = o_id ord"
    using cd m by (auto simp: create_draft_def fresh_def Let_def invoice_money_def chk_invoice_def sole_active_def)
  have "past_new j d"
    using order_tab.get_mem [OF ord(1)] ord(2) j(6) by (auto simp: past_new_def list_ex_iff intro!: bexI [of _ ord])
  then have s1: "solvent d1" unfolding j(4) by (intro add_invoice_solvent [OF assms(1)]) (use j in auto)
  note I = add_items_solvent [OF s1 it]
  have po2: "\<And>p. po = Some p \<Longrightarrow> get_promo (pr_id p) d2 = Some p"
    using po I by (simp add: get_promo_def, simp add: j(4) add_invoice_def)
  have s3: "solvent d3" and fr: "promo_frame d2 d3"
    using rs I reserve_solvent [of d2] po2 by (auto split: option.splits)
  note t = promo_frame_tables [OF fr]
  have inv: "get_invoice (inv_id j) d3 = Some j"
  proof -
    have "get_invoice (next_id d) d = None"
      using solventD(5) [OF assms(1)] by (auto simp: get_invoice_def find_by_None invoices_ok_def list_all_iff)
    then show ?thesis using t I j(1) by (simp add: get_invoice_def, simp add: j(4) add_invoice_def find_by_append find_by_Cons)
  qed
  have s4: "solvent (put_invoice (j\<lparr>inv_status := IS_ISSUED, inv_issued_at := Some now,
           inv_expires_at := Some (now + PAYMENT_EXPIRY_HOURS (business_of s) * 3600000000)\<rparr>) d3)"
  proof (rule put_invoice_solvent [OF s3 _ _ sole])
    fix p assume "p \<in> set (payment_intents d3)" "pi_status p = PI_NEW"
      "pi_reference_invoice_id p = Some (inv_id (j\<lparr>inv_status := IS_ISSUED, inv_issued_at := Some now,
           inv_expires_at := Some (now + PAYMENT_EXPIRY_HOURS (business_of s) * 3600000000)\<rparr>))"
    then have "next_id d < next_id d"
      using fresh_invoice_intents [OF assms(1), of p "next_id d"] t I j(1) by (simp add: j(4) add_invoice_def)
    then show "inv_amount_from_wallet (j\<lparr>inv_status := IS_ISSUED, inv_issued_at := Some now,
           inv_expires_at := Some (now + PAYMENT_EXPIRY_HOURS (business_of s) * 3600000000)\<rparr>) + pi_amount p =
        inv_total_amount (j\<lparr>inv_status := IS_ISSUED, inv_issued_at := Some now,
           inv_expires_at := Some (now + PAYMENT_EXPIRY_HOURS (business_of s) * 3600000000)\<rparr>)" by simp
  qed (use inv j in \<open>auto simp: invoice_money_def\<close>)
  have "get_order (o_id ord) d3 = Some ord"
    using ord(1) t I by (simp add: get_order_def, simp add: j(4) add_invoice_def)
  then show ?thesis unfolding d'
    by (intro put_order_solvent [OF s4]) (use ord(2) in \<open>auto simp: under_way_def\<close>)
qed

lemma create_invoice_solvent:
  assumes "solvent d" and "fees_ok s" and "create_invoice now s oid c n d = Inr (i, d')"
  shows "solvent d'"
proof -
  obtain ord po r where ord: "get_order oid d = Some ord" "can_transition (o_status ord) OS_WAITING_PAYMENT"
    and po: "invoice_promo now (ni_promo_code n) (discountable_base (pricing_items (ni_items n)) (ni_courier_fee_amount n))
        (o_customer_id ord) d = Inr po"
    and r: "calculate_invoice_totals (pricing_items (ni_items n)) (ni_courier_fee_amount n) (map_option to_pricing_promo po)
        (pricing_config_of s) = Inr r"
    and w: "write_invoice now s ord c po r d = Inr (i, d')"
    using assms(3) by (auto simp: create_invoice_def Let_def dest: get_for_actorD)
  note P = promo_optD [OF po solventD(1) [OF assms(1)]]
  have promo_m: "\<And>p. map_option to_pricing_promo po = Some p \<Longrightarrow>
      money_opt (pp_fixed_amount p) \<and> money_opt (pp_max_discount_amount p)"
    using P promo_row_money [OF solventD(3) [OF assms(1)]] by (auto simp: to_pricing_promo_def)
  have cfg: "is_money (service_fee_min_amount (pricing_config_of s))" "is_money (service_fee_max_amount (pricing_config_of s))"
    using assms(2) by (auto simp: fees_ok_def pricing_config_of_def Let_def)
  show ?thesis
    by (rule write_invoice_solvent [OF assms(1) w _ ord(2) P result_money [OF r cfg promo_m]])
       (use ord(1) order_tab.get_key [OF ord(1)] in auto)
qed

lemma open_intent_amount:
  assumes "solvent d" and "p \<in> set (payment_intents d)" and "pi_status p = PI_NEW"
    and "pi_reference_invoice_id p = Some n" and "get_invoice n d = Some i" and "inv_status i \<noteq> IS_PAID"
  shows "inv_amount_from_wallet i + pi_amount p = inv_total_amount i"
  using solventD(6) [OF assms(1)] assms(2-6) by (auto simp: intents_ok_def list_all_iff intent_ok_def)

lemma close_invoice_solvent:
  assumes "solvent d" and "get_invoice (inv_id i) d = Some i" and "inv_status i \<noteq> IS_PAID" and "st \<noteq> IS_PAID"
    and "sole_active (i\<lparr>inv_status := st\<rparr>) d"
  shows "solvent (put_invoice (i\<lparr>inv_status := st\<rparr>) d)"
proof (rule put_invoice_solvent [OF assms(1) _ _ assms(5)])
  fix p assume "p \<in> set (payment_intents d)" "pi_status p = PI_NEW"
    "pi_reference_invoice_id p = Some (inv_id (i\<lparr>inv_status := st\<rparr>))"
  then show "inv_amount_from_wallet (i\<lparr>inv_status := st\<rparr>) + pi_amount p = inv_total_amount (i\<lparr>inv_status := st\<rparr>)"
    using open_intent_amount [OF assms(1)] assms(2,3) by simp
qed (use assms invoice_row(3) [OF assms(1,2)] in \<open>auto simp: invoice_money_def\<close>)

lemma cancel_invoice_solvent:
  assumes "solvent d" and "cancel_invoice now n c d = Inr (i, d')"
  shows "solvent d'"
proof -
  obtain old ord e where old: "get_invoice n d = Some old" "inv_status old = IS_ISSUED"
    and ord: "get_order (inv_order_id old) d = Some ord" "can_transition (o_status ord) OS_ASSIGNED"
    and rl: "release now (inv_id old) d = Inr e"
    and sole: "sole_active (old\<lparr>inv_status := IS_CANCELLED\<rparr>) e"
    and d': "d' = put_order (ord\<lparr>o_status := OS_ASSIGNED, o_total_amount := 0\<rparr>)
        (put_invoice (old\<lparr>inv_status := IS_CANCELLED\<rparr>) e)"
    using assms(2) by (auto simp: cancel_invoice_def lock_for_courier_def Let_def split: option.splits if_splits)
  note R = release_solvent [OF assms(1) rl] and t = promo_frame_tables [OF release_solvent(2) [OF assms(1) rl]]
  note I = invoice_row [OF assms(1) old(1)]
  have "solvent (put_invoice (old\<lparr>inv_status := IS_CANCELLED\<rparr>) e)"
    by (rule close_invoice_solvent [OF R(1) _ _ _ sole]) (use old I t in \<open>auto simp: get_invoice_def\<close>)
  moreover have "get_order (inv_order_id old) e = Some ord" using ord(1) t by (simp add: get_order_def)
  ultimately show ?thesis unfolding d'
    by (intro put_order_solvent) (use ord order_tab.get_key [OF ord(1)] in \<open>auto simp: under_way_def\<close>)
qed

section \<open>Payments\<close>

lemma put_intent_solvent:
  assumes "solvent d" and "p' \<in> set (payment_intents d)" and "pi_id p' = pi_id p" and "intent_ok p d"
  shows "solvent (put_intent p d)"
proof -
  note S = solventD [OF assms(1)]
  have ok: "intent_ok q (put_intent p d) = intent_ok q d" for q
    by (cases "pi_reference_invoice_id q") (simp_all add: intent_ok_def, simp_all add: put_intent_def)
  have "intents_ok (put_intent p d)"
    using S(6) assms(4) by (auto simp: intents_ok_def ok) (auto simp: put_intent_def intro!: list_all_put_by)
  moreover have "books (put_intent p d)" "promos_money (put_intent p d)" "orders_ok (put_intent p d)"
    "invoices_ok (put_intent p d)" "covered (put_intent p d)"
    using S by (simp_all add: put_intent_def promos_money_def orders_ok_def past_new_def invoices_ok_def sole_active_def covered_def)
  moreover have "withdrawals_ok (put_intent p d) = withdrawals_ok d"
    by (simp add: withdrawals_ok_def user_wallet_def, simp add: put_intent_def)
  moreover have "keys_ok (put_intent p d) = keys_ok d" by (simp add: keys_ok_def)
  moreover have "owed (put_intent p d) = owed d" by (rule owed_cong) (simp_all add: put_intent_def)
  ultimately show ?thesis using assms(1) by (simp add: solvent_iff paper_def)
qed

lemma add_intent_solvent:
  assumes "solvent d" and "pi_id p = next_id d" and "intent_ok p (d\<lparr>next_id := next_id d + 1\<rparr>)"
  shows "solvent (add_intent p (d\<lparr>next_id := next_id d + 1\<rparr>))"
proof -
  let ?d = "add_intent p (d\<lparr>next_id := next_id d + 1\<rparr>)"
  note S = solventD [OF assms(1)]
  have new: "next_id d \<notin> pi_id ` set (payment_intents d)"
    using S(6) by (auto simp: intents_ok_def list_all_iff intent_ok_def)
  have "intent_ok q d \<Longrightarrow> intent_ok q ?d" for q by (rule intent_ok_cong) (simp_all add: add_intent_def)
  moreover have "intent_ok p ?d" by (rule intent_ok_cong [OF _ _ assms(3)]) (simp_all add: add_intent_def)
  ultimately have "intents_ok ?d"
    using S(6) new assms(2) by (auto simp: intents_ok_def list_all_iff) (auto simp: add_intent_def)
  moreover have "keys_ok ?d"
    using S(7) by (simp add: keys_ok_def idempotency_key_exists_def get_order_def get_invoice_def add_intent_def)
  moreover have "owed ?d = owed d" by (rule owed_cong) (simp_all add: add_intent_def)
  then have "escrow_ok ?d"
    using S(8) by (simp add: escrow_ok_def get_system_def balance_of_def get_wallet_def add_intent_def)
  moreover have "orders_ok ?d" "invoices_ok ?d" "withdrawals_ok ?d" "promos_money ?d" "books ?d" "covered ?d"
    using S by (auto simp: covered_def orders_ok_def past_new_def invoices_ok_def sole_active_def withdrawals_ok_def
        user_wallet_def get_wallet_def promos_money_def add_intent_def list_all_iff)
  ultimately show ?thesis by (simp add: solvent_def)
qed

text \<open>An intent that is created and then gets its link is appended with the link.\<close>

lemma attach_added:
  assumes "pi_id p = next_id d" and "intents_ok d" and "pi_id p' = pi_id p"
  shows "put_intent p' (add_intent p (d\<lparr>next_id := n\<rparr>)) = add_intent p' (d\<lparr>next_id := n\<rparr>)"
proof -
  have "next_id d \<notin> pi_id ` set (payment_intents d)"
    using assms(2) by (auto simp: intents_ok_def list_all_iff intent_ok_def)
  then have "put_by pi_id p' (payment_intents d @ [p]) = payment_intents d @ [p']"
    using assms(1,3) by (force simp: put_by_def intro: map_idI)
  then show ?thesis by (simp add: put_intent_def add_intent_def)
qed

lemma attach_streampayD:
  assumes "attach_streampay p l url d = Inr (q, d')"
  shows "d' = put_intent q d" "pi_id q = pi_id p" "pi_streampay_payment_url q = Some url" "pi_amount q = pi_amount p"
    "pi_reference_invoice_id q = pi_reference_invoice_id p"
  using assms by (auto simp: attach_streampay_def Let_def)

lemma create_topup_solvent:
  assumes "solvent d" and "create_topup now s G u a d = Inr (r, d')"
  shows "solvent d'"
proof -
  obtain p q e f link url and w :: wallet where c: "create_intent now u PP_WALLET_TOPUP (quantize_money a) None (payment_expiry now s) d = Inr (p, e)"
    and t: "create_topup_row u (w_id w) (pi_id p) (quantize_money a) e = Inr f"
    and at: "attach_streampay p link url f = Inr (q, d')"
    using assms(2) by (auto simp: create_topup_def Let_def)
  note q = attach_streampayD [OF at]
  have p: "pi_id p = next_id d" "e = add_intent p (d\<lparr>next_id := next_id d + 1\<rparr>)" "0 < quantize_money a"
    "pi_amount p = quantize_money a" "pi_reference_invoice_id p = None"
    using c by (auto simp: create_intent_def fresh_def Let_def chk_intent_def)
  obtain x n where "f = e\<lparr>next_id := n, wallet_topups := x\<rparr>" "next_id e \<le> n"
    using t by (auto simp: create_topup_row_def fresh_def Let_def)
  then have f: "d' = (put_intent q e)\<lparr>next_id := n, wallet_topups := x\<rparr>" "next_id (put_intent q e) \<le> n"
    by (simp_all add: q(1) put_intent_def)
  have "put_intent q e = add_intent q (d\<lparr>next_id := next_id d + 1\<rparr>)"
    unfolding p(2) by (rule attach_added [OF p(1) solventD(6) [OF assms(1)] q(2)])
  moreover have "solvent (add_intent q (d\<lparr>next_id := next_id d + 1\<rparr>))"
    by (rule add_intent_solvent [OF assms(1)]) (use p q in \<open>auto simp: intent_ok_def\<close>)
  ultimately show ?thesis using f by simp
qed

lemma no_open_intent:
  "open_intent_for_invoice n d = None \<Longrightarrow> p \<in> set (payment_intents d) \<Longrightarrow> pi_status p = PI_NEW \<Longrightarrow>
     pi_reference_invoice_id p \<noteq> Some n"
  by (auto simp: open_intent_for_invoice_def find_None_iff)

lemma open_intentD:
  assumes "open_intent_for_invoice n d = Some p"
  shows "p \<in> set (payment_intents d)" "pi_status p = PI_NEW" "pi_reference_invoice_id p = Some n"
  using assms by (auto simp: open_intent_for_invoice_def find_Some_iff)

lemma pay_through_gateway_solvent:
  assumes "solvent d" and "pay_through_gateway now s G i u w a g d = Inr (r, d')"
    and i: "get_invoice (inv_id i) d = Some i" "inv_status i = IS_ISSUED" and none: "open_intent_for_invoice (inv_id i) d = None"
    and m: "is_money a" "0 \<le> a" "is_money g" "a + g = inv_total_amount i"
  shows "solvent d'"
proof -
  define j where "j = i\<lparr>inv_amount_from_wallet := a, inv_amount_from_gateway := g,
               inv_payment_method := Some (if a > 0 then PM_SPLIT else PM_GATEWAY_ONLY)\<rparr>"
  obtain d1 e p q link url where h: "(if a > 0 then hold_funds (w_id w) a d else Inr d) = Inr d1"
    and sole: "sole_active j d1"
    and c: "create_intent now u PP_ORDER_INVOICE g (Some (inv_id i)) (payment_expiry now s) (put_invoice j d1) = Inr (p, e)"
    and at: "attach_streampay p link url e = Inr (q, d')"
    using assms(2) by (auto simp: pay_through_gateway_def Let_def j_def)
  note q = attach_streampayD [OF at]
  have h1: "moves 0 {} d d1"
    using h moves_hold [OF solventD(1,13) [OF assms(1)]] moves_refl [OF solventD(1,13) [OF assms(1)]]
    by (auto split: if_splits)
  note s1 = quiet_solvent [OF h1 assms(1)] and t = moves_paper [OF h1 assms(1)]
  have i1: "get_invoice (inv_id j) d1 = Some i" using i t(8) by (simp add: get_invoice_def j_def)
  define d2 where "d2 = put_invoice j d1"
  have s2: "solvent d2" unfolding d2_def
    by (rule put_invoice_solvent [OF s1 i1 _ sole])
       (use i m invoice_row(3) [OF assms(1) i(1)] no_open_intent [OF none] t(9) in \<open>auto simp: j_def invoice_money_def\<close>)
  have p: "pi_id p = next_id d2" "e = add_intent p (d2\<lparr>next_id := next_id d2 + 1\<rparr>)" "0 < g"
    "pi_amount p = g" "pi_reference_invoice_id p = Some (inv_id i)"
    using c unfolding d2_def [symmetric] by (auto simp: create_intent_def fresh_def Let_def chk_intent_def)
  have "d' = add_intent q (d2\<lparr>next_id := next_id d2 + 1\<rparr>)"
    unfolding q(1) p(2) by (rule attach_added [OF p(1) solventD(6) [OF s2] q(2)])
  moreover have inv: "get_invoice (inv_id i) (d2\<lparr>next_id := next_id d2 + 1\<rparr>) = Some j"
  proof -
    have "inv_id j = inv_id i" by (simp add: j_def)
    with i1 have "get_invoice (inv_id i) d2 = Some j" by (simp add: d2_def invoice_tab.get_put)
    then show ?thesis by (simp add: get_invoice_def)
  qed
  have "intent_ok q (d2\<lparr>next_id := next_id d2 + 1\<rparr>)"
    using p q m inv by (simp add: intent_ok_def) (simp add: j_def)
  ultimately show ?thesis using add_intent_solvent [OF s2, of q] p(1) q(2) by simp
qed

lemma settle_record_solvent:
  assumes "solvent d" and m: "moves (inv_total_amount i) {escrow_key (inv_id i)} d e"
    and "settle_invoice_record now i ord meth a g e = Inr d'"
    and i: "get_invoice (inv_id i) d = Some i" "inv_status i \<noteq> IS_PAID" and ord: "get_order (inv_order_id i) d = Some ord"
    and a: "is_money a" "0 \<le> a"
  shows "solvent d'"
proof -
  define j where "j = i\<lparr>inv_status := IS_PAID, inv_paid_at := Some now, inv_payment_method := Some meth,
                inv_amount_from_wallet := quantize_money a, inv_amount_from_gateway := quantize_money g\<rparr>"
  obtain f where tr: "can_transition (o_status ord) OS_IN_PROGRESS" and c: "consume now (inv_id i) e = Inr f"
    and sole: "sole_active j f" and d': "d' = put_order (ord\<lparr>o_status := OS_IN_PROGRESS\<rparr>) (put_invoice j f)"
    using assms(3) by (auto simp: settle_invoice_record_def Let_def j_def)
  note k = order_tab.get_key [OF ord]
  show ?thesis unfolding d'
    by (rule invoice_pays [OF assms(1) _ c, where old = i and ord = ord])
       (use m i ord k tr sole a invoice_row(3) [OF assms(1) i(1)] in
         \<open>auto simp: j_def invoice_money_def under_way_def quantize_money_nonneg\<close>)
qed

lemma unpaid_unfunded:
  assumes "solvent d" and "get_invoice n d = Some i" and "inv_status i \<noteq> IS_PAID"
  shows "\<not> idempotency_key_exists (escrow_key n) d"
  using solventD(7) [OF assms(1)] assms(2,3) by (auto simp: keys_ok_def)

lemma available_free:
  assumes "solvent d" and "get_by_user u d = Some w"
  shows "available_balance u d = balance_of (w_id w) d - held_of (w_id w) d" "0 \<le> available_balance u d"
    "is_money (available_balance u d)"
proof -
  note S = solventD [OF assms(1)] and W = get_by_user_wallet [OF solventD(2) [OF assms(1)] assms(2)]
  have "w \<in> set (wallets d)" using W(2) by (rule wallet_tab.get_mem)
  then have "is_money (w_balance w - w_held_balance w)"
    using ledger_okD(3,4) [OF S(2)] by (simp add: is_money_diff)
  then show eq: "available_balance u d = balance_of (w_id w) d - held_of (w_id w) d"
    using assms(2) W(2) by (simp add: available_balance_def balance_of_def held_of_def quantize_money_id)
  show "0 \<le> available_balance u d" using S(13) W(1) covered_iff [OF S(2)] by (simp add: eq)
  show "is_money (available_balance u d)" using assms(2) by (simp add: available_balance_def)
qed

lemma pay_invoice_solvent:
  assumes "solvent d" and "pay_invoice now s G n u d = Inr (r, d')"
  shows "solvent d'"
proof -
  obtain i ord w where i: "get_invoice n d = Some i" "inv_status i = IS_ISSUED"
    and ord: "get_order (inv_order_id i) d = Some ord" and w: "get_by_user u d = Some w"
    and p: "(let amount = quantize_money (inv_total_amount i);
           wallet_amount = min (available_balance u d) amount;
           gateway_amount = quantize_money (amount - wallet_amount)
       in if gateway_amount \<le> 0 then pay_from_balance now i ord w amount d
          else case open_intent_for_invoice (inv_id i) d of
                 Some p \<Rightarrow> (case pi_streampay_payment_url p of
                     Some url \<Rightarrow> Inr (\<lparr>pay_invoice_id = inv_id i, pay_status_of = PS_PENDING,
                       pay_from_wallet = inv_amount_from_wallet i, pay_from_gateway = pi_amount p,
                       pay_url = Some url\<rparr>, d)
                   | None \<Rightarrow> pay_through_gateway now s G i u w wallet_amount gateway_amount d)
               | None \<Rightarrow> pay_through_gateway now s G i u w wallet_amount gateway_amount d) = Inr (r, d')"
    using assms(2) by (auto simp: pay_invoice_def get_invoice_of_actor_def split: option.splits if_splits)
  note S = solventD [OF assms(1)] and I = invoice_row [OF assms(1) i(1)] and A = available_free [OF assms(1) w]
  note W = get_by_user_wallet [OF S(2) w]
  let ?t = "inv_total_amount i" let ?a = "min (available_balance u d) ?t"
  have t: "is_money ?t" "0 \<le> ?t" using I(3) by (auto simp: invoice_money_def)
  have a: "is_money ?a" "0 \<le> ?a" "is_money (?t - ?a)" using A t by (simp_all add: is_money_min is_money_diff)
  note q = quantize_money_id [OF t(1)] quantize_money_id [OF a(3)]
  note pay = p [unfolded Let_def q(1), unfolded q(2)]
  show ?thesis
  proof (cases "?t - ?a \<le> 0")
    case True
    obtain b e where f: "fund_escrow_for_invoice (w_id w) ?t 0 (inv_id i) (o_id ord) None False d = Inr (b, e)"
      and sr: "settle_invoice_record now i ord PM_WALLET_ONLY ?t 0 e = Inr d'"
      using pay True by (auto simp: pay_from_balance_def)
    note M = moves_fund [OF S(1,13) W(1) t(1) _ t(2) _ f]
    have b using M(2) A(1) True unpaid_unfunded [OF assms(1) i(1)] i I(2) by simp
    then have "moves ?t {escrow_key (inv_id i)} d e" using M(1) A(1) True by simp
    then show ?thesis by (rule settle_record_solvent [OF assms(1) _ sr]) (use i I(2) ord t in auto)
  next
    case False
    show ?thesis
    proof (cases "open_intent_for_invoice (inv_id i) d")
      case None
      then have "pay_through_gateway now s G i u w ?a (?t - ?a) d = Inr (r, d')" using pay False by simp
      then show ?thesis by (rule pay_through_gateway_solvent [OF assms(1)]) (use None i I(2) a in auto)
    next
      case (Some x)
      then have "pi_streampay_payment_url x \<noteq> None"
        using S(6) open_intentD [OF Some] by (auto simp: intents_ok_def list_all_iff intent_ok_def)
      then show ?thesis using pay False Some assms(1) by auto
    qed
  qed
qed

lemma intent_row:
  assumes "solvent d" and "p \<in> set (payment_intents d)"
  shows "is_money (pi_amount p)" "0 < pi_amount p" "pi_id p < next_id d"
  using solventD(6) [OF assms(1)] assms(2) by (auto simp: intents_ok_def list_all_iff intent_ok_def)

lemma close_intent_solvent:
  assumes "solvent d" and "p \<in> set (payment_intents d)" and "pi_id q = pi_id p" "pi_amount q = pi_amount p"
    and "pi_status q \<noteq> PI_NEW"
  shows "solvent (put_intent q d)"
  by (rule put_intent_solvent [OF assms(1,2)]) (use assms intent_row [OF assms(1,2)] in \<open>auto simp: intent_ok_def\<close>)

lemma settle_topup_solvent:
  assumes "solvent d" and "settle_topup p d = Inr e" and "p \<in> set (payment_intents d)"
  shows "solvent e" and "payment_intents e = payment_intents d"
proof -
  note S = solventD [OF assms(1)]
  obtain b and w :: wallet where w: "get_by_user (pi_user_id p) d = Some w"
    and c: "credit_topup (w_id w) (pi_amount p) (pi_id p) d = Inr (b, e)"
    using assms(2) by (auto simp: settle_topup_def)
  have m: "moves 0 {} d e"
    by (rule moves_topup [OF S(1,13) get_by_user_wallet(1) [OF S(2) w] _ c]) (use intent_row [OF assms(1,3)] in simp)
  show "solvent e" "payment_intents e = payment_intents d"
    using quiet_solvent [OF m assms(1)] moves_paper(9) [OF m assms(1)] by auto
qed

lemma settle_invoice_solvent:
  assumes "solvent d" and "settle_invoice now p d = Inr e" and p: "p \<in> set (payment_intents d)" "pi_status p = PI_NEW"
  shows "solvent e" and "payment_intents e = payment_intents d"
proof -
  note S = solventD [OF assms(1)]
  show "payment_intents e = payment_intents d"
    using on_okD [OF settle_invoice_books [OF S(1)] assms(2)] by simp
  obtain n i where n: "pi_reference_invoice_id p = Some n" and i: "get_invoice n d = Some i"
    using assms(2) by (auto simp: settle_invoice_def)
  note I = invoice_row [OF assms(1) i] and P = intent_row [OF assms(1) p(1)]
  have a: "is_money (inv_amount_from_wallet i)" "0 \<le> inv_amount_from_wallet i" using I(3) by (auto simp: invoice_money_def)
  show "solvent e"
  proof (cases "inv_status i = IS_PAID")
    case True
    then show ?thesis using assms(1,2) n i by (simp add: settle_invoice_def)
  next
    case False
    obtain ord b f and w :: wallet where ord: "get_order (inv_order_id i) d = Some ord"
      and w: "get_by_user (pi_user_id p) d = Some w"
      and fe: "fund_escrow_for_invoice (w_id w) (inv_amount_from_wallet i) (pi_amount p) (inv_id i)
           (o_id ord) (Some (pi_id p)) (inv_amount_from_wallet i > 0) d = Inr (b, f)"
      and sr: "settle_invoice_record now i ord (case inv_payment_method i of None \<Rightarrow> PM_GATEWAY_ONLY | Some m \<Rightarrow> m)
         (inv_amount_from_wallet i) (pi_amount p) f = Inr e"
      using assms(2) n i False by (auto simp: settle_invoice_def)
    note W = get_by_user_wallet [OF S(2) w]
    have free: "0 < inv_amount_from_wallet i \<or> inv_amount_from_wallet i \<le> balance_of (w_id w) d - held_of (w_id w) d"
      using a(2) S(13) W(1) covered_iff [OF S(2)] by (cases "inv_amount_from_wallet i = 0") auto
    note M = moves_fund [OF S(1,13) W(1) a(1) P(1) a(2) less_imp_le [OF P(2)] fe free]
    have b using M(2) unpaid_unfunded [OF assms(1) i False] I(2) by simp
    then have "moves (inv_total_amount i) {escrow_key (inv_id i)} d f"
      using M(1) open_intent_amount [OF assms(1) p n i False] by simp
    then show ?thesis by (rule settle_record_solvent [OF assms(1) _ sr]) (use i I(2) ord a False in auto)
  qed
qed

lemma settle_locked_solvent:
  assumes "solvent d" and "settle_locked now ev d = Inr (out, d')"
  shows "solvent d'"
proof -
  obtain p where p: "intent_by_link (ev_payment_link_id ev) d = Some p"
    using assms(2) by (auto simp: settle_locked_def)
  then have mem: "p \<in> set (payment_intents d)" by (auto simp: intent_by_link_def find_Some_iff)
  consider (old) "d' = d" | (failed) r where "mark_failed p r d = Inr d'"
    | (paid) e where "(if pi_purpose p = PP_WALLET_TOPUP then settle_topup p d else settle_invoice now p d) = Inr e"
        "mark_intent_paid p now e = Inr d'" "pi_status p = PI_NEW"
    using assms(2) p by (auto simp: settle_locked_def split: if_splits)
  then show ?thesis
  proof cases
    case old
    then show ?thesis using assms(1) by simp
  next
    case failed
    then show ?thesis using close_intent_solvent [OF assms(1) mem] by (auto simp: mark_failed_def)
  next
    case paid
    have "solvent e" "payment_intents e = payment_intents d"
      using paid(1) settle_topup_solvent [OF assms(1) _ mem] settle_invoice_solvent [OF assms(1) _ mem paid(3)]
      by (auto split: if_splits)
    then show ?thesis using paid(2) mem close_intent_solvent [of e p] by (auto simp: mark_intent_paid_def)
  qed
qed

section \<open>Fulfilment\<close>

lemma add_medias_orders:
  "fold_err (\<lambda>k. add_media oid u mt k ct sz l c) ks d = Inr d' \<Longrightarrow> orders d' = orders d"
  by (rule fold_err_invariant [where P = "\<lambda>e. orders e = orders d"]) (auto simp: add_media_def fresh_def Let_def)

lemma submit_delivery_solvent:
  assumes "solvent d" and "submit_delivery now s S dst oid c inp d = Inr (ord, d')"
  shows "solvent d'"
proof -
  obtain old e where old: "get_order oid d = Some old" "can_transition (o_status old) OS_DELIVERED"
    and m: "fold_err (\<lambda>k. add_media (o_id old) c MT_DELIVERY_PROOF k ''image/jpeg'' 0
           (Some (dl_longitude inp, dl_latitude inp)) (Some now)) (dl_proof_media_keys inp) d = Inr e"
    and d': "d' = put_order (old\<lparr>o_status := OS_DELIVERED, o_delivered_at := Some now\<rparr>) e"
    using assms(2) by (auto simp: submit_delivery_def Let_def)
  have "get_order oid e = Some old" using old(1) add_medias_orders [OF m] by (simp add: get_order_def)
  then show ?thesis unfolding d'
    by (intro put_order_solvent [OF add_medias_solvent [OF assms(1) m]])
       (use old order_tab.get_key [OF old(1)] in \<open>auto simp: under_way_def\<close>)
qed

lemma paid_invoice_ofD:
  assumes "solvent d" and "paid_invoice_of ord d = Inr i"
  shows "i \<in> set (invoices d)" "inv_status i = IS_PAID" "inv_order_id i = o_id ord" "invoice_money i"
proof -
  show i: "i \<in> set (invoices d)" "inv_status i = IS_PAID" "inv_order_id i = o_id ord"
    using assms(2) by (auto simp: paid_invoice_of_def get_active_for_order_def find_Some_iff)
  show "invoice_money i" using solventD(5) [OF assms(1)] i(1) by (auto simp: invoices_ok_def list_all_iff)
qed

text \<open>The settlement of an invoice pays its total out, and nobody a negative amount.\<close>

lemma settlement_parts:
  assumes "invoice_money i" and "fees_ok s" and "st = invoice_settlement s i"
  shows "is_money (courier_payout_amount st)" "is_money (settle_tax_amount st)" "is_money (platform_revenue_amount st)"
    "0 \<le> courier_payout_amount st"
    "courier_payout_amount st + settle_tax_amount st + platform_revenue_amount st = inv_total_amount i"
proof -
  let ?b = "inv_items_net_amount i + inv_courier_fee_amount i" and ?r = "PLATFORM_COMMISSION_RATE (business_of s)"
  have m: "is_money (inv_items_net_amount i)" "is_money (inv_courier_fee_amount i)" "is_money (inv_tax_amount i)"
    "is_money (inv_total_amount i)" "0 \<le> ?b" "is_money ?b"
    using assms(1) by (auto simp: invoice_money_def is_money_add)
  have r: "0 \<le> ?r" "?r \<le> 1" using assms(2) by (auto simp: fees_ok_def validate_rates_def Let_def)
  note E = compute_settlement_exact [OF m(1-4), of ?r, folded invoice_settlement_def, folded assms(3)]
  show "is_money (courier_payout_amount st)" "is_money (settle_tax_amount st)" "is_money (platform_revenue_amount st)"
    using m by (simp_all add: E is_money_diff is_money_add)
  have "?b * ?r \<le> ?b" using m(5) r(2) by (rule mult_left_le [rotated])
  then show "0 \<le> courier_payout_amount st" using quantize_money_le [OF _ m(6)] by (simp add: E)
  show "courier_payout_amount st + settle_tax_amount st + platform_revenue_amount st = inv_total_amount i"
    by (simp add: E)
qed

lemma unsettled:
  assumes "solvent d" and "get_order n d = Some ord" and "under_way (o_status ord)" and "k \<in> settle_keys n"
  shows "\<not> idempotency_key_exists k d"
  using solventD(7) [OF assms(1)] assms(2-4) by (auto simp: keys_ok_def under_way_def)

lemma release_to_courier_moves:
  assumes "solvent d" and "fees_ok s" and "paid_invoice_of ord d = Inr i" and "get_by_user c d = Some w"
    and "release_to_courier ord i w (invoice_settlement s i) d = Inr (b, e)"
    and "get_order (o_id ord) d = Some ord'" and "under_way (o_status ord')"
  shows "moves (- inv_total_amount i) {release_key (o_id ord)} d e"
proof -
  note S = solventD [OF assms(1)] and I = paid_invoice_ofD [OF assms(1,3)]
  note W = get_by_user_wallet [OF S(2) assms(4)] and P = settlement_parts [OF I(4) assms(2) refl]
  note M = moves_release [OF S(1,13) W(1) P(1-4) assms(5) [unfolded release_to_courier_def]]
  have "\<not> idempotency_key_exists (release_key (o_id ord)) d"
    by (rule unsettled [OF assms(1,6,7)]) (simp add: settle_keys_def)
  then show ?thesis using M(1) [unfolded P(5)] M(2) by simp
qed

lemma complete_and_release_solvent:
  assumes "solvent d" and "fees_ok s" and "get_order oid d = Some ord"
    and "complete_and_release now s ord d = Inr (r, d')"
  shows "solvent d'"
proof -
  obtain i c b e and w :: wallet where tr: "can_transition (o_status ord) OS_COMPLETED"
    and i: "paid_invoice_of ord d = Inr i" and w: "get_by_user c d = Some w"
    and rel: "release_to_courier ord i w (invoice_settlement s i) d = Inr (b, e)"
    and d': "d' = put_order (ord\<lparr>o_status := OS_COMPLETED, o_completed_at := Some now,
        o_commission_amount := commission_amount (invoice_settlement s i),
        o_courier_payout_amount := courier_payout_amount (invoice_settlement s i)\<rparr>) e"
    using assms(4) by (auto simp: complete_and_release_def Let_def)
  note k = order_tab.get_key [OF assms(3)] and I = paid_invoice_ofD [OF assms(1) i]
  have u: "under_way (o_status ord)" using tr by (auto simp: under_way_def)
  have "moves (- inv_total_amount i) {release_key (o_id ord)} d e"
    by (rule release_to_courier_moves [OF assms(1,2) i w rel _ u]) (use assms(3) k in simp)
  then show ?thesis unfolding d'
    by (rule order_settles [OF assms(1) _ _ _ u I(1,2)]) (use assms(3) k I in \<open>auto simp: settle_keys_def\<close>)
qed

lemma approve_order_solvent:
  "solvent d \<Longrightarrow> fees_ok s \<Longrightarrow> approve_order now s oid c d = Inr (ord, d') \<Longrightarrow> solvent d'"
  by (auto simp: approve_order_def intro: complete_and_release_solvent)

lemma auto_approve_solvent:
  "solvent d \<Longrightarrow> fees_ok s \<Longrightarrow> auto_approve now s oid d = Inr (b, d') \<Longrightarrow> solvent d'"
  by (auto simp: auto_approve_def intro: complete_and_release_solvent split: option.splits if_splits)

lemma raise_dispute_solvent:
  assumes "solvent d" and "raise_dispute now oid a reason d = Inr (x, d')"
  shows "solvent d'"
proof -
  obtain old where old: "get_order oid d = Some old" "can_transition (o_status old) OS_DISPUTED"
    and c: "create_dispute (o_id old) a reason (put_order (old\<lparr>o_status := OS_DISPUTED\<rparr>) d) = Inr (x, d')"
    using assms(2) by (auto simp: raise_dispute_def)
  have "solvent (put_order (old\<lparr>o_status := OS_DISPUTED\<rparr>) d)"
    by (rule put_order_solvent [OF assms(1)])
       (use old order_tab.get_key [OF old(1)] in \<open>auto simp: under_way_def\<close>)
  then show ?thesis using c by (auto simp: create_dispute_def add_dispute_def fresh_def Let_def)
qed

lemma split_moves:
  assumes "solvent d" and "paid_invoice_of ord d = Inr i" and "get_by_user c d = Some w" and "get_by_user cu d = Some v"
    and "get_order (o_id ord) d = Some ord'" and "under_way (o_status ord')"
    and "is_money x" "0 \<le> x" "x \<le> inv_total_amount i"
    and "split_escrow (o_id ord) (inv_id i) (w_id w) (w_id v) x (inv_total_amount i - x) d = Inr (b, e)"
  shows "moves (- inv_total_amount i) {split_key (o_id ord)} d e"
proof -
  note S = solventD [OF assms(1)] and I = paid_invoice_ofD [OF assms(1,2)]
  note W = get_by_user_wallet(1) [OF S(2) assms(3)] and V = get_by_user_wallet(1) [OF S(2) assms(4)]
  have y: "is_money (inv_total_amount i - x)" "0 \<le> inv_total_amount i - x"
    using I(4) assms(7,9) by (auto simp: invoice_money_def is_money_diff)
  have "\<not> idempotency_key_exists (split_key (o_id ord)) d"
    by (rule unsettled [OF assms(1,5,6)]) (simp add: settle_keys_def)
  then show ?thesis using moves_split [OF S(1,13) W V assms(7) y(1) assms(8) y(2) assms(10)] by simp
qed

lemma refund_moves:
  assumes "solvent d" and "paid_invoice_of ord d = Inr i" and "get_by_user c d = Some w"
    and "get_order (o_id ord) d = Some ord'" and "under_way (o_status ord')"
    and "refund_escrow (o_id ord) (inv_id i) (w_id w) (inv_total_amount i) d = Inr (b, e)"
  shows "moves (- inv_total_amount i) {refund_key (o_id ord)} d e"
proof -
  note S = solventD [OF assms(1)] and I = paid_invoice_ofD [OF assms(1,2)]
  have t: "is_money (inv_total_amount i)" "0 \<le> inv_total_amount i" using I(4) by (auto simp: invoice_money_def)
  have "\<not> idempotency_key_exists (refund_key (o_id ord)) d"
    by (rule unsettled [OF assms(1,4,5)]) (simp add: settle_keys_def)
  then show ?thesis using moves_refund [OF S(1,13) get_by_user_wallet(1) [OF S(2) assms(3)] t assms(6)] by simp
qed

lemma dispute_outcome_moves:
  assumes "solvent d" and "fees_ok s" and "paid_invoice_of ord d = Inr i"
    and "apply_dispute_outcome s ord i outcome amt d = Inr (ord', target, e)"
    and "get_order (o_id ord) d = Some ord" and "can_transition (o_status ord') target"
  obtains K where "moves (- inv_total_amount i) K d e" "K \<subseteq> settle_keys (o_id ord)" "o_id ord' = o_id ord"
    "under_way (o_status ord)" "target = OS_COMPLETED \<or> target = OS_REFUNDED"
proof -
  note I = paid_invoice_ofD [OF assms(1,3)]
  have t: "quantize_money (inv_total_amount i) = inv_total_amount i"
    using I(4) by (simp add: invoice_money_def quantize_money_id)
  obtain c and w v :: wallet where w: "get_by_user c d = Some w" and v: "get_by_user (o_customer_id ord) d = Some v"
    and o: "(case outcome of
       DS_RESOLVED_CUSTOMER \<Rightarrow>
         and_then (refund_escrow (o_id ord) (inv_id i) (w_id v) (inv_total_amount i) d)
           (\<lambda>(_, d). Inr (ord, OS_REFUNDED, d))
     | DS_RESOLVED_COURIER \<Rightarrow>
         let st = invoice_settlement s i
         in and_then (release_to_courier ord i w st d) (\<lambda>(_, d).
            Inr (ord\<lparr>o_commission_amount := commission_amount st,
                     o_courier_payout_amount := courier_payout_amount st\<rparr>, OS_COMPLETED, d))
     | DS_RESOLVED_SPLIT \<Rightarrow>
         or_raise amt ValidationDomainError (\<lambda>a.
         let share = quantize_money a
         in ensure (\<not> (share < 0 \<or> share > quantize_money (inv_total_amount i))) ValidationDomainError
            (and_then (split_escrow (o_id ord) (inv_id i) (w_id w) (w_id v)
                share (inv_total_amount i - share) d) (\<lambda>(_, d).
             Inr (ord\<lparr>o_courier_payout_amount := share\<rparr>, OS_COMPLETED, d))))
     | DS_OPEN \<Rightarrow> Inl ValidationDomainError) = Inr (ord', target, e)"
    using assms(4) by (auto simp: apply_dispute_outcome_def)
  have same: "o_status ord' = o_status ord \<and> o_id ord' = o_id ord \<and> (target = OS_COMPLETED \<or> target = OS_REFUNDED)"
    using o by (auto simp: Let_def split: dispute_status.splits)
  then have u: "under_way (o_status ord)" using assms(6) by (auto simp: under_way_def)
  have key: "{release_key n} \<subseteq> settle_keys n" "{refund_key n} \<subseteq> settle_keys n" "{split_key n} \<subseteq> settle_keys n" for n
    by (auto simp: settle_keys_def)
  have "\<exists>K. moves (- inv_total_amount i) K d e \<and> K \<subseteq> settle_keys (o_id ord)"
  proof (cases outcome)
    case DS_RESOLVED_CUSTOMER
    with o refund_moves [OF assms(1,3) v assms(5) u] key show ?thesis by (auto simp: Let_def)
  next
    case DS_RESOLVED_COURIER
    with o release_to_courier_moves [OF assms(1-3) w _ assms(5) u] key show ?thesis by (auto simp: Let_def)
  next
    case DS_RESOLVED_SPLIT
    with o obtain x b where "0 \<le> quantize_money x" "quantize_money x \<le> inv_total_amount i"
      "split_escrow (o_id ord) (inv_id i) (w_id w) (w_id v) (quantize_money x) (inv_total_amount i - quantize_money x) d
        = Inr (b, e)"
      by (auto simp: Let_def t not_less)
    then show ?thesis using split_moves [OF assms(1,3) w v assms(5) u] key(3) quantize_money_is_money by metis
  next
    case DS_OPEN
    with o show ?thesis by simp
  qed
  then show ?thesis using that same u by blast
qed

lemma resolve_dispute_solvent:
  assumes "solvent d" and "fees_ok s" and "resolve_dispute now s n a outcome txt amt d = Inr (x, d')"
  shows "solvent d'"
proof -
  obtain oid ord i ord' target e y where ord: "get_order oid d = Some ord" and i: "paid_invoice_of ord d = Inr i"
    and o: "apply_dispute_outcome s ord i outcome amt d = Inr (ord', target, e)"
    and tr: "can_transition (o_status ord') target"
    and d': "d' = put_dispute y (put_order (ord'\<lparr>o_status := target,
            o_completed_at := (if target = OS_COMPLETED then Some now else o_completed_at ord')\<rparr>) e)"
    using assms(3) by (auto simp: resolve_dispute_def Let_def)
  note k = order_tab.get_key [OF ord] and I = paid_invoice_ofD [OF assms(1) i]
  have ord': "get_order (o_id ord) d = Some ord" using ord k by simp
  obtain K where K: "moves (- inv_total_amount i) K d e" "K \<subseteq> settle_keys (o_id ord)" "o_id ord' = o_id ord"
    "under_way (o_status ord)" "target = OS_COMPLETED \<or> target = OS_REFUNDED"
    by (rule dispute_outcome_moves [OF assms(1,2) i o ord' tr])
  have "solvent (put_order (ord'\<lparr>o_status := target,
            o_completed_at := (if target = OS_COMPLETED then Some now else o_completed_at ord')\<rparr>) e)"
    by (rule order_settles [OF assms(1) K(1) _ _ K(4) I(1,2)]) (use K ord' I(3) in auto)
  then show ?thesis by (simp add: d' put_dispute_def)
qed

lemma rate_solvent: "solvent d \<Longrightarrow> rate oid u sc c d = Inr (r, d') \<Longrightarrow> solvent d'"
  by (auto simp: rate_def create_rating_def fresh_def Let_def)

section \<open>Withdrawals\<close>

lemma withdrawals_solvent:
  assumes "solvent d" and "\<And>w. w \<in> set ws \<Longrightarrow> user_wallet (wd_wallet_id w) d"
  shows "solvent (d\<lparr>withdrawals := ws\<rparr>)"
proof -
  let ?d = "d\<lparr>withdrawals := ws\<rparr>"
  note S = solventD [OF assms(1)]
  have "withdrawals_ok ?d"
    using assms(2) by (auto simp: withdrawals_ok_def list_all_iff user_wallet_def get_wallet_def)
  moreover have "promos_money ?d" "orders_ok ?d" "invoices_ok ?d" "intents_ok ?d"
    using paper_cong [of ?d d] S by auto
  moreover have "owed ?d = owed d" by (rule owed_cong) simp_all
  then have "escrow_ok ?d" using S(8) by (simp add: escrow_ok_def get_system_def balance_of_def get_wallet_def)
  moreover have "keys_ok ?d"
    using S(7) by (simp add: keys_ok_def idempotency_key_exists_def get_order_def get_invoice_def)
  moreover have "books ?d" "covered ?d" using S by (simp_all add: covered_def)
  ultimately show ?thesis by (simp add: solvent_def)
qed

lemma withdrawal_row:
  assumes "solvent d" and "get_withdrawal n d = Some w"
  shows "user_wallet (wd_wallet_id w) d"
  using solventD(9) [OF assms(1)] withdrawal_tab.get_mem [OF assms(2)] by (auto simp: withdrawals_ok_def list_all_iff)

lemma set_withdrawal_status_solvent:
  assumes "solvent d" and "set_withdrawal_status w st a reason d = Inr (w', d')" and "user_wallet (wd_wallet_id w) d"
  shows "solvent d'"
proof -
  have d': "d' = d\<lparr>withdrawals := put_by wd_id w' (withdrawals d)\<rparr>" "wd_wallet_id w' = wd_wallet_id w"
    using assms(2) by (auto simp: set_withdrawal_status_def put_withdrawal_def Let_def)
  show ?thesis unfolding d'(1)
    by (rule withdrawals_solvent [OF assms(1)])
       (use solventD(9) [OF assms(1)] assms(3) d'(2) in \<open>auto simp: withdrawals_ok_def list_all_iff put_by_def\<close>)
qed

lemma record_audit_solvent [simp]: "solvent (record_audit a x t e d) = solvent d"
  by (simp add: record_audit_def)

lemma approve_withdrawal_solvent:
  assumes "solvent d" and "approve_withdrawal n a d = Inr (w, d')"
  shows "solvent d'"
proof -
  obtain x where x: "get_withdrawal n d = Some x" using assms(2) by (auto simp: approve_withdrawal_def)
  show ?thesis
    using assms x set_withdrawal_status_solvent [OF assms(1) _ withdrawal_row [OF assms(1) x]]
    by (auto simp: approve_withdrawal_def split: if_splits)
qed

lemma reject_withdrawal_solvent:
  assumes "solvent d" and "reject_withdrawal n a reason d = Inr (w, d')"
  shows "solvent d'"
proof -
  obtain x where x: "get_withdrawal n d = Some x" using assms(2) by (auto simp: reject_withdrawal_def)
  note S = solventD [OF assms(1)]
  show ?thesis
  proof (cases "wd_status x = WS_REJECTED")
    case True
    then show ?thesis using assms x by (simp add: reject_withdrawal_def)
  next
    case False
    then obtain e f w' where r: "release_hold (wd_wallet_id x) (wd_amount x) d = Inr e"
      and st: "set_withdrawal_status x WS_REJECTED a (Some reason) e = Inr (w', f)" and d': "solvent d' = solvent f"
      using assms(2) x by (auto simp: reject_withdrawal_def split: if_splits)
    have "0 \<le> wd_amount x" using st by (auto simp: set_withdrawal_status_def chk_withdrawal_def Let_def)
    then have m: "moves 0 {} d e" by (rule moves_release_hold [OF S(1,13) _ r])
    have "user_wallet (wd_wallet_id x) e"
      using withdrawal_row [OF assms(1) x] m by (auto simp: moves_def shifts_def intro: reshaped_user_wallet)
    then show ?thesis
      unfolding d' by (rule set_withdrawal_status_solvent [OF quiet_solvent [OF m assms(1)] st])
  qed
qed

lemma mark_withdrawal_paid_solvent:
  assumes "solvent d" and "mark_withdrawal_paid n a d = Inr (w, d')"
  shows "solvent d'"
proof -
  obtain x where x: "get_withdrawal n d = Some x" using assms(2) by (auto simp: mark_withdrawal_paid_def)
  note S = solventD [OF assms(1)] and U = withdrawal_row [OF assms(1) x]
  show ?thesis
  proof (cases "wd_status x = WS_PAID")
    case True
    then show ?thesis using assms x by (simp add: mark_withdrawal_paid_def)
  next
    case False
    then obtain b e f w' where r: "pay_withdrawal (wd_wallet_id x) (wd_amount x) (wd_id x) d = Inr (b, e)"
      and st: "set_withdrawal_status x WS_PAID a None e = Inr (w', f)" and d': "solvent d' = solvent f"
      using assms(2) x by (auto simp: mark_withdrawal_paid_def split: if_splits)
    have m: "moves 0 {} d e" by (rule moves_withdrawal [OF S(1,13) U r])
    have "user_wallet (wd_wallet_id x) e"
      using U m by (auto simp: moves_def shifts_def intro: reshaped_user_wallet)
    then show ?thesis
      unfolding d' by (rule set_withdrawal_status_solvent [OF quiet_solvent [OF m assms(1)] st])
  qed
qed

end
