(* ===== verification/Auth.thy ===== *)
theory Auth
  imports Orders
begin

text \<open>
  \<open>app/services/otp_service.py\<close>, \<open>app/services/auth_service.py\<close>,
  \<open>app/repositories/auth_repository.py\<close>, \<open>app/core/jwt.py\<close> and \<open>app/core/deps.py\<close>: one-time codes,
  registration, refresh rotation with reuse detection, and the authentication of a request.
  HMAC-SHA256, SHA-256 and the JWT library are parameters, as are the random values of a call.
  \<open>sms\<close> tells whether the SMS gateway takes the message.  Redis keeps what a failed request wrote;
  the database does not, except where the code commits before it raises.
\<close>

section \<open>One-time codes\<close>

type_synonym keyed_hash = "string \<Rightarrow> string \<Rightarrow> string"   \<comment> \<open>value, key\<close>

definition code_key :: "string \<Rightarrow> string" where
  "code_key phone = ''otp:code:'' @ phone"

definition attempts_key :: "string \<Rightarrow> string" where
  "attempts_key phone = ''otp:attempts:'' @ phone"

definition otp_rate_key :: "string \<Rightarrow> string" where
  "otp_rate_key phone = ''otp:rate:'' @ phone"

definition block_key :: "string \<Rightarrow> string" where
  "block_key phone = ''otp:block:'' @ phone"

lemma otp_keys_distinct [simp]:
  "code_key p \<noteq> attempts_key q" "attempts_key p \<noteq> code_key q" "code_key p \<noteq> otp_rate_key q"
  "otp_rate_key p \<noteq> code_key q" "attempts_key p \<noteq> otp_rate_key q" "otp_rate_key p \<noteq> attempts_key q"
  "code_key p \<noteq> block_key q" "block_key p \<noteq> code_key q" "attempts_key p \<noteq> block_key q"
  "block_key p \<noteq> attempts_key q" "block_key p \<noteq> otp_rate_key q" "otp_rate_key p \<noteq> block_key q"
  by (simp_all add: code_key_def attempts_key_def otp_rate_key_def block_key_def)

lemma otp_key_inject [simp]:
  "code_key p = code_key q \<longleftrightarrow> p = q" "attempts_key p = attempts_key q \<longleftrightarrow> p = q"
  by (simp_all add: code_key_def attempts_key_def)

text \<open>\<open>OtpService.__init__\<close>: the dedicated key, else the JWT secret, else the pepper.\<close>

definition otp_hmac_key :: "settings \<Rightarrow> string" where
  "otp_hmac_key s =
     (case OTP_HMAC_KEY (hardening_of s) of Some k \<Rightarrow> get_secret_value k
      | None \<Rightarrow> (case JWT_SECRET (jwt_of s) of Some k \<Rightarrow> get_secret_value k
          | None \<Rightarrow> get_secret_value (IDENTITY_FINGERPRINT_PEPPER (encryption_of s))))"

text \<open>\<open>INCR\<close>, then the window on the first hit or when a crash left the counter without one.\<close>

definition bump :: "string \<Rightarrow> int \<Rightarrow> ms \<Rightarrow> redis \<Rightarrow> error + int \<times> redis" where
  "bump k window t r =
     and_then (rincr k t r) (\<lambda>(count, r).
     Inr (count, if count = 1 \<or> rttl t r k < 0 then rexpire k window t r else r))"

definition request_otp ::
  "settings \<Rightarrow> keyed_hash \<Rightarrow> bool \<Rightarrow> string \<Rightarrow> ms \<Rightarrow> string \<Rightarrow> redis \<Rightarrow> (error + string option) \<times> redis" where
  "request_otp s hmac sms code t phone r =
     (let b = business_of s in
      if rget t r (block_key phone) \<noteq> None \<and> rget t r (block_key phone) \<noteq> Some []
      then (Inl (RateLimitedError (OTP_BLOCK_SECONDS b)), r)
      else case bump (otp_rate_key phone) (OTP_WINDOW_SECONDS b) t r of Inl e \<Rightarrow> (Inl e, r)
        | Inr (count, r) \<Rightarrow>
          if count > OTP_MAX_PER_WINDOW b
          then (case rset_ex (block_key phone) ''1'' (OTP_BLOCK_SECONDS b) t r of
                  Inl e \<Rightarrow> (Inl e, r) | Inr r \<Rightarrow> (Inl (RateLimitedError (OTP_BLOCK_SECONDS b)), r))
          else case rset_ex (code_key phone) (hmac code (otp_hmac_key s)) (OTP_TTL_SECONDS b) t r of
              Inl e \<Rightarrow> (Inl e, r)
            | Inr r \<Rightarrow>
                let r = rdel [attempts_key phone] r
                in (if sms then Inr (if ENVIRONMENT s = ENV_DEVELOPMENT then Some code else None)
                    else Inl RuntimeError, r))"

definition verify_otp ::
  "settings \<Rightarrow> keyed_hash \<Rightarrow> ms \<Rightarrow> string \<Rightarrow> string \<Rightarrow> redis \<Rightarrow> (error + bool) \<times> redis" where
  "verify_otp s hmac t phone code r =
     (let ttl = OTP_TTL_SECONDS (business_of s) in
      case bump (attempts_key phone) ttl t r of Inl e \<Rightarrow> (Inl e, r)
      | Inr (attempts, r) \<Rightarrow>
        if attempts > 5 then (Inl (RateLimitedError ttl), rdel [code_key phone] r)
        else case rget t r (code_key phone) of None \<Rightarrow> (Inr False, r)
          | Some stored \<Rightarrow>
              if stored \<noteq> hmac code (otp_hmac_key s) then (Inr False, r)
              else (Inr True, rdel [otp_rate_key phone] (rdel [code_key phone, attempts_key phone] r)))"

section \<open>Tokens\<close>

record claims =
  cl_sub :: string
  cl_role :: "string option"
  cl_jti :: "string option"
  cl_purpose :: "string option"
  cl_iat :: int
  cl_exp :: int
  cl_iss :: string
  cl_aud :: string

text \<open>The JWT library: \<open>jl_decode\<close> gives the claims of a token that verifies under the key with the
  pinned algorithm, issuer and audience, is not expired, and has the required claims.\<close>

record jwt_lib =
  jl_encode :: "string \<Rightarrow> jwt_algorithm \<Rightarrow> claims \<Rightarrow> string"
  jl_decode :: "int \<Rightarrow> string \<Rightarrow> jwt_algorithm \<Rightarrow> string \<Rightarrow> string \<Rightarrow> bool \<Rightarrow> string \<Rightarrow> claims option"

text \<open>What the library documents of one token: it decodes under the key that signed it exactly
  when the issuer and the audience match, it has not expired and the claims asked for are
  there (the flag asks for those of an access token); its text has no white space.\<close>

definition jwt_law :: "jwt_lib \<Rightarrow> string \<Rightarrow> jwt_algorithm \<Rightarrow> claims \<Rightarrow> bool" where
  "jwt_law J k a c \<longleftrightarrow> strip (jl_encode J k a c) = jl_encode J k a c \<and>
     (\<forall>now iss aud strict. jl_decode J now k a iss aud strict (jl_encode J k a c) =
       (if cl_iss c = iss \<and> cl_aud c = aud \<and> now < cl_exp c \<and>
           (strict \<longrightarrow> cl_role c \<noteq> None \<and> cl_jti c \<noteq> None) then Some c else None))"

record access_claims =
  ac_sub :: string
  ac_role :: string
  ac_jti :: string
  ac_exp :: int

definition signing_key :: "settings \<Rightarrow> error + string" where
  "signing_key s =
     (case JWT_ALGORITHM (jwt_of s) of
        HS256 \<Rightarrow> or_raise (JWT_SECRET (jwt_of s)) JwtError (\<lambda>k. Inr (get_secret_value k))
      | RS256 \<Rightarrow> or_raise (JWT_PRIVATE_KEY (jwt_of s)) JwtError (\<lambda>k. Inr (get_secret_value k)))"

definition verify_key :: "settings \<Rightarrow> error + string" where
  "verify_key s =
     (case JWT_ALGORITHM (jwt_of s) of
        HS256 \<Rightarrow> or_raise (JWT_SECRET (jwt_of s)) JwtError (\<lambda>k. Inr (get_secret_value k))
      | RS256 \<Rightarrow> or_raise (JWT_PUBLIC_KEY (jwt_of s)) JwtError (\<lambda>k. Inr (get_secret_value k)))"

definition timestamp :: "time \<Rightarrow> int" where
  "timestamp now = now div 1000000"

fun role_text :: "user_role \<Rightarrow> string" where
  "role_text UR_CUSTOMER = ''CUSTOMER''"
| "role_text UR_COURIER = ''COURIER''"
| "role_text UR_ADMIN = ''ADMIN''"

definition parse_role :: "string \<Rightarrow> user_role option" where
  "parse_role t = map_of [(''CUSTOMER'', UR_CUSTOMER), (''COURIER'', UR_COURIER), (''ADMIN'', UR_ADMIN)] t"

definition access_payload :: "settings \<Rightarrow> time \<Rightarrow> string \<Rightarrow> uuid \<Rightarrow> string \<Rightarrow> claims" where
  "access_payload s now jti user_id role =
     (let j = jwt_of s
      in \<lparr>cl_sub = str_uuid user_id, cl_role = Some role, cl_jti = Some jti, cl_purpose = None,
          cl_iat = timestamp now, cl_exp = timestamp (now + JWT_ACCESS_TTL_MINUTES j * 60 * 1000000),
          cl_iss = JWT_ISSUER j, cl_aud = JWT_AUDIENCE j\<rparr>)"

definition create_access_token ::
  "jwt_lib \<Rightarrow> settings \<Rightarrow> time \<Rightarrow> string \<Rightarrow> uuid \<Rightarrow> string \<Rightarrow> error + string \<times> string \<times> int" where
  "create_access_token J s now jti user_id role =
     and_then (signing_key s) (\<lambda>k.
     Inr (jl_encode J k (JWT_ALGORITHM (jwt_of s)) (access_payload s now jti user_id role), jti,
          JWT_ACCESS_TTL_MINUTES (jwt_of s) * 60))"

definition decode_access_token ::
  "jwt_lib \<Rightarrow> settings \<Rightarrow> time \<Rightarrow> string \<Rightarrow> error + access_claims" where
  "decode_access_token J s now token =
     (let j = jwt_of s
      in and_then (verify_key s) (\<lambda>k.
         or_raise (jl_decode J (timestamp now) k (JWT_ALGORITHM j) (JWT_ISSUER j) (JWT_AUDIENCE j) True token)
           JwtError (\<lambda>c.
         ensure (cl_purpose c = None) JwtError
         (or_raise (cl_role c) JwtError (\<lambda>role. or_raise (cl_jti c) JwtError (\<lambda>jti.
          Inr \<lparr>ac_sub = cl_sub c, ac_role = role, ac_jti = jti, ac_exp = cl_exp c\<rparr>))))))"

definition create_registration_token :: "jwt_lib \<Rightarrow> settings \<Rightarrow> time \<Rightarrow> string \<Rightarrow> error + string" where
  "create_registration_token J s now phone =
     (let j = jwt_of s
      in and_then (signing_key s) (\<lambda>k.
         Inr (jl_encode J k (JWT_ALGORITHM j)
           \<lparr>cl_sub = phone, cl_role = None, cl_jti = None, cl_purpose = Some ''registration'',
            cl_iat = timestamp now, cl_exp = timestamp (now + 600000000),
            cl_iss = JWT_ISSUER j, cl_aud = JWT_AUDIENCE j\<rparr>)))"

definition decode_registration_token :: "jwt_lib \<Rightarrow> settings \<Rightarrow> time \<Rightarrow> string \<Rightarrow> error + string" where
  "decode_registration_token J s now token =
     (let j = jwt_of s
      in and_then (verify_key s) (\<lambda>k.
         or_raise (jl_decode J (timestamp now) k (JWT_ALGORITHM j) (JWT_ISSUER j) (JWT_AUDIENCE j) False token)
           JwtError (\<lambda>c.
         ensure (cl_purpose c = Some ''registration'') JwtError (Inr (cl_sub c)))))"

section \<open>Repositories\<close>

definition get_by_phone :: "string \<Rightarrow> db \<Rightarrow> user option" where
  "get_by_phone phone d = find_by u_phone phone (users d)"

definition get_by_email :: "string \<Rightarrow> db \<Rightarrow> user option" where
  "get_by_email email d = find_by u_email (Some email) (users d)"

text \<open>\<open>uq_users_phone\<close> and \<open>uq_users_email\<close> with the check constraint.\<close>

definition user_row_ok :: "user \<Rightarrow> db \<Rightarrow> bool" where
  "user_row_ok u d \<longleftrightarrow> chk_user u \<and>
     list_all (\<lambda>v. u_id v = u_id u \<or> u_phone v \<noteq> u_phone u \<and>
       (u_email u = None \<or> u_email v \<noteq> u_email u)) (users d)"

definition insert_user ::
  "string \<Rightarrow> string option \<Rightarrow> string option \<Rightarrow> int option \<Rightarrow> user_role \<Rightarrow> user_status \<Rightarrow> db
     \<Rightarrow> error + user \<times> db" where
  "insert_user phone full_name email dob role status d =
     (let (n, d) = fresh d;
          u = \<lparr>u_id = n, u_phone = phone, u_email = email, u_full_name = full_name,
               u_date_of_birth = dob, u_role = role, u_status = status, u_rating = 5,
               u_rating_count = 0, u_deleted_at = None\<rparr>
      in ensure (user_row_ok u d) IntegrityError (Inr (u, add_user u d)))"

text \<open>A new wallet of a user; \<open>uq_wallets_user\<close> allows one.\<close>

definition insert_wallet :: "uuid \<Rightarrow> wallet_type \<Rightarrow> db \<Rightarrow> error + db" where
  "insert_wallet user_id t d =
     (let (n, d) = fresh d; w = new_wallet n (Some user_id) t
      in ensure (chk_wallet w \<and> Some user_id \<notin> set (map w_user_id (wallets d))) IntegrityError
         (Inr (add_wallet w d)))"

definition create_customer ::
  "string \<Rightarrow> string option \<Rightarrow> string option \<Rightarrow> int option \<Rightarrow> db \<Rightarrow> error + user \<times> db" where
  "create_customer phone full_name email dob d =
     and_then (insert_user phone full_name email dob UR_CUSTOMER US_ACTIVE d) (\<lambda>(u, d).
     and_then (insert_wallet (u_id u) WT_CUSTOMER d) (\<lambda>d. Inr (u, d)))"

definition create_courier_user ::
  "string \<Rightarrow> string option \<Rightarrow> string option \<Rightarrow> int option \<Rightarrow> db \<Rightarrow> error + user \<times> db" where
  "create_courier_user phone full_name email dob d =
     insert_user phone full_name email dob UR_COURIER US_PENDING_VERIFICATION d"

definition fingerprint_exists :: "string \<Rightarrow> db \<Rightarrow> bool" where
  "fingerprint_exists f d \<longleftrightarrow> Some f \<in> set (map cp_identity_fingerprint (courier_profiles d))"

definition insert_profile ::
  "uuid \<Rightarrow> string \<Rightarrow> string option \<Rightarrow> string option \<Rightarrow> string option \<Rightarrow> string \<Rightarrow> db
     \<Rightarrow> error + courier_profile \<times> db" where
  "insert_profile user_id city bio national_enc passport_enc fingerprint d =
     (let p = \<lparr>cp_user_id = user_id, cp_passport_id_encrypted = passport_enc,
               cp_national_id_encrypted = national_enc, cp_identity_fingerprint = Some fingerprint,
               cp_city_of_residence = city, cp_bio = bio, cp_is_verified = False,
               cp_verified_at = None, cp_verified_by_admin_id = None\<rparr>
      in ensure (chk_courier_profile p \<and> \<not> fingerprint_exists fingerprint d \<and>
           user_id \<notin> set (map cp_user_id (courier_profiles d))) IntegrityError
         (Inr (p, add_courier_profile p d)))"

definition add_courier_wallet_and_profile ::
  "uuid \<Rightarrow> string \<Rightarrow> string option \<Rightarrow> string option \<Rightarrow> string \<Rightarrow> db \<Rightarrow> error + db" where
  "add_courier_wallet_and_profile user_id city national_enc passport_enc fingerprint d =
     and_then (insert_wallet user_id WT_COURIER d) (\<lambda>d.
     and_then (insert_profile user_id city None national_enc passport_enc fingerprint d) (\<lambda>(_, d). Inr d))"

definition insert_refresh_token ::
  "uuid \<Rightarrow> string \<Rightarrow> uuid \<Rightarrow> time \<Rightarrow> db \<Rightarrow> error + db" where
  "insert_refresh_token user_id token_hash family_id expires_at d =
     (let (n, d) = fresh d;
          t = \<lparr>rt_id = n, rt_user_id = user_id, rt_token_hash = token_hash, rt_family_id = family_id,
               rt_expires_at = expires_at, rt_used_at = None, rt_revoked_at = None\<rparr>
      in ensure (token_hash \<notin> set (map rt_token_hash (refresh_tokens d))) IntegrityError
         (Inr (add_refresh_token t d)))"

definition refresh_by_hash :: "string \<Rightarrow> db \<Rightarrow> refresh_token option" where
  "refresh_by_hash token_hash d = find_by rt_token_hash token_hash (refresh_tokens d)"

definition mark_refresh_used :: "refresh_token \<Rightarrow> time \<Rightarrow> db \<Rightarrow> db" where
  "mark_refresh_used t now d = put_refresh_token (t\<lparr>rt_used_at := Some now\<rparr>) d"

definition revoke_where :: "(refresh_token \<Rightarrow> bool) \<Rightarrow> time \<Rightarrow> db \<Rightarrow> db" where
  "revoke_where P now d = d\<lparr>refresh_tokens := map (\<lambda>t.
     if P t \<and> rt_revoked_at t = None then t\<lparr>rt_revoked_at := Some now\<rparr> else t) (refresh_tokens d)\<rparr>"

definition revoke_family :: "uuid \<Rightarrow> time \<Rightarrow> db \<Rightarrow> db" where
  "revoke_family family_id = revoke_where (\<lambda>t. rt_family_id t = family_id)"

definition revoke_all_for_user :: "uuid \<Rightarrow> time \<Rightarrow> db \<Rightarrow> db" where
  "revoke_all_for_user user_id = revoke_where (\<lambda>t. rt_user_id t = user_id)"

section \<open>Authentication service\<close>

record token_pair =
  tp_access :: string
  tp_refresh :: string
  tp_role :: string

record verify_result =
  vr_is_new_user :: bool
  vr_tokens :: "token_pair option"
  vr_registration :: "string option"

text \<open>The hash functions, the JWT library and the random values of one call.\<close>

record auth_env =
  ae_settings :: settings
  ae_hmac :: keyed_hash
  ae_sha :: "string \<Rightarrow> string"
  ae_jwt :: jwt_lib
  ae_aead :: aead
  ae_raw :: string       \<comment> \<open>\<open>generate_session_token()\<close>\<close>
  ae_jti :: string
  ae_iv1 :: string
  ae_iv2 :: string

definition new_refresh :: "auth_env \<Rightarrow> time \<Rightarrow> uuid \<Rightarrow> uuid \<Rightarrow> db \<Rightarrow> error + string \<times> db" where
  "new_refresh E now user_id family_id d =
     and_then (insert_refresh_token user_id (ae_sha E (ae_raw E)) family_id
       (now + JWT_REFRESH_TTL_DAYS (jwt_of (ae_settings E)) * 86400000000) d) (\<lambda>d. Inr (ae_raw E, d))"

definition issue_tokens :: "auth_env \<Rightarrow> time \<Rightarrow> uuid \<Rightarrow> string \<Rightarrow> db \<Rightarrow> error + token_pair \<times> db" where
  "issue_tokens E now user_id role d =
     and_then (create_access_token (ae_jwt E) (ae_settings E) now (ae_jti E) user_id role) (\<lambda>(access, _, _).
     let (family, d) = fresh d
     in and_then (new_refresh E now user_id family d) (\<lambda>(raw, d).
        Inr (\<lparr>tp_access = access, tp_refresh = raw, tp_role = role\<rparr>, d)))"

definition login_or_register :: "auth_env \<Rightarrow> time \<Rightarrow> string \<Rightarrow> db \<Rightarrow> error + verify_result \<times> db" where
  "login_or_register E now phone d =
     (case get_by_phone phone d of
        None \<Rightarrow> and_then (create_registration_token (ae_jwt E) (ae_settings E) now phone) (\<lambda>token.
          Inr (\<lparr>vr_is_new_user = True, vr_tokens = None, vr_registration = Some token\<rparr>, d))
      | Some u \<Rightarrow> ensure (u_status u \<noteq> US_BANNED) UnauthorizedError
          (and_then (issue_tokens E now (u_id u) (role_text (u_role u)) d) (\<lambda>(tokens, d).
           Inr (\<lparr>vr_is_new_user = False, vr_tokens = Some tokens, vr_registration = None\<rparr>, d))))"

definition verify_login ::
  "auth_env \<Rightarrow> time \<Rightarrow> string \<Rightarrow> string \<Rightarrow> db \<Rightarrow> redis \<Rightarrow> (error + verify_result \<times> db) \<times> redis" where
  "verify_login E now phone code d r =
     (case verify_otp (ae_settings E) (ae_hmac E) (now div 1000) phone code r of
        (Inl e, r) \<Rightarrow> (Inl e, r)
      | (Inr ok, r) \<Rightarrow> (ensure ok UnauthorizedError (login_or_register E now phone d), r))"

record registration =
  rg_role :: user_role
  rg_full_name :: "string option"
  rg_email :: "string option"
  rg_dob :: "int option"
  rg_city :: "string option"
  rg_national_id :: "string option"
  rg_passport_id :: "string option"

definition truthy :: "string option \<Rightarrow> bool" where
  "truthy x \<longleftrightarrow> x \<noteq> None \<and> x \<noteq> Some []"

definition or_text :: "string option \<Rightarrow> string option \<Rightarrow> string" where
  "or_text a b = (if truthy a then the a else if truthy b then the b else [])"

definition encrypt_field ::
  "auth_env \<Rightarrow> field_cipher \<Rightarrow> string \<Rightarrow> string option \<Rightarrow> string \<Rightarrow> error + string option" where
  "encrypt_field E c iv v aad =
     (if truthy v then and_then (encrypt (ae_aead E) c iv (strip (the v)) aad) (\<lambda>b. Inr (Some b))
      else Inr None)"

definition register_courier :: "auth_env \<Rightarrow> time \<Rightarrow> string \<Rightarrow> registration \<Rightarrow> db \<Rightarrow> error + token_pair \<times> db" where
  "register_courier E now phone g d =
     ensure (truthy (rg_city g)) ValidationDomainError
     (ensure (truthy (rg_national_id g) \<or> truthy (rg_passport_id g)) ValidationDomainError
     (let s = ae_settings E;
          raw_id = strip (or_text (rg_national_id g) (rg_passport_id g));
          fingerprint = ae_hmac E raw_id (get_secret_value (IDENTITY_FINGERPRINT_PEPPER (encryption_of s)))
      in ensure (\<not> fingerprint_exists fingerprint d) ConflictError
         (and_then (create_courier_user phone (rg_full_name g) (rg_email g) (rg_dob g) d) (\<lambda>(u, d).
          and_then (settings_cipher s) (\<lambda>c.
          and_then (encrypt_field E c (ae_iv1 E) (rg_national_id g)
              (build_aad ''courier_profiles'' ''national_id'' (str_uuid (u_id u)))) (\<lambda>national_enc.
          and_then (encrypt_field E c (ae_iv2 E) (rg_passport_id g)
              (build_aad ''courier_profiles'' ''passport_id'' (str_uuid (u_id u)))) (\<lambda>passport_enc.
          and_then (add_courier_wallet_and_profile (u_id u) (the (rg_city g)) national_enc passport_enc
              fingerprint d) (\<lambda>d.
          issue_tokens E now (u_id u) (role_text (u_role u)) d))))))))"

definition register :: "auth_env \<Rightarrow> time \<Rightarrow> string \<Rightarrow> registration \<Rightarrow> db \<Rightarrow> error + token_pair \<times> db" where
  "register E now token g d =
     and_then (decode_registration_token (ae_jwt E) (ae_settings E) now token) (\<lambda>phone.
     ensure (get_by_phone phone d = None) ConflictError
     (case rg_role g of
        UR_CUSTOMER \<Rightarrow>
          and_then (create_customer phone (rg_full_name g) (rg_email g) (rg_dob g) d) (\<lambda>(u, d).
          issue_tokens E now (u_id u) (role_text (u_role u)) d)
      | UR_COURIER \<Rightarrow> register_courier E now phone g d
      | UR_ADMIN \<Rightarrow> Inl ValidationDomainError))"

text \<open>The rotation; the second component is the state that stays, also after an error.\<close>

definition refresh :: "auth_env \<Rightarrow> time \<Rightarrow> string \<Rightarrow> db \<Rightarrow> (error + token_pair) \<times> db" where
  "refresh E now raw d =
     (case refresh_by_hash (ae_sha E raw) d of None \<Rightarrow> (Inl UnauthorizedError, d)
      | Some t \<Rightarrow>
        if rt_revoked_at t \<noteq> None \<or> rt_used_at t \<noteq> None
        then (Inl UnauthorizedError, revoke_family (rt_family_id t) now d)
        else if rt_expires_at t \<le> now then (Inl UnauthorizedError, d)
        else case
            (let d = mark_refresh_used t now d
             in or_raise (get_user (rt_user_id t) d) UnauthorizedError (\<lambda>u.
                ensure (u_status u \<noteq> US_BANNED) UnauthorizedError
                (and_then (create_access_token (ae_jwt E) (ae_settings E) now (ae_jti E) (u_id u)
                    (role_text (u_role u))) (\<lambda>(access, _, _).
                 and_then (new_refresh E now (u_id u) (rt_family_id t) d) (\<lambda>(raw, d).
                 Inr (\<lparr>tp_access = access, tp_refresh = raw, tp_role = role_text (u_role u)\<rparr>, d))))))
            of Inl e \<Rightarrow> (Inl e, d) | Inr (tokens, d') \<Rightarrow> (Inr tokens, d'))"

definition denylist_key :: "string \<Rightarrow> string" where
  "denylist_key jti = ''jwt:denylist:'' @ jti"

definition banned_key :: "string \<Rightarrow> string" where
  "banned_key sub = ''auth:banned:'' @ sub"

definition logout :: "ms \<Rightarrow> string \<Rightarrow> int \<Rightarrow> redis \<Rightarrow> error + redis" where
  "logout t jti remaining_ttl_seconds r =
     rset_ex (denylist_key jti) ''1'' (max remaining_ttl_seconds 1) t r"

section \<open>Authentication of a request\<close>

record actor =
  act_id :: uuid
  act_role :: user_role
  act_jti :: string

definition has_flag :: "ms \<Rightarrow> redis \<Rightarrow> string \<Rightarrow> bool" where
  "has_flag t r k \<longleftrightarrow> truthy (rget t r k)"

definition parse_uuid :: "string \<Rightarrow> uuid option" where
  "parse_uuid t = as_count t"

definition require_auth :: "jwt_lib \<Rightarrow> settings \<Rightarrow> time \<Rightarrow> string \<Rightarrow> redis \<Rightarrow> error + actor" where
  "require_auth J s now header r =
     ensure (take 7 header = ''Bearer '') UnauthorizedError
     (case decode_access_token J s now (strip (drop 7 header)) of Inl _ \<Rightarrow> Inl UnauthorizedError
      | Inr c \<Rightarrow>
        ensure (\<not> has_flag (now div 1000) r (denylist_key (ac_jti c))) UnauthorizedError
        (ensure (\<not> has_flag (now div 1000) r (banned_key (ac_sub c))) UnauthorizedError
        (or_raise (parse_role (ac_role c)) UnauthorizedError (\<lambda>role.
         or_raise (parse_uuid (ac_sub c)) ValueError (\<lambda>i.
         Inr \<lparr>act_id = i, act_role = role, act_jti = ac_jti c\<rparr>)))))"

definition require_role :: "user_role list \<Rightarrow> actor \<Rightarrow> error + actor" where
  "require_role roles a = ensure (act_role a \<in> set roles) ForbiddenError (Inr a)"


section \<open>Guessing a code\<close>

fun guess_all ::
  "settings \<Rightarrow> keyed_hash \<Rightarrow> string \<Rightarrow> (ms \<times> string) list \<Rightarrow> redis \<Rightarrow> (error + bool) list \<times> redis" where
  "guess_all s hmac phone [] r = ([], r)"
| "guess_all s hmac phone ((t, code) # gs) r =
     (let (res, r) = verify_otp s hmac t phone code r; (ress, r) = guess_all s hmac phone gs r
      in (res # ress, r))"

text \<open>No code is stored any more, from \<open>t\<close> on.\<close>

definition spent :: "string \<Rightarrow> ms \<Rightarrow> redis \<Rightarrow> bool" where
  "spent phone t r \<longleftrightarrow> (\<forall>t' \<ge> t. rget t' r (code_key phone) = None)"

lemma bump_other: "bump k w t r = Inr (n, r') \<Longrightarrow> k' \<noteq> k \<Longrightarrow> r' k' = r k'"
  by (auto simp: bump_def rincr_def rexpire_def split: option.splits if_splits)

lemma bump_code:
  "bump (attempts_key phone) w t r = Inr (n, r') \<Longrightarrow> rget t' r' (code_key phone) = rget t' r (code_key phone)"
  using bump_other [of "attempts_key phone" w t r n r' "code_key phone"]
  by (simp add: rget_def rlive_def)

lemma spent_verify:
  assumes "spent phone t r" and "t \<le> t'" and "verify_otp s hmac t' phone code r = (res, r')"
  shows "spent phone t' r'" and "res \<noteq> Inr True"
proof -
  show "spent phone t' r'"
    using assms
    by (auto simp: verify_otp_def spent_def Let_def bump_code split: sum.splits prod.splits if_splits
        option.splits)
  show "res \<noteq> Inr True"
    using assms
    by (auto simp: verify_otp_def spent_def Let_def bump_code split: sum.splits prod.splits if_splits
        option.splits)
qed

lemma spent_guess_all:
  assumes "spent phone t r" and "sorted (t # map fst gs)"
  shows "Inr True \<notin> set (fst (guess_all s hmac phone gs r))"
  using assms
proof (induction gs arbitrary: t r)
  case (Cons g gs)
  obtain t' code where g: "g = (t', code)" by (cases g)
  obtain res r' where v: "verify_otp s hmac t' phone code r = (res, r')"
    by (cases "verify_otp s hmac t' phone code r")
  have "t \<le> t'" and srt: "sorted (t' # map fst gs)" using Cons.prems(2) g by auto
  note sp = spent_verify [OF Cons.prems(1) this(1) v]
  show ?case using Cons.IH [OF sp(1) srt] sp(2) g v by (auto simp: case_prod_unfold Let_def)
qed simp

text \<open>\<open>n\<close> guesses were made at the code that expires at \<open>e\<close>.\<close>

definition guessed :: "string \<Rightarrow> string \<Rightarrow> ms \<Rightarrow> nat \<Rightarrow> redis \<Rightarrow> bool" where
  "guessed phone stored e n r \<longleftrightarrow> r (code_key phone) = Some (stored, Some e) \<and>
     (if n = 0 then r (attempts_key phone) = None
      else \<exists>x \<ge> e. r (attempts_key phone) = Some (digits n, Some x))"

lemma bump_guessed:
  assumes "guessed phone stored e n r" and "t \<le> e" and "e \<le> t + 1000 * w" and "0 < w"
  obtains r' where "bump (attempts_key phone) w t r = Inr (int n + 1, r')"
    and "guessed phone stored e (n + 1) r'"
proof (cases "n = 0")
  case True
  let ?r = "r(attempts_key phone \<mapsto> (digits 1, Some (t + 1000 * w)))"
  have "bump (attempts_key phone) w t r = Inr (int n + 1, ?r)"
    using True assms by (simp add: bump_def rincr_def rlive_def rexpire_def guessed_def)
  moreover have "guessed phone stored e (n + 1) ?r" using True assms by (simp add: guessed_def)
  ultimately show ?thesis by (rule that)
next
  case False
  then obtain x where x: "x \<ge> e" "r (attempts_key phone) = Some (digits n, Some x)"
    using assms(1) by (auto simp: guessed_def)
  let ?r = "r(attempts_key phone \<mapsto> (digits (n + 1), Some x))"
  have "\<not> (x - t + 500) div 1000 < 0" using x(1) assms(2) by simp
  then have "bump (attempts_key phone) w t r = Inr (int n + 1, ?r)"
    using False x assms(2) by (simp add: bump_def rincr_def rlive_def rttl_def)
  moreover have "guessed phone stored e (n + 1) ?r" using False x assms by (auto simp: guessed_def)
  ultimately show ?thesis by (rule that)
qed

lemma guess_step:
  assumes "guessed phone stored e n r" and "e \<le> t + 1000 * OTP_TTL_SECONDS (business_of s)"
    and "0 < OTP_TTL_SECONDS (business_of s)"
    and "n < 5 \<longrightarrow> hmac code (otp_hmac_key s) \<noteq> stored"
    and "verify_otp s hmac t phone code r = (res, r')"
  shows "res \<noteq> Inr True" and "spent phone t r' \<or> guessed phone stored e (n + 1) r'"
proof -
  have "res \<noteq> Inr True \<and> (spent phone t r' \<or> guessed phone stored e (n + 1) r')"
  proof (cases "t \<le> e")
    case False
    then have "spent phone t r" using assms(1) by (auto simp: spent_def guessed_def rget_def rlive_def)
    with spent_verify [OF this _ assms(5)] show ?thesis by simp
  next
    case True
    obtain r1 where b: "bump (attempts_key phone) (OTP_TTL_SECONDS (business_of s)) t r = Inr (int n + 1, r1)"
      and g: "guessed phone stored e (n + 1) r1"
      by (rule bump_guessed [OF assms(1) True assms(2,3)])
    show ?thesis
    proof (cases "n < 5")
      case False
      then show ?thesis using assms(5) b by (auto simp: verify_otp_def Let_def spent_def)
    next
      case wrong: True
      have "rget t r1 (code_key phone) = Some stored"
        using g True by (simp add: guessed_def rget_def rlive_def)
      then show ?thesis using assms(4,5) b g wrong by (auto simp: verify_otp_def Let_def)
    qed
  qed
  then show "res \<noteq> Inr True" "spent phone t r' \<or> guessed phone stored e (n + 1) r'" by auto
qed

lemma guess_all_wrong:
  assumes "guessed phone stored e n r" and "e \<le> t + 1000 * OTP_TTL_SECONDS (business_of s)"
    and "0 < OTP_TTL_SECONDS (business_of s)" and "sorted (t # map fst gs)"
    and "\<forall>i < length gs. n + i < 5 \<longrightarrow> hmac (snd (gs ! i)) (otp_hmac_key s) \<noteq> stored"
  shows "Inr True \<notin> set (fst (guess_all s hmac phone gs r))"
  using assms
proof (induction gs arbitrary: n r t)
  case (Cons g gs)
  obtain t' code where g: "g = (t', code)" by (cases g)
  obtain res r' where v: "verify_otp s hmac t' phone code r = (res, r')"
    by (cases "verify_otp s hmac t' phone code r")
  have t': "e \<le> t' + 1000 * OTP_TTL_SECONDS (business_of s)" and srt: "sorted (t' # map fst gs)"
    using Cons.prems(2,4) g by auto
  have now: "n < 5 \<longrightarrow> hmac code (otp_hmac_key s) \<noteq> stored" using Cons.prems(5) g by force
  have later: "\<forall>i < length gs. n + 1 + i < 5 \<longrightarrow> hmac (snd (gs ! i)) (otp_hmac_key s) \<noteq> stored"
    using Cons.prems(5) by (metis Suc_less_eq add_Suc_right add_Suc_shift length_Cons nth_Cons_Suc Suc_eq_plus1)
  note step = guess_step [OF Cons.prems(1) t' Cons.prems(3) now v]
  have "Inr True \<notin> set (fst (guess_all s hmac phone gs r'))"
    using step(2) spent_guess_all [OF _ srt] Cons.IH [OF _ t' Cons.prems(3) srt later] by blast
  then show ?case using step(1) g v by (auto simp: case_prod_unfold Let_def)
qed simp

text \<open>\<open>POST /auth/logout\<close>: the token of the caller is denied for the rest of its life.\<close>

definition logout_endpoint :: "jwt_lib \<Rightarrow> settings \<Rightarrow> time \<Rightarrow> string \<Rightarrow> redis \<Rightarrow> error + redis" where
  "logout_endpoint J s now header r =
     and_then (require_auth J s now header r) (\<lambda>a.
     and_then (decode_access_token J s now (strip (drop 7 header))) (\<lambda>c.
     logout (now div 1000) (act_jti a) (ac_exp c - timestamp now) r))"

lemma request_otp_guessed:
  assumes "request_otp s hmac sms code t phone r = (Inr shown, r')"
  shows "guessed phone (hmac code (otp_hmac_key s)) (t + 1000 * OTP_TTL_SECONDS (business_of s)) 0 r'"
    and "0 < OTP_TTL_SECONDS (business_of s)"
  using assms
  by (auto simp: request_otp_def Let_def rset_ex_def guessed_def rdel_def svc_err
      split: if_splits sum.splits)

lemma verify_right:
  assumes "guessed phone (hmac code (otp_hmac_key s)) e 0 r" and "t \<le> e"
    and "e \<le> t + 1000 * OTP_TTL_SECONDS (business_of s)" and "0 < OTP_TTL_SECONDS (business_of s)"
  shows "fst (verify_otp s hmac t phone code r) = Inr True"
proof -
  obtain r' where b: "bump (attempts_key phone) (OTP_TTL_SECONDS (business_of s)) t r = Inr (int 0 + 1, r')"
    and "guessed phone (hmac code (otp_hmac_key s)) e (0 + 1) r'"
    by (rule bump_guessed [OF assms])
  then have "rget t r' (code_key phone) = Some (hmac code (otp_hmac_key s))"
    using assms(2) by (simp add: guessed_def rget_def rlive_def)
  with b show ?thesis by (simp add: verify_otp_def Let_def)
qed

lemma verify_true_spent:
  "verify_otp s hmac t phone code r = (Inr True, r') \<Longrightarrow> spent phone t r'"
  by (auto simp: verify_otp_def Let_def spent_def split: sum.splits prod.splits if_splits option.splits)

lemma guess_all_once:
  assumes "sorted (map fst gs)"
  shows "sorted_wrt (\<lambda>x y. \<not> (x = Inr True \<and> y = Inr True)) (fst (guess_all s hmac phone gs r))"
  using assms
proof (induction gs arbitrary: r)
  case (Cons g gs)
  obtain t code where g: "g = (t, code)" by (cases g)
  obtain res r' where v: "verify_otp s hmac t phone code r = (res, r')"
    by (cases "verify_otp s hmac t phone code r")
  have "res = Inr True \<Longrightarrow> Inr True \<notin> set (fst (guess_all s hmac phone gs r'))"
    by (rule spent_guess_all [where t = t]) (use verify_true_spent v Cons.prems g in auto)
  then show ?case using Cons g v by (auto simp: case_prod_unfold Let_def)
qed simp

text \<open>C23: A one-time code.  After a code was sent, entering it within its lifetime succeeds; if the
  first five guesses are wrong then no guess ever succeeds, whatever and whenever is tried until a
  new code is requested; and of any sequence of guesses at most one succeeds.\<close>

theorem otp_guess_limit:
  assumes "request_otp s hmac sms code t0 phone r0 = (Inr shown, r)"
    and "sorted (t0 # map fst gs)"
  shows "(\<forall>t. t0 \<le> t \<and> t \<le> t0 + 1000 * OTP_TTL_SECONDS (business_of s) \<longrightarrow>
      fst (verify_otp s hmac t phone code r) = Inr True) \<and>
    ((\<forall>i < length gs. i < 5 \<longrightarrow> hmac (snd (gs ! i)) (otp_hmac_key s) \<noteq> hmac code (otp_hmac_key s)) \<longrightarrow>
      Inr True \<notin> set (fst (guess_all s hmac phone gs r))) \<and>
    sorted_wrt (\<lambda>x y. \<not> (x = Inr True \<and> y = Inr True)) (fst (guess_all s hmac phone gs r))"
proof -
  note G = request_otp_guessed [OF assms(1)]
  show ?thesis
    using verify_right [where hmac = hmac and code = code and s = s, OF G(1)] G(2) guess_all_wrong [where hmac = hmac and s = s, OF G(1) _ G(2) assms(2)]
      guess_all_once [of gs s hmac phone r] assms(2) by auto
qed

definition sample_hmac :: keyed_hash where
  "sample_hmac v k = v"

theorem otp_guess_limit_witness:
  "\<exists>r. request_otp sample_settings sample_hmac True ''123456'' 0 ''5'' Map.empty = (Inr None, r) \<and>
     fst (verify_otp sample_settings sample_hmac 1000 ''5'' ''123456'' r) = Inr True \<and>
     Inr True \<notin> set (fst (guess_all sample_settings sample_hmac ''5''
       
       [(1, ''000000''), (1, ''000000''), (1, ''111111''), (1, ''000000''), (2, ''000000''), (2, ''123456'')] r))"
proof -
  obtain r where r: "request_otp sample_settings sample_hmac True ''123456'' 0 ''5'' Map.empty = (Inr None, r)"
    by (simp add: request_otp_def bump_def rincr_def rexpire_def rttl_def rset_ex_def sample_settings_def
        default_business_def Let_def rlive_def rget_def)
  let ?gs = "[(1, ''000000''), (1, ''000000''), (1, ''111111''), (1, ''000000''), (2, ''000000''), (2, ''123456'')] :: (ms \<times> string) list"
  have "sorted (0 # map fst ?gs)" by simp
  note L = otp_guess_limit [OF r this]
  have "fst (verify_otp sample_settings sample_hmac 1000 ''5'' ''123456'' r) = Inr True"
    by (rule L [THEN conjunct1, rule_format]) (simp add: sample_settings_def default_business_def)
  moreover have "Inr True \<notin> set (fst (guess_all sample_settings sample_hmac ''5'' ?gs r))"
    by (rule L [THEN conjunct2, THEN conjunct1, rule_format]) (auto simp: sample_hmac_def less_Suc_eq numeral_eq_Suc)
  ultimately show ?thesis using r by blast
qed


section \<open>Rotation\<close>

lemma find_by_put_used:
  assumes "find_by rt_token_hash h ts = Some t" and "distinct (map rt_id ts)"
    and "rt_id t' = rt_id t" and "rt_token_hash t' = rt_token_hash t"
  shows "find_by rt_token_hash h (put_by rt_id t' ts) = Some t'"
  using find_put_by [OF assms(1) [unfolded find_by_def] assms(2,3)] assms(4) find_by_SomeD [OF assms(1)]
  by (simp add: find_by_def)

lemma find_by_map_hash:
  assumes "\<And>t. rt_token_hash (f t) = rt_token_hash t"
  shows "find_by rt_token_hash h (map f ts) = map_option f (find_by rt_token_hash h ts)"
  by (induction ts) (simp_all add: find_by_Cons assms)

lemma refresh_by_hash_revoke:
  "refresh_by_hash h (revoke_family fam now d) = map_option (\<lambda>t.
     if rt_family_id t = fam \<and> rt_revoked_at t = None then t\<lparr>rt_revoked_at := Some now\<rparr> else t)
     (refresh_by_hash h d)"
  by (simp add: refresh_by_hash_def revoke_family_def revoke_where_def find_by_map_hash)

lemma refresh_dead:
  "refresh_by_hash (ae_sha E raw) d = Some t \<Longrightarrow> rt_revoked_at t \<noteq> None \<or> rt_used_at t \<noteq> None \<Longrightarrow>
   refresh E now raw d = (Inl UnauthorizedError, revoke_family (rt_family_id t) now d)"
  by (simp add: refresh_def)

lemma revoked_family_dead:
  assumes "refresh_by_hash (ae_sha E raw) (revoke_family fam now d) = Some t" and "rt_family_id t = fam"
  shows "fst (refresh E now' raw (revoke_family fam now d)) = Inl UnauthorizedError"
proof -
  obtain x where "t = (if rt_family_id x = fam \<and> rt_revoked_at x = None
      then x\<lparr>rt_revoked_at := Some now\<rparr> else x)"
    using assms(1) unfolding refresh_by_hash_revoke by blast
  then have "rt_revoked_at t \<noteq> None" using assms(2) by (cases "rt_revoked_at x") (simp_all split: if_splits)
  from refresh_dead [OF assms(1) disjI1, OF this] show ?thesis by simp
qed

lemma new_refresh_row:
  assumes "new_refresh E now user_id fam d = Inr (raw, d1)"
  shows "\<exists>t. refresh_by_hash (ae_sha E raw) d1 = Some t \<and> rt_family_id t = fam \<and>
    rt_user_id t = user_id \<and> rt_used_at t = None \<and> rt_revoked_at t = None"
proof -
  have raw: "raw = ae_raw E" and "find_by rt_token_hash (ae_sha E raw) (refresh_tokens d) = None"
    using assms by (auto simp: new_refresh_def insert_refresh_token_def fresh_def Let_def find_by_None)
  with assms show ?thesis
    by (auto simp: new_refresh_def insert_refresh_token_def fresh_def add_refresh_token_def
        refresh_by_hash_def find_by_append find_by_Cons Let_def)
qed

lemma refresh_ok:
  assumes "refresh E now raw d = (Inr tokens, d1)" and "distinct (map rt_id (refresh_tokens d))"
  obtains t u where "refresh_by_hash (ae_sha E raw) d = Some t" and "rt_used_at t = None"
    and "rt_revoked_at t = None" and "now < rt_expires_at t"
    and "get_user (rt_user_id t) d = Some u" and "u_status u \<noteq> US_BANNED"
    and "refresh_by_hash (ae_sha E raw) d1 = Some (t\<lparr>rt_used_at := Some now\<rparr>)"
    and "\<exists>t'. refresh_by_hash (ae_sha E (tp_refresh tokens)) d1 = Some t' \<and>
       rt_family_id t' = rt_family_id t \<and> rt_user_id t' = u_id u \<and> rt_used_at t' = None \<and>
       rt_revoked_at t' = None"
proof -
  obtain t where t: "refresh_by_hash (ae_sha E raw) d = Some t"
    using assms(1) by (auto simp: refresh_def split: option.splits)
  have live: "rt_used_at t = None" "rt_revoked_at t = None" "now < rt_expires_at t"
    using assms(1) t by (auto simp: refresh_def split: if_splits)
  let ?d = "mark_refresh_used t now d"
  have marked: "refresh_by_hash (ae_sha E raw) ?d = Some (t\<lparr>rt_used_at := Some now\<rparr>)"
    unfolding refresh_by_hash_def mark_refresh_used_def put_refresh_token_def
    using find_by_put_used [OF t [unfolded refresh_by_hash_def] assms(2)] by simp
  obtain u access where u: "get_user (rt_user_id t) ?d = Some u" "u_status u \<noteq> US_BANNED"
    and nr: "new_refresh E now (u_id u) (rt_family_id t) ?d = Inr (tp_refresh tokens, d1)"
    using assms(1) t live by (auto simp: refresh_def Let_def split: sum.splits prod.splits)
  have "get_user (rt_user_id t) d = Some u"
    using u(1) by (simp add: mark_refresh_used_def db_defs)
  moreover have "refresh_by_hash (ae_sha E raw) d1 = Some (t\<lparr>rt_used_at := Some now\<rparr>)"
    using nr marked
    by (auto simp: new_refresh_def insert_refresh_token_def fresh_def add_refresh_token_def refresh_by_hash_def
        find_by_append Let_def)
  moreover have "\<exists>t'. refresh_by_hash (ae_sha E (tp_refresh tokens)) d1 = Some t' \<and>
       rt_family_id t' = rt_family_id t \<and> rt_user_id t' = u_id u \<and> rt_used_at t' = None \<and>
       rt_revoked_at t' = None"
    by (rule new_refresh_row [OF nr])
  ultimately show ?thesis using that t live u(2) by blast
qed

text \<open>C24: Refresh tokens rotate.  A refresh succeeds only with a token that was never used nor
  revoked, is not expired and belongs to a user who is not banned; the pair it returns carries a
  fresh token of the same family.  Presenting the old token again is refused at any time and
  revokes the family: afterwards no token of it, the fresh one included, is ever accepted.\<close>

theorem refresh_rotation:
  assumes "refresh E now raw d = (Inr tokens, d1)" and "distinct (map rt_id (refresh_tokens d))"
  shows "\<exists>t u. refresh_by_hash (ae_sha E raw) d = Some t \<and> rt_used_at t = None \<and>
    rt_revoked_at t = None \<and> now < rt_expires_at t \<and>
    get_user (rt_user_id t) d = Some u \<and> u_status u \<noteq> US_BANNED \<and>
    (\<exists>t'. refresh_by_hash (ae_sha E (tp_refresh tokens)) d1 = Some t' \<and>
       rt_family_id t' = rt_family_id t \<and> rt_user_id t' = u_id u \<and> rt_used_at t' = None \<and>
       rt_revoked_at t' = None) \<and>
    (\<forall>E' now'. ae_sha E' = ae_sha E \<longrightarrow>
       refresh E' now' raw d1 = (Inl UnauthorizedError, revoke_family (rt_family_id t) now' d1) \<and>
       (\<forall>now'' raw' v. refresh_by_hash (ae_sha E raw') (revoke_family (rt_family_id t) now' d1) = Some v \<and>
          rt_family_id v = rt_family_id t \<longrightarrow>
          fst (refresh E' now'' raw' (revoke_family (rt_family_id t) now' d1)) = Inl UnauthorizedError))"
proof -
  obtain t u where t: "refresh_by_hash (ae_sha E raw) d = Some t" "rt_used_at t = None"
      "rt_revoked_at t = None" "now < rt_expires_at t" "get_user (rt_user_id t) d = Some u"
      "u_status u \<noteq> US_BANNED"
    and used: "refresh_by_hash (ae_sha E raw) d1 = Some (t\<lparr>rt_used_at := Some now\<rparr>)"
    and new: "\<exists>t'. refresh_by_hash (ae_sha E (tp_refresh tokens)) d1 = Some t' \<and>
       rt_family_id t' = rt_family_id t \<and> rt_user_id t' = u_id u \<and> rt_used_at t' = None \<and>
       rt_revoked_at t' = None"
    by (rule refresh_ok [OF assms])
  have "refresh E' now' raw d1 = (Inl UnauthorizedError, revoke_family (rt_family_id t) now' d1)"
    if "ae_sha E' = ae_sha E" for E' now'
    using refresh_dead [of E' raw d1 "t\<lparr>rt_used_at := Some now\<rparr>"] used that by simp
  moreover have "fst (refresh E' now'' raw' (revoke_family (rt_family_id t) now' d1)) = Inl UnauthorizedError"
    if "ae_sha E' = ae_sha E" "refresh_by_hash (ae_sha E raw') (revoke_family (rt_family_id t) now' d1) = Some v"
      "rt_family_id v = rt_family_id t" for E' now' now'' raw' v
    using revoked_family_dead [of E' raw' "rt_family_id t" now' d1 v now''] that by simp
  ultimately show ?thesis using t new by blast
qed


text \<open>A library that knows one token.\<close>

definition sample_jwt :: "claims \<Rightarrow> jwt_lib" where
  "sample_jwt c =
     \<lparr>jl_encode = (\<lambda>k a c. ''e30''),
      jl_decode = (\<lambda>now k a iss aud strict token.
        if token = ''e30'' \<and> cl_iss c = iss \<and> cl_aud c = aud \<and> now < cl_exp c \<and>
          (strict \<longrightarrow> cl_role c \<noteq> None \<and> cl_jti c \<noteq> None) then Some c else None)\<rparr>"

lemma sample_jwt_law: "jwt_law (sample_jwt c) k a c"
  by (simp add: jwt_law_def sample_jwt_def strip_def is_space_def)

definition sample_auth :: "string \<Rightarrow> auth_env" where
  "sample_auth raw =
     \<lparr>ae_settings = sample_settings, ae_hmac = sample_hmac, ae_sha = id,
      ae_jwt = sample_jwt (access_payload sample_settings 0 ''j'' 7 ''CUSTOMER''),
      ae_aead = sample_aead, ae_raw = raw, ae_jti = ''j'', ae_iv1 = ''1'', ae_iv2 = ''2''\<rparr>"

definition token_db :: db where
  "token_db = sample_db\<lparr>users := [sample_user 7 UR_CUSTOMER], refresh_tokens :=
     [\<lparr>rt_id = 1, rt_user_id = 7, rt_token_hash = ''first'', rt_family_id = 2, rt_expires_at = 50,
       rt_used_at = None, rt_revoked_at = None\<rparr>]\<rparr>"

theorem refresh_rotation_witness:
  "\<exists>tokens d1. refresh (sample_auth ''second'') 10 ''first'' token_db = (Inr tokens, d1) \<and>
     fst (refresh (sample_auth ''third'') 20 ''first'' d1) = Inl UnauthorizedError"
proof -
  have "\<exists>tokens d1. refresh (sample_auth ''second'') 10 ''first'' token_db = (Inr tokens, d1)"
    by (simp add: refresh_def refresh_by_hash_def token_db_def find_by_def sample_auth_def Let_def
        mark_refresh_used_def put_refresh_token_def put_by_def get_user_def sample_user_def
        create_access_token_def signing_key_def sample_settings_def new_refresh_def
        insert_refresh_token_def fresh_def)
  then obtain tokens d1 where r: "refresh (sample_auth ''second'') 10 ''first'' token_db = (Inr tokens, d1)"
    by blast
  have "distinct (map rt_id (refresh_tokens token_db))"
    by (simp add: token_db_def)
  from refresh_rotation [OF r this] have "fst (refresh (sample_auth ''third'') 20 ''first'' d1)
      = Inl UnauthorizedError"
    by (auto simp: sample_auth_def)
  with r show ?thesis by blast
qed

section \<open>The life of an access token\<close>

lemma parse_role_text [simp]: "parse_role (role_text role) = Some role"
  by (cases role) (simp_all add: parse_role_def)

lemma parse_uuid_str [simp]: "parse_uuid (str_uuid i) = Some i"
  by (simp add: parse_uuid_def str_uuid_def)

lemma decode_fresh:
  assumes "jwt_law J k HS256 (access_payload s now jti user_id (role_text role))"
    and "JWT_ALGORITHM (jwt_of s) = HS256" and "JWT_SECRET (jwt_of s) = Some (SecretStr k)"
  shows "decode_access_token J s now' (jl_encode J k HS256 (access_payload s now jti user_id (role_text role))) =
    (if timestamp now' < cl_exp (access_payload s now jti user_id (role_text role))
     then Inr \<lparr>ac_sub = str_uuid user_id, ac_role = role_text role, ac_jti = jti,
       ac_exp = cl_exp (access_payload s now jti user_id (role_text role))\<rparr>
     else Inl JwtError)"
proof -
  let ?c = "access_payload s now jti user_id (role_text role)"
  have f: "cl_iss ?c = JWT_ISSUER (jwt_of s)" "cl_aud ?c = JWT_AUDIENCE (jwt_of s)"
      "cl_role ?c = Some (role_text role)" "cl_jti ?c = Some jti" "cl_purpose ?c = None"
      "cl_sub ?c = str_uuid user_id"
    by (simp_all add: access_payload_def Let_def)
  have "jl_decode J (timestamp now') k HS256 (JWT_ISSUER (jwt_of s)) (JWT_AUDIENCE (jwt_of s)) True
      (jl_encode J k HS256 ?c) = (if timestamp now' < cl_exp ?c then Some ?c else None)"
    using assms(1) f by (simp add: jwt_law_def)
  then show ?thesis
    using assms(2,3) f by (simp add: decode_access_token_def verify_key_def Let_def)
qed

lemma auth_fresh:
  assumes "jwt_law J k HS256 (access_payload s now jti user_id (role_text role))"
    and "JWT_ALGORITHM (jwt_of s) = HS256" and "JWT_SECRET (jwt_of s) = Some (SecretStr k)"
    and "c = access_payload s now jti user_id (role_text role)" and "token = jl_encode J k HS256 c"
  shows "require_auth J s now' (''Bearer '' @ token) r =
    (if timestamp now' < cl_exp c \<and> \<not> has_flag (now' div 1000) r (denylist_key jti) \<and>
        \<not> has_flag (now' div 1000) r (banned_key (str_uuid user_id))
     then Inr \<lparr>act_id = user_id, act_role = role, act_jti = jti\<rparr> else Inl UnauthorizedError)"
proof -
  have "strip token = token" using assms(1,4,5) by (simp add: jwt_law_def)
  then show ?thesis
    using decode_fresh [OF assms(1-3), of now'] assms(4,5) by (simp add: require_auth_def ensure_def)
qed

lemma flag_outlives_token:
  assumes "timestamp now' < x" and "(t :: int) \<le> now'"
  shows "now' div 1000 \<le> t div 1000 + 1000 * max (x - timestamp t) 1"
  using assms unfolding timestamp_def max_def by (simp; linarith)


lemma has_flag_set: "r k = Some (''1'', Some x) \<Longrightarrow> t \<le> x \<Longrightarrow> has_flag t r k"
  by (simp add: has_flag_def truthy_def rget_def rlive_def)

lemma flag_keys_distinct [simp]: "denylist_key j \<noteq> banned_key u"
  by (simp add: denylist_key_def banned_key_def)



end
