(* ===== verification/Admin.thy ===== *)
theory Admin
  imports Withdrawals Auth
begin

text \<open>
  The administration of the platform: \<open>app/services/admin_service.py\<close> over
  \<open>app/repositories/user_repository.py\<close> and \<open>courier_repository.py\<close>,
  \<open>app/services/admin_auth_service.py\<close> over \<open>admin_session_repository.py\<close>, and the guards of
  \<open>app/admin/deps.py\<close>.  The hashes, \<open>uuid5\<close> and the random tokens are parameters.  An audit row
  keeps its actor, action and entity; the address and the note of an entry are not modelled.
  Text is ASCII, so \<open>casefold\<close> is the lower case.
\<close>

section \<open>Repositories\<close>

definition flush_user :: "user \<Rightarrow> db \<Rightarrow> error + db" where
  "flush_user u d = ensure (user_row_ok u d) IntegrityError (Inr (put_user u d))"

definition create_admin_user ::
  "string \<Rightarrow> string option \<Rightarrow> string option \<Rightarrow> user_role \<Rightarrow> db \<Rightarrow> error + user \<times> db" where
  "create_admin_user phone full_name email role d =
     insert_user phone full_name email None role US_ACTIVE d"

text \<open>\<open>INSERT ... ON CONFLICT DO NOTHING\<close>: a row with that key or that phone keeps its place.\<close>

definition ensure_dashboard_admin ::
  "(string \<Rightarrow> uuid) \<Rightarrow> (string \<Rightarrow> string) \<Rightarrow> string \<Rightarrow> db \<Rightarrow> user option \<times> db" where
  "ensure_dashboard_admin uuid5 sha username d =
     (let admin_id = uuid5 username; phone = ''admin:'' @ take 14 (sha username);
          u = \<lparr>u_id = admin_id, u_phone = phone, u_email = None,
               u_full_name = Some ''Dashboard administrator'', u_date_of_birth = None,
               u_role = UR_ADMIN, u_status = US_ACTIVE, u_rating = 5, u_rating_count = 0,
               u_deleted_at = None\<rparr>;
          d = (if list_ex (\<lambda>v. u_id v = admin_id \<or> u_phone v = phone) (users d) then d else add_user u d)
      in (get_user admin_id d, d))"

definition update_user_row ::
  "user \<Rightarrow> string option \<Rightarrow> string option \<Rightarrow> string option \<Rightarrow> db \<Rightarrow> error + db" where
  "update_user_row u phone full_name email d =
     flush_user (u\<lparr>u_phone := (case phone of None \<Rightarrow> u_phone u | Some p \<Rightarrow> p),
                   u_full_name := full_name, u_email := email\<rparr>) d"

definition soft_delete :: "time \<Rightarrow> user \<Rightarrow> db \<Rightarrow> error + db" where
  "soft_delete now u d = flush_user (u\<lparr>u_status := US_BANNED, u_deleted_at := Some now\<rparr>) d"

definition set_status :: "user \<Rightarrow> user_status \<Rightarrow> db \<Rightarrow> error + db" where
  "set_status u status d = flush_user (u\<lparr>u_status := status\<rparr>) d"

definition set_verified :: "courier_profile \<Rightarrow> bool \<Rightarrow> uuid \<Rightarrow> time \<Rightarrow> db \<Rightarrow> courier_profile \<times> db" where
  "set_verified p is_verified admin_id when d =
     (let p = p\<lparr>cp_is_verified := is_verified,
                cp_verified_at := (if is_verified then Some when else None),
                cp_verified_by_admin_id := Some admin_id\<rparr>
      in (p, put_courier_profile p d))"

definition update_profile_row :: "courier_profile \<Rightarrow> string \<Rightarrow> string option \<Rightarrow> db \<Rightarrow> db" where
  "update_profile_row p city bio d =
     put_courier_profile (p\<lparr>cp_city_of_residence := city, cp_bio := bio\<rparr>) d"

definition delete_profile_row :: "courier_profile \<Rightarrow> db \<Rightarrow> db" where
  "delete_profile_row p d = d\<lparr>courier_profiles :=
     filter (\<lambda>q. cp_user_id q \<noteq> cp_user_id p) (courier_profiles d)\<rparr>"

text \<open>\<open>DELETE\<close> of an order: media, conversations with their messages, ratings and invoices with their
  items and redemptions go with it; ledger rows and payment intents of those invoices, and ledger
  rows, disputes and the remaining redemptions of the order, forbid it.\<close>

definition refers :: "uuid option \<Rightarrow> uuid set \<Rightarrow> bool" where
  "refers ref gone \<longleftrightarrow> (case ref of None \<Rightarrow> False | Some i \<Rightarrow> i \<in> gone)"

definition delete_order_row :: "order \<Rightarrow> db \<Rightarrow> error + db" where
  "delete_order_row ord d =
     (let n = o_id ord;
          gone = inv_id ` set (filter (\<lambda>i. inv_order_id i = n) (invoices d));
          chats = cv_id ` set (filter (\<lambda>c. cv_order_id c = n) (conversations d));
          redemptions = filter (\<lambda>r. red_invoice_id r \<notin> gone) (promo_redemptions d)
      in ensure (list_all (\<lambda>r. red_order_id r \<noteq> n) redemptions \<and>
                 list_all (\<lambda>t. tx_reference_order_id t \<noteq> Some n \<and> \<not> refers (tx_reference_invoice_id t) gone)
                   (transactions d) \<and>
                 list_all (\<lambda>p. \<not> refers (pi_reference_invoice_id p) gone) (payment_intents d) \<and>
                 list_all (\<lambda>x. dp_order_id x \<noteq> n) (disputes d)) IntegrityError
         (Inr (d\<lparr>orders := filter (\<lambda>x. o_id x \<noteq> n) (orders d),
                 order_medias := filter (\<lambda>m. om_order_id m \<noteq> n) (order_medias d),
                 invoices := filter (\<lambda>i. inv_order_id i \<noteq> n) (invoices d),
                 invoice_items := filter (\<lambda>t. it_invoice_id t \<notin> gone) (invoice_items d),
                 promo_redemptions := redemptions,
                 conversations := filter (\<lambda>c. cv_order_id c \<noteq> n) (conversations d),
                 messages := filter (\<lambda>m. msg_conversation_id m \<notin> chats) (messages d),
                 ratings := filter (\<lambda>x. ra_order_id x \<noteq> n) (ratings d)\<rparr>)))"

definition update_admin_details ::
  "time \<Rightarrow> order \<Rightarrow> string option \<Rightarrow> string \<Rightarrow> int \<Rightarrow> string option \<Rightarrow> db \<Rightarrow> error + db" where
  "update_admin_details now ord description city delivery_date address_note d =
     flush_order now (ord\<lparr>o_description := description, o_delivery_city := city,
       o_delivery_date := delivery_date, o_delivery_address_note := address_note\<rparr>) d"

section \<open>Moderation of couriers and users\<close>

definition verify_courier ::
  "time \<Rightarrow> uuid \<Rightarrow> uuid \<Rightarrow> bool \<Rightarrow> db \<Rightarrow> error + courier_profile \<times> db" where
  "verify_courier now admin_id courier_user_id approve d =
     or_raise (get_courier_profile courier_user_id d) NotFoundError (\<lambda>p.
     let (p, d) = set_verified p approve admin_id now d
     in and_then (case get_user courier_user_id d of
            Some u \<Rightarrow> if approve \<and> u_status u = US_PENDING_VERIFICATION then set_status u US_ACTIVE d
                      else Inr d
          | None \<Rightarrow> Inr d) (\<lambda>d.
        Inr (p, record_audit (Some admin_id) (if approve then ''COURIER_VERIFY'' else ''COURIER_REJECT'')
          ''courier_profiles'' (Some courier_user_id) d)))"

definition decrypt_present :: "aead \<Rightarrow> field_cipher \<Rightarrow> string option \<Rightarrow> string \<Rightarrow> error + string option" where
  "decrypt_present A c v aad =
     (if truthy v then and_then (decrypt A c (the v) aad) (\<lambda>t. Inr (Some t)) else Inr None)"

definition identity_aad :: "string \<Rightarrow> uuid \<Rightarrow> string" where
  "identity_aad column user_id = build_aad ''courier_profiles'' column (str_uuid user_id)"

definition reveal_identity ::
  "settings \<Rightarrow> aead \<Rightarrow> uuid \<Rightarrow> uuid \<Rightarrow> db \<Rightarrow> error + (string option \<times> string option) \<times> db" where
  "reveal_identity s A admin_id courier_user_id d =
     or_raise (get_courier_profile courier_user_id d) NotFoundError (\<lambda>p.
     and_then (settings_cipher s) (\<lambda>c.
     and_then (decrypt_present A c (cp_national_id_encrypted p) (identity_aad ''national_id'' courier_user_id))
       (\<lambda>national.
     and_then (decrypt_present A c (cp_passport_id_encrypted p) (identity_aad ''passport_id'' courier_user_id))
       (\<lambda>passport.
     Inr ((national, passport), record_audit (Some admin_id) ''IDENTITY_REVEAL'' ''courier_profiles''
       (Some courier_user_id) d)))))"

definition reveal_iban :: "settings \<Rightarrow> aead \<Rightarrow> uuid \<Rightarrow> withdrawal \<Rightarrow> db \<Rightarrow> error + string \<times> db" where
  "reveal_iban s A admin_id w d =
     and_then (settings_cipher s) (\<lambda>c.
     and_then (decrypt A c (wd_iban_encrypted w) (iban_aad (wd_id w))) (\<lambda>iban.
     Inr (iban, record_audit (Some admin_id) ''IBAN_REVEAL'' ''withdrawals'' (Some (wd_id w)) d)))"

definition ban_ttl :: "settings \<Rightarrow> int" where
  "ban_ttl s = JWT_ACCESS_TTL_MINUTES (jwt_of s) * 60 + 60"

text \<open>The database part is rolled back when it raises; what was written to Redis stays.\<close>

definition set_user_banned ::
  "time \<Rightarrow> settings \<Rightarrow> uuid \<Rightarrow> uuid \<Rightarrow> bool \<Rightarrow> db \<Rightarrow> redis \<Rightarrow> (error + db) \<times> redis" where
  "set_user_banned now s admin_id user_id banned d r =
     (case or_raise (get_user user_id d) NotFoundError (\<lambda>u.
             set_status u (if banned then US_BANNED else US_ACTIVE) d) of
        Inl e \<Rightarrow> (Inl e, r)
      | Inr d \<Rightarrow>
        if banned
        then (case rset_ex (banned_key (str_uuid user_id)) ''1'' (ban_ttl s) (now div 1000) r of
            Inl e \<Rightarrow> (Inl e, r)
          | Inr r \<Rightarrow> (Inr (record_audit (Some admin_id) ''USER_BAN'' ''users'' (Some user_id)
              (revoke_all_for_user user_id now d)), r))
        else (Inr (record_audit (Some admin_id) ''USER_UNBAN'' ''users'' (Some user_id) d),
              rdel [banned_key (str_uuid user_id)] r))"

definition owned_by_other :: "user option \<Rightarrow> uuid \<Rightarrow> bool" where
  "owned_by_other owner user_id \<longleftrightarrow> (case owner of None \<Rightarrow> False | Some u \<Rightarrow> u_id u \<noteq> user_id)"

definition update_user_profile ::
  "uuid \<Rightarrow> uuid \<Rightarrow> string option \<Rightarrow> string option \<Rightarrow> string option \<Rightarrow> db \<Rightarrow> error + db" where
  "update_user_profile admin_id user_id full_name email phone d =
     or_raise (get_user user_id d) NotFoundError (\<lambda>u.
     ensure (\<not> (truthy phone \<and> owned_by_other (get_by_phone (the phone) d) user_id)) ConflictError
     (ensure (\<not> (truthy email \<and> owned_by_other (get_by_email (the email) d) user_id)) ConflictError
     (and_then (update_user_row u phone full_name email d) (\<lambda>d.
      Inr (record_audit (Some admin_id) ''USER_PROFILE_UPDATE'' ''users'' (Some user_id) d)))))"

definition create_user ::
  "uuid \<Rightarrow> string \<Rightarrow> string option \<Rightarrow> string option \<Rightarrow> user_role \<Rightarrow> db \<Rightarrow> error + user \<times> db" where
  "create_user admin_id phone full_name email role d =
     ensure (role \<noteq> UR_ADMIN) ValidationDomainError
     (ensure (phone \<noteq> []) ValidationDomainError
     (ensure (get_by_phone phone d = None) ConflictError
     (ensure (\<not> (truthy email \<and> get_by_email (the email) d \<noteq> None)) ConflictError
     (and_then (create_admin_user phone full_name email role d) (\<lambda>(u, d).
      Inr (u, record_audit (Some admin_id) ''USER_CREATE'' ''users'' (Some (u_id u)) d))))))"

definition delete_user ::
  "time \<Rightarrow> settings \<Rightarrow> uuid \<Rightarrow> uuid \<Rightarrow> db \<Rightarrow> redis \<Rightarrow> (error + db) \<times> redis" where
  "delete_user now s admin_id user_id d r =
     (case or_raise (get_user user_id d) NotFoundError (\<lambda>u.
             ensure (u_role u \<noteq> UR_ADMIN) ValidationDomainError (soft_delete now u d)) of
        Inl e \<Rightarrow> (Inl e, r)
      | Inr d \<Rightarrow>
        (case rset_ex (banned_key (str_uuid user_id)) ''1'' (ban_ttl s) (now div 1000) r of
           Inl e \<Rightarrow> (Inl e, r)
         | Inr r \<Rightarrow> (Inr (record_audit (Some admin_id) ''USER_DELETE'' ''users'' (Some user_id)
             (revoke_all_for_user user_id now d)), r)))"

definition update_courier_profile ::
  "uuid \<Rightarrow> uuid \<Rightarrow> string \<Rightarrow> string option \<Rightarrow> db \<Rightarrow> error + db" where
  "update_courier_profile admin_id courier_user_id city bio d =
     or_raise (get_courier_profile courier_user_id d) NotFoundError (\<lambda>p.
     ensure (city \<noteq> []) ValidationDomainError
     (Inr (record_audit (Some admin_id) ''COURIER_PROFILE_UPDATE'' ''courier_profiles''
        (Some courier_user_id) (update_profile_row p city bio d))))"

definition create_courier_profile ::
  "settings \<Rightarrow> aead \<Rightarrow> keyed_hash \<Rightarrow> string \<Rightarrow> uuid \<Rightarrow> uuid \<Rightarrow> string \<Rightarrow> string option \<Rightarrow> string \<Rightarrow> string \<Rightarrow> db
     \<Rightarrow> error + courier_profile \<times> db" where
  "create_courier_profile s A hmac iv admin_id user_id city bio document identity_type d =
     ensure (case get_user user_id d of None \<Rightarrow> False | Some u \<Rightarrow> u_role u = UR_COURIER) ValidationDomainError
     (ensure (get_courier_profile user_id d = None) ConflictError
     (ensure (city \<noteq> []) ValidationDomainError
     (ensure (document \<noteq> []) ValidationDomainError
     (ensure (identity_type \<in> set [''national_id'', ''passport_id'']) ValidationDomainError
     (let fingerprint = hmac document (get_secret_value (IDENTITY_FINGERPRINT_PEPPER (encryption_of s)))
      in ensure (\<not> fingerprint_exists fingerprint d) ConflictError
         (and_then (settings_cipher s) (\<lambda>c.
          and_then (encrypt A c iv document (identity_aad
            (if identity_type = ''national_id'' then ''national_id'' else ''passport_id'') user_id)) (\<lambda>enc.
          and_then (insert_profile user_id city bio
              (if identity_type = ''national_id'' then Some enc else None)
              (if identity_type = ''passport_id'' then Some enc else None) fingerprint d) (\<lambda>(p, d).
          Inr (p, record_audit (Some admin_id) ''COURIER_PROFILE_CREATE'' ''courier_profiles''
            (Some user_id) d))))))))))"

definition delete_courier_profile :: "uuid \<Rightarrow> uuid \<Rightarrow> db \<Rightarrow> error + db" where
  "delete_courier_profile admin_id user_id d =
     or_raise (get_courier_profile user_id d) NotFoundError (\<lambda>p.
     Inr (record_audit (Some admin_id) ''COURIER_PROFILE_DELETE'' ''courier_profiles'' (Some user_id)
       (delete_profile_row p d)))"

section \<open>Orders before they are paid\<close>

definition within_180_days :: "time \<Rightarrow> int \<Rightarrow> bool" where
  "within_180_days now delivery_date \<longleftrightarrow>
     current_date now \<le> delivery_date \<and> delivery_date \<le> current_date now + 180"

definition admin_create_order ::
  "time \<Rightarrow> uuid \<Rightarrow> uuid \<Rightarrow> new_order_input \<Rightarrow> string option \<Rightarrow> db \<Rightarrow> error + uuid \<times> db" where
  "admin_create_order now admin_id customer_id n address_note d =
     ensure (case get_user customer_id d of None \<Rightarrow> False
       | Some u \<Rightarrow> u_role u = UR_CUSTOMER \<and> u_status u = US_ACTIVE \<and> u_deleted_at u = None)
       ValidationDomainError
     (ensure (no_delivery_city n \<noteq> []) ValidationDomainError
     (ensure (within_180_days now (no_delivery_date n)) ValidationDomainError
     (ensure (-90 \<le> no_latitude n \<and> no_latitude n \<le> 90 \<and> -180 \<le> no_longitude n \<and> no_longitude n \<le> 180)
        ValidationDomainError
     (and_then (create_order_row now customer_id n address_note d) (\<lambda>(ord, d).
      Inr (o_id ord, record_audit (Some admin_id) ''ORDER_CREATE'' ''orders'' (Some (o_id ord)) d))))))"

definition delete_order :: "uuid \<Rightarrow> uuid \<Rightarrow> db \<Rightarrow> error + db" where
  "delete_order admin_id order_id d =
     or_raise (get_order order_id d) NotFoundError (\<lambda>ord.
     ensure (o_status ord = OS_NEW) ConflictError
     (and_then (delete_order_row ord d) (\<lambda>d.
      Inr (record_audit (Some admin_id) ''ORDER_DELETE'' ''orders'' (Some order_id) d))))"

definition update_order_details ::
  "time \<Rightarrow> uuid \<Rightarrow> uuid \<Rightarrow> string option \<Rightarrow> string \<Rightarrow> int \<Rightarrow> string option \<Rightarrow> db \<Rightarrow> error + db" where
  "update_order_details now admin_id order_id description city delivery_date address_note d =
     or_raise (get_order order_id d) NotFoundError (\<lambda>ord.
     ensure (o_status ord = OS_NEW \<or> o_status ord = OS_ASSIGNED) ConflictError
     (ensure (city \<noteq> []) ValidationDomainError
     (ensure (within_180_days now delivery_date) ValidationDomainError
     (and_then (update_admin_details now ord description city delivery_date address_note d) (\<lambda>d.
      Inr (record_audit (Some admin_id) ''ORDER_DETAILS_UPDATE'' ''orders'' (Some order_id) d))))))"

section \<open>A ban ends access\<close>

lemma ban_outlives_token:
  assumes "timestamp now' < timestamp (issued + m * 60 * 1000000)" and "issued \<le> now"
  shows "now' div 1000 \<le> now div 1000 + 1000 * (m * 60 + 60)"
proof -
  have "now' < issued + m * 60 * 1000000"
    using assms(1) zdiv_mono1 [of "issued + m * 60 * 1000000" now' 1000000] by (simp add: timestamp_def not_le [symmetric])
  then have "now' \<le> now + 1000 * (1000 * (m * 60))" using assms(2) by simp
  then have "now' div 1000 \<le> (now + 1000 * (1000 * (m * 60))) div 1000" by (rule zdiv_mono1) simp
  then show ?thesis by simp
qed

lemma set_user_bannedE:
  assumes "set_user_banned now s a u True d r = (Inr d', r')"
  obtains v where "get_user u d = Some v" and "user_row_ok (v\<lparr>u_status := US_BANNED\<rparr>) d"
    and "d' = record_audit (Some a) ''USER_BAN'' ''users'' (Some u)
      (revoke_all_for_user u now (put_user (v\<lparr>u_status := US_BANNED\<rparr>) d))"
    and "r' = r(banned_key (str_uuid u) \<mapsto> (''1'', Some (now div 1000 + 1000 * ban_ttl s)))"
  using assms by (auto simp: set_user_banned_def set_status_def flush_user_def rset_ex_def split: sum.splits)

lemma revoke_all_dead:
  assumes "refresh_by_hash (ae_sha E raw) (revoke_all_for_user u now d) = Some t" and "rt_user_id t = u"
  shows "rt_revoked_at t \<noteq> None"
proof -
  have "t \<in> set (refresh_tokens (revoke_all_for_user u now d))"
    using assms(1) by (auto simp: refresh_by_hash_def dest: find_by_SomeD)
  then have "(\<exists>x. t = x\<lparr>rt_revoked_at := Some now\<rparr>) \<or> rt_revoked_at t \<noteq> None"
    using assms(2) by (simp add: revoke_all_for_user_def revoke_where_def image_iff) blast
  then show ?thesis by (elim disjE exE) simp_all
qed



end
