(* ===== verification/Dashboard.thy ===== *)
theory Dashboard
  imports Admin
begin

text \<open>
  The way into the administration: \<open>app/services/admin_auth_service.py\<close> over
  \<open>app/repositories/admin_session_repository.py\<close>, the CSRF tokens of \<open>app/core/security.py\<close>, the
  guards of \<open>app/admin/deps.py\<close> and the forms of \<open>app/admin/router.py\<close>.  SHA-256, HMAC-SHA256,
  \<open>uuid5\<close> and the random session token are parameters.  Time is in microseconds, Redis time in
  milliseconds.  \<open>up\<close> tells whether the script of the login throttle reaches Redis.
  The commands that follow it in the same call do when it does.  A page that is rendered is
  represented by the data it shows, a redirect by its target.  The framework checks the length of
  a form field before the form runs.
\<close>

section \<open>Sessions\<close>

definition make_csrf_token :: "keyed_hash \<Rightarrow> string \<Rightarrow> string \<Rightarrow> string" where
  "make_csrf_token hmac session_token_hash secret = hmac session_token_hash secret"

definition verify_csrf_token :: "keyed_hash \<Rightarrow> string \<Rightarrow> string \<Rightarrow> string \<Rightarrow> bool" where
  "verify_csrf_token hmac token session_token_hash secret \<longleftrightarrow>
     token = make_csrf_token hmac session_token_hash secret"

text \<open>\<open>uq_admin_sessions_token_hash\<close> refuses a second row with the same hash.\<close>

definition create_session ::
  "time \<Rightarrow> uuid \<Rightarrow> string \<Rightarrow> time \<Rightarrow> string option \<Rightarrow> string option \<Rightarrow> db \<Rightarrow> error + admin_session \<times> db" where
  "create_session now admin_user_id token_hash expires_at ip user_agent d =
     (let (n, d) = fresh d;
          row = \<lparr>as_id = n, as_admin_user_id = admin_user_id, as_session_token_hash = token_hash,
                 as_ip_address = ip, as_user_agent = user_agent, as_expires_at = expires_at,
                 as_revoked_at = None, as_created_at = now\<rparr>
      in ensure (token_hash \<notin> set (map as_session_token_hash (admin_sessions d))) IntegrityError
         (Inr (row, add_admin_session row d)))"

definition get_active :: "string \<Rightarrow> time \<Rightarrow> db \<Rightarrow> admin_session option" where
  "get_active token_hash now d =
     List.find (\<lambda>r. as_session_token_hash r = token_hash \<and> as_revoked_at r = None \<and> now < as_expires_at r)
       (admin_sessions d)"

definition touch :: "admin_session \<Rightarrow> time \<Rightarrow> db \<Rightarrow> admin_session \<times> db" where
  "touch row expires_at d =
     (let row = row\<lparr>as_expires_at := expires_at\<rparr> in (row, put_admin_session row d))"

definition revoke :: "admin_session \<Rightarrow> time \<Rightarrow> db \<Rightarrow> db" where
  "revoke row now d = put_admin_session (row\<lparr>as_revoked_at := Some now\<rparr>) d"

section \<open>Authentication service\<close>

definition ABSOLUTE_CAP :: time where
  "ABSOLUTE_CAP = 12 * 3600 * 1000000"

definition STEPUP_TTL_SECONDS :: int where
  "STEPUP_TTL_SECONDS = 300"

definition LOGIN_WINDOW_SECONDS :: int where
  "LOGIN_WINDOW_SECONDS = 300"

definition LOGIN_MAX_ATTEMPTS :: int where
  "LOGIN_MAX_ATTEMPTS = 5"

text \<open>The settings, the hashes, the clock and what the browser sent along.\<close>

record web =
  wb_settings :: settings
  wb_sha :: "string \<Rightarrow> string"
  wb_hmac :: keyed_hash
  wb_uuid5 :: "string \<Rightarrow> uuid"
  wb_now :: time
  wb_up :: bool
  wb_ip :: "string option"
  wb_user_agent :: "string option"
  wb_cookie :: "string option"

abbreviation wb_ms :: "web \<Rightarrow> ms" where
  "wb_ms W \<equiv> wb_now W div 1000"

definition session_secret :: "web \<Rightarrow> error + string" where
  "session_secret W = or_raise (ADMIN_SESSION_SECRET (admin_of (wb_settings W))) UnauthorizedError
     (\<lambda>k. Inr (get_secret_value k))"

definition session_ttl :: "web \<Rightarrow> time" where
  "session_ttl W = ADMIN_SESSION_TTL_MINUTES (admin_of (wb_settings W)) * 60000000"

text \<open>\<open>_LOGIN_THROTTLE_LUA\<close>: one atomic script over both counters; an error leaves what it did.\<close>

fun throttle_script :: "string list \<Rightarrow> int \<Rightarrow> int \<Rightarrow> ms \<Rightarrow> redis \<Rightarrow> (error + bool) \<times> redis" where
  "throttle_script [] window limit t r = (Inr True, r)"
| "throttle_script (k # ks) window limit t r =
     (case bump k window t r of Inl e \<Rightarrow> (Inl e, r)
      | Inr (count, r) \<Rightarrow>
          if count > limit then (Inr False, r) else throttle_script ks window limit t r)"

definition login_keys :: "(string \<Rightarrow> string) \<Rightarrow> string \<Rightarrow> string option \<Rightarrow> string list" where
  "login_keys sha username ip =
     [''admin:login:user:'' @ sha (map lower username),
      ''admin:login:ip:'' @ sha (if truthy ip then the ip else ''unknown'')]"

definition check_login_throttle :: "web \<Rightarrow> string \<Rightarrow> redis \<Rightarrow> (error + string list) \<times> redis" where
  "check_login_throttle W username r =
     (let keys = login_keys (wb_sha W) username (wb_ip W)
      in if \<not> wb_up W then (Inl (RateLimitedError LOGIN_WINDOW_SECONDS), r)
         else case throttle_script keys LOGIN_WINDOW_SECONDS LOGIN_MAX_ATTEMPTS (wb_ms W) r of
             (Inl _, r) \<Rightarrow> (Inl (RateLimitedError LOGIN_WINDOW_SECONDS), r)
           | (Inr ok, r) \<Rightarrow> (ensure ok (RateLimitedError LOGIN_WINDOW_SECONDS) (Inr keys), r))"

definition credentials_match :: "web \<Rightarrow> string \<Rightarrow> string \<Rightarrow> bool" where
  "credentials_match W username password \<longleftrightarrow>
     (let a = admin_of (wb_settings W)
      in username = (case ADMIN_USERNAME a of None \<Rightarrow> [] | Some u \<Rightarrow> u) \<and>
         password = (case ADMIN_PASSWORD a of None \<Rightarrow> [] | Some p \<Rightarrow> get_secret_value p))"

record admin_login =
  lg_raw_session_token :: string
  lg_csrf_token :: string
  lg_admin :: user

definition valid_admin :: "user \<Rightarrow> bool" where
  "valid_admin u \<longleftrightarrow> u_role u = UR_ADMIN \<and> u_status u = US_ACTIVE"

text \<open>\<open>raw\<close> is the fresh session token.\<close>

definition complete_login ::
  "web \<Rightarrow> string \<Rightarrow> string \<Rightarrow> string \<Rightarrow> db \<Rightarrow> redis \<Rightarrow> (error + admin_login \<times> db) \<times> redis" where
  "complete_login W raw username password d r =
     (case check_login_throttle W username r of (Inl e, r) \<Rightarrow> (Inl e, r)
      | (Inr keys, r) \<Rightarrow>
        if \<not> credentials_match W username password then (Inl UnauthorizedError, r)
        else case ensure_dashboard_admin (wb_uuid5 W) (wb_sha W) username d of
            (None, d) \<Rightarrow> (Inl UnauthorizedError, r)
          | (Some u, d) \<Rightarrow>
            if \<not> valid_admin u then (Inl UnauthorizedError, r)
            else (let token_hash = wb_sha W raw
                  in and_then (create_session (wb_now W) (u_id u) token_hash (wb_now W + session_ttl W)
                        (wb_ip W) (wb_user_agent W) d) (\<lambda>(_, d).
                     and_then (session_secret W) (\<lambda>k.
                     Inr (\<lparr>lg_raw_session_token = raw,
                           lg_csrf_token = make_csrf_token (wb_hmac W) token_hash k, lg_admin = u\<rparr>, d))),
                  rdel keys r))"

definition load_session :: "web \<Rightarrow> string \<Rightarrow> db \<Rightarrow> error + (admin_session \<times> user) \<times> db" where
  "load_session W raw_token d =
     (let now = wb_now W
      in or_raise (get_active (wb_sha W raw_token) now d) UnauthorizedError (\<lambda>row.
         or_raise (get_user (as_admin_user_id row) d) UnauthorizedError (\<lambda>admin.
         ensure (valid_admin admin) UnauthorizedError
         (let cap = as_created_at row + ABSOLUTE_CAP;
              new_expiry = min (now + session_ttl W) cap;
              (row, d) = touch row new_expiry d
          in Inr ((row, admin), d)))))"

definition admin_logout :: "web \<Rightarrow> string \<Rightarrow> db \<Rightarrow> db" where
  "admin_logout W raw_token d =
     (case get_active (wb_sha W raw_token) (wb_now W) d of None \<Rightarrow> d
      | Some row \<Rightarrow> revoke row (wb_now W) d)"

definition csrf_token_for :: "web \<Rightarrow> string \<Rightarrow> error + string" where
  "csrf_token_for W session_token_hash =
     and_then (session_secret W) (\<lambda>k. Inr (make_csrf_token (wb_hmac W) session_token_hash k))"

definition stepup_key :: "string \<Rightarrow> string" where
  "stepup_key session_token_hash = ''admin:stepup:'' @ session_token_hash"

definition grant_step_up :: "web \<Rightarrow> string \<Rightarrow> string \<Rightarrow> redis \<Rightarrow> (error + unit) \<times> redis" where
  "grant_step_up W password session_token_hash r =
     (let username = (case ADMIN_USERNAME (admin_of (wb_settings W)) of None \<Rightarrow> [] | Some u \<Rightarrow> u)
      in case check_login_throttle W username r of (Inl e, r) \<Rightarrow> (Inl e, r)
         | (Inr keys, r) \<Rightarrow>
           if \<not> credentials_match W username password then (Inl ForbiddenError, r)
           else case rset_ex (stepup_key session_token_hash) ''1'' STEPUP_TTL_SECONDS (wb_ms W) (rdel keys r) of
               Inl e \<Rightarrow> (Inl e, rdel keys r) | Inr r \<Rightarrow> (Inr (), r))"

definition has_step_up :: "web \<Rightarrow> string \<Rightarrow> redis \<Rightarrow> bool" where
  "has_step_up W session_token_hash r \<longleftrightarrow> has_flag (wb_ms W) r (stepup_key session_token_hash)"

section \<open>Guards of a request\<close>

text \<open>How a request to the dashboard ends early: sent to the login page, refused by the form
  validation of the framework, or by an exception of a service.\<close>

datatype admin_exit = AdminRedirect string | InvalidForm | Raised error

definition raised :: "error + 'a \<Rightarrow> admin_exit + 'a" where
  "raised = map_sum Raised id"

record admin_context =
  ctx_session_row :: admin_session
  ctx_admin :: user
  ctx_csrf_token :: string

definition require_admin :: "web \<Rightarrow> db \<Rightarrow> admin_exit + admin_context \<times> db" where
  "require_admin W d =
     (if \<not> truthy (wb_cookie W) then Inl (AdminRedirect ''/admin/login'')
      else case load_session W (the (wb_cookie W)) d of Inl _ \<Rightarrow> Inl (AdminRedirect ''/admin/login'')
        | Inr ((row, admin), d) \<Rightarrow>
            and_then (raised (csrf_token_for W (as_session_token_hash row))) (\<lambda>token.
            Inr (\<lparr>ctx_session_row = row, ctx_admin = admin, ctx_csrf_token = token\<rparr>, d)))"

definition verify_csrf :: "web \<Rightarrow> admin_context \<Rightarrow> string \<Rightarrow> error + unit" where
  "verify_csrf W ctx submitted_token =
     or_raise (ADMIN_SESSION_SECRET (admin_of (wb_settings W))) ForbiddenError (\<lambda>secret.
     ensure (submitted_token \<noteq> []) ForbiddenError
     (ensure (verify_csrf_token (wb_hmac W) submitted_token
        (as_session_token_hash (ctx_session_row ctx)) (get_secret_value secret)) ForbiddenError (Inr ())))"

definition require_step_up :: "web \<Rightarrow> admin_context \<Rightarrow> redis \<Rightarrow> error + unit" where
  "require_step_up W ctx r =
     ensure (has_step_up W (as_session_token_hash (ctx_session_row ctx)) r) ForbiddenError (Inr ())"

definition session_hash_from_cookie :: "web \<Rightarrow> string option" where
  "session_hash_from_cookie W =
     (if truthy (wb_cookie W) then Some (wb_sha W (the (wb_cookie W))) else None)"

section \<open>Forms\<close>

definition form_field :: "nat \<Rightarrow> nat \<Rightarrow> string \<Rightarrow> bool" where
  "form_field lo hi v \<longleftrightarrow> lo \<le> length v \<and> length v \<le> hi"

definition or_none :: "string \<Rightarrow> string option" where
  "or_none v = (if v = [] then None else Some v)"

text \<open>What comes back: the login page with a status, or a redirect that may set the cookie to a
  value with its \<open>secure\<close> flag and age, or delete it.\<close>

datatype cookie_change = KeepCookie | SetCookie string bool int | DeleteCookie

datatype response = LoginPage int | RedirectResponse string cookie_change

text \<open>The dashboard is mounted only with a session secret, so a login that is refused has written
  nothing.\<close>

definition login_form ::
  "web \<Rightarrow> string \<Rightarrow> string \<Rightarrow> string \<Rightarrow> db \<Rightarrow> redis \<Rightarrow> (admin_exit + response \<times> db) \<times> redis" where
  "login_form W raw username password d r =
     (if \<not> (form_field 1 128 username \<and> form_field 1 1024 password) then (Inl InvalidForm, r)
      else case complete_login W raw username password d r of
          (Inl e, r) \<Rightarrow>
            ((case e of UnauthorizedError \<Rightarrow> Inr (LoginPage (error_status e), d)
              | RateLimitedError n \<Rightarrow> Inr (LoginPage (error_status e), d)
              | _ \<Rightarrow> Inl (Raised e)), r)
        | (Inr (result, d), r) \<Rightarrow>
            (Inr (RedirectResponse ''/admin'' (SetCookie (lg_raw_session_token result)
               (is_production (wb_settings W))
               (ADMIN_SESSION_TTL_MINUTES (admin_of (wb_settings W)) * 60)), d), r))"

definition logout_form :: "web \<Rightarrow> db \<Rightarrow> response \<times> db" where
  "logout_form W d =
     (RedirectResponse ''/admin/login'' DeleteCookie,
      if truthy (wb_cookie W) then admin_logout W (the (wb_cookie W)) d else d)"

definition step_up_verify ::
  "web \<Rightarrow> string \<Rightarrow> string \<Rightarrow> string \<Rightarrow> db \<Rightarrow> redis \<Rightarrow> (admin_exit + response \<times> db) \<times> redis" where
  "step_up_verify W password next_url csrf_token d r =
     (case ensure (form_field 1 1024 password) InvalidForm
             (and_then (require_admin W d) (\<lambda>(ctx, d).
              and_then (raised (verify_csrf W ctx csrf_token)) (\<lambda>_. Inr (ctx, d)))) of
        Inl e \<Rightarrow> (Inl e, r)
      | Inr (ctx, d) \<Rightarrow>
          (case grant_step_up W password (as_session_token_hash (ctx_session_row ctx)) r of
             (Inl e, r) \<Rightarrow> (Inl (Raised e), r)
           | (Inr _, r) \<Rightarrow>
               (Inr (RedirectResponse
                  (if take 6 next_url = ''/admin'' then next_url else ''/admin'') KeepCookie, d), r)))"

text \<open>The lines every form shares: the session, then the CSRF token.\<close>

definition authed ::
  "web \<Rightarrow> string \<Rightarrow> db \<Rightarrow> (uuid \<Rightarrow> admin_context \<Rightarrow> db \<Rightarrow> admin_exit + 'a) \<Rightarrow> admin_exit + 'a" where
  "authed W csrf_token d k =
     and_then (require_admin W d) (\<lambda>(ctx, d).
     and_then (raised (verify_csrf W ctx csrf_token)) (\<lambda>_. k (u_id (ctx_admin ctx)) ctx d))"

definition stepped_up :: "web \<Rightarrow> admin_context \<Rightarrow> redis \<Rightarrow> admin_exit + 'a \<Rightarrow> admin_exit + 'a" where
  "stepped_up W ctx r k = and_then (raised (require_step_up W ctx r)) (\<lambda>_. k)"

definition see_other :: "string \<Rightarrow> db \<Rightarrow> admin_exit + response \<times> db" where
  "see_other target d = Inr (RedirectResponse target KeepCookie, d)"

definition courier_create ::
  "web \<Rightarrow> aead \<Rightarrow> string \<Rightarrow> string \<Rightarrow> uuid \<Rightarrow> string \<Rightarrow> string \<Rightarrow> string \<Rightarrow> string \<Rightarrow> db
     \<Rightarrow> admin_exit + response \<times> db" where
  "courier_create W A iv csrf_token user_id city identity_type document bio d =
     ensure (form_field 1 100 city \<and> form_field 1 100 document \<and> form_field 0 1000 bio) InvalidForm
     (authed W csrf_token d (\<lambda>admin_id ctx d.
      and_then (raised (create_courier_profile (wb_settings W) A (wb_hmac W) iv admin_id user_id
        (strip city) (or_none (strip bio)) (strip document) identity_type d)) (\<lambda>(p, d).
      see_other (''/admin/couriers/'' @ str_uuid (cp_user_id p)) d)))"

definition courier_verify ::
  "web \<Rightarrow> uuid \<Rightarrow> string \<Rightarrow> string \<Rightarrow> db \<Rightarrow> redis \<Rightarrow> admin_exit + response \<times> db" where
  "courier_verify W courier_id verdict csrf_token d r =
     authed W csrf_token d (\<lambda>admin_id ctx d.
     stepped_up W ctx r
     (and_then (raised (verify_courier (wb_now W) admin_id courier_id (verdict = ''approve'') d)) (\<lambda>(_, d).
      see_other (''/admin/couriers/'' @ str_uuid courier_id) d)))"

definition courier_reveal ::
  "web \<Rightarrow> aead \<Rightarrow> uuid \<Rightarrow> string \<Rightarrow> db \<Rightarrow> redis
     \<Rightarrow> admin_exit + (courier_profile option \<times> user option \<times> string option \<times> string option) \<times> db" where
  "courier_reveal W A courier_id csrf_token d r =
     authed W csrf_token d (\<lambda>admin_id ctx d.
     stepped_up W ctx r
     (and_then (raised (reveal_identity (wb_settings W) A admin_id courier_id d)) (\<lambda>(revealed, d).
      Inr ((get_courier_profile courier_id d, get_user courier_id d, revealed), d))))"

definition courier_edit ::
  "web \<Rightarrow> uuid \<Rightarrow> string \<Rightarrow> string \<Rightarrow> string \<Rightarrow> db \<Rightarrow> admin_exit + response \<times> db" where
  "courier_edit W courier_id csrf_token city bio d =
     ensure (form_field 1 100 city \<and> form_field 0 1000 bio) InvalidForm
     (authed W csrf_token d (\<lambda>admin_id ctx d.
      and_then (raised (update_courier_profile admin_id courier_id (strip city) (or_none (strip bio)) d)) (\<lambda>d.
      see_other (''/admin/couriers/'' @ str_uuid courier_id) d)))"

definition courier_delete :: "web \<Rightarrow> uuid \<Rightarrow> string \<Rightarrow> db \<Rightarrow> admin_exit + response \<times> db" where
  "courier_delete W courier_id csrf_token d =
     authed W csrf_token d (\<lambda>admin_id ctx d.
     and_then (raised (delete_courier_profile admin_id courier_id d)) (\<lambda>d.
     see_other ''/admin/tables/courier_profiles'' d))"

definition order_create ::
  "web \<Rightarrow> string \<Rightarrow> uuid \<Rightarrow> string \<Rightarrow> int \<Rightarrow> rat \<Rightarrow> rat \<Rightarrow> string \<Rightarrow> string \<Rightarrow> db \<Rightarrow> admin_exit + response \<times> db" where
  "order_create W csrf_token customer_id city delivery_date longitude latitude description address_note d =
     ensure (form_field 1 100 city \<and> form_field 0 5000 description \<and> form_field 0 255 address_note) InvalidForm
     (authed W csrf_token d (\<lambda>admin_id ctx d.
      and_then (raised (admin_create_order (wb_now W) admin_id customer_id
        \<lparr>no_description = or_none (strip description), no_delivery_city = strip city, no_latitude = latitude,
         no_longitude = longitude, no_delivery_date = delivery_date, no_request_media_keys = []\<rparr>
        (or_none (strip address_note)) d)) (\<lambda>(order_id, d).
      see_other (''/admin/orders/'' @ str_uuid order_id) d)))"

definition order_edit ::
  "web \<Rightarrow> uuid \<Rightarrow> string \<Rightarrow> string \<Rightarrow> int \<Rightarrow> string \<Rightarrow> string \<Rightarrow> db \<Rightarrow> redis \<Rightarrow> admin_exit + response \<times> db" where
  "order_edit W order_id csrf_token city delivery_date description address_note d r =
     ensure (form_field 1 100 city \<and> form_field 0 5000 description \<and> form_field 0 255 address_note) InvalidForm
     (authed W csrf_token d (\<lambda>admin_id ctx d.
      stepped_up W ctx r
      (and_then (raised (update_order_details (wb_now W) admin_id order_id (or_none (strip description))
        (strip city) delivery_date (or_none (strip address_note)) d)) (\<lambda>d.
       see_other (''/admin/orders/'' @ str_uuid order_id) d))))"

definition order_delete :: "web \<Rightarrow> uuid \<Rightarrow> string \<Rightarrow> db \<Rightarrow> admin_exit + response \<times> db" where
  "order_delete W order_id csrf_token d =
     authed W csrf_token d (\<lambda>admin_id ctx d.
     and_then (raised (delete_order admin_id order_id d)) (\<lambda>d.
     see_other ''/admin/tables/orders'' d))"

definition user_create ::
  "web \<Rightarrow> string \<Rightarrow> string \<Rightarrow> user_role \<Rightarrow> string \<Rightarrow> string \<Rightarrow> db \<Rightarrow> admin_exit + response \<times> db" where
  "user_create W csrf_token phone role full_name email d =
     ensure (form_field 1 20 phone \<and> form_field 0 120 full_name \<and> form_field 0 255 email) InvalidForm
     (authed W csrf_token d (\<lambda>admin_id ctx d.
      and_then (raised (create_user admin_id (strip phone) (or_none (strip full_name))
        (or_none (map lower (strip email))) role d)) (\<lambda>(u, d).
      see_other (''/admin/users/'' @ str_uuid (u_id u)) d)))"

definition user_set_banned ::
  "bool \<Rightarrow> web \<Rightarrow> uuid \<Rightarrow> string \<Rightarrow> db \<Rightarrow> redis \<Rightarrow> (admin_exit + response \<times> db) \<times> redis" where
  "user_set_banned banned W user_id csrf_token d r =
     (case authed W csrf_token d (\<lambda>admin_id ctx d. stepped_up W ctx r (Inr (admin_id, d))) of
        Inl e \<Rightarrow> (Inl e, r)
      | Inr (admin_id, d) \<Rightarrow>
          (case set_user_banned (wb_now W) (wb_settings W) admin_id user_id banned d r of
             (Inl e, r) \<Rightarrow> (Inl (Raised e), r)
           | (Inr d, r) \<Rightarrow> (see_other (''/admin/users/'' @ str_uuid user_id) d, r)))"

definition user_ban :: "web \<Rightarrow> uuid \<Rightarrow> string \<Rightarrow> db \<Rightarrow> redis \<Rightarrow> (admin_exit + response \<times> db) \<times> redis" where
  "user_ban = user_set_banned True"

definition user_unban :: "web \<Rightarrow> uuid \<Rightarrow> string \<Rightarrow> db \<Rightarrow> redis \<Rightarrow> (admin_exit + response \<times> db) \<times> redis" where
  "user_unban = user_set_banned False"

definition user_edit ::
  "web \<Rightarrow> uuid \<Rightarrow> string \<Rightarrow> string \<Rightarrow> string \<Rightarrow> string \<Rightarrow> db \<Rightarrow> admin_exit + response \<times> db" where
  "user_edit W user_id csrf_token phone full_name email d =
     ensure (form_field 0 20 phone \<and> form_field 0 120 full_name \<and> form_field 0 255 email) InvalidForm
     (authed W csrf_token d (\<lambda>admin_id ctx d.
      and_then (raised (update_user_profile admin_id user_id (or_none (strip full_name))
        (or_none (map lower (strip email))) (or_none (strip phone)) d)) (\<lambda>d.
      see_other (''/admin/users/'' @ str_uuid user_id) d)))"

definition user_delete :: "web \<Rightarrow> uuid \<Rightarrow> string \<Rightarrow> db \<Rightarrow> redis \<Rightarrow> (admin_exit + response \<times> db) \<times> redis" where
  "user_delete W user_id csrf_token d r =
     (case authed W csrf_token d (\<lambda>admin_id ctx d. Inr (admin_id, d)) of
        Inl e \<Rightarrow> (Inl e, r)
      | Inr (admin_id, d) \<Rightarrow>
          (case delete_user (wb_now W) (wb_settings W) admin_id user_id d r of
             (Inl e, r) \<Rightarrow> (Inl (Raised e), r)
           | (Inr d, r) \<Rightarrow> (see_other ''/admin/tables/users'' d, r)))"

section \<open>What a form needs and does\<close>

definition entitled :: "web \<Rightarrow> string \<Rightarrow> db \<Rightarrow> admin_session \<Rightarrow> user \<Rightarrow> bool" where
  "entitled W csrf_token d row admin \<longleftrightarrow>
     truthy (wb_cookie W) \<and> get_active (wb_sha W (the (wb_cookie W))) (wb_now W) d = Some row \<and>
     get_user (as_admin_user_id row) d = Some admin \<and> valid_admin admin \<and>
     (\<exists>secret. ADMIN_SESSION_SECRET (admin_of (wb_settings W)) = Some secret \<and>
        csrf_token = wb_hmac W (wb_sha W (the (wb_cookie W))) (get_secret_value secret))"

lemma get_activeD:
  assumes "get_active h now d = Some row"
  shows "row \<in> set (admin_sessions d)" "as_session_token_hash row = h" "as_revoked_at row = None" "now < as_expires_at row"
  using assms by (auto simp: get_active_def find_Some_iff)

lemma raised_Inr [simp]: "raised m = Inr x \<longleftrightarrow> m = Inr x"
  by (cases m) (auto simp: raised_def)

lemma authedE:
  assumes "authed W csrf_token d k = Inr x"
  obtains row admin ctx expiry where "entitled W csrf_token d row admin"
    and "as_session_token_hash (ctx_session_row ctx) = wb_sha W (the (wb_cookie W))"
    and "k (u_id admin) ctx (put_admin_session (row\<lparr>as_expires_at := expiry\<rparr>) d) = Inr x"
proof -
  obtain ctx d1 where r: "require_admin W d = Inr (ctx, d1)" and v: "verify_csrf W ctx csrf_token = Inr ()"
    and k: "k (u_id (ctx_admin ctx)) ctx d1 = Inr x"
    using assms by (auto simp: authed_def)
  obtain row row' admin where c: "truthy (wb_cookie W)"
    and l: "load_session W (the (wb_cookie W)) d = Inr ((row', admin), d1)"
    and ctx: "ctx_session_row ctx = row'" "ctx_admin ctx = admin"
    using r by (auto simp: require_admin_def split: if_splits sum.splits prod.splits)
  obtain row expiry where a: "get_active (wb_sha W (the (wb_cookie W))) (wb_now W) d = Some row"
    and u: "get_user (as_admin_user_id row) d = Some admin" "valid_admin admin"
    and e: "row' = row\<lparr>as_expires_at := expiry\<rparr>" "d1 = put_admin_session row' d"
    using l by (auto simp: load_session_def touch_def Let_def)
  have h: "as_session_token_hash row' = wb_sha W (the (wb_cookie W))" using get_activeD(2) [OF a] e(1) by simp
  have "entitled W csrf_token d row admin"
    using c a u v h ctx(1) by (auto simp: entitled_def verify_csrf_def verify_csrf_token_def make_csrf_token_def)
  then show thesis by (rule that [of row admin ctx expiry]) (use h ctx k e in auto)
qed

lemma stepped_up_Inr [simp]:
  "stepped_up W ctx r k = Inr x \<longleftrightarrow> has_step_up W (as_session_token_hash (ctx_session_row ctx)) r \<and> k = Inr x"
  by (auto simp: stepped_up_def require_step_up_def)

definition money_tables ::
  "db \<Rightarrow> wallet list \<times> transaction list \<times> payment_intent list \<times> wallet_topup list \<times> withdrawal list \<times> promo list \<times> dispute list"
  where
  "money_tables d = (wallets d, transactions d, payment_intents d, wallet_topups d, withdrawals d, promos d, disputes d)"

text \<open>One entry in the audit log, by that actor; no money moves, no invoice is written.\<close>

definition audited :: "uuid \<Rightarrow> db \<Rightarrow> db \<Rightarrow> bool" where
  "audited actor d d' \<longleftrightarrow>
     (\<exists>entry. audit_logs d' = audit_logs d @ [entry] \<and> al_actor_user_id entry = Some actor) \<and>
     money_tables d' = money_tables d \<and> set (invoices d') \<subseteq> set (invoices d)"

lemma audited_session [simp]: "audited a (put_admin_session row d) d' \<longleftrightarrow> audited a d d'"
  by (simp add: audited_def money_tables_def put_admin_session_def)

named_theorems audit_facts \<open>every service of the dashboard writes its audit entry\<close>

lemmas row_writes = record_audit_def put_user_def put_courier_profile_def add_user_def add_courier_profile_def
  put_order_def add_order_def flush_user_def

lemma verify_courier_audited [audit_facts]:
  "verify_courier now a c b d = Inr (p, d') \<Longrightarrow> audited a d d'"
  by (auto simp: verify_courier_def set_verified_def set_status_def audited_def money_tables_def row_writes Let_def
      split: option.splits if_splits)

lemma reveal_identity_audited [audit_facts]:
  "reveal_identity s A a c d = Inr (v, d') \<Longrightarrow> audited a d d'"
  by (auto simp: reveal_identity_def audited_def money_tables_def row_writes)

lemma set_user_banned_audited [audit_facts]:
  "set_user_banned now s a u b d r = (Inr d', r') \<Longrightarrow> audited a d d'"
  by (auto simp: set_user_banned_def set_status_def audited_def money_tables_def row_writes revoke_all_for_user_def
      revoke_where_def split: sum.splits if_splits)

lemma delete_user_audited [audit_facts]:
  "delete_user now s a u d r = (Inr d', r') \<Longrightarrow> audited a d d'"
  by (auto simp: delete_user_def soft_delete_def audited_def money_tables_def row_writes revoke_all_for_user_def
      revoke_where_def split: sum.splits if_splits)

lemma update_user_profile_audited [audit_facts]:
  "update_user_profile a u n m p d = Inr d' \<Longrightarrow> audited a d d'"
  by (auto simp: update_user_profile_def update_user_row_def audited_def money_tables_def row_writes)

lemma create_user_audited [audit_facts]:
  "create_user a p n m ro d = Inr (u, d') \<Longrightarrow> audited a d d'"
  by (auto simp: create_user_def create_admin_user_def insert_user_def fresh_def audited_def money_tables_def
      row_writes Let_def)

lemma courier_profile_audited [audit_facts]:
  "update_courier_profile a u city b d = Inr d' \<Longrightarrow> audited a d d'"
  "create_courier_profile s A h iv a u city b doc t d = Inr (p, d') \<Longrightarrow> audited a d d'"
  "delete_courier_profile a u d = Inr d' \<Longrightarrow> audited a d d'"
  by (auto simp: update_courier_profile_def update_profile_row_def create_courier_profile_def insert_profile_def
      delete_courier_profile_def delete_profile_row_def audited_def money_tables_def row_writes Let_def)

lemma order_audited [audit_facts]:
  "admin_create_order now a c n note d = Inr (i, d') \<Longrightarrow> audited a d d'"
  "update_order_details now a i ds city dt note d = Inr d' \<Longrightarrow> audited a d d'"
  "delete_order a i d = Inr d' \<Longrightarrow> audited a d d'"
  by (auto simp: admin_create_order_def create_order_row_def update_order_details_def update_admin_details_def
      delete_order_def delete_order_row_def flush_order_def fresh_def audited_def money_tables_def row_writes Let_def)

text \<open>A form of the dashboard that commits, with the CSRF token it was sent and whether it asks
  for a step-up grant.\<close>

inductive dashboard_post :: "web \<Rightarrow> string \<Rightarrow> bool \<Rightarrow> db \<Rightarrow> redis \<Rightarrow> db \<Rightarrow> bool" where
  "courier_create W A iv csrf u city kind doc bio d = Inr (x, d') \<Longrightarrow> dashboard_post W csrf False d r d'"
| "courier_verify W c verdict csrf d r = Inr (x, d') \<Longrightarrow> dashboard_post W csrf True d r d'"
| "courier_reveal W A c csrf d r = Inr (v, d') \<Longrightarrow> dashboard_post W csrf True d r d'"
| "courier_edit W c csrf city bio d = Inr (x, d') \<Longrightarrow> dashboard_post W csrf False d r d'"
| "courier_delete W c csrf d = Inr (x, d') \<Longrightarrow> dashboard_post W csrf False d r d'"
| "order_create W csrf cust city day lon lat ds note d = Inr (x, d') \<Longrightarrow> dashboard_post W csrf False d r d'"
| "order_edit W oid csrf city day ds note d r = Inr (x, d') \<Longrightarrow> dashboard_post W csrf True d r d'"
| "order_delete W oid csrf d = Inr (x, d') \<Longrightarrow> dashboard_post W csrf False d r d'"
| "user_create W csrf phone role name email d = Inr (x, d') \<Longrightarrow> dashboard_post W csrf False d r d'"
| "user_ban W u csrf d r = (Inr (x, d'), r') \<Longrightarrow> dashboard_post W csrf True d r d'"
| "user_unban W u csrf d r = (Inr (x, d'), r') \<Longrightarrow> dashboard_post W csrf True d r d'"
| "user_edit W u csrf phone name email d = Inr (x, d') \<Longrightarrow> dashboard_post W csrf False d r d'"
| "user_delete W u csrf d r = (Inr (x, d'), r') \<Longrightarrow> dashboard_post W csrf False d r d'"

lemma see_other_Inr [simp]: "see_other t d = Inr (x, d') \<longleftrightarrow> x = RedirectResponse t KeepCookie \<and> d' = d"
  by (auto simp: see_other_def)

text \<open>What all of them have in common: entitlement, step-up where asked for, one audit entry.\<close>

definition proper_post :: "web \<Rightarrow> string \<Rightarrow> bool \<Rightarrow> db \<Rightarrow> redis \<Rightarrow> db \<Rightarrow> bool" where
  "proper_post W csrf stepup d r d' \<longleftrightarrow>
     (\<exists>row admin. entitled W csrf d row admin \<and> audited (u_id admin) d d' \<and>
        (stepup \<longrightarrow> has_step_up W (wb_sha W (the (wb_cookie W))) r))"

lemma authed_proper:
  assumes "authed W csrf d k = Inr x"
    and "\<And>a ctx e. k a ctx e = Inr x \<Longrightarrow> audited a e d' \<and>
      (stepup \<longrightarrow> has_step_up W (as_session_token_hash (ctx_session_row ctx)) r)"
  shows "proper_post W csrf stepup d r d'"
  using assms(1)
proof (rule authedE)
  fix row admin ctx expiry
  assume e: "entitled W csrf d row admin"
    and h: "as_session_token_hash (ctx_session_row ctx) = wb_sha W (the (wb_cookie W))"
    and k: "k (u_id admin) ctx (put_admin_session (row\<lparr>as_expires_at := expiry\<rparr>) d) = Inr x"
  from assms(2) [OF k] e h show ?thesis by (auto simp: proper_post_def)
qed

lemma set_banned_proper:
  assumes "user_set_banned b W u csrf d r = (Inr (x, d'), r')"
  shows "proper_post W csrf True d r d'"
proof -
  obtain a e where au: "authed W csrf d (\<lambda>admin_id ctx d. stepped_up W ctx r (Inr (admin_id, d))) = Inr (a, e)"
    and s: "set_user_banned (wb_now W) (wb_settings W) a u b e r = (Inr d', r')"
    using assms by (auto simp: user_set_banned_def split: sum.splits prod.splits)
  from au show ?thesis
    by (rule authed_proper) (use s in \<open>auto intro: audit_facts\<close>)
qed

lemma user_delete_proper:
  assumes "user_delete W u csrf d r = (Inr (x, d'), r')"
  shows "proper_post W csrf False d r d'"
proof -
  obtain a e where au: "authed W csrf d (\<lambda>admin_id ctx d. Inr (admin_id, d)) = Inr (a, e)"
    and s: "delete_user (wb_now W) (wb_settings W) a u e r = (Inr d', r')"
    using assms by (auto simp: user_delete_def split: sum.splits prod.splits)
  from au show ?thesis
    by (rule authed_proper) (use s in \<open>auto intro: audit_facts\<close>)
qed

lemma dashboard_post_proper: "dashboard_post W csrf stepup d r d' \<Longrightarrow> proper_post W csrf stepup d r d'"
proof (induction rule: dashboard_post.induct)
  case (10 W u csrf d r x d' r')
  then show ?case by (simp add: user_ban_def set_banned_proper)
next
  case (11 W u csrf d r x d' r')
  then show ?case by (simp add: user_unban_def set_banned_proper)
next
  case (13 W u csrf d r x d' r')
  then show ?case by (rule user_delete_proper)
qed (auto simp: courier_create_def courier_verify_def courier_reveal_def courier_edit_def courier_delete_def
    order_create_def order_edit_def order_delete_def user_create_def user_edit_def intro: audit_facts
    intro!: authed_proper)

section \<open>The life of a session\<close>

definition sessions_ok :: "db \<Rightarrow> bool" where
  "sessions_ok d \<longleftrightarrow> distinct (map as_id (admin_sessions d)) \<and> distinct (map as_session_token_hash (admin_sessions d)) \<and>
     list_all (\<lambda>r. as_id r < next_id d \<and> as_expires_at r \<le> as_created_at r + ABSOLUTE_CAP) (admin_sessions d)"

text \<open>What happens to the table of sessions: a login with a configured lifetime of at most twelve
  hours, a request, a logout, and everything that leaves the table alone.\<close>

inductive session_step :: "db \<Rightarrow> db \<Rightarrow> bool" where
  sn_login: "complete_login W raw username password d r = (Inr (lg, d'), r') \<Longrightarrow> session_ttl W \<le> ABSOLUTE_CAP \<Longrightarrow>
    session_step d d'"
| sn_load: "load_session W raw d = Inr (x, d') \<Longrightarrow> session_step d d'"
| sn_logout: "session_step d (admin_logout W raw d)"
| sn_other: "admin_sessions d' = admin_sessions d \<Longrightarrow> next_id d \<le> next_id d' \<Longrightarrow> session_step d d'"

definition revoked_hash :: "string \<Rightarrow> db \<Rightarrow> bool" where
  "revoked_hash h d \<longleftrightarrow> list_ex (\<lambda>r. as_session_token_hash r = h \<and> as_revoked_at r \<noteq> None) (admin_sessions d)"

lemma revoked_hash_inactive:
  assumes "sessions_ok d" and "revoked_hash h d"
  shows "get_active h now d = None"
proof (rule ccontr)
  assume "get_active h now d \<noteq> None"
  then obtain row where "get_active h now d = Some row" by blast
  note a = get_activeD [OF this]
  obtain x where x: "x \<in> set (admin_sessions d)" "as_session_token_hash x = h" "as_revoked_at x \<noteq> None"
    using assms(2) by (auto simp: revoked_hash_def list_ex_iff)
  have "x = row" using assms(1) a(1,2) x(1,2) by (auto simp: sessions_ok_def distinct_map dest: inj_onD)
  with a(3) x(3) show False by simp
qed

lemma put_session_ok:
  assumes "sessions_ok d" and "row \<in> set (admin_sessions d)" and "as_id row' = as_id row"
    and "as_session_token_hash row' = as_session_token_hash row"
    and "as_expires_at row' \<le> as_created_at row' + ABSOLUTE_CAP"
    and "as_revoked_at row \<noteq> None \<Longrightarrow> as_revoked_at row' \<noteq> None"
  shows "sessions_ok (put_admin_session row' d)" and "revoked_hash h d \<Longrightarrow> revoked_hash h (put_admin_session row' d)"
proof -
  have same: "x = row" if "x \<in> set (admin_sessions d)" "as_id x = as_id row" for x
    using assms(1,2) that by (auto simp: sessions_ok_def distinct_map dest: inj_onD)
  have hashes: "map as_session_token_hash (put_by as_id row' (admin_sessions d)) = map as_session_token_hash (admin_sessions d)"
    using same assms(3,4) by (auto simp: put_by_def)
  have "list_all (\<lambda>r. as_id r < next_id d \<and> as_expires_at r \<le> as_created_at r + ABSOLUTE_CAP)
      (put_by as_id row' (admin_sessions d))"
    using assms(1-3,5) by (auto simp: sessions_ok_def list_all_iff put_by_def)
  then show "sessions_ok (put_admin_session row' d)"
    using assms(1) by (simp add: sessions_ok_def put_admin_session_def hashes)
  show "revoked_hash h (put_admin_session row' d)" if "revoked_hash h d"
    using that same assms(3,4,6) by (fastforce simp: revoked_hash_def put_admin_session_def list_ex_iff put_by_def)
qed

lemma add_session_ok:
  assumes "sessions_ok d" and "create_session now a h x ip ua e = Inr (row, d')" and "x \<le> now + ABSOLUTE_CAP"
    and "admin_sessions e = admin_sessions d" and "next_id e = next_id d"
  shows "sessions_ok d'" and "revoked_hash k d \<Longrightarrow> revoked_hash k d'"
proof -
  have rows: "admin_sessions d' = admin_sessions d @ [row]" "next_id d' = next_id d + 1" "as_id row = next_id d"
    "as_session_token_hash row \<notin> as_session_token_hash ` set (admin_sessions d)"
    "as_expires_at row \<le> as_created_at row + ABSOLUTE_CAP"
    using assms(2-5) by (auto simp: create_session_def fresh_def add_admin_session_def Let_def)
  then show "sessions_ok d'" "revoked_hash k d \<Longrightarrow> revoked_hash k d'"
    using assms(1) by (auto simp: sessions_ok_def revoked_hash_def list_all_iff less_SucI)
qed

lemma ensure_admin_frame:
  "ensure_dashboard_admin f g n d = (u, e) \<Longrightarrow> admin_sessions e = admin_sessions d \<and> next_id e = next_id d"
  by (auto simp: ensure_dashboard_admin_def add_user_def Let_def)

lemma complete_loginE:
  assumes "complete_login W raw username password d r = (Inr (lg, d'), r')"
  obtains e u row where "ensure_dashboard_admin (wb_uuid5 W) (wb_sha W) username d = (Some u, e)"
    and "credentials_match W username password" and "valid_admin u"
    and "create_session (wb_now W) (u_id u) (wb_sha W raw) (wb_now W + session_ttl W) (wb_ip W) (wb_user_agent W) e =
      Inr (row, d')"
  using assms by (auto simp: complete_login_def Let_def split: sum.splits prod.splits option.splits if_splits)

lemma load_sessionE:
  assumes "load_session W raw d = Inr ((row', admin), d')"
  obtains row where "get_active (wb_sha W raw) (wb_now W) d = Some row" and "valid_admin admin"
    and "row' = row\<lparr>as_expires_at := min (wb_now W + session_ttl W) (as_created_at row + ABSOLUTE_CAP)\<rparr>"
    and "d' = put_admin_session row' d"
  using assms by (auto simp: load_session_def touch_def Let_def)

lemma session_step_ok:
  assumes "session_step d d'" and ok: "sessions_ok d"
  shows "sessions_ok d' \<and> (revoked_hash h d \<longrightarrow> revoked_hash h d')"
  using assms(1)
proof cases
  case (sn_login W raw username password r lg r')
  obtain e u row where e: "ensure_dashboard_admin (wb_uuid5 W) (wb_sha W) username d = (Some u, e)"
    and c: "create_session (wb_now W) (u_id u) (wb_sha W raw) (wb_now W + session_ttl W) (wb_ip W) (wb_user_agent W) e =
      Inr (row, d')"
    by (rule complete_loginE [OF sn_login(1)])
  show ?thesis using add_session_ok [OF ok c] ensure_admin_frame [OF e] sn_login(2) by simp
next
  case (sn_load W raw x)
  obtain row' admin where "load_session W raw d = Inr ((row', admin), d')" using sn_load by (cases x) auto
  then obtain row where a: "get_active (wb_sha W raw) (wb_now W) d = Some row"
    and r: "row' = row\<lparr>as_expires_at := min (wb_now W + session_ttl W) (as_created_at row + ABSOLUTE_CAP)\<rparr>"
      "d' = put_admin_session row' d"
    by (rule load_sessionE)
  show ?thesis using put_session_ok [OF ok get_activeD(1) [OF a], of row'] r by simp
next
  case (sn_logout W raw)
  show ?thesis
  proof (cases "get_active (wb_sha W raw) (wb_now W) d")
    case None
    then show ?thesis using ok sn_logout by (simp add: admin_logout_def)
  next
    case (Some row)
    have "as_expires_at row \<le> as_created_at row + ABSOLUTE_CAP"
      using ok get_activeD(1) [OF Some] by (auto simp: sessions_ok_def list_all_iff)
    then show ?thesis
      using put_session_ok [OF ok get_activeD(1) [OF Some], of "row\<lparr>as_revoked_at := Some (wb_now W)\<rparr>"] Some sn_logout
      by (simp add: admin_logout_def revoke_def)
  qed
next
  case sn_other
  then show ?thesis using ok by (auto simp: sessions_ok_def revoked_hash_def list_all_iff)
qed

lemma session_steps_ok:
  "session_step\<^sup>*\<^sup>* d d' \<Longrightarrow> sessions_ok d \<Longrightarrow> sessions_ok d' \<and> (revoked_hash h d \<longrightarrow> revoked_hash h d')"
  by (induction rule: rtranclp_induct) (use session_step_ok in blast)+

lemma logout_revokes:
  assumes "get_active (wb_sha W raw) (wb_now W) d = Some row"
  shows "revoked_hash (wb_sha W raw) (admin_logout W raw d)"
proof -
  let ?row = "row\<lparr>as_revoked_at := Some (wb_now W)\<rparr>"
  have "?row \<in> set (put_by as_id ?row (admin_sessions d))"
    using get_activeD(1) [OF assms] by (force simp: put_by_def image_iff)
  then show ?thesis
    using assms get_activeD(2) [OF assms]
    by (auto simp: admin_logout_def revoke_def revoked_hash_def put_admin_session_def list_ex_iff intro!: bexI [of _ ?row])
qed

section \<open>Guessing the password\<close>

abbreviation account_key :: "(string \<Rightarrow> string) \<Rightarrow> string \<Rightarrow> string" where
  "account_key sha account \<equiv> ''admin:login:user:'' @ sha account"

text \<open>\<open>n\<close> attempts so far in the window that ends at \<open>e\<close>; none means that the counter is gone.\<close>

definition tried :: "string \<Rightarrow> nat \<Rightarrow> ms \<Rightarrow> ms \<Rightarrow> redis \<Rightarrow> bool" where
  "tried k n e t r \<longleftrightarrow>
     (if n = 0 then rget t r k = None \<and> e = t + 1000 * LOGIN_WINDOW_SECONDS else r k = Some (digits n, Some e))"

lemma bump_tried:
  assumes "tried k n e t r" and "t \<le> e"
  obtains r' where "bump k LOGIN_WINDOW_SECONDS t r = Inr (int n + 1, r')" and "r' k = Some (digits (n + 1), Some e)"
proof (cases "n = 0")
  case True
  then have "rlive t r k = None" "e = t + 1000 * LOGIN_WINDOW_SECONDS" using assms(1) by (auto simp: tried_def rget_def)
  then have "bump k LOGIN_WINDOW_SECONDS t r = Inr (int n + 1, r(k \<mapsto> (digits (n + 1), Some e)))"
    using True by (simp add: bump_def rincr_def rexpire_def rlive_def LOGIN_WINDOW_SECONDS_def)
  then show thesis by (rule that) simp
next
  case False
  then have "r k = Some (digits n, Some e)" using assms(1) by (simp add: tried_def)
  moreover have "\<not> (e - t + 500) div 1000 < 0" using assms(2) by simp
  ultimately have "bump k LOGIN_WINDOW_SECONDS t r = Inr (int n + 1, r(k \<mapsto> (digits (n + 1), Some e)))"
    using False assms(2) by (simp add: bump_def rincr_def rlive_def rttl_def)
  then show thesis by (rule that) simp
qed

lemma throttle_other: "throttle_script ks w l t r = (res, r') \<Longrightarrow> k \<notin> set ks \<Longrightarrow> r' k = r k"
  by (induction ks w l t r rule: throttle_script.induct)
     (auto simp: bump_other split: sum.splits if_splits)

lemma throttle_tried:
  assumes "tried k n e t r" and "t \<le> e" and "k \<notin> set ks"
    and "throttle_script (k # ks) LOGIN_WINDOW_SECONDS LOGIN_MAX_ATTEMPTS t r = (res, r')"
  shows "r' k = Some (digits (n + 1), Some e)" and "5 \<le> n \<Longrightarrow> res = Inr False"
proof -
  obtain r1 where b: "bump k LOGIN_WINDOW_SECONDS t r = Inr (int n + 1, r1)" "r1 k = Some (digits (n + 1), Some e)"
    by (rule bump_tried [OF assms(1,2)])
  show "r' k = Some (digits (n + 1), Some e)"
    using assms(4) b throttle_other [of ks _ _ t r1 res r' k] assms(3) by (auto split: if_splits)
  show "res = Inr False" if "5 \<le> n" using assms(4) b that by (simp add: LOGIN_MAX_ATTEMPTS_def)
qed

lemma check_tried:
  assumes "tried k n e (wb_ms W) r" and "k = account_key (wb_sha W) (map lower username)" and "wb_up W" and "wb_ms W \<le> e"
    and "check_login_throttle W username r = (res, r')"
  shows "r' k = Some (digits (n + 1), Some e)" and "5 \<le> n \<Longrightarrow> res = Inl (RateLimitedError 300)"
proof -
  obtain q r1 where t: "throttle_script (login_keys (wb_sha W) username (wb_ip W)) LOGIN_WINDOW_SECONDS
      LOGIN_MAX_ATTEMPTS (wb_ms W) r = (q, r1)" by fastforce
  note T = throttle_tried [OF assms(1,4), of "tl (login_keys (wb_sha W) username (wb_ip W))" q r1]
  have "r1 k = Some (digits (n + 1), Some e)" "5 \<le> n \<Longrightarrow> q = Inr False"
    using T t assms(2) by (auto simp: login_keys_def)
  then show "r' k = Some (digits (n + 1), Some e)" "5 \<le> n \<Longrightarrow> res = Inl (RateLimitedError 300)"
    using assms(3,5) t by (auto simp: check_login_throttle_def Let_def LOGIN_WINDOW_SECONDS_def split: sum.splits)
qed

lemma login_tried:
  assumes "tried k n e (wb_ms W) r" and "k = account_key (wb_sha W) (map lower username)" and "wb_up W" and "wb_ms W \<le> e"
  shows "\<not> credentials_match W username password \<Longrightarrow>
      snd (complete_login W raw username password d r) k = Some (digits (n + 1), Some e)"
    and "5 \<le> n \<Longrightarrow> fst (complete_login W raw username password d r) = Inl (RateLimitedError 300)"
proof -
  obtain res r' where c: "check_login_throttle W username r = (res, r')" by fastforce
  note C = check_tried [OF assms c]
  show "snd (complete_login W raw username password d r) k = Some (digits (n + 1), Some e)"
    if "\<not> credentials_match W username password"
    using C(1) c that by (auto simp: complete_login_def split: sum.splits)
  show "fst (complete_login W raw username password d r) = Inl (RateLimitedError 300)" if "5 \<le> n"
    using C(2) [OF that] c by (auto simp: complete_login_def)
qed

text \<open>A sequence of logins, each with its request, user name and password.\<close>

fun login_all :: "(web \<times> string \<times> string \<times> string) list \<Rightarrow> db \<Rightarrow> redis \<Rightarrow> redis" where
  "login_all [] d r = r"
| "login_all ((W, raw, username, password) # as) d r =
     login_all as d (snd (complete_login W raw username password d r))"

text \<open>A failed login to \<open>account\<close>, by whatever spelling of its case, from any address, before \<open>e\<close>.\<close>

fun failed_login :: "(string \<Rightarrow> string) \<Rightarrow> string \<Rightarrow> ms \<Rightarrow> web \<times> string \<times> string \<times> string \<Rightarrow> bool" where
  "failed_login sha account e (W, raw, username, password) \<longleftrightarrow> wb_sha W = sha \<and> map lower username = account \<and>
     wb_up W \<and> wb_ms W \<le> e \<and> \<not> credentials_match W username password"

lemma login_all_tried:
  assumes "tried (account_key sha account) n e t r" and "0 < n" and "list_all (failed_login sha account e) as"
  shows "tried (account_key sha account) (n + length as) e t' (login_all as d r)"
  using assms
proof (induction as arbitrary: n r t)
  case Nil
  then show ?case by (simp add: tried_def)
next
  case (Cons a as)
  obtain W raw username password where a: "a = (W, raw, username, password)" by (cases a)
  have "tried (account_key sha account) n e (wb_ms W) r" using Cons.prems(1,2) by (simp add: tried_def)
  then have "snd (complete_login W raw username password d r) (account_key sha account) = Some (digits (n + 1), Some e)"
    using Cons.prems(3) a by (intro login_tried(1)) auto
  then show ?case
    using Cons.IH [of "n + 1" t "snd (complete_login W raw username password d r)"] Cons.prems(3) a
    by (simp add: tried_def)
qed

section \<open>Properties\<close>


definition sample_web :: "time \<Rightarrow> web" where
  "sample_web now = \<lparr>wb_settings = sample_settings\<lparr>admin_of :=
       \<lparr>ADMIN_USERNAME = Some ''root'', ADMIN_PASSWORD = Some (SecretStr ''pw''),
        ADMIN_SESSION_SECRET = Some (SecretStr ''k''), ADMIN_SESSION_TTL_MINUTES = 60, ADMIN_DASHBOARD_ENABLED = True\<rparr>\<rparr>,
     wb_sha = id, wb_hmac = sample_hmac, wb_uuid5 = length, wb_now = now, wb_up = True, wb_ip = None,
     wb_user_agent = None, wb_cookie = Some ''c''\<rparr>"

definition session_db :: db where
  "session_db = empty_db\<lparr>next_id := 9, users := [sample_user 2 UR_ADMIN, sample_user 7 UR_COURIER],
     courier_profiles := [\<lparr>cp_user_id = 7, cp_passport_id_encrypted = None, cp_national_id_encrypted = Some ''x'',
       cp_identity_fingerprint = None, cp_city_of_residence = ''R'', cp_bio = None, cp_is_verified = False,
       cp_verified_at = None, cp_verified_by_admin_id = None\<rparr>],
     admin_sessions := [\<lparr>as_id = 3, as_admin_user_id = 2, as_session_token_hash = ''c'', as_ip_address = None,
       as_user_agent = None, as_expires_at = 100, as_revoked_at = None, as_created_at = 0\<rparr>]\<rparr>"

lemma sample_admin [simp]: "valid_admin (sample_user n UR_ADMIN)"
  by (simp add: valid_admin_def sample_user_def)

lemma session_db_reads:
  "get_active ''c'' 10 session_db = Some \<lparr>as_id = 3, as_admin_user_id = 2, as_session_token_hash = ''c'',
     as_ip_address = None, as_user_agent = None, as_expires_at = 100, as_revoked_at = None, as_created_at = 0\<rparr>"
  "get_user 2 session_db = Some (sample_user 2 UR_ADMIN)"
  by (simp_all add: get_active_def session_db_def get_user_def find_by_Cons sample_user_def)




text \<open>C32: Guessing the administrator's password.  When five or more logins to an account fail within
  the window that the first of them opens, from whatever addresses and in whatever spelling of the
  name, every further login to that account until the window ends is refused as rate limited, the right
  password included; the further attempts do not extend the window.  Without Redis
  every login is refused.\<close>

theorem admin_login_throttle:
  assumes "list_all (failed_login sha account e) ((W0, raw0, name0, pw0) # fails)" and "4 \<le> length fails"
    and "rget (wb_ms W0) r (account_key sha account) = None" and "e = wb_ms W0 + 300000"
  shows "(\<forall>W raw username password d'. wb_sha W = sha \<and> map lower username = account \<and> wb_up W \<and> wb_ms W \<le> e \<longrightarrow>
      fst (complete_login W raw username password d' (login_all ((W0, raw0, name0, pw0) # fails) d r)) =
        Inl (RateLimitedError 300)) \<and>
    (\<exists>n. login_all ((W0, raw0, name0, pw0) # fails) d r (account_key sha account) = Some (n, Some e)) \<and>
    (\<forall>W raw username password d' r'. \<not> wb_up W \<longrightarrow>
      complete_login W raw username password d' r' = (Inl (RateLimitedError 300), r'))"
proof -
  let ?r1 = "snd (complete_login W0 raw0 name0 pw0 d r)"
  have "tried (account_key sha account) 0 e (wb_ms W0) r"
    using assms(3,4) by (simp add: tried_def LOGIN_WINDOW_SECONDS_def)
  then have "?r1 (account_key sha account) = Some (digits (0 + 1), Some e)"
    using assms(1,4) by (intro login_tried(1)) auto
  then have "tried (account_key sha account) 1 e t ?r1" for t by (simp add: tried_def)
  then have after: "tried (account_key sha account) (1 + length fails) e t (login_all ((W0, raw0, name0, pw0) # fails) d r)" for t
    using login_all_tried [of sha account 1 e _ ?r1 fails t d] assms(1) by simp
  have "fst (complete_login W raw username password d' (login_all ((W0, raw0, name0, pw0) # fails) d r)) =
      Inl (RateLimitedError 300)"
    if "wb_sha W = sha" "map lower username = account" "wb_up W" "wb_ms W \<le> e" for W raw username password d'
    by (rule login_tried(2) [OF after]) (use that assms(2) in auto)
  moreover have "\<exists>n. login_all ((W0, raw0, name0, pw0) # fails) d r (account_key sha account) = Some (n, Some e)"
    using after by (auto simp: tried_def)
  moreover have "complete_login W raw username password d' r' = (Inl (RateLimitedError 300), r')" if "\<not> wb_up W"
    for W raw username password d' r'
    using that by (simp add: complete_login_def check_login_throttle_def LOGIN_WINDOW_SECONDS_def Let_def)
  ultimately show ?thesis by blast
qed

theorem admin_login_throttle_witness:
  "fst (complete_login (sample_web 9000) ''t'' ''root'' ''pw'' session_db
     (login_all (replicate 5 (sample_web 0, ''t'', ''root'', ''no'')) session_db Map.empty)) = Inl (RateLimitedError 300)"
proof -
  have "list_all (failed_login id (map lower ''root'') 300000)
      ((sample_web 0, ''t'', ''root'', ''no'') # replicate 4 (sample_web 0, ''t'', ''root'', ''no''))"
    by (simp add: sample_web_def credentials_match_def Let_def numeral_eq_Suc)
  from admin_login_throttle [OF this, of Map.empty session_db]
  have "fst (complete_login (sample_web 9000) ''t'' ''root'' ''pw'' session_db
      (login_all ((sample_web 0, ''t'', ''root'', ''no'') # replicate 4 (sample_web 0, ''t'', ''root'', ''no''))
         session_db Map.empty)) = Inl (RateLimitedError 300)"
    by (auto simp: sample_web_def rget_def rlive_def simp del: login_all.simps)
  then show ?thesis by (simp add: numeral_eq_Suc del: login_all.simps)
qed

end
