(* ===== verification/Browser.thy ===== *)
theory Browser
  imports Withdrawals
begin

text \<open>
  The read side of the dashboard: the table browser and the overview of
  \<open>app/repositories/admin_read_repository.py\<close>.  \<open>metadata\<close> is the schema as \<open>app/models/tables.py\<close>
  declares it.  A row is a function from its columns to values; \<open>rows\<close> is what the ordered
  query returns.  The six bullets of a masked cell, the dash of an empty one and the ellipsis of a
  long one are constructors of their own.
\<close>

section \<open>The table browser\<close>

definition timestamps :: "string list" where
  "timestamps = [''created_at'', ''updated_at'']"

definition metadata :: "(string \<times> string list) list" where
  "metadata =
     [
      (''admin_sessions'', ''id'' # [''admin_user_id'', ''session_token_hash'', ''ip_address'', ''user_agent'', ''expires_at'',
        ''revoked_at''] @ timestamps),
      (''audit_logs'', ''id'' # [''actor_user_id'', ''action'', ''entity_type'', ''entity_id'', ''ip_address'', ''metadata''] @ timestamps),
      (''conversations'', ''id'' # [''order_id'', ''customer_id'', ''courier_id'', ''last_message_preview_encrypted'',
        ''last_message_timestamp'', ''customer_unread_count'', ''courier_unread_count'',
        ''is_closed''] @ timestamps),
      (''courier_portfolios'', ''id'' # [''courier_id'', ''storage_key'', ''media_type'', ''description'', ''display_order''] @ timestamps),
      (''courier_profiles'', [''user_id'', ''passport_id_encrypted'', ''national_id_encrypted'', ''identity_fingerprint'',
        ''city_of_residence'', ''bio'', ''is_verified'', ''verified_at'', ''verified_by_admin_id''] @ timestamps),
      (''device_tokens'', ''id'' # [''user_id'', ''device_os'', ''token'', ''last_seen_at''] @ timestamps),
      (''disputes'', ''id'' # [''order_id'', ''raised_by_user_id'', ''reason'', ''status'', ''resolution_note'',
        ''resolved_by_admin_id'', ''resolved_at''] @ timestamps),
      (''invoice_items'', ''id'' # [''invoice_id'', ''position'', ''title'', ''description'', ''unit_price_amount'',
        ''quantity'', ''tax_rate'', ''line_net_amount'', ''line_discount_amount'',
        ''line_taxable_amount'', ''line_tax_amount'', ''line_total_amount''] @ timestamps),
      (''invoices'', ''id'' # [''order_id'', ''issued_by_courier_id'', ''status'', ''currency'', ''items_net_amount'',
        ''courier_fee_amount'', ''service_fee_amount'', ''discount_amount'',
        ''net_after_discount_amount'', ''tax_amount'', ''total_amount'', ''promo_id'',
        ''promo_code_snapshot'', ''payment_method'', ''amount_from_wallet'', ''amount_from_gateway'',
        ''pricing_breakdown'', ''expires_at'', ''issued_at'', ''paid_at'', ''receipt_email_sent_at''] @ timestamps),
      (''messages'', ''id'' # [''conversation_id'', ''sender_id'', ''message_type'', ''content_encrypted'', ''is_read'',
        ''read_at''] @ timestamps),
      (''order_media'', ''id'' # [''order_id'', ''uploaded_by_user_id'', ''media_type'', ''storage_key'', ''content_type'',
        ''byte_size'', ''capture_location'', ''captured_at''] @ timestamps),
      (''orders'', ''id'' # [''customer_id'', ''courier_id'', ''description'', ''delivery_city'', ''delivery_location'',
        ''delivery_address_note'', ''delivery_date'', ''status'', ''total_amount'',
        ''commission_amount'', ''courier_payout_amount'', ''assigned_at'', ''delivered_at'',
        ''completed_at'', ''cancelled_reason''] @ timestamps),
      (''otp_attempts'', ''id'' # [''phone_hash'', ''ip_address'', ''was_successful''] @ timestamps),
      (''payment_intents'', ''id'' # [''user_id'', ''purpose'', ''amount'', ''currency'', ''status'', ''checkout_provider'',
        ''streampay_payment_link_id'', ''streampay_payment_url'', ''reference_invoice_id'',
        ''expires_at'', ''paid_at'', ''failure_reason''] @ timestamps),
      (''promo_redemptions'', ''id'' # [''promo_id'', ''user_id'', ''invoice_id'', ''order_id'', ''discount_amount'', ''status'',
        ''released_at'', ''consumed_at''] @ timestamps),
      (''promos'', ''id'' # [''code'', ''description'', ''discount_type'', ''percent_value'', ''fixed_amount'',
        ''max_discount_amount'', ''min_order_amount'', ''max_total_usages'', ''max_usages_per_user'',
        ''used_count'', ''is_active'', ''starts_at'', ''ends_at'', ''created_by_admin_id''] @ timestamps),
      (''ratings'', ''id'' # [''order_id'', ''rater_id'', ''rated_user_id'', ''score'', ''comment''] @ timestamps),
      (''refresh_tokens'', ''id'' # [''user_id'', ''token_hash'', ''family_id'', ''expires_at'', ''used_at'', ''revoked_at'',
        ''created_at'']),
      (''transactions'', ''id'' # [''wallet_id'', ''amount'', ''type'', ''status'', ''reference_order_id'',
        ''reference_invoice_id'', ''reference_intent_id'', ''correlation_id'', ''balance_after'',
        ''idempotency_key'', ''description''] @ timestamps),
      (''users'', ''id'' # [''phone'', ''email'', ''full_name'', ''date_of_birth'', ''role'', ''status'', ''rating'',
        ''rating_count'', ''deleted_at''] @ timestamps),
      (''wallet_topups'', ''id'' # [''user_id'', ''wallet_id'', ''payment_intent_id'', ''amount''] @ timestamps),
      (''wallets'', ''id'' # [''user_id'', ''type'', ''balance'', ''held_balance'', ''currency'', ''version''] @ timestamps),
      (''withdrawals'', ''id'' # [''courier_id'', ''wallet_id'', ''amount'', ''iban_encrypted'', ''iban_last4'', ''status'',
        ''processed_by_admin_id'', ''rejection_reason'', ''idempotency_key''] @ timestamps)
     ]"

definition EDITABLE_TABLES :: "string list" where
  "EDITABLE_TABLES = [''users'', ''courier_profiles'', ''orders'']"

definition EDIT_URL_COLUMNS :: "string \<Rightarrow> string option" where
  "EDIT_URL_COLUMNS = map_of [(''users'', ''id''), (''courier_profiles'', ''user_id''), (''orders'', ''id'')]"

definition ADMIN_VISIBLE_USER_COLUMNS :: "string list" where
  "ADMIN_VISIBLE_USER_COLUMNS = [''phone'', ''email'', ''full_name'', ''date_of_birth'']"

definition REDACTED_MARKERS :: "string list" where
  "REDACTED_MARKERS = [''encrypted'', ''token'', ''secret'', ''hash'', ''fingerprint'', ''password'']"

definition REDACTED_COLUMNS :: "string list" where
  "REDACTED_COLUMNS = [''phone'', ''email'', ''full_name'', ''date_of_birth'', ''ip_address'', ''user_agent'',
     ''delivery_address_note'', ''iban_last4'', ''streampay_payment_url'']"

definition contains :: "string \<Rightarrow> string \<Rightarrow> bool" where
  "contains marker s \<longleftrightarrow> list_ex (\<lambda>i. take (length marker) (drop i s) = marker) [0..<Suc (length s)]"

text \<open>What a column can hold, with the text Python prints for it.\<close>

datatype field =
    NoneField | EnumField string | PlainField string   \<comment> \<open>a date, a time, a UUID or a \<open>Decimal\<close>\<close>
  | JsonField string | OtherField string

datatype display = Masked | Dash | Shown string | Cut string

definition truncate_to :: "nat \<Rightarrow> string \<Rightarrow> display" where
  "truncate_to limit v = (if length v \<le> limit then Shown v else Cut (take (limit - 1) v))"

definition redacted :: "string \<Rightarrow> string \<Rightarrow> bool" where
  "redacted table_name column \<longleftrightarrow>
     (let normalized = map lower column
      in normalized \<in> set REDACTED_COLUMNS \<and>
           \<not> (table_name = ''users'' \<and> normalized \<in> set ADMIN_VISIBLE_USER_COLUMNS) \<or>
         list_ex (\<lambda>m. contains m normalized) REDACTED_MARKERS)"

definition display_value :: "string \<Rightarrow> string \<Rightarrow> field \<Rightarrow> display" where
  "display_value table_name column v =
     (if redacted table_name column then Masked
      else case v of NoneField \<Rightarrow> Dash | EnumField t \<Rightarrow> Shown t | PlainField t \<Rightarrow> Shown t
        | JsonField t \<Rightarrow> truncate_to 160 t | OtherField t \<Rightarrow> truncate_to 160 t)"

fun field_text :: "field \<Rightarrow> string" where
  "field_text NoneField = ''None''"
| "field_text (EnumField t) = t"
| "field_text (PlainField t) = t"
| "field_text (JsonField t) = t"
| "field_text (OtherField t) = t"

definition edit_url :: "string \<Rightarrow> (string \<Rightarrow> field) \<Rightarrow> string option" where
  "edit_url table_name row =
     (case EDIT_URL_COLUMNS table_name of None \<Rightarrow> None
      | Some key \<Rightarrow>
          if row key = NoneField then None
          else Some (''/admin/'' @ (if table_name = ''courier_profiles'' then ''couriers'' else table_name) @ ''/'' @
            field_text (row key)))"

record table_info =
  ti_name :: string
  ti_editable :: bool

record table_row =
  tr_cells :: "display list"
  tr_edit_url :: "string option"

record table_page =
  tp_table :: table_info
  tp_columns :: "string list"
  tp_edit_column :: "string option"
  tp_rows :: "table_row list"
  tp_page :: nat
  tp_has_next :: bool

definition list_table_catalog :: "table_info list" where
  "list_table_catalog =
     map (\<lambda>(name, _). \<lparr>ti_name = name, ti_editable = name \<in> set EDITABLE_TABLES\<rparr>) metadata"

text \<open>\<open>select\<close> gives the rows of a table in the order of the query; \<open>LIMIT\<close> is one more than a page.\<close>

definition list_table_page ::
  "(string \<Rightarrow> (string \<Rightarrow> field) list) \<Rightarrow> string \<Rightarrow> nat \<Rightarrow> table_page option" where
  "list_table_page select table_name page =
     (case map_of metadata table_name of None \<Rightarrow> None
      | Some columns \<Rightarrow>
          let mappings = take 51 (drop ((page - 1) * 50) (select table_name))
          in Some \<lparr>tp_table = \<lparr>ti_name = table_name, ti_editable = table_name \<in> set EDITABLE_TABLES\<rparr>,
                   tp_columns = columns, tp_edit_column = EDIT_URL_COLUMNS table_name,
                   tp_rows = map (\<lambda>row. \<lparr>tr_cells = map (\<lambda>c. display_value table_name c (row c)) columns,
                     tr_edit_url = edit_url table_name row\<rparr>) (take 50 mappings),
                   tp_page = page, tp_has_next = 50 < length mappings\<rparr>)"

section \<open>The overview\<close>

definition order_counts_by_status :: "db \<Rightarrow> order_status \<Rightarrow> nat option" where
  "order_counts_by_status d status =
     (let n = length (filter (\<lambda>ord. o_status ord = status) (orders d)) in if n = 0 then None else Some n)"

definition open_dispute_count :: "db \<Rightarrow> nat" where
  "open_dispute_count d = length (filter (\<lambda>x. dp_status x = DS_OPEN) (disputes d))"

definition pending_withdrawal_count :: "db \<Rightarrow> nat" where
  "pending_withdrawal_count d = length (filter (\<lambda>w. wd_status w = WS_REQUESTED) (withdrawals d))"

definition system_wallet_balances :: "db \<Rightarrow> wallet_type \<Rightarrow> money option" where
  "system_wallet_balances d =
     map_of (rev (map (\<lambda>w. (w_type w, w_balance w)) (filter (\<lambda>w. w_user_id w = None) (wallets d))))"

record overview =
  ov_order_counts :: "order_status \<Rightarrow> nat option"
  ov_open_disputes :: nat
  ov_pending_withdrawals :: nat
  ov_system_balances :: "wallet_type \<Rightarrow> money option"

definition overview_of :: "db \<Rightarrow> overview" where
  "overview_of d =
     \<lparr>ov_order_counts = order_counts_by_status d, ov_open_disputes = open_dispute_count d,
      ov_pending_withdrawals = pending_withdrawal_count d, ov_system_balances = system_wallet_balances d\<rparr>"

section \<open>Restricted data stays hidden\<close>

text \<open>Identity numbers and their fingerprints, bank accounts, tokens and their hashes, messages,
  addresses, network data and payment links.\<close>

definition restricted :: "(string \<times> string) list" where
  "restricted =
     [(''courier_profiles'', ''passport_id_encrypted''), (''courier_profiles'', ''national_id_encrypted''),
      (''courier_profiles'', ''identity_fingerprint''), (''withdrawals'', ''iban_encrypted''),
      (''withdrawals'', ''iban_last4''), (''refresh_tokens'', ''token_hash''), (''device_tokens'', ''token''),
      (''admin_sessions'', ''session_token_hash''), (''admin_sessions'', ''ip_address''),
      (''admin_sessions'', ''user_agent''), (''otp_attempts'', ''phone_hash''), (''otp_attempts'', ''ip_address''),
      (''audit_logs'', ''ip_address''), (''messages'', ''content_encrypted''),
      (''conversations'', ''last_message_preview_encrypted''), (''orders'', ''delivery_address_note''),
      (''payment_intents'', ''streampay_payment_url'')]"

lemma restricted_redacted: "list_all (\<lambda>(t, c). redacted t c) restricted"
  by code_simp

definition render_row :: "string \<Rightarrow> string list \<Rightarrow> (string \<Rightarrow> field) \<Rightarrow> table_row" where
  "render_row t columns row =
     \<lparr>tr_cells = map (\<lambda>c. display_value t c (row c)) columns, tr_edit_url = edit_url t row\<rparr>"

lemma list_table_page_rows:
  "map_of metadata t = Some columns \<Longrightarrow>
     tp_rows (the (list_table_page select t (Suc p))) = map (render_row t columns) (take 50 (drop (p * 50) (select t))) \<and>
     (tp_has_next (the (list_table_page select t (Suc p))) \<longleftrightarrow> Suc p * 50 < length (select t))"
  by (auto simp: list_table_page_def Let_def render_row_def min_def)

lemma edit_key_public: "EDIT_URL_COLUMNS t = Some key \<Longrightarrow> (t, key) \<notin> set restricted"
  by (auto simp: EDIT_URL_COLUMNS_def restricted_def split: if_splits)

lemma render_row_eq:
  assumes "\<forall>c. (t, c) \<notin> set restricted \<longrightarrow> x c = y c"
  shows "render_row t columns x = render_row t columns y"
proof -
  have "display_value t c (x c) = display_value t c (y c)" for c
    using assms restricted_redacted by (cases "(t, c) \<in> set restricted") (auto simp: display_value_def list_all_iff)
  moreover have "edit_url t x = edit_url t y"
    using assms edit_key_public by (auto simp: edit_url_def split: option.splits)
  ultimately show ?thesis by (simp add: render_row_def)
qed

lemma render_rows_eq:
  "list_all2 (\<lambda>x y. \<forall>c. (t, c) \<notin> set restricted \<longrightarrow> x c = y c) xs ys \<Longrightarrow>
   map (render_row t columns) xs = map (render_row t columns) ys"
  by (induction rule: list_all2_induct) (simp_all add: render_row_eq)

lemma concat_pages: "concat (map (\<lambda>p. take k (drop (p * k) xs)) [0..<n]) = take (n * k) xs"
proof (induction n)
  case (Suc n)
  then show ?case by (simp add: take_add add.commute [of k])
qed simp

lemma page_via_rows:
  "list_table_page select t page = (case map_of metadata t of None \<Rightarrow> None
     | Some columns \<Rightarrow> Some \<lparr>tp_table = \<lparr>ti_name = t, ti_editable = t \<in> set EDITABLE_TABLES\<rparr>,
         tp_columns = columns, tp_edit_column = EDIT_URL_COLUMNS t,
         tp_rows = take 50 (drop ((page - 1) * 50) (map (render_row t columns) (select t))),
         tp_page = page, tp_has_next = 50 < length (drop ((page - 1) * 50) (select t))\<rparr>)"
  by (auto simp: list_table_page_def Let_def render_row_def [abs_def] take_map drop_map min_def split: option.splits)



end
