(* ===== verification/Schemas.thy ===== *)
theory Schemas
  imports Payments Fulfillment Auth
begin

text \<open>
  The request and response models of \<open>app/schemas/\<close>.  A request model is a record of the fields
  after JSON decoding, with a check that follows the field constraints and validators of the class
  (\<open>StringConstraints\<close>, \<open>Field\<close>, \<open>Literal\<close>, \<open>field_validator\<close>): \<open>Inr False\<close> is a field error, which the
  framework answers with 422, and \<open>Inl\<close> an exception that a validator does not catch.  A field that
  is not in the record is refused by \<open>extra="forbid"\<close> or ignored, so it never reaches a route.
  Instants and days stay numbers here; the wire has their ISO text.
\<close>

section \<open>Field constraints\<close>

definition length_in :: "nat \<Rightarrow> nat \<Rightarrow> 'a list \<Rightarrow> bool" where
  "length_in lo hi xs \<longleftrightarrow> lo \<le> length xs \<and> length xs \<le> hi"

definition opt_max :: "nat \<Rightarrow> string option \<Rightarrow> bool" where
  "opt_max hi v = (case v of None \<Rightarrow> True | Some t \<Rightarrow> length_in 0 hi t)"

text \<open>All fields are looked at; an exception of a validator passes through.\<close>

fun all_fields :: "(error + bool) list \<Rightarrow> error + bool" where
  "all_fields [] = Inr True"
| "all_fields (f # fs) =
     and_then f (\<lambda>ok. and_then (all_fields fs) (\<lambda>oks. Inr (ok \<and> oks)))"

text \<open>A validator that turns \<open>MoneyError\<close> into a field error and lets every other exception pass.\<close>

definition parsed_field :: "(rat \<Rightarrow> bool) \<Rightarrow> error + rat \<Rightarrow> error + bool" where
  "parsed_field P v =
     (case v of Inr m \<Rightarrow> Inr (P m) | Inl e \<Rightarrow> if e = MoneyError then Inr False else Inl e)"

definition money_field :: "(rat \<Rightarrow> bool) \<Rightarrow> string \<Rightarrow> error + bool" where
  "money_field P v = (if length_in 1 20 v then parsed_field P (parse_money (PyStr v)) else Inr False)"

definition rate_field :: "(rat \<Rightarrow> bool) \<Rightarrow> string \<Rightarrow> error + bool" where
  "rate_field P v = (if length_in 1 8 v then parsed_field P (parse_rate (PyStr v)) else Inr False)"

section \<open>Authentication\<close>

definition phone_pattern :: "string \<Rightarrow> bool" where
  "phone_pattern v \<longleftrightarrow> length v = 13 \<and> take 5 v = ''+9665'' \<and> list_all is_digit (drop 5 v)"

definition otp_pattern :: "string \<Rightarrow> bool" where
  "otp_pattern v \<longleftrightarrow> length v = 6 \<and> list_all is_digit v"

text \<open>White space of the pattern engine of the validation library.\<close>

definition pattern_space :: "char \<Rightarrow> bool" where
  "pattern_space c \<longleftrightarrow> of_char c \<in> set [9::nat, 10, 11, 12, 13, 32, 133, 160]"

definition email_char :: "char \<Rightarrow> bool" where
  "email_char c \<longleftrightarrow> c \<noteq> CHR ''@'' \<and> \<not> pattern_space c"

text \<open>\<open>^[^@\s]+@[^@\s]+\.[^@\s]+$\<close>: one at sign, and a dot inside what follows it.\<close>

definition email_pattern :: "string \<Rightarrow> bool" where
  "email_pattern v =
     (let local = takeWhile (\<lambda>c. c \<noteq> CHR ''@'') v; domain = drop (length local + 1) v
      in local \<noteq> [] \<and> length local < length v \<and> list_all email_char local \<and> list_all email_char domain \<and>
         CHR ''.'' \<in> set (butlast (tl domain)))"

definition email_field :: "string option \<Rightarrow> bool" where
  "email_field v = (case v of None \<Rightarrow> True | Some t \<Rightarrow> length_in 0 255 t \<and> email_pattern t)"

record send_otp_request =
  so_phone :: string

definition check_send_otp :: "send_otp_request \<Rightarrow> error + bool" where
  "check_send_otp b = Inr (phone_pattern (so_phone b))"

record verify_otp_request =
  vo_phone :: string
  vo_otp :: string

definition check_verify_otp :: "verify_otp_request \<Rightarrow> error + bool" where
  "check_verify_otp b = Inr (phone_pattern (vo_phone b) \<and> otp_pattern (vo_otp b))"

record register_request =
  rr_registration_token :: string
  rr_role :: string
  rr_full_name :: "string option"
  rr_email :: "string option"
  rr_dob :: "int option"
  rr_city :: "string option"
  rr_national_id :: "string option"
  rr_passport_id :: "string option"

definition check_register :: "register_request \<Rightarrow> error + bool" where
  "check_register b = Inr (rr_role b \<in> set [''CUSTOMER'', ''COURIER''] \<and> opt_max 120 (rr_full_name b) \<and>
     email_field (rr_email b) \<and> opt_max 100 (rr_city b) \<and> opt_max 64 (rr_national_id b) \<and>
     opt_max 64 (rr_passport_id b))"

record send_otp_response =
  so_expires_in :: int
  so_dev_otp :: "string option"

record verify_otp_response =
  vo_is_new_user :: bool
  vo_role :: "string option"
  vo_access_token :: "string option"
  vo_refresh_token :: "string option"
  vo_registration_token :: "string option"

section \<open>Users and devices\<close>

record user_update_request =
  uu_full_name :: "string option"
  uu_email :: "string option"
  uu_dob :: "int option"

definition check_user_update :: "user_update_request \<Rightarrow> error + bool" where
  "check_user_update b = Inr (opt_max 120 (uu_full_name b) \<and> email_field (uu_email b))"

record user_me_response =
  me_id :: string
  me_phone :: string
  me_role :: string
  me_status :: string
  me_full_name :: "string option"
  me_email :: "string option"
  me_rating :: rat
  me_rating_count :: int

record register_device_request =
  rd_token :: string
  rd_device_os :: string

definition check_register_device :: "register_device_request \<Rightarrow> error + bool" where
  "check_register_device b = Inr (length_in 1 512 (rd_token b))"

definition check_unregister_device :: "string \<Rightarrow> error + bool" where
  "check_unregister_device token = Inr (length_in 1 512 token)"

section \<open>Media\<close>

record upload_url_request =
  uf_purpose :: string
  uf_content_type :: string
  uf_byte_size :: int

definition check_upload_url :: "upload_url_request \<Rightarrow> error + bool" where
  "check_upload_url b = Inr (uf_purpose b \<in> set [''ORDER_REQUEST'', ''DELIVERY_PROOF''] \<and>
     uf_content_type b \<in> set [''image/jpeg'', ''image/png''] \<and> 0 < uf_byte_size b)"

record upload_url_response =
  ur_upload_url :: string
  ur_storage_key :: string
  ur_expires_in :: int

section \<open>Orders\<close>

record create_order_request =
  cr_description :: "string option"
  cr_delivery_city :: string
  cr_latitude :: rat
  cr_longitude :: rat
  cr_delivery_date :: int
  cr_request_media_keys :: "string list"

definition check_create_order :: "create_order_request \<Rightarrow> error + bool" where
  "check_create_order b = Inr (opt_max 2000 (cr_description b) \<and> length_in 0 100 (cr_delivery_city b) \<and>
     -90 \<le> cr_latitude b \<and> cr_latitude b \<le> 90 \<and> -180 \<le> cr_longitude b \<and> cr_longitude b \<le> 180 \<and>
     length_in 0 3 (cr_request_media_keys b))"

definition check_cancel_order :: "string option \<Rightarrow> error + bool" where
  "check_cancel_order reason = Inr (opt_max 255 reason)"

record order_summary =
  os_id :: string
  os_status :: string
  os_delivery_city :: string
  os_delivery_date :: int
  os_description :: "string option"
  os_created_at :: time

record order_detail =
  od_id :: string
  od_status :: string
  od_customer_id :: string
  od_courier_id :: "string option"
  od_delivery_city :: string
  od_delivery_date :: int
  od_description :: "string option"
  od_latitude :: "rat option"
  od_longitude :: "rat option"
  od_total_amount :: string
  od_assigned_at :: "time option"
  od_created_at :: time

record order_list_response =
  ol_items :: "order_summary list"
  ol_next_cursor :: "string option"

section \<open>Delivery, disputes and ratings\<close>

record deliver_request =
  dr_latitude :: rat
  dr_longitude :: rat
  dr_proof_media_keys :: "string list"
  dr_note :: "string option"

definition check_deliver :: "deliver_request \<Rightarrow> error + bool" where
  "check_deliver b = Inr (-90 \<le> dr_latitude b \<and> dr_latitude b \<le> 90 \<and> -180 \<le> dr_longitude b \<and>
     dr_longitude b \<le> 180 \<and> length_in 1 5 (dr_proof_media_keys b) \<and> opt_max 500 (dr_note b))"

definition check_dispute :: "string \<Rightarrow> error + bool" where
  "check_dispute reason = Inr (length_in 3 1000 reason)"

record resolve_dispute_request =
  rv_outcome :: string
  rv_note :: "string option"
  rv_courier_amount :: "string option"

definition check_resolve_dispute :: "resolve_dispute_request \<Rightarrow> error + bool" where
  "check_resolve_dispute b = all_fields
     [Inr (opt_max 1000 (rv_note b)),
      case rv_courier_amount b of None \<Rightarrow> Inr True
      | Some v \<Rightarrow> if length_in 0 20 v then parsed_field (\<lambda>m. \<not> m < 0) (parse_money (PyStr v)) else Inr False]"

record dispute_response =
  ds_id :: string
  ds_order_id :: string
  ds_status :: string
  ds_reason :: string
  ds_resolution_note :: "string option"

record rating_request =
  rn_score :: int
  rn_comment :: "string option"

definition check_rating :: "rating_request \<Rightarrow> error + bool" where
  "check_rating b = Inr (1 \<le> rn_score b \<and> rn_score b \<le> 5 \<and> opt_max 500 (rn_comment b))"

record rating_response =
  rs_id :: string
  rs_order_id :: string
  rs_rated_user_id :: string
  rs_score :: int
  rs_comment :: "string option"

record rating_summary_response =
  su_user_id :: string
  su_average_score :: string
  su_count :: int

section \<open>Invoices and promo codes\<close>

record invoice_line_request =
  il_title :: string
  il_description :: "string option"
  il_unit_price_amount :: string
  il_quantity :: int
  il_tax_rate :: string

definition check_invoice_line :: "invoice_line_request \<Rightarrow> error + bool" where
  "check_invoice_line b = all_fields
     [Inr (length_in 1 120 (il_title b) \<and> opt_max 500 (il_description b)),
      money_field (\<lambda>_. True) (il_unit_price_amount b),
      Inr (1 \<le> il_quantity b \<and> il_quantity b \<le> 999),
      rate_field (\<lambda>r. 0 \<le> r \<and> r \<le> 1) (il_tax_rate b)]"

record create_invoice_request =
  ci_items :: "invoice_line_request list"
  ci_courier_fee_amount :: string
  ci_promo_code :: "string option"

definition code_field :: "string option \<Rightarrow> bool" where
  "code_field v = (case v of None \<Rightarrow> True | Some c \<Rightarrow> length_in 1 32 c)"

definition check_create_invoice :: "create_invoice_request \<Rightarrow> error + bool" where
  "check_create_invoice b = all_fields
     [if length_in 1 20 (ci_items b) then all_fields (map check_invoice_line (ci_items b)) else Inr False,
      money_field (\<lambda>m. \<not> m < 0) (ci_courier_fee_amount b),
      Inr (code_field (ci_promo_code b))]"

record promo_validate_request =
  pq_code :: string
  pq_order_id :: string

definition check_promo_validate :: "promo_validate_request \<Rightarrow> error + bool" where
  "check_promo_validate b = Inr (length_in 1 32 (pq_code b))"

record invoice_item_response =
  ii_position :: int
  ii_title :: string
  ii_description :: "string option"
  ii_unit_price_amount :: string
  ii_quantity :: int
  ii_tax_rate :: string
  ii_line_net_amount :: string
  ii_line_discount_amount :: string
  ii_line_taxable_amount :: string
  ii_line_tax_amount :: string
  ii_line_total_amount :: string

record invoice_response =
  ir_id :: string
  ir_order_id :: string
  ir_status :: string
  ir_currency :: string
  ir_items_net_amount :: string
  ir_courier_fee_amount :: string
  ir_service_fee_amount :: string
  ir_discount_amount :: string
  ir_net_after_discount_amount :: string
  ir_tax_amount :: string
  ir_total_amount :: string
  ir_promo_code :: "string option"
  ir_issued_at :: "time option"
  ir_expires_at :: "time option"
  ir_items :: "invoice_item_response list"

record promo_preview_response =
  pp_code :: string
  pp_discount_amount :: string
  pp_original_total_amount :: string
  pp_total_amount :: string

section \<open>Payments and wallets\<close>

definition check_topup :: "string \<Rightarrow> error + bool" where
  "check_topup amount = money_field (\<lambda>m. \<not> m \<le> 0) amount"

record topup_response =
  to_payment_intent_id :: string
  to_amount :: string
  to_payment_url :: string

record pay_invoice_response =
  py_invoice_id :: string
  py_status :: string
  py_amount_from_wallet :: string
  py_amount_from_gateway :: string
  py_payment_url :: "string option"

record simulate_payment_request =
  sp_payment_link_id :: string
  sp_status :: string

definition check_simulate_payment :: "simulate_payment_request \<Rightarrow> error + bool" where
  "check_simulate_payment b = Inr (length_in 1 100 (sp_payment_link_id b) \<and> length_in 1 32 (sp_status b))"

record wallet_response =
  wr_balance :: string
  wr_held_balance :: string
  wr_available :: string
  wr_currency :: string

record transaction_response =
  tn_id :: string
  tn_amount :: string
  tn_type :: string
  tn_status :: string
  tn_balance_after :: string
  tn_created_at :: time

record transaction_page =
  tg_items :: "transaction_response list"
  tg_next_cursor :: "string option"

record withdrawal_request =
  wq_amount :: string
  wq_iban :: string

text \<open>\<open>normalize_iban\<close>: without spaces and in capitals, a Saudi IBAN or a field error.\<close>

definition saudi_iban :: "string \<Rightarrow> bool" where
  "saudi_iban v \<longleftrightarrow> length v = 24 \<and> take 2 v = ''SA'' \<and> list_all is_digit (drop 2 v)"

definition normalize_iban :: "string \<Rightarrow> string option" where
  "normalize_iban v =
     (let raw = upper_text (filter (\<lambda>c. c \<noteq> CHR '' '') v) in if saudi_iban raw then Some raw else None)"

definition check_withdrawal :: "withdrawal_request \<Rightarrow> string \<Rightarrow> error + bool" where
  "check_withdrawal b idempotency_key =
     Inr (normalize_iban (wq_iban b) \<noteq> None \<and> length_in 1 128 idempotency_key)"

record withdrawal_response =
  wx_id :: string
  wx_amount :: string
  wx_iban_last4 :: string
  wx_status :: string
  wx_rejection_reason :: "string option"

definition check_reject_withdrawal :: "string \<Rightarrow> error + bool" where
  "check_reject_withdrawal reason = Inr (length_in 1 255 reason)"

section \<open>Chat\<close>

definition check_send_message :: "string \<Rightarrow> error + bool" where
  "check_send_message txt = Inr (length_in 1 4000 txt)"

end
