(* ===== verification/Chat.thy ===== *)
theory Chat
  imports Payments Auth
begin

text \<open>
  \<open>app/services/chat_service.py\<close> with \<open>app/repositories/chat_repository.py\<close>, the push
  notifications of \<open>app/services/notification_service.py\<close> over
  \<open>app/repositories/device_token_repository.py\<close>, and the chat endpoints and the WebSocket loop of
  \<open>app/routers/chat.py\<close>.  Every update of a message row meets the append-only trigger of the
  baseline migration.  What is published to the channel of a conversation and what is handed to
  the push provider are outputs collected in the state.  A time stamp is kept as the instant; its
  ISO text is not modelled.
\<close>

section \<open>Repository\<close>

definition conversation_for_actor :: "uuid \<Rightarrow> uuid \<Rightarrow> db \<Rightarrow> conversation option" where
  "conversation_for_actor conversation_id actor_id d =
     (case get_conversation conversation_id d of None \<Rightarrow> None
      | Some c \<Rightarrow> if cv_customer_id c = actor_id \<or> cv_courier_id c = actor_id then Some c else None)"

text \<open>\<open>ORDER BY last_message_timestamp DESC, id DESC\<close>, the rows before the anchor, at most \<open>limit\<close>.\<close>

definition inbox_key :: "conversation \<Rightarrow> time \<times> uuid" where
  "inbox_key c = (cv_last_message_timestamp c, cv_id c)"

definition list_for_user :: "uuid \<Rightarrow> nat \<Rightarrow> (time \<times> uuid) option \<Rightarrow> db \<Rightarrow> conversation list" where
  "list_for_user user_id limit before d =
     take limit (rev (sort_key inbox_key (filter (\<lambda>c.
       (cv_customer_id c = user_id \<or> cv_courier_id c = user_id) \<and>
       (case before of None \<Rightarrow> True | Some k \<Rightarrow> inbox_key c < k)) (conversations d))))"

definition add_chat_message ::
  "time \<Rightarrow> conversation \<Rightarrow> uuid \<Rightarrow> string \<Rightarrow> string \<Rightarrow> bool \<Rightarrow> db \<Rightarrow> message \<times> db" where
  "add_chat_message now conv sender_id content_encrypted preview_encrypted sender_is_customer d =
     (let (i, d) = fresh d;
          m = \<lparr>msg_id = i, msg_conversation_id = cv_id conv, msg_sender_id = sender_id,
               msg_message_type = MSG_TEXT, msg_content_encrypted = content_encrypted,
               msg_is_read = False, msg_read_at = None, msg_created_at = now\<rparr>;
          d = add_message m d;
          c = conv\<lparr>cv_last_message_preview_encrypted := Some preview_encrypted,
                   cv_last_message_timestamp := msg_created_at m\<rparr>;
          c = (if sender_is_customer
               then c\<lparr>cv_courier_unread_count := cv_courier_unread_count c + 1\<rparr>
               else c\<lparr>cv_customer_unread_count := cv_customer_unread_count c + 1\<rparr>)
      in (m, put_conversation c d))"

definition message_key :: "message \<Rightarrow> time \<times> uuid" where
  "message_key m = (msg_created_at m, msg_id m)"

definition list_message_rows :: "uuid \<Rightarrow> nat \<Rightarrow> uuid option \<Rightarrow> db \<Rightarrow> message list" where
  "list_message_rows conversation_id limit before_id d =
     (let P = (case before_id of None \<Rightarrow> (\<lambda>m. True)
        | Some b \<Rightarrow> (case get_message b d of None \<Rightarrow> (\<lambda>m. True)
            | Some anchor \<Rightarrow> (\<lambda>m. message_key m < message_key anchor)))
      in take limit (rev (sort_key message_key
           (filter (\<lambda>m. msg_conversation_id m = conversation_id \<and> P m) (messages d)))))"

text \<open>\<open>enforce_message_append_only\<close>, for an update.\<close>

definition append_only_ok :: "message \<Rightarrow> message \<Rightarrow> bool" where
  "append_only_ok old new \<longleftrightarrow> msg_conversation_id new = msg_conversation_id old \<and>
     msg_sender_id new = msg_sender_id old \<and> msg_message_type new = msg_message_type old \<and>
     msg_content_encrypted new = msg_content_encrypted old \<and> msg_created_at new = msg_created_at old"

definition update_messages :: "(message \<Rightarrow> bool) \<Rightarrow> (message \<Rightarrow> message) \<Rightarrow> db \<Rightarrow> error + db" where
  "update_messages P f d =
     ensure (list_all (\<lambda>m. P m \<longrightarrow> append_only_ok m (f m)) (messages d)) TriggerError
     (Inr (d\<lparr>messages := map (\<lambda>m. if P m then f m else m) (messages d)\<rparr>))"

definition mark_read_rows :: "time \<Rightarrow> conversation \<Rightarrow> bool \<Rightarrow> db \<Rightarrow> error + db" where
  "mark_read_rows now conv reader_is_customer d =
     (let other_id = (if reader_is_customer then cv_courier_id conv else cv_customer_id conv);
          c = (if reader_is_customer then conv\<lparr>cv_customer_unread_count := 0\<rparr>
               else conv\<lparr>cv_courier_unread_count := 0\<rparr>)
      in update_messages (\<lambda>m. msg_conversation_id m = cv_id conv \<and> msg_sender_id m = other_id \<and>
             \<not> msg_is_read m) (\<lambda>m. m\<lparr>msg_is_read := True, msg_read_at := Some now\<rparr>)
           (put_conversation c d))"

section \<open>Service\<close>

record chat_message =
  cm_id :: string
  cm_conversation_id :: string
  cm_sender_id :: string
  cm_message_type :: message_type
  cm_content :: string
  cm_is_read :: bool
  cm_created_at :: time

record inbox_item =
  ib_conversation_id :: string
  ib_order_id :: string
  ib_other_user_id :: string
  ib_last_message_preview :: "string option"
  ib_unread_count :: int
  ib_last_message_timestamp :: time

definition conversation_channel :: "uuid \<Rightarrow> string" where
  "conversation_channel conversation_id = ''chat:conversation:'' @ str_uuid conversation_id"

definition to_dto :: "message \<Rightarrow> string \<Rightarrow> chat_message" where
  "to_dto m content =
     \<lparr>cm_id = str_uuid (msg_id m), cm_conversation_id = str_uuid (msg_conversation_id m),
      cm_sender_id = str_uuid (msg_sender_id m), cm_message_type = msg_message_type m,
      cm_content = content, cm_is_read = msg_is_read m, cm_created_at = msg_created_at m\<rparr>"

definition encrypt_content :: "settings \<Rightarrow> aead \<Rightarrow> string \<Rightarrow> uuid \<Rightarrow> string \<Rightarrow> error + string" where
  "encrypt_content s A iv conversation_id txt =
     and_then (settings_cipher s) (\<lambda>c. encrypt A c iv txt (content_aad conversation_id))"

definition decrypt_content :: "settings \<Rightarrow> aead \<Rightarrow> uuid \<Rightarrow> string \<Rightarrow> error + string" where
  "decrypt_content s A conversation_id blob =
     and_then (settings_cipher s) (\<lambda>c. decrypt A c blob (content_aad conversation_id))"

definition encrypt_preview :: "settings \<Rightarrow> aead \<Rightarrow> string \<Rightarrow> uuid \<Rightarrow> string \<Rightarrow> error + string" where
  "encrypt_preview s A iv conversation_id txt =
     and_then (settings_cipher s) (\<lambda>c. encrypt A c iv (take 100 txt) (preview_aad conversation_id))"

definition decrypt_preview :: "settings \<Rightarrow> aead \<Rightarrow> uuid \<Rightarrow> string \<Rightarrow> error + string" where
  "decrypt_preview s A conversation_id blob =
     and_then (settings_cipher s) (\<lambda>c. decrypt A c blob (preview_aad conversation_id))"

definition send_message ::
  "time \<Rightarrow> settings \<Rightarrow> aead \<Rightarrow> string \<Rightarrow> string \<Rightarrow> uuid \<Rightarrow> uuid \<Rightarrow> string \<Rightarrow> db
     \<Rightarrow> error + chat_message \<times> db" where
  "send_message now s A iv iv' conversation_id sender_id txt d =
     or_raise (conversation_for_actor conversation_id sender_id d) NotFoundError (\<lambda>conv.
     and_then (encrypt_content s A iv conversation_id txt) (\<lambda>content.
     and_then (encrypt_preview s A iv' conversation_id txt) (\<lambda>preview.
     let (m, d) = add_chat_message now conv sender_id content preview
                    (sender_id = cv_customer_id conv) d
     in Inr (to_dto m txt, d))))"

fun decrypt_rows :: "settings \<Rightarrow> aead \<Rightarrow> uuid \<Rightarrow> message list \<Rightarrow> error + chat_message list" where
  "decrypt_rows s A conversation_id [] = Inr []"
| "decrypt_rows s A conversation_id (m # ms) =
     and_then (decrypt_content s A conversation_id (msg_content_encrypted m)) (\<lambda>txt.
     and_then (decrypt_rows s A conversation_id ms) (\<lambda>rest. Inr (to_dto m txt # rest)))"

definition list_messages ::
  "settings \<Rightarrow> aead \<Rightarrow> uuid \<Rightarrow> uuid \<Rightarrow> nat \<Rightarrow> uuid option \<Rightarrow> db \<Rightarrow> error + chat_message list" where
  "list_messages s A conversation_id actor_id limit before_id d =
     or_raise (conversation_for_actor conversation_id actor_id d) NotFoundError (\<lambda>_.
     decrypt_rows s A conversation_id (list_message_rows conversation_id limit before_id d))"

definition mark_read :: "time \<Rightarrow> uuid \<Rightarrow> uuid \<Rightarrow> db \<Rightarrow> error + db" where
  "mark_read now conversation_id actor_id d =
     or_raise (conversation_for_actor conversation_id actor_id d) NotFoundError (\<lambda>conv.
     mark_read_rows now conv (actor_id = cv_customer_id conv) d)"

definition inbox_row :: "settings \<Rightarrow> aead \<Rightarrow> uuid \<Rightarrow> conversation \<Rightarrow> error + inbox_item" where
  "inbox_row s A user_id c =
     (let is_customer = cv_customer_id c = user_id
      in and_then (case cv_last_message_preview_encrypted c of None \<Rightarrow> Inr None
           | Some blob \<Rightarrow> and_then (decrypt_preview s A (cv_id c) blob) (\<lambda>t. Inr (Some t))) (\<lambda>preview.
         Inr \<lparr>ib_conversation_id = str_uuid (cv_id c), ib_order_id = str_uuid (cv_order_id c),
              ib_other_user_id = str_uuid (if is_customer then cv_courier_id c else cv_customer_id c),
              ib_last_message_preview = preview,
              ib_unread_count = (if is_customer then cv_customer_unread_count c
                 else cv_courier_unread_count c),
              ib_last_message_timestamp = cv_last_message_timestamp c\<rparr>))"

fun inbox_rows :: "settings \<Rightarrow> aead \<Rightarrow> uuid \<Rightarrow> conversation list \<Rightarrow> error + inbox_item list" where
  "inbox_rows s A user_id [] = Inr []"
| "inbox_rows s A user_id (c # cs) =
     and_then (inbox_row s A user_id c) (\<lambda>i.
     and_then (inbox_rows s A user_id cs) (\<lambda>rest. Inr (i # rest)))"

definition list_inbox ::
  "settings \<Rightarrow> aead \<Rightarrow> uuid \<Rightarrow> nat \<Rightarrow> (time \<times> uuid) option \<Rightarrow> db \<Rightarrow> error + inbox_item list" where
  "list_inbox s A user_id limit before d = inbox_rows s A user_id (list_for_user user_id limit before d)"

section \<open>Push notifications\<close>

text \<open>\<open>uq_device_tokens_token\<close>: a token that exists is pointed at the current user.\<close>

definition register_device :: "time \<Rightarrow> uuid \<Rightarrow> string \<Rightarrow> device_os \<Rightarrow> db \<Rightarrow> db" where
  "register_device now user_id token os d =
     (case find_by dt_token token (device_tokens d) of
        Some row \<Rightarrow> d\<lparr>device_tokens := put_by dt_id (row\<lparr>dt_user_id := user_id, dt_device_os := os,
          dt_last_seen_at := now\<rparr>) (device_tokens d)\<rparr>
      | None \<Rightarrow> let (i, d) = fresh d
          in d\<lparr>device_tokens := device_tokens d @ [\<lparr>dt_id = i, dt_user_id = user_id,
               dt_device_os = os, dt_token = token, dt_last_seen_at = now\<rparr>]\<rparr>)"

definition remove_device :: "uuid \<Rightarrow> string \<Rightarrow> db \<Rightarrow> db" where
  "remove_device user_id token d = d\<lparr>device_tokens :=
     filter (\<lambda>t. \<not> (dt_token t = token \<and> dt_user_id t = user_id)) (device_tokens d)\<rparr>"

definition tokens_for_user :: "uuid \<Rightarrow> db \<Rightarrow> string list" where
  "tokens_for_user user_id d = map dt_token (filter (\<lambda>t. dt_user_id t = user_id) (device_tokens d))"

definition tokens_for_city_couriers :: "string \<Rightarrow> db \<Rightarrow> string list" where
  "tokens_for_city_couriers city d = map dt_token (filter (\<lambda>t.
     case (get_user (dt_user_id t) d, get_courier_profile (dt_user_id t) d) of
       (Some u, Some p) \<Rightarrow> u_role u = UR_COURIER \<and> u_status u = US_ACTIVE \<and> cp_is_verified p \<and>
         cp_city_of_residence p = city
     | _ \<Rightarrow> False) (device_tokens d))"

text \<open>The slices \<open>tokens[start : start + 500]\<close> of the loop over \<open>range(0, len(tokens), 500)\<close>.\<close>

function push_batches :: "string list \<Rightarrow> string list list" where
  "push_batches tokens = (if tokens = [] then [] else take 500 tokens # push_batches (drop 500 tokens))"
  by pat_completeness auto
termination by (relation "measure length") auto

declare push_batches.simps [simp del]

text \<open>\<open>provider\<close> says whether a batch is delivered; a call that raises is logged and swallowed.
  The result is what was delivered.\<close>

definition send_pushes :: "(string list \<Rightarrow> bool) \<Rightarrow> string list \<Rightarrow> string list list" where
  "send_pushes provider tokens = filter provider (push_batches tokens)"

definition notify_user :: "(string list \<Rightarrow> bool) \<Rightarrow> uuid \<Rightarrow> db \<Rightarrow> nat \<times> string list list" where
  "notify_user provider user_id d =
     (let tokens = tokens_for_user user_id d in (length tokens, send_pushes provider tokens))"

definition notify_city_couriers :: "(string list \<Rightarrow> bool) \<Rightarrow> string \<Rightarrow> db \<Rightarrow> nat \<times> string list list" where
  "notify_city_couriers provider city d =
     (let tokens = tokens_for_city_couriers city d in (length tokens, send_pushes provider tokens))"

section \<open>Endpoints\<close>

text \<open>The committed database, the Redis store, what went to the channels and to the push provider.\<close>

record chat_io =
  io_db :: db
  io_redis :: redis
  io_published :: "(string \<times> chat_message) list"
  io_pushed :: "string list list"

definition recipient_of :: "conversation \<Rightarrow> uuid \<Rightarrow> uuid" where
  "recipient_of c actor_id = (if actor_id = cv_customer_id c then cv_courier_id c else cv_customer_id c)"

definition publish_message :: "uuid \<Rightarrow> chat_message \<Rightarrow> chat_io \<Rightarrow> chat_io" where
  "publish_message conversation_id dto st =
     st\<lparr>io_published := io_published st @ [(conversation_channel conversation_id, dto)]\<rparr>"

definition push_to :: "(string list \<Rightarrow> bool) \<Rightarrow> uuid \<Rightarrow> chat_io \<Rightarrow> chat_io" where
  "push_to provider user_id st =
     st\<lparr>io_pushed := io_pushed st @ snd (notify_user provider user_id (io_db st))\<rparr>"

definition send_message_endpoint ::
  "time \<Rightarrow> settings \<Rightarrow> aead \<Rightarrow> string \<Rightarrow> string \<Rightarrow> (string list \<Rightarrow> bool) \<Rightarrow> uuid \<Rightarrow> uuid \<Rightarrow> string \<Rightarrow> chat_io
     \<Rightarrow> error + chat_message \<times> chat_io" where
  "send_message_endpoint now s A iv iv' provider conversation_id actor_id txt st =
     and_then (send_message now s A iv iv' conversation_id actor_id txt (io_db st)) (\<lambda>(dto, d).
     let st = st\<lparr>io_db := d\<rparr>;
         st = (case conversation_for_actor conversation_id actor_id d of None \<Rightarrow> st
               | Some c \<Rightarrow> push_to provider (recipient_of c actor_id) st)
     in Inr (dto, publish_message conversation_id dto st))"

section \<open>The WebSocket\<close>

text \<open>Some actor, nobody, or an exception for a subject that is no UUID.\<close>

definition authenticate_ws :: "jwt_lib \<Rightarrow> settings \<Rightarrow> time \<Rightarrow> string \<Rightarrow> redis \<Rightarrow> error + actor option" where
  "authenticate_ws J s now token r =
     (if token = [] then Inr None
      else case decode_access_token J s now token of Inl _ \<Rightarrow> Inr None
        | Inr c \<Rightarrow>
          if has_flag (now div 1000) r (denylist_key (ac_jti c)) then Inr None
          else (case parse_role (ac_role c) of None \<Rightarrow> Inr None
            | Some role \<Rightarrow>
              if role \<noteq> UR_CUSTOMER \<and> role \<noteq> UR_COURIER then Inr None
              else or_raise (parse_uuid (ac_sub c)) ValueError (\<lambda>i.
                Inr (Some \<lparr>act_id = i, act_role = role, act_jti = ac_jti c\<rparr>))))"

definition extract_text :: "(json \<Rightarrow> string) \<Rightarrow> webhook_body \<Rightarrow> string" where
  "extract_text repr raw =
     (case parsed raw of Some (JObj kvs) \<Rightarrow> strip (py_str repr (get_default kvs ''text'' (JStr []))) | _ \<Rightarrow> [])"

text \<open>One received frame: its body, the time, the two nonces and whether Redis answers.\<close>

record ws_frame =
  wf_body :: webhook_body
  wf_now :: time
  wf_iv :: string
  wf_iv' :: string
  wf_up :: bool

datatype ws_end = WS_disconnected | WS_closed nat | WS_error error

definition ws_limiter :: "settings \<Rightarrow> rate_limiter" where
  "ws_limiter s = \<lparr>rl_max = WS_RATE_LIMIT_MAX_MESSAGES (hardening_of s),
     rl_window = WS_RATE_LIMIT_WINDOW_SECONDS (hardening_of s)\<rparr>"

definition ws_check :: "settings \<Rightarrow> uuid \<Rightarrow> ws_frame \<Rightarrow> chat_io \<Rightarrow> rate_limit_decision \<times> redis" where
  "ws_check s actor_id f st =
     check_guarded (ws_limiter s) (''ws:'' @ str_uuid actor_id) (banned_key (str_uuid actor_id)) (wf_up f)
       (wf_now f div 1000) (io_redis st)"

text \<open>\<open>_pump_socket_to_chat\<close> over the frames the client sends before it disconnects.\<close>

fun pump_socket_to_chat ::
  "settings \<Rightarrow> aead \<Rightarrow> (json \<Rightarrow> string) \<Rightarrow> (string list \<Rightarrow> bool) \<Rightarrow> uuid \<Rightarrow> uuid \<Rightarrow> uuid \<Rightarrow> ws_frame list \<Rightarrow> chat_io
     \<Rightarrow> ws_end \<times> chat_io" where
  "pump_socket_to_chat s A repr provider conversation_id actor_id recipient_id [] st = (WS_disconnected, st)"
| "pump_socket_to_chat s A repr provider conversation_id actor_id recipient_id (f # fs) st =
     (if int (length (raw_bytes (wf_body f))) > WS_MAX_FRAME_BYTES (hardening_of s)
      then pump_socket_to_chat s A repr provider conversation_id actor_id recipient_id fs st
      else let (decision, r) = ws_check s actor_id f st; st = st\<lparr>io_redis := r\<rparr>;
               txt = extract_text repr (wf_body f)
           in if blocked decision then (WS_closed 4401, st)
              else if \<not> allowed decision \<or> txt = []
              then pump_socket_to_chat s A repr provider conversation_id actor_id recipient_id fs st
              else case send_message (wf_now f) s A (wf_iv f) (wf_iv' f) conversation_id actor_id txt (io_db st) of
                  Inl e \<Rightarrow> (WS_error e, st)
                | Inr (dto, d) \<Rightarrow>
                    pump_socket_to_chat s A repr provider conversation_id actor_id recipient_id fs
                      (publish_message conversation_id dto (push_to provider recipient_id (st\<lparr>io_db := d\<rparr>))))"

definition conversation_ws ::
  "jwt_lib \<Rightarrow> settings \<Rightarrow> aead \<Rightarrow> (json \<Rightarrow> string) \<Rightarrow> (string list \<Rightarrow> bool) \<Rightarrow> time \<Rightarrow> string \<Rightarrow> uuid \<Rightarrow> ws_frame list \<Rightarrow> chat_io
     \<Rightarrow> ws_end \<times> chat_io" where
  "conversation_ws J s A repr provider now token conversation_id fs st =
     (case authenticate_ws J s now token (io_redis st) of
        Inl e \<Rightarrow> (WS_error e, st)
      | Inr None \<Rightarrow> (WS_closed 4401, st)
      | Inr (Some a) \<Rightarrow>
          (case conversation_for_actor conversation_id (act_id a) (io_db st) of
             None \<Rightarrow> (WS_closed 4403, st)
           | Some c \<Rightarrow> pump_socket_to_chat s A repr provider conversation_id (act_id a)
               (recipient_of c (act_id a)) fs st))"

section \<open>Reading back a message\<close>

lemma for_actorD:
  assumes "conversation_for_actor n u d = Some c"
  shows "get_conversation n d = Some c" "cv_id c = n" "u = cv_customer_id c \<or> u = cv_courier_id c"
  using assms conversation_tab.get_key
  by (auto simp: conversation_for_actor_def split: option.splits if_splits)

definition sent_row :: "time \<Rightarrow> conversation \<Rightarrow> uuid \<Rightarrow> string \<Rightarrow> db \<Rightarrow> message" where
  "sent_row now conv u content d =
     \<lparr>msg_id = next_id d, msg_conversation_id = cv_id conv, msg_sender_id = u, msg_message_type = MSG_TEXT,
      msg_content_encrypted = content, msg_is_read = False, msg_read_at = None, msg_created_at = now\<rparr>"

definition bumped :: "time \<Rightarrow> conversation \<Rightarrow> uuid \<Rightarrow> string \<Rightarrow> conversation" where
  "bumped now conv u preview =
     conv\<lparr>cv_last_message_preview_encrypted := Some preview, cv_last_message_timestamp := now,
       cv_customer_unread_count := cv_customer_unread_count conv + (if u = cv_customer_id conv then 0 else 1),
       cv_courier_unread_count := cv_courier_unread_count conv + (if u = cv_customer_id conv then 1 else 0)\<rparr>"

lemma add_chat_message_eq:
  "add_chat_message now conv u content preview (u = cv_customer_id conv) d =
     (sent_row now conv u content d,
      d\<lparr>next_id := next_id d + 1, messages := messages d @ [sent_row now conv u content d],
        conversations := put_by cv_id (bumped now conv u preview) (conversations d)\<rparr>)"
  by (simp add: add_chat_message_def fresh_def add_message_def put_conversation_def sent_row_def bumped_def Let_def)

lemma send_message_effect:
  assumes "send_message now s A iv iv' n u txt d = Inr (dto, d')"
  obtains conv content preview where "conversation_for_actor n u d = Some conv"
    and "encrypt_content s A iv n txt = Inr content" and "encrypt_preview s A iv' n txt = Inr preview"
    and "dto = to_dto (sent_row now conv u content d) txt"
    and "d' = d\<lparr>next_id := next_id d + 1, messages := messages d @ [sent_row now conv u content d],
        conversations := put_by cv_id (bumped now conv u preview) (conversations d)\<rparr>"
  using assms by (auto simp: send_message_def add_chat_message_eq Let_def)

text \<open>The newest row comes first.\<close>

lemma rev_sort_key_newest:
  fixes f :: "'a \<Rightarrow> 'b :: linorder"
  assumes "\<And>x. x \<in> set xs \<Longrightarrow> f x < f y"
  shows "take 1 (rev (sort_key f (xs @ [y]))) = [y]"
proof -
  let ?zs = "sort_key f (xs @ [y])"
  have zs: "set ?zs = insert y (set xs)" by simp
  then have ne: "?zs \<noteq> []" by force
  then have l: "last ?zs \<in> insert y (set xs)" using last_in_set zs by metis
  obtain i where i: "i < length ?zs" "?zs ! i = y" using zs by (metis in_set_conv_nth insertI1)
  have "f (?zs ! i) \<le> f (?zs ! (length ?zs - 1))"
    using i(1) sorted_nth_mono [of "map f ?zs" i "length ?zs - 1"] by (simp del: length_sort length_append)
  then have "f y \<le> f (last ?zs)" using i(2) by (simp add: last_conv_nth [OF ne])
  then have "last ?zs = y" using l assms by force
  moreover have "take 1 (rev ?zs) = [last ?zs]" using ne by (cases ?zs rule: rev_cases) simp_all
  ultimately show ?thesis by simp
qed

text \<open>C27: Encrypted chat round trip.  A message a participant sends is stored encrypted, and the newest
  message either participant then reads is exactly that text, sent by that user and unread; the
  inbox shows its first hundred characters to both.  Nobody else can send, read or mark messages of
  the conversation, and the stored ciphertext does not decrypt under any other conversation.\<close>

theorem chat_round_trip:
  assumes "aead_laws A" and "settings_cipher s = Inr c" and "length iv = 12" and "length iv' = 12"
    and "conversation_for_actor n u d = Some conv"
    and "list_all (\<lambda>m. msg_created_at m \<le> now \<and> msg_id m < next_id d) (messages d)"
  shows "\<exists>dto d' row conv'. send_message now s A iv iv' n u txt d = Inr (dto, d') \<and>
    cm_content dto = txt \<and> cm_sender_id dto = str_uuid u \<and> \<not> cm_is_read dto \<and>
    get_conversation n d' = Some conv' \<and> get_message (next_id d) d' = Some row \<and>
    (\<forall>reader. list_messages s A n reader 1 None d' =
       (if reader = cv_customer_id conv \<or> reader = cv_courier_id conv then Inr [dto] else Inl NotFoundError)) \<and>
    (\<forall>reader. map_sum id ib_last_message_preview (inbox_row s A reader conv') = Inr (Some (take 100 txt))) \<and>
    (\<forall>other. other \<noteq> n \<longrightarrow> decrypt_content s A other (msg_content_encrypted row) = Inl CryptoError) \<and>
    (\<forall>x. x \<noteq> cv_customer_id conv \<and> x \<noteq> cv_courier_id conv \<longrightarrow>
       send_message now s A iv iv' n x txt d = Inl NotFoundError \<and> mark_read now n x d = Inl NotFoundError)"
proof -
  have ok: "cipher_ok c" using assms(2) by (auto simp: settings_cipher_def intro: build_cipher_ok)
  obtain content where content: "encrypt A c iv txt (content_aad n) = Inr content"
    "decrypt A c content (content_aad n) = Inr txt"
    "\<And>aad. aad \<noteq> content_aad n \<Longrightarrow> decrypt A c content aad = Inl CryptoError"
    by (rule encrypt_decrypt [OF assms(1) ok assms(3), of "txt" "content_aad n"]) blast
  obtain preview where preview: "encrypt A c iv' (take 100 txt) (preview_aad n) = Inr preview"
    "decrypt A c preview (preview_aad n) = Inr (take 100 txt)"
    by (rule encrypt_decrypt [OF assms(1) ok assms(4), of "take 100 txt" "preview_aad n"]) blast
  note C = for_actorD [OF assms(5)]
  define row where "row = sent_row now conv u content d"
  define conv' where "conv' = bumped now conv u preview"
  define d' where "d' = d\<lparr>next_id := next_id d + 1, messages := messages d @ [row],
        conversations := put_by cv_id conv' (conversations d)\<rparr>"
  have send: "send_message now s A iv iv' n u txt d = Inr (to_dto row txt, d')"
    using content(1) preview(1) assms(2,5)
    by (simp add: send_message_def encrypt_content_def encrypt_preview_def add_chat_message_eq row_def conv'_def d'_def)
  have get: "get_conversation n d' = Some conv'"
    using C(1,2) by (simp add: d'_def get_conversation_def find_by_put_by conv'_def bumped_def)
  have msg: "get_message (next_id d) d' = Some row"
    using assms(6) by (auto simp: get_message_def d'_def find_by_append find_by_Cons row_def sent_row_def
        list_all_iff find_by_None split: option.splits dest!: find_by_SomeD)
  have new: "list_message_rows n 1 None d' = [row]"
  proof -
    have "message_key m < message_key row" if "m \<in> set (messages d)" for m
      using assms(6) that by (force simp: message_key_def row_def sent_row_def list_all_iff less_prod_def')
    then have "take 1 (rev (sort_key message_key (filter (\<lambda>m. msg_conversation_id m = n) (messages d) @ [row]))) = [row]"
      by (intro rev_sort_key_newest) auto
    moreover have "msg_conversation_id row = n" using C(2) by (simp add: row_def sent_row_def)
    ultimately show ?thesis by (simp add: list_message_rows_def d'_def)
  qed
  have read: "list_messages s A n reader 1 None d' =
      (if reader = cv_customer_id conv \<or> reader = cv_courier_id conv then Inr [to_dto row txt] else Inl NotFoundError)"
    for reader
  proof -
    have "decrypt_rows s A n [row] = Inr [to_dto row txt]"
      using content(2) assms(2) by (simp add: decrypt_content_def row_def sent_row_def)
    moreover have "conversation_for_actor n reader d' =
        (if reader = cv_customer_id conv \<or> reader = cv_courier_id conv then Some conv' else None)"
      using get by (auto simp: conversation_for_actor_def conv'_def bumped_def)
    ultimately show ?thesis unfolding list_messages_def new by simp
  qed
  have inbox: "map_sum id ib_last_message_preview (inbox_row s A reader conv') = Inr (Some (take 100 txt))" for reader
    using preview(2) assms(2) C(2) by (simp add: inbox_row_def conv'_def bumped_def decrypt_preview_def Let_def)
  have other: "decrypt_content s A m (msg_content_encrypted row) = Inl CryptoError" if "m \<noteq> n" for m
    using content(3) [of "content_aad m"] that assms(2)
    by (simp add: decrypt_content_def row_def sent_row_def content_aad_def build_aad_def)
  have "conversation_for_actor n x d = None" if "x \<noteq> cv_customer_id conv" "x \<noteq> cv_courier_id conv" for x
    using C(1) that by (simp add: conversation_for_actor_def)
  then show ?thesis
    using send get msg read inbox other
    by (intro exI [of _ "to_dto row txt"] exI [of _ d'] exI [of _ row] exI [of _ conv'])
       (auto simp: send_message_def mark_read_def to_dto_def row_def sent_row_def)
qed

definition chat_db :: db where
  "chat_db = sample_db\<lparr>conversations := [\<lparr>cv_id = 9, cv_order_id = 8, cv_customer_id = 10, cv_courier_id = 11,
     cv_last_message_preview_encrypted = None, cv_last_message_timestamp = 0, cv_customer_unread_count = 0,
     cv_courier_unread_count = 0, cv_is_closed = False\<rparr>]\<rparr>"

lemma sample_conversation: "conversation_for_actor 9 11 chat_db = Some (hd (conversations chat_db))"
  by (simp add: conversation_for_actor_def get_conversation_def chat_db_def find_by_Cons)

lemma chat_settings_cipher: "\<exists>c. settings_cipher sample_settings = Inr c"
proof -
  have "case settings_cipher sample_settings of Inl e \<Rightarrow> False | Inr c \<Rightarrow> True" by code_simp
  then show ?thesis by (auto split: sum.splits)
qed

theorem chat_round_trip_witness:
  "\<exists>dto d'. send_message 5 sample_settings sample_aead (replicate 12 CHR ''i'') (replicate 12 CHR ''j'') 9 11
       ''On my way'' chat_db = Inr (dto, d') \<and>
     list_messages sample_settings sample_aead 9 10 1 None d' = Inr [dto] \<and> cm_content dto = ''On my way'' \<and>
     list_messages sample_settings sample_aead 9 12 1 None d' = Inl NotFoundError"
proof -
  obtain c where c: "settings_cipher sample_settings = Inr c" using chat_settings_cipher by blast
  have m: "list_all (\<lambda>m. msg_created_at m \<le> 5 \<and> msg_id m < next_id chat_db) (messages chat_db)"
    by (simp add: chat_db_def sample_db_def seeded_db_def empty_db_def)
  have "length (replicate 12 CHR ''i'') = 12" "length (replicate 12 CHR ''j'') = 12" by simp_all
  from chat_round_trip [OF sample_aead_laws c this sample_conversation m, of "''On my way''"]
  show ?thesis by (auto simp: chat_db_def)
qed

section \<open>Unread counters and the history\<close>

definition unread_from :: "uuid \<Rightarrow> conversation \<Rightarrow> db \<Rightarrow> nat" where
  "unread_from u c d = length (filter (\<lambda>m. msg_conversation_id m = cv_id c \<and> msg_sender_id m = u \<and>
     msg_message_type m = MSG_TEXT \<and> \<not> msg_is_read m) (messages d))"

lemma unread_from_upd [simp]:
  "unread_from u (bumped now c v p) d = unread_from u c d"
  "unread_from u (c\<lparr>cv_customer_unread_count := x\<rparr>) d = unread_from u c d"
  "unread_from u (c\<lparr>cv_courier_unread_count := x\<rparr>) d = unread_from u c d"
  by (simp_all add: unread_from_def bumped_def)

definition counted :: "conversation \<Rightarrow> db \<Rightarrow> bool" where
  "counted c d \<longleftrightarrow> cv_customer_id c \<noteq> cv_courier_id c \<and>
     cv_customer_unread_count c = int (unread_from (cv_courier_id c) c d) \<and>
     cv_courier_unread_count c = int (unread_from (cv_customer_id c) c d)"

definition chat_ok :: "db \<Rightarrow> bool" where
  "chat_ok d \<longleftrightarrow> distinct (map cv_id (conversations d)) \<and>
     list_all (\<lambda>c. cv_id c < next_id d \<and> counted c d) (conversations d) \<and>
     list_all (\<lambda>m. msg_conversation_id m \<in> set (map cv_id (conversations d))) (messages d)"

text \<open>The operations on conversations: sending and reading, and the conversation with its system
  message that accepting an order writes.  Customer and courier are two users.\<close>

inductive chat_step :: "db \<Rightarrow> db \<Rightarrow> bool" where
  cs_send: "send_message now s A iv iv' n u txt d = Inr (dto, d') \<Longrightarrow> chat_step d d'"
| cs_read: "mark_read now n u d = Inr d' \<Longrightarrow> chat_step d d'"
| cs_open: "create_conversation now oid a b d = Inr (c, d') \<Longrightarrow> a \<noteq> b \<Longrightarrow> chat_step d d'"
| cs_system: "write_system_message now s A iv n u txt d = Inr d' \<Longrightarrow> get_conversation n d \<noteq> None \<Longrightarrow> chat_step d d'"

inductive_cases chat_step_elim: "chat_step d d'"

lemma counted_put:
  assumes "conversations d' = put_by cv_id c' (conversations d)" and "counted c' d'" and "cv_id c' < next_id d'"
    and "\<And>c. c \<in> set (conversations d) \<Longrightarrow> cv_id c < next_id d'"
    and "\<And>c. c \<in> set (conversations d) \<Longrightarrow> cv_id c \<noteq> cv_id c' \<Longrightarrow> counted c d'"
  shows "list_all (\<lambda>c. cv_id c < next_id d' \<and> counted c d') (conversations d')"
  using assms(2-5) by (auto simp: assms(1) list_all_iff put_by_def)

lemma chat_okI:
  assumes "chat_ok d" and "map cv_id (conversations d') = map cv_id (conversations d)"
    and "list_all (\<lambda>c. cv_id c < next_id d' \<and> counted c d') (conversations d')"
    and "msg_conversation_id ` set (messages d') \<subseteq> cv_id ` set (conversations d)"
  shows "chat_ok d'"
proof -
  have "cv_id ` set (conversations d') = cv_id ` set (conversations d)" using assms(2) by (metis list.set_map)
  then show ?thesis using assms by (auto simp: chat_ok_def list_all_iff)
qed

lemma send_keeps:
  assumes "send_message now s A iv iv' n u txt d = Inr (dto, d')" and "chat_ok d"
  shows "chat_ok d'"
proof -
  obtain conv content preview where cv: "conversation_for_actor n u d = Some conv"
    and d': "d' = d\<lparr>next_id := next_id d + 1, messages := messages d @ [sent_row now conv u content d],
        conversations := put_by cv_id (bumped now conv u preview) (conversations d)\<rparr>"
    by (rule send_message_effect [OF assms(1)]) blast
  note C = for_actorD [OF cv]
  have mem: "conv \<in> set (conversations d)" using C(1) by (rule conversation_tab.get_mem)
  have count: "unread_from x c d' = unread_from x c d + (if cv_id c = cv_id conv \<and> x = u then 1 else 0)" for x c
    by (auto simp: unread_from_def d' sent_row_def)
  have same: "c = conv" if "c \<in> set (conversations d)" "cv_id c = cv_id conv" for c
    using assms(2) that mem by (auto simp: chat_ok_def distinct_map inj_on_def)
  have old: "counted c d \<and> cv_id c < next_id d" if "c \<in> set (conversations d)" for c
    using assms(2) that by (auto simp: chat_ok_def list_all_iff)
  have "counted (bumped now conv u preview) d'"
    using old [OF mem] C(3) by (auto simp: counted_def count) (auto simp: bumped_def)
  moreover have "counted c d'" if "c \<in> set (conversations d)" "cv_id c \<noteq> cv_id conv" for c
    using old [OF that(1)] that(2) by (simp add: counted_def count)
  moreover have "conversations d' = put_by cv_id (bumped now conv u preview) (conversations d)"
    "next_id d' = next_id d + 1" "cv_id (bumped now conv u preview) = cv_id conv" by (simp_all add: d' bumped_def)
  ultimately have "list_all (\<lambda>c. cv_id c < next_id d' \<and> counted c d') (conversations d')"
    using old mem by (intro counted_put) (auto simp: less_SucI)
  then show ?thesis
    using assms(2) mem
    by (intro chat_okI [OF assms(2)]) (auto simp: chat_ok_def list_all_iff d' sent_row_def)
qed

lemma mark_read_effect:
  assumes "mark_read now n u d = Inr d'"
  obtains conv who where "conversation_for_actor n u d = Some conv"
    and "who = (if u = cv_customer_id conv then cv_courier_id conv else cv_customer_id conv)"
    and "d' = d\<lparr>conversations := put_by cv_id (if u = cv_customer_id conv then conv\<lparr>cv_customer_unread_count := 0\<rparr>
          else conv\<lparr>cv_courier_unread_count := 0\<rparr>) (conversations d),
        messages := map (\<lambda>m. if msg_conversation_id m = n \<and> msg_sender_id m = who \<and> \<not> msg_is_read m
          then m\<lparr>msg_is_read := True, msg_read_at := Some now\<rparr> else m) (messages d)\<rparr>"
proof -
  obtain conv where c: "conversation_for_actor n u d = Some conv" and m: "mark_read_rows now conv (u = cv_customer_id conv) d = Inr d'"
    using assms by (auto simp: mark_read_def)
  show ?thesis
    by (rule that [OF c refl])
       (use m for_actorD(2) [OF c] in \<open>auto simp: mark_read_rows_def update_messages_def put_conversation_def Let_def\<close>)
qed

lemma filter_marked:
  "length (filter (\<lambda>m. P m \<and> \<not> msg_is_read m) (map (\<lambda>m. if Q m \<and> \<not> msg_is_read m
       then m\<lparr>msg_is_read := True, msg_read_at := t\<rparr> else m) ms)) =
   length (filter (\<lambda>m. P m \<and> \<not> Q m \<and> \<not> msg_is_read m) ms)"
  if "\<And>m r t. P (m\<lparr>msg_is_read := r, msg_read_at := t\<rparr>) = P m"
  by (induction ms) (auto simp: that)

lemma mark_read_keeps:
  assumes "mark_read now n u d = Inr d'" and "chat_ok d"
  shows "chat_ok d'" and "\<exists>c. get_conversation n d' = Some c \<and>
    (if u = cv_customer_id c then cv_customer_unread_count c else cv_courier_unread_count c) = 0"
proof -
  obtain conv who where cv: "conversation_for_actor n u d = Some conv"
    and who: "who = (if u = cv_customer_id conv then cv_courier_id conv else cv_customer_id conv)"
    and d': "d' = d\<lparr>conversations := put_by cv_id (if u = cv_customer_id conv then conv\<lparr>cv_customer_unread_count := 0\<rparr>
          else conv\<lparr>cv_courier_unread_count := 0\<rparr>) (conversations d),
        messages := map (\<lambda>m. if msg_conversation_id m = n \<and> msg_sender_id m = who \<and> \<not> msg_is_read m
          then m\<lparr>msg_is_read := True, msg_read_at := Some now\<rparr> else m) (messages d)\<rparr>"
    by (rule mark_read_effect [OF assms(1)])
  note C = for_actorD [OF cv]
  have mem: "conv \<in> set (conversations d)" using C(1) by (rule conversation_tab.get_mem)
  have old: "counted c d \<and> cv_id c < next_id d" if "c \<in> set (conversations d)" for c
    using assms(2) that by (auto simp: chat_ok_def list_all_iff)
  have count: "unread_from x c d' = (if cv_id c = n \<and> x = who then 0 else unread_from x c d)" for x c
    using filter_marked [of "\<lambda>m. msg_conversation_id m = cv_id c \<and> msg_sender_id m = x \<and> msg_message_type m = MSG_TEXT"
        "\<lambda>m. msg_conversation_id m = n \<and> msg_sender_id m = who" "Some now" "messages d"]
    by (auto simp: unread_from_def d' conj_assoc intro!: arg_cong [where f = length] filter_cong)
  let ?c = "if u = cv_customer_id conv then conv\<lparr>cv_customer_unread_count := 0\<rparr>
          else conv\<lparr>cv_courier_unread_count := 0\<rparr>"
  have "counted ?c d'"
    using old [OF mem] C(2) who by (auto simp: counted_def count)
  moreover have "counted c d'" if "c \<in> set (conversations d)" "cv_id c \<noteq> cv_id conv" for c
    using old [OF that(1)] that(2) C(2) by (simp add: counted_def count)
  moreover have "conversations d' = put_by cv_id ?c (conversations d)" "next_id d' = next_id d" "cv_id ?c = cv_id conv"
    by (simp_all add: d')
  ultimately have "list_all (\<lambda>c. cv_id c < next_id d' \<and> counted c d') (conversations d')"
    using old mem by (intro counted_put) auto
  then show "chat_ok d'"
    using assms(2) by (intro chat_okI [OF assms(2)]) (auto simp: chat_ok_def list_all_iff d')
  show "\<exists>c. get_conversation n d' = Some c \<and>
    (if u = cv_customer_id c then cv_customer_unread_count c else cv_courier_unread_count c) = 0"
    using C(1,2) by (auto simp: d' get_conversation_def find_by_put_by)
qed

lemma open_keeps:
  assumes "create_conversation now oid a b d = Inr (c, d')" and "a \<noteq> b" and "chat_ok d"
  shows "chat_ok d'"
proof -
  have d': "d' = d\<lparr>next_id := next_id d + 1, conversations := conversations d @ [c]\<rparr>" "cv_id c = next_id d"
    "cv_customer_unread_count c = 0" "cv_courier_unread_count c = 0" "cv_customer_id c = a" "cv_courier_id c = b"
    using assms(1) by (auto simp: create_conversation_def add_conversation_def fresh_def Let_def)
  have old: "cv_id x < next_id d" if "x \<in> set (conversations d)" for x
    using assms(3) that by (auto simp: chat_ok_def list_all_iff)
  have none: "msg_conversation_id m \<noteq> next_id d" if "m \<in> set (messages d)" for m
    using assms(3) that old by (fastforce simp: chat_ok_def list_all_iff)
  have same: "unread_from u x d' = unread_from u x d" for u x by (simp add: unread_from_def d'(1))
  have "unread_from u c d = 0" for u using none d'(2) by (auto simp: unread_from_def filter_empty_conv)
  then have "counted c d'" using d'(3-6) assms(2) by (simp add: counted_def same)
  moreover have "counted x d' = counted x d" for x by (simp add: counted_def same)
  moreover have "conversations d' = conversations d @ [c]" "next_id d' = next_id d + 1" "messages d' = messages d"
    by (simp_all add: d'(1))
  moreover have "next_id d \<notin> cv_id ` set (conversations d)" using old by fastforce
  ultimately show ?thesis using assms(3) d'(2) by (auto simp: chat_ok_def list_all_iff less_SucI)
qed

lemma system_effect:
  assumes "write_system_message now s A iv n u txt d = Inr d'"
  obtains m where "d' = d\<lparr>next_id := next_id d + 1, messages := messages d @ [m]\<rparr>"
    and "msg_conversation_id m = n" and "msg_message_type m = MSG_SYSTEM"
  using assms by (auto simp: write_system_message_def add_system_message_def add_message_def fresh_def Let_def)

lemma system_keeps:
  assumes "write_system_message now s A iv n u txt d = Inr d'" and "get_conversation n d \<noteq> None" and "chat_ok d"
  shows "chat_ok d'"
proof -
  obtain m where d': "d' = d\<lparr>next_id := next_id d + 1, messages := messages d @ [m]\<rparr>"
    and m: "msg_conversation_id m = n" "msg_message_type m = MSG_SYSTEM"
    by (rule system_effect [OF assms(1)])
  have "unread_from x c d' = unread_from x c d" for x c using m(2) by (simp add: unread_from_def d')
  then have "counted c d' = counted c d" for c by (simp add: counted_def)
  moreover have "conversations d' = conversations d" "next_id d' = next_id d + 1" "messages d' = messages d @ [m]"
    by (simp_all add: d')
  moreover have "n \<in> cv_id ` set (conversations d)"
    using assms(2) by (force dest: conversation_tab.get_mem conversation_tab.get_key)
  ultimately show ?thesis using assms(3) m(1) by (auto simp: chat_ok_def list_all_iff less_SucI)
qed

text \<open>The rows that are there stay, in order, and change only in their read mark.\<close>

definition history_kept :: "db \<Rightarrow> db \<Rightarrow> bool" where
  "history_kept d d' \<longleftrightarrow> length (messages d) \<le> length (messages d') \<and>
     (\<forall>i < length (messages d). msg_id (messages d' ! i) = msg_id (messages d ! i) \<and>
        append_only_ok (messages d ! i) (messages d' ! i) \<and>
        (msg_is_read (messages d ! i) \<longrightarrow> msg_is_read (messages d' ! i)))"

lemma history_kept_refl: "history_kept d d"
  by (simp add: history_kept_def append_only_ok_def)

lemma history_kept_trans: "history_kept d e \<Longrightarrow> history_kept e f \<Longrightarrow> history_kept d f"
  by (auto simp: history_kept_def append_only_ok_def)

lemma history_kept_append: "messages d' = messages d @ ms \<Longrightarrow> history_kept d d'"
  by (simp add: history_kept_def append_only_ok_def nth_append)

lemma chat_step_history:
  assumes "chat_step d d'"
  shows "history_kept d d'"
  using assms
proof (cases rule: chat_step.cases)
  case (cs_send now s A iv iv' n u txt' dto)
  from this(1) show ?thesis by (rule send_message_effect) (auto intro: history_kept_append)
next
  case (cs_read now n u)
  from this(1) show ?thesis
    by (rule mark_read_effect) (simp add: history_kept_def append_only_ok_def)
next
  case (cs_open now oid a b c)
  from this(1) show ?thesis
    by (intro history_kept_append [of _ _ "[]"])
       (auto simp: create_conversation_def add_conversation_def fresh_def Let_def)
next
  case (cs_system now s A iv n u txt')
  from this(1) show ?thesis by (rule system_effect) (auto intro: history_kept_append)
qed

lemma chat_step_keeps: "chat_step d d' \<Longrightarrow> chat_ok d \<Longrightarrow> chat_ok d'"
  by (erule chat_step.cases)
     (auto dest: send_keeps open_keeps system_keeps intro: mark_read_keeps(1))

text \<open>C28: The unread counters are exact and the history is append-only.  Over every sequence of sends,
  reads, new conversations and system messages, each counter of each conversation equals the number
  of text messages of the other participant that are not read; no message is lost, reordered or
  altered except for being marked read, once and for all; and after a participant marks the
  conversation read nothing addressed to that participant counts as unread.\<close>

theorem chat_counters_exact:
  assumes "chat_step\<^sup>*\<^sup>* d d'" and "chat_ok d"
  shows "(\<forall>c \<in> set (conversations d').
      cv_customer_unread_count c = int (unread_from (cv_courier_id c) c d') \<and>
      cv_courier_unread_count c = int (unread_from (cv_customer_id c) c d')) \<and>
    history_kept d d' \<and>
    (\<forall>now n u e. mark_read now n u d' = Inr e \<longrightarrow> (\<exists>c. get_conversation n e = Some c \<and>
       (u = cv_customer_id c \<or> u = cv_courier_id c) \<and>
       unread_from (if u = cv_customer_id c then cv_courier_id c else cv_customer_id c) c e = 0))"
proof -
  have H: "chat_ok d' \<and> history_kept d d'"
    using assms
    by (induction rule: rtranclp_induct)
       (auto intro: chat_step_keeps history_kept_refl history_kept_trans [OF _ chat_step_history])
  have read: "\<exists>c. get_conversation n e = Some c \<and> (u = cv_customer_id c \<or> u = cv_courier_id c) \<and>
      unread_from (if u = cv_customer_id c then cv_courier_id c else cv_customer_id c) c e = 0"
    if r: "mark_read now n u d' = Inr e" for now n u e
  proof -
    note K = mark_read_keeps [OF r conjunct1 [OF H]]
    obtain c where c: "get_conversation n e = Some c"
      "(if u = cv_customer_id c then cv_customer_unread_count c else cv_courier_unread_count c) = 0"
      using K(2) by blast
    have "counted c e"
      using K(1) conversation_tab.get_mem [OF c(1)] by (auto simp: chat_ok_def list_all_iff)
    moreover obtain conv who where cv: "conversation_for_actor n u d' = Some conv"
      and e: "e = d'\<lparr>conversations := put_by cv_id (if u = cv_customer_id conv then conv\<lparr>cv_customer_unread_count := 0\<rparr>
          else conv\<lparr>cv_courier_unread_count := 0\<rparr>) (conversations d'),
        messages := map (\<lambda>m. if msg_conversation_id m = n \<and> msg_sender_id m = who \<and> \<not> msg_is_read m
          then m\<lparr>msg_is_read := True, msg_read_at := Some now\<rparr> else m) (messages d')\<rparr>"
      by (rule mark_read_effect [OF r])
    have "u = cv_customer_id c \<or> u = cv_courier_id c"
      using c(1) for_actorD [OF cv] by (auto simp: e get_conversation_def find_by_put_by split: if_splits)
    ultimately show ?thesis using c by (auto simp: counted_def split: if_splits)
  qed
  show ?thesis using H read by (auto simp: chat_ok_def counted_def list_all_iff)
qed

lemma send_succeeds:
  assumes "aead_laws A" and "settings_cipher s = Inr c" and "length iv = 12" and "length iv' = 12"
    and "conversation_for_actor n u d = Some conv"
  shows "\<exists>dto d'. send_message now s A iv iv' n u txt d = Inr (dto, d')"
proof -
  have ok: "cipher_ok c" using assms(2) by (auto simp: settings_cipher_def intro: build_cipher_ok)
  obtain b where "encrypt A c iv txt (content_aad n) = Inr b"
    by (rule encrypt_decrypt [OF assms(1) ok assms(3), of "txt" "content_aad n"]) blast
  moreover obtain b' where "encrypt A c iv' (take 100 txt) (preview_aad n) = Inr b'"
    by (rule encrypt_decrypt [OF assms(1) ok assms(4), of "take 100 txt" "preview_aad n"]) blast
  ultimately show ?thesis
    using assms(2,5) by (simp add: send_message_def encrypt_content_def encrypt_preview_def split_def Let_def)
qed

lemma chat_db_ok: "chat_ok chat_db"
  by (simp add: chat_ok_def chat_db_def sample_db_def seeded_db_def empty_db_def counted_def unread_from_def)

theorem chat_counters_exact_witness:
  "\<exists>dto d'. send_message 5 sample_settings sample_aead (replicate 12 CHR ''i'') (replicate 12 CHR ''j'') 9 11
       ''On my way'' chat_db = Inr (dto, d') \<and>
     (\<forall>c \<in> set (conversations d'). cv_customer_unread_count c = int (unread_from (cv_courier_id c) c d'))"
proof -
  obtain c where c: "settings_cipher sample_settings = Inr c" using chat_settings_cipher by blast
  have iv: "length (replicate 12 CHR ''i'') = 12" "length (replicate 12 CHR ''j'') = 12" by simp_all
  obtain dto d' where s: "send_message 5 sample_settings sample_aead (replicate 12 CHR ''i'') (replicate 12 CHR ''j'')
      9 11 ''On my way'' chat_db = Inr (dto, d')"
    using send_succeeds [OF sample_aead_laws c iv sample_conversation] by blast
  have "chat_step\<^sup>*\<^sup>* chat_db d'" using cs_send [OF s] by blast
  from chat_counters_exact [OF this chat_db_ok] s show ?thesis by blast
qed

section \<open>The guards of the socket\<close>

definition oversized :: "settings \<Rightarrow> ws_frame \<Rightarrow> bool" where
  "oversized s f \<longleftrightarrow> int (length (raw_bytes (wf_body f))) > WS_MAX_FRAME_BYTES (hardening_of s)"

text \<open>A frame while the user is banned, or while Redis does not answer.\<close>

definition shut_out :: "settings \<Rightarrow> uuid \<Rightarrow> redis \<Rightarrow> ws_frame \<Rightarrow> bool" where
  "shut_out s u r f \<longleftrightarrow> \<not> wf_up f \<or> rget (wf_now f div 1000) r (banned_key (str_uuid u)) \<noteq> None"

lemma shut_out_blocked:
  "shut_out s u (io_redis st) f \<Longrightarrow> \<exists>r. ws_check s u f st = (\<lparr>allowed = False, retry_after_seconds = 0, blocked = True\<rparr>, r)"
  by (auto simp: shut_out_def ws_check_def check_guarded_def reaching_def guarded_window_script_def ensure_def)

lemma pump_shut_out:
  assumes "\<forall>f \<in> set fs. oversized s f \<or> shut_out s u (io_redis st) f"
    and "pump_socket_to_chat s A repr prov n u v fs st = (out, st')"
  shows "io_db st' = io_db st \<and> io_published st' = io_published st \<and> io_pushed st' = io_pushed st \<and>
    out = (if list_all (oversized s) fs then WS_disconnected else WS_closed 4401)"
  using assms
proof (induction fs)
  case (Cons f fs)
  show ?case
  proof (cases "oversized s f")
    case True
    then show ?thesis using Cons by (simp add: oversized_def)
  next
    case False
    then have "shut_out s u (io_redis st) f" using Cons.prems(1) by simp
    then obtain r where "ws_check s u f st = (\<lparr>allowed = False, retry_after_seconds = 0, blocked = True\<rparr>, r)"
      using shut_out_blocked by blast
    then show ?thesis using Cons.prems(2) False by (auto simp: oversized_def)
  qed
qed simp

lemma send_message_rows:
  assumes "send_message now s A iv iv' n u txt d = Inr (dto, d')"
  obtains m where "messages d' = messages d @ [m]" and "dto = to_dto m (cm_content dto)"
    and "msg_conversation_id m = n" and "msg_sender_id m = u"
proof -
  obtain conv content where "conversation_for_actor n u d = Some conv"
    "dto = to_dto (sent_row now conv u content d) txt" "messages d' = messages d @ [sent_row now conv u content d]"
    by (rule send_message_effect [OF assms]) auto
  then show ?thesis
    using for_actorD(2) by (intro that [of "sent_row now conv u content d"]) (auto simp: to_dto_def sent_row_def)
qed

definition durable :: "uuid \<Rightarrow> uuid \<Rightarrow> message list \<Rightarrow> string \<times> chat_message \<Rightarrow> bool" where
  "durable n u ms p \<longleftrightarrow> fst p = conversation_channel n \<and>
     (\<exists>m \<in> set ms. snd p = to_dto m (cm_content (snd p)) \<and> msg_conversation_id m = n \<and> msg_sender_id m = u)"

lemma pump_publishes:
  assumes "pump_socket_to_chat s A repr prov n u v fs st = (out, st')"
  shows "\<exists>new rows. io_published st' = io_published st @ new \<and> messages (io_db st') = messages (io_db st) @ rows \<and>
    length rows = length new \<and> length new \<le> length fs \<and> list_all (durable n u rows) new"
  using assms
proof (induction fs arbitrary: st)
  case (Cons f fs)
  let ?pump = "pump_socket_to_chat s A repr prov n u v"
  obtain dec r where c: "ws_check s u f st = (dec, r)" by (cases "ws_check s u f st")
  define st1 where "st1 = st\<lparr>io_redis := r\<rparr>"
  consider (skip) st2 where "?pump fs st2 = (out, st')" "io_db st2 = io_db st" "io_published st2 = io_published st"
    | (stop) "st' = st1"
    | (send) dto d where "send_message (wf_now f) s A (wf_iv f) (wf_iv' f) n u (extract_text repr (wf_body f)) (io_db st) = Inr (dto, d)"
        "?pump fs (publish_message n dto (push_to prov v (st1\<lparr>io_db := d\<rparr>))) = (out, st')"
  proof -
    have db: "io_db st1 = io_db st" "io_published st1 = io_published st" by (simp_all add: st1_def)
    have p: "(if oversized s f then ?pump fs st
        else if blocked dec then (WS_closed 4401, st1)
        else if \<not> allowed dec \<or> extract_text repr (wf_body f) = [] then ?pump fs st1
        else case send_message (wf_now f) s A (wf_iv f) (wf_iv' f) n u (extract_text repr (wf_body f)) (io_db st1) of
                  Inl e \<Rightarrow> (WS_error e, st1)
                | Inr (dto, d) \<Rightarrow> ?pump fs (publish_message n dto (push_to prov v (st1\<lparr>io_db := d\<rparr>)))) = (out, st')"
      using Cons.prems unfolding pump_socket_to_chat.simps c Let_def prod.case oversized_def st1_def .
    show thesis
      using p skip [of st] skip [of st1] stop send db by (auto split: if_splits sum.splits)
  qed
  then show ?case
  proof cases
    case skip
    then show ?thesis using Cons.IH [OF skip(1)] by auto
  next
    case stop
    then show ?thesis by (intro exI [of _ "[]"]) (simp add: st1_def)
  next
    case send
    obtain m where m: "messages d = messages (io_db st) @ [m]" "dto = to_dto m (cm_content dto)"
      "msg_conversation_id m = n" "msg_sender_id m = u"
      by (rule send_message_rows [OF send(1)])
    obtain new rows where N: "io_published st' = (io_published st @ [(conversation_channel n, dto)]) @ new"
      "messages (io_db st') = messages d @ rows" "length rows = length new" "length new \<le> length fs"
      "list_all (durable n u rows) new"
      using Cons.IH [OF send(2)] by (auto simp: publish_message_def push_to_def st1_def)
    have "durable n u (m # rows) (conversation_channel n, dto)" using m by (auto simp: durable_def)
    moreover have "list_all (durable n u (m # rows)) new" using N(5) by (auto simp: list_all_iff durable_def)
    ultimately show ?thesis
      using N m(1) by (intro exI [of _ "(conversation_channel n, dto) # new"] exI [of _ "m # rows"]) auto
  qed
qed simp


definition sample_frame :: ws_frame where
  "sample_frame = \<lparr>wf_body = \<lparr>raw_bytes = ''{}'', parsed = Some (JObj [(''text'', JStr ''hi'')])\<rparr>, wf_now = 0,
     wf_iv = replicate 12 CHR ''i'', wf_iv' = replicate 12 CHR ''j'', wf_up = True\<rparr>"


section \<open>Devices and pushes\<close>

definition tokens_ok :: "db \<Rightarrow> bool" where
  "tokens_ok d \<longleftrightarrow> distinct (map dt_token (device_tokens d)) \<and> distinct (map dt_id (device_tokens d)) \<and>
     list_all (\<lambda>t. dt_id t < next_id d) (device_tokens d)"

text \<open>A push token belongs to one user.  Registering a token keeps tokens unique and gives it to the
  current user and to nobody else, whoever had it before; no other token moves.  Removing it has an
  effect only for its owner, and then nobody has it.\<close>

theorem device_token_ownership:
  assumes "tokens_ok d" and "d' = register_device now u tok os d"
  shows "tokens_ok d' \<and> (\<forall>v. tok \<in> set (tokens_for_user v d') \<longleftrightarrow> v = u) \<and>
    (\<forall>v t. t \<noteq> tok \<longrightarrow> (t \<in> set (tokens_for_user v d') \<longleftrightarrow> t \<in> set (tokens_for_user v d))) \<and>
    (\<forall>v. v \<noteq> u \<longrightarrow> remove_device v tok d' = d') \<and>
    (\<forall>v. tok \<notin> set (tokens_for_user v (remove_device u tok d')))"
proof -
  have rows: "tokens_ok d' \<and> (\<forall>x. x \<in> set (device_tokens d') \<and> dt_token x = tok \<longrightarrow> dt_user_id x = u) \<and>
      (\<exists>x \<in> set (device_tokens d'). dt_token x = tok) \<and>
      (\<forall>x. dt_token x \<noteq> tok \<longrightarrow> x \<in> set (device_tokens d') \<longleftrightarrow> x \<in> set (device_tokens d))"
  proof (cases "find_by dt_token tok (device_tokens d)")
    case None
    obtain new where d': "device_tokens d' = device_tokens d @ [new]" "next_id d' = next_id d + 1"
      and new: "dt_id new = next_id d" "dt_user_id new = u" "dt_token new = tok"
      using None by (simp add: assms(2) register_device_def fresh_def)
    have "\<forall>x \<in> set (device_tokens d). dt_token x \<noteq> tok" using None by (force simp: find_by_None)
    moreover have "next_id d \<notin> dt_id ` set (device_tokens d)" using assms(1) by (auto simp: tokens_ok_def list_all_iff)
    ultimately show ?thesis
      using assms(1) new by (auto simp: tokens_ok_def list_all_iff d' less_SucI)
  next
    case (Some row)
    then have row: "row \<in> set (device_tokens d)" "dt_token row = tok" by (auto dest: find_by_SomeD)
    have d': "device_tokens d' = map (\<lambda>x. if x = row then row\<lparr>dt_user_id := u, dt_device_os := os, dt_last_seen_at := now\<rparr>
        else x) (device_tokens d)" "next_id d' = next_id d"
    proof -
      have "dt_id x = dt_id row \<longleftrightarrow> x = row" if "x \<in> set (device_tokens d)" for x
        using assms(1) that row(1) by (auto simp: tokens_ok_def distinct_map inj_on_def)
      then show "device_tokens d' = map (\<lambda>x. if x = row then row\<lparr>dt_user_id := u, dt_device_os := os, dt_last_seen_at := now\<rparr>
        else x) (device_tokens d)" "next_id d' = next_id d"
        using Some by (simp_all add: assms(2) register_device_def put_by_def)
    qed
    have "x = row" if "x \<in> set (device_tokens d)" "dt_token x = tok" for x
      using assms(1) that row by (auto simp: tokens_ok_def distinct_map inj_on_def)
    moreover have "map dt_token (device_tokens d') = map dt_token (device_tokens d)"
      "map dt_id (device_tokens d') = map dt_id (device_tokens d)" by (simp_all add: d' if_distrib)
    ultimately show ?thesis
      using assms(1) row by (auto simp: tokens_ok_def list_all_iff d'(2)) (auto simp: d'(1) split: if_splits)
  qed
  then show ?thesis
    by (auto simp: tokens_for_user_def remove_device_def image_iff intro!: filter_True db.equality)
qed

theorem device_token_ownership_witness:
  "let d = register_device 1 10 ''tok'' DO_IOS sample_db; d' = register_device 2 11 ''tok'' DO_IOS d
   in tokens_ok d' \<and> ''tok'' \<in> set (tokens_for_user 11 d') \<and> ''tok'' \<notin> set (tokens_for_user 10 d')"
proof -
  have "tokens_ok sample_db" by (simp add: tokens_ok_def sample_db_def seeded_db_def empty_db_def)
  note 1 = device_token_ownership [OF this refl, of 1 10 "''tok''" DO_IOS]
  note 2 = device_token_ownership [OF conjunct1 [OF 1] refl, of 2 11 "''tok''" DO_IOS]
  then show ?thesis by (auto simp: Let_def)
qed

text \<open>Pushing in batches.  The loop ends after one call per started five hundred tokens; every token
  is in exactly one batch, in order, no batch is empty or larger than five hundred, and a batch
  whose delivery fails takes nothing from the others.\<close>

theorem push_batches_partition:
  "concat (push_batches tokens) = tokens \<and> (\<forall>b \<in> set (push_batches tokens). b \<noteq> [] \<and> length b \<le> 500) \<and>
   length (push_batches tokens) = (length tokens + 499) div 500 \<and>
   (\<forall>b \<in> set (push_batches tokens). b \<in> set (send_pushes provider tokens) \<longleftrightarrow> provider b) \<and>
   fst (notify_user provider u d) = length (tokens_for_user u d)"
proof -
  have "concat (push_batches tokens) = tokens \<and> (\<forall>b \<in> set (push_batches tokens). b \<noteq> [] \<and> length b \<le> 500) \<and>
      length (push_batches tokens) = (length tokens + 499) div 500"
  proof (induction tokens rule: push_batches.induct)
    case (1 tokens)
    show ?case
    proof (cases "tokens = []")
      case False
      have "(length tokens - 500 + 499) div 500 + 1 = (length tokens + 499) div 500"
        using False by (cases "length tokens \<le> 500") (auto simp: le_div_geq not_le Suc_le_eq)
      with False 1 show ?thesis by (subst (1 2 3) push_batches.simps) (simp add: append_take_drop_id)
    qed (simp add: push_batches.simps)
  qed
  then show ?thesis by (simp add: send_pushes_def notify_user_def Let_def)
qed

theorem push_batches_partition_witness:
  "length (push_batches (replicate 1001 ''t'')) = 3 \<and>
   (\<forall>b \<in> set (push_batches (replicate 1001 ''t'')). length b \<le> 500)"
  using push_batches_partition [of "replicate 1001 ''t''" "\<lambda>_. True" 0 sample_db] by simp

end
