(* ===== verification/Api.thy ===== *)
theory Api
  imports Schemas Chat Admin
begin

text \<open>
  The HTTP routes of \<open>app/routers/\<close> and \<open>app/core/deps.py\<close>.  A request is a \<open>route\<close>, one constructor
  for each decorated function with its path, query and body; a path parameter of type \<open>uuid.UUID\<close> is
  already parsed.  \<open>dispatch\<close> runs a route on the database and the Redis store: first the actor is
  authenticated and its role checked, then the body is validated, then the service is called.  The
  session of a request is committed when the route returns and rolled back when it raises.
\<close>

section \<open>Texts of the enumerations\<close>

fun order_status_text :: "order_status \<Rightarrow> string" where
  "order_status_text OS_NEW = ''NEW''"
| "order_status_text OS_ASSIGNED = ''ASSIGNED''"
| "order_status_text OS_WAITING_PAYMENT = ''WAITING_PAYMENT''"
| "order_status_text OS_IN_PROGRESS = ''IN_PROGRESS''"
| "order_status_text OS_DELIVERED = ''DELIVERED''"
| "order_status_text OS_COMPLETED = ''COMPLETED''"
| "order_status_text OS_CANCELLED = ''CANCELLED''"
| "order_status_text OS_DISPUTED = ''DISPUTED''"
| "order_status_text OS_REFUNDED = ''REFUNDED''"

definition parse_order_status :: "string \<Rightarrow> order_status option" where
  "parse_order_status t = map_of (map (\<lambda>x. (order_status_text x, x)) Enum.enum) t"

fun invoice_status_text :: "invoice_status \<Rightarrow> string" where
  "invoice_status_text IS_DRAFT = ''DRAFT''"
| "invoice_status_text IS_ISSUED = ''ISSUED''"
| "invoice_status_text IS_PAID = ''PAID''"
| "invoice_status_text IS_CANCELLED = ''CANCELLED''"
| "invoice_status_text IS_EXPIRED = ''EXPIRED''"
| "invoice_status_text IS_REFUNDED = ''REFUNDED''"

fun user_status_text :: "user_status \<Rightarrow> string" where
  "user_status_text US_ACTIVE = ''ACTIVE''"
| "user_status_text US_BANNED = ''BANNED''"
| "user_status_text US_PENDING_VERIFICATION = ''PENDING_VERIFICATION''"

fun dispute_status_text :: "dispute_status \<Rightarrow> string" where
  "dispute_status_text DS_OPEN = ''OPEN''"
| "dispute_status_text DS_RESOLVED_CUSTOMER = ''RESOLVED_CUSTOMER''"
| "dispute_status_text DS_RESOLVED_COURIER = ''RESOLVED_COURIER''"
| "dispute_status_text DS_RESOLVED_SPLIT = ''RESOLVED_SPLIT''"

definition parse_dispute_status :: "string \<Rightarrow> dispute_status option" where
  "parse_dispute_status t = map_of (map (\<lambda>x. (dispute_status_text x, x))
     [DS_OPEN, DS_RESOLVED_CUSTOMER, DS_RESOLVED_COURIER, DS_RESOLVED_SPLIT]) t"

fun withdrawal_status_text :: "withdrawal_status \<Rightarrow> string" where
  "withdrawal_status_text WS_REQUESTED = ''REQUESTED''"
| "withdrawal_status_text WS_APPROVED = ''APPROVED''"
| "withdrawal_status_text WS_PAID = ''PAID''"
| "withdrawal_status_text WS_REJECTED = ''REJECTED''"

fun transaction_type_text :: "transaction_type \<Rightarrow> string" where
  "transaction_type_text TT_TOPUP = ''TOPUP''"
| "transaction_type_text TT_WITHDRAWAL = ''WITHDRAWAL''"
| "transaction_type_text TT_ESCROW_HOLD = ''ESCROW_HOLD''"
| "transaction_type_text TT_ESCROW_RELEASE = ''ESCROW_RELEASE''"
| "transaction_type_text TT_PAYMENT = ''PAYMENT''"
| "transaction_type_text TT_REFUND = ''REFUND''"
| "transaction_type_text TT_COMMISSION = ''COMMISSION''"
| "transaction_type_text TT_SERVICE_FEE = ''SERVICE_FEE''"
| "transaction_type_text TT_TAX = ''TAX''"
| "transaction_type_text TT_PROMO_SUBSIDY = ''PROMO_SUBSIDY''"

fun transaction_status_text :: "transaction_status \<Rightarrow> string" where
  "transaction_status_text TS_PENDING = ''PENDING''"
| "transaction_status_text TS_SETTLED = ''SETTLED''"
| "transaction_status_text TS_REVERSED = ''REVERSED''"

fun device_os_text :: "device_os \<Rightarrow> string" where
  "device_os_text DO_IOS = ''IOS''"
| "device_os_text DO_ANDROID = ''ANDROID''"

definition parse_device_os :: "string \<Rightarrow> device_os option" where
  "parse_device_os t = map_of [(''IOS'', DO_IOS), (''ANDROID'', DO_ANDROID)] t"

fun pay_status_text :: "pay_status \<Rightarrow> string" where
  "pay_status_text PS_PAID = ''PAID''"
| "pay_status_text PS_PENDING = ''PENDING''"

fun outcome_text :: "webhook_outcome \<Rightarrow> string" where
  "outcome_text WO_processed = ''processed''"
| "outcome_text WO_already_processed = ''already_processed''"
| "outcome_text WO_failed = ''failed''"

text \<open>\<open>f"{rate:.4f}"\<close> of a value of the \<open>Numeric(5, 4)\<close> column.\<close>

definition rate_str :: "rat \<Rightarrow> string" where
  "rate_str v =
     (let n = nat (half_up (v * 10000))
      in digits (n div 10000) @ ''.'' @ [digit_char (n div 1000 mod 10), digit_char (n div 100 mod 10),
         digit_char (n div 10 mod 10), digit_char (n mod 10)])"

section \<open>Replies\<close>

datatype reply =
    Empty
  | Unprocessable
  | Otp_reply send_otp_response
  | Verify_reply verify_otp_response
  | Token_reply token_pair
  | User_reply user_me_response
  | Device_reply string string
  | Upload_reply upload_url_response
  | Confirm_reply string bool
  | Order_reply order_detail
  | Orders_reply order_list_response
  | Dispute_reply dispute_response
  | Rating_reply rating_response
  | Rating_summary_reply rating_summary_response
  | Invoice_reply invoice_response
  | Pay_reply pay_invoice_response
  | Promo_reply promo_preview_response
  | Wallet_reply wallet_response
  | Topup_reply topup_response
  | Withdrawal_reply withdrawal_response
  | Transactions_reply transaction_page
  | Ack_reply string
  | Inbox_reply "inbox_item list" "string option"
  | Messages_reply "chat_message list" "string option"
  | Message_reply chat_message
  | Status_reply string
  | Health_reply string "(string \<times> string) list"

record http_response =
  hr_status :: int
  hr_body :: reply

definition respond :: "int \<Rightarrow> reply \<Rightarrow> http_response" where
  "respond status body = \<lparr>hr_status = status, hr_body = body\<rparr>"

text \<open>What a request finds around it: the clock at its start and at the release of a lock, the
  keys and random values, the clients, the stamps the database gave to the ledger rows and the ISO
  text of an instant.\<close>

record api_env =
  ap_auth :: auth_env
  ap_now :: time
  ap_now' :: time
  ap_store :: object_store
  ap_presign :: "string \<Rightarrow> string"
  ap_gateway :: payment_gateway
  ap_verify :: "string \<Rightarrow> string \<Rightarrow> bool"
  ap_repr :: "json \<Rightarrow> string"
  ap_distance :: distance
  ap_push :: "string list \<Rightarrow> bool"
  ap_sms :: bool
  ap_code :: string
  ap_uuid4 :: string
  ap_token :: string
  ap_tx_created_at :: "uuid \<Rightarrow> time"
  ap_isoformat :: "time \<Rightarrow> string"
  ap_fromisoformat :: "string \<Rightarrow> time option"
  ap_dumps :: "json \<Rightarrow> string"
  ap_sign :: "string \<Rightarrow> string"
  ap_db_up :: bool
  ap_redis_up :: bool

definition ap_settings :: "api_env \<Rightarrow> settings" where
  "ap_settings E = ae_settings (ap_auth E)"

section \<open>Dependencies\<close>

type_synonym outcome = "(error + http_response) \<times> chat_io"

text \<open>\<open>get_db\<close>: the session is committed when the route returns, rolled back when it raises.\<close>

definition get_db :: "int \<Rightarrow> ('a \<Rightarrow> db \<Rightarrow> reply) \<Rightarrow> chat_io \<Rightarrow> error + 'a \<times> db \<Rightarrow> outcome" where
  "get_db status body st res =
     (case res of Inl e \<Rightarrow> (Inl e, st)
      | Inr (x, d) \<Rightarrow> (Inr (respond status (body x d)), st\<lparr>io_db := d\<rparr>))"

text \<open>A route that only reads.\<close>

definition reading :: "chat_io \<Rightarrow> error + reply \<Rightarrow> outcome" where
  "reading st res = (map_sum id (respond 200) res, st)"

definition checked :: "error + bool \<Rightarrow> chat_io \<Rightarrow> outcome \<Rightarrow> outcome" where
  "checked ok_fields st k =
     (case ok_fields of Inl e \<Rightarrow> (Inl e, st)
      | Inr ok \<Rightarrow> if ok then k else (Inr (respond 422 Unprocessable), st))"

definition authenticated :: "api_env \<Rightarrow> string \<Rightarrow> chat_io \<Rightarrow> (actor \<Rightarrow> outcome) \<Rightarrow> outcome" where
  "authenticated E header st k =
     (case require_auth (ae_jwt (ap_auth E)) (ap_settings E) (ap_now E) header (io_redis st) of
        Inl e \<Rightarrow> (Inl e, st) | Inr a \<Rightarrow> k a)"

definition with_role :: "user_role list \<Rightarrow> api_env \<Rightarrow> string \<Rightarrow> chat_io \<Rightarrow> (actor \<Rightarrow> outcome) \<Rightarrow> outcome" where
  "with_role roles E header st k = authenticated E header st (\<lambda>a.
     case require_role roles a of Inl e \<Rightarrow> (Inl e, st) | Inr a \<Rightarrow> k a)"

text \<open>A query parameter \<open>limit\<close> and a cursor that is the identifier of the last row; an empty cursor
  is none, a malformed one raises.\<close>

definition limit_ok :: "int \<Rightarrow> error + bool" where
  "limit_ok limit = Inr (1 \<le> limit \<and> limit \<le> 100)"

definition cursor_id :: "string option \<Rightarrow> error + uuid option" where
  "cursor_id cursor = (if truthy cursor then or_raise (parse_uuid (the cursor)) ValueError (\<lambda>i. Inr (Some i)) else Inr None)"

definition next_cursor :: "('a \<Rightarrow> string) \<Rightarrow> 'a list \<Rightarrow> int \<Rightarrow> string option" where
  "next_cursor f rows limit = (if int (length rows) = limit then Some (f (last rows)) else None)"

section \<open>Authentication routes\<close>

definition send_otp_route :: "api_env \<Rightarrow> send_otp_request \<Rightarrow> chat_io \<Rightarrow> outcome" where
  "send_otp_route E b st = checked (check_send_otp b) st
     (let s = ap_settings E;
          (res, r) = request_otp s (ae_hmac (ap_auth E)) (ap_sms E) (ap_code E) (ap_now E div 1000) (so_phone b)
            (io_redis st)
      in (map_sum id (\<lambda>dev_code. respond 202 (Otp_reply \<lparr>so_expires_in = OTP_TTL_SECONDS (business_of s),
            so_dev_otp = dev_code\<rparr>)) res, st\<lparr>io_redis := r\<rparr>))"

definition verify_reply :: "verify_result \<Rightarrow> reply" where
  "verify_reply v =
     (case vr_tokens v of
        Some t \<Rightarrow> Verify_reply \<lparr>vo_is_new_user = False, vo_role = Some (tp_role t), vo_access_token = Some (tp_access t),
          vo_refresh_token = Some (tp_refresh t), vo_registration_token = None\<rparr>
      | None \<Rightarrow> Verify_reply \<lparr>vo_is_new_user = True, vo_role = None, vo_access_token = None, vo_refresh_token = None,
          vo_registration_token = vr_registration v\<rparr>)"

definition verify_otp_route :: "api_env \<Rightarrow> verify_otp_request \<Rightarrow> chat_io \<Rightarrow> outcome" where
  "verify_otp_route E b st = checked (check_verify_otp b) st
     (let (res, r) = verify_login (ap_auth E) (ap_now E) (vo_phone b) (vo_otp b) (io_db st) (io_redis st)
      in get_db 200 (\<lambda>v _. verify_reply v) (st\<lparr>io_redis := r\<rparr>) res)"

definition registration_of :: "register_request \<Rightarrow> user_role \<Rightarrow> registration" where
  "registration_of b role = \<lparr>rg_role = role, rg_full_name = rr_full_name b, rg_email = rr_email b, rg_dob = rr_dob b,
     rg_city = rr_city b, rg_national_id = rr_national_id b, rg_passport_id = rr_passport_id b\<rparr>"

definition register_route :: "api_env \<Rightarrow> register_request \<Rightarrow> chat_io \<Rightarrow> outcome" where
  "register_route E b st = checked (check_register b) st
     (get_db 201 (\<lambda>t _. Token_reply t) st
       (or_raise (parse_role (rr_role b)) ValueError (\<lambda>role.
        register (ap_auth E) (ap_now E) (rr_registration_token b) (registration_of b role) (io_db st))))"

text \<open>The service commits what it keeps when it refuses a token.\<close>

definition refresh_route :: "api_env \<Rightarrow> string \<Rightarrow> chat_io \<Rightarrow> outcome" where
  "refresh_route E refresh_token st =
     (let (res, d) = refresh (ap_auth E) (ap_now E) refresh_token (io_db st)
      in (map_sum id (\<lambda>t. respond 200 (Token_reply t)) res, st\<lparr>io_db := d\<rparr>))"

definition logout_route :: "api_env \<Rightarrow> string \<Rightarrow> chat_io \<Rightarrow> outcome" where
  "logout_route E header st =
     (case logout_endpoint (ae_jwt (ap_auth E)) (ap_settings E) (ap_now E) header (io_redis st) of
        Inl e \<Rightarrow> (Inl e, st) | Inr r \<Rightarrow> (Inr (respond 204 Empty), st\<lparr>io_redis := r\<rparr>))"

section \<open>User, device and media routes\<close>

definition to_response :: "user \<Rightarrow> reply" where
  "to_response u = User_reply \<lparr>me_id = str_uuid (u_id u), me_phone = u_phone u, me_role = role_text (u_role u),
     me_status = user_status_text (u_status u), me_full_name = u_full_name u, me_email = u_email u,
     me_rating = u_rating u, me_rating_count = u_rating_count u\<rparr>"

definition get_me_route :: "api_env \<Rightarrow> string \<Rightarrow> chat_io \<Rightarrow> outcome" where
  "get_me_route E header st = authenticated E header st (\<lambda>a. reading st
     (or_raise (get_user (act_id a) (io_db st)) NotFoundError (\<lambda>u. Inr (to_response u))))"

definition update_me :: "uuid \<Rightarrow> user_update_request \<Rightarrow> db \<Rightarrow> error + user \<times> db" where
  "update_me user_id b d =
     or_raise (get_user user_id d) NotFoundError (\<lambda>u.
     let u = (case uu_full_name b of None \<Rightarrow> u | Some n \<Rightarrow> u\<lparr>u_full_name := Some n\<rparr>);
         u = (case uu_email b of None \<Rightarrow> u | Some m \<Rightarrow> u\<lparr>u_email := Some m\<rparr>);
         u = (case uu_dob b of None \<Rightarrow> u | Some t \<Rightarrow> u\<lparr>u_date_of_birth := Some t\<rparr>)
     in and_then (flush_user u d) (\<lambda>d. Inr (u, d)))"

definition update_me_route :: "api_env \<Rightarrow> string \<Rightarrow> user_update_request \<Rightarrow> chat_io \<Rightarrow> outcome" where
  "update_me_route E header b st = authenticated E header st (\<lambda>a. checked (check_user_update b) st
     (get_db 200 (\<lambda>u _. to_response u) st (update_me (act_id a) b (io_db st))))"

definition register_device_route :: "api_env \<Rightarrow> string \<Rightarrow> register_device_request \<Rightarrow> chat_io \<Rightarrow> outcome" where
  "register_device_route E header b st = with_role [UR_CUSTOMER, UR_COURIER] E header st (\<lambda>a.
     checked (check_register_device b) st
       (get_db 201 (\<lambda>os _. Device_reply (rd_token b) (device_os_text os)) st
         (or_raise (parse_device_os (rd_device_os b)) ValidationDomainError (\<lambda>os.
          Inr (os, register_device (ap_now E) (act_id a) (rd_token b) os (io_db st))))))"

definition unregister_device_route :: "api_env \<Rightarrow> string \<Rightarrow> string \<Rightarrow> chat_io \<Rightarrow> outcome" where
  "unregister_device_route E header token st = with_role [UR_CUSTOMER, UR_COURIER] E header st (\<lambda>a.
     checked (check_unregister_device token) st
       (get_db 204 (\<lambda>_ _. Empty) st (Inr ((), remove_device (act_id a) token (io_db st)))))"

definition create_upload_url_route :: "api_env \<Rightarrow> string \<Rightarrow> upload_url_request \<Rightarrow> chat_io \<Rightarrow> outcome" where
  "create_upload_url_route E header b st = authenticated E header st (\<lambda>_. checked (check_upload_url b) st
     (map_sum id (\<lambda>(k, expires_in). respond 201 (Upload_reply \<lparr>ur_upload_url = ap_presign E k, ur_storage_key = k,
          ur_expires_in = expires_in\<rparr>))
        (request_upload_url (ap_settings E) (ap_uuid4 E) (uf_purpose b) (uf_content_type b) (uf_byte_size b)), st))"

definition confirm_upload_route :: "api_env \<Rightarrow> string \<Rightarrow> string \<Rightarrow> chat_io \<Rightarrow> outcome" where
  "confirm_upload_route E header storage_key st = authenticated E header st (\<lambda>_. reading st
     (and_then (confirm (ap_settings E) (ap_store E) storage_key) (\<lambda>_. Inr (Confirm_reply storage_key True))))"

section \<open>Order routes\<close>

definition summary :: "order \<Rightarrow> order_summary" where
  "summary ord = \<lparr>os_id = str_uuid (o_id ord), os_status = order_status_text (o_status ord),
     os_delivery_city = o_delivery_city ord, os_delivery_date = o_delivery_date ord,
     os_description = o_description ord, os_created_at = o_created_at ord\<rparr>"

definition coords :: "uuid \<Rightarrow> db \<Rightarrow> (rat \<times> rat) option" where
  "coords order_id d = map_option o_delivery_location (get_order order_id d)"

definition detail :: "actor \<Rightarrow> order \<Rightarrow> db \<Rightarrow> reply" where
  "detail a ord d =
     (let show_coords = (act_role a = UR_CUSTOMER \<or> o_status ord \<noteq> OS_NEW);
          point = (if show_coords then coords (o_id ord) d else None)
      in Order_reply \<lparr>od_id = str_uuid (o_id ord), od_status = order_status_text (o_status ord),
           od_customer_id = str_uuid (o_customer_id ord), od_courier_id = map_option str_uuid (o_courier_id ord),
           od_delivery_city = o_delivery_city ord, od_delivery_date = o_delivery_date ord,
           od_description = o_description ord, od_latitude = map_option snd point, od_longitude = map_option fst point,
           od_total_amount = money_str (o_total_amount ord), od_assigned_at = o_assigned_at ord,
           od_created_at = o_created_at ord\<rparr>)"

definition order_page :: "order list \<Rightarrow> int \<Rightarrow> reply" where
  "order_page rows limit = Orders_reply \<lparr>ol_items = map summary rows,
     ol_next_cursor = next_cursor (\<lambda>ord. str_uuid (o_id ord)) rows limit\<rparr>"

definition order_input :: "create_order_request \<Rightarrow> new_order_input" where
  "order_input b = \<lparr>no_description = cr_description b, no_delivery_city = cr_delivery_city b,
     no_latitude = cr_latitude b, no_longitude = cr_longitude b, no_delivery_date = cr_delivery_date b,
     no_request_media_keys = cr_request_media_keys b\<rparr>"

definition create_order_route :: "api_env \<Rightarrow> string \<Rightarrow> create_order_request \<Rightarrow> chat_io \<Rightarrow> outcome" where
  "create_order_route E header b st = with_role [UR_CUSTOMER] E header st (\<lambda>a. checked (check_create_order b) st
     (case create_order (ap_now E) (ap_settings E) (ap_store E) (act_id a) (order_input b) (io_db st) of
        Inl e \<Rightarrow> (Inl e, st)
      | Inr (ord, d) \<Rightarrow> get_db 201 (detail a)
          (st\<lparr>io_pushed := io_pushed st @ snd (notify_city_couriers (ap_push E) (o_delivery_city ord) d)\<rparr>)
          (Inr (ord, d))))"

definition status_filter :: "string option \<Rightarrow> error + order_status option" where
  "status_filter status =
     (if truthy status then or_raise (parse_order_status (the status)) ValueError (\<lambda>x. Inr (Some x)) else Inr None)"

definition list_orders_route ::
  "api_env \<Rightarrow> string \<Rightarrow> string option \<Rightarrow> string option \<Rightarrow> int \<Rightarrow> chat_io \<Rightarrow> outcome" where
  "list_orders_route E header status cursor limit st = with_role [UR_CUSTOMER] E header st (\<lambda>a.
     checked (limit_ok limit) st (reading st
       (and_then (status_filter status) (\<lambda>status_enum.
        and_then (cursor_id cursor) (\<lambda>before.
        Inr (order_page (list_for_customer (act_id a) status_enum (nat limit) before (io_db st)) limit))))))"

definition available_orders_route ::
  "api_env \<Rightarrow> string \<Rightarrow> string option \<Rightarrow> int \<Rightarrow> chat_io \<Rightarrow> outcome" where
  "available_orders_route E header cursor limit st = with_role [UR_COURIER] E header st (\<lambda>a.
     checked (limit_ok limit) st (reading st
       (or_raise (get_courier_profile (act_id a) (io_db st)) ForbiddenError (\<lambda>p.
        and_then (cursor_id cursor) (\<lambda>before.
        Inr (order_page (list_available (cp_city_of_residence p) (nat limit) before (io_db st)) limit))))))"

definition get_order_route :: "api_env \<Rightarrow> string \<Rightarrow> uuid \<Rightarrow> chat_io \<Rightarrow> outcome" where
  "get_order_route E header order_id st = with_role [UR_CUSTOMER, UR_COURIER] E header st (\<lambda>a. reading st
     (or_raise (get_for_actor order_id (act_id a) (io_db st)) NotFoundError (\<lambda>ord. Inr (detail a ord (io_db st)))))"

definition accept_order_route :: "api_env \<Rightarrow> string \<Rightarrow> uuid \<Rightarrow> chat_io \<Rightarrow> outcome" where
  "accept_order_route E header order_id st = with_role [UR_COURIER] E header st (\<lambda>a.
     let (res, r) = accept_order (ap_now E) (ap_now' E) (ap_settings E) (ae_aead (ap_auth E)) (ap_token E)
           (ae_iv1 (ap_auth E)) order_id (act_id a) (io_db st) (io_redis st)
     in get_db 200 (detail a) (st\<lparr>io_redis := r\<rparr>) res)"

definition cancel_order_route :: "api_env \<Rightarrow> string \<Rightarrow> uuid \<Rightarrow> string option \<Rightarrow> chat_io \<Rightarrow> outcome" where
  "cancel_order_route E header order_id reason st = with_role [UR_CUSTOMER, UR_COURIER] E header st (\<lambda>a.
     checked (check_cancel_order reason) st
       (get_db 200 (detail a) st (cancel_order (ap_now E) order_id (act_id a) reason (io_db st))))"

definition deliver_order_route :: "api_env \<Rightarrow> string \<Rightarrow> uuid \<Rightarrow> deliver_request \<Rightarrow> chat_io \<Rightarrow> outcome" where
  "deliver_order_route E header order_id b st = with_role [UR_COURIER] E header st (\<lambda>a. checked (check_deliver b) st
     (get_db 200 (detail a) st
       (submit_delivery (ap_now E) (ap_settings E) (ap_store E) (ap_distance E) order_id (act_id a)
          \<lparr>dl_latitude = dr_latitude b, dl_longitude = dr_longitude b, dl_proof_media_keys = dr_proof_media_keys b\<rparr>
          (io_db st))))"

definition approve_order_route :: "api_env \<Rightarrow> string \<Rightarrow> uuid \<Rightarrow> chat_io \<Rightarrow> outcome" where
  "approve_order_route E header order_id st = with_role [UR_CUSTOMER] E header st (\<lambda>a.
     get_db 200 (detail a) st (approve_order (ap_now E) (ap_settings E) order_id (act_id a) (io_db st)))"

definition dispute_reply :: "dispute \<Rightarrow> reply" where
  "dispute_reply x = Dispute_reply \<lparr>ds_id = str_uuid (dp_id x), ds_order_id = str_uuid (dp_order_id x),
     ds_status = dispute_status_text (dp_status x), ds_reason = dp_reason x, ds_resolution_note = dp_resolution_note x\<rparr>"

definition dispute_order_route :: "api_env \<Rightarrow> string \<Rightarrow> uuid \<Rightarrow> string \<Rightarrow> chat_io \<Rightarrow> outcome" where
  "dispute_order_route E header order_id reason st = with_role [UR_CUSTOMER, UR_COURIER] E header st (\<lambda>a.
     checked (check_dispute reason) st
       (get_db 201 (\<lambda>x _. dispute_reply x) st (raise_dispute (ap_now E) order_id (act_id a) reason (io_db st))))"

section \<open>Rating routes\<close>

definition rate_order_route :: "api_env \<Rightarrow> string \<Rightarrow> uuid \<Rightarrow> rating_request \<Rightarrow> chat_io \<Rightarrow> outcome" where
  "rate_order_route E header order_id b st = with_role [UR_CUSTOMER, UR_COURIER] E header st (\<lambda>a.
     checked (check_rating b) st
       (get_db 201 (\<lambda>r _. Rating_reply \<lparr>rs_id = str_uuid (ra_id r), rs_order_id = str_uuid (ra_order_id r),
            rs_rated_user_id = str_uuid (ra_rated_user_id r), rs_score = ra_score r, rs_comment = ra_comment r\<rparr>) st
         (rate order_id (act_id a) (rn_score b) (rn_comment b) (io_db st))))"

text \<open>\<open>round\<close> of a \<open>Decimal\<close>: half to even, to two places.\<close>

definition round_2dp :: "rat \<Rightarrow> rat" where
  "round_2dp v =
     (let n = \<lfloor>v * 100\<rfloor>; rest = v * 100 - of_int n
      in of_int (if rest < 1 / 2 \<or> rest = 1 / 2 \<and> even n then n else n + 1) / 100)"

definition received :: "uuid \<Rightarrow> db \<Rightarrow> int list" where
  "received user_id d = map ra_score (filter (\<lambda>r. ra_rated_user_id r = user_id) (ratings d))"

definition summary_for_user :: "uuid \<Rightarrow> db \<Rightarrow> rat \<times> int" where
  "summary_for_user user_id d =
     (let scores = received user_id d
      in if scores = [] then (0, 0)
         else (round_2dp (of_int (sum_list scores) / of_nat (length scores)), int (length scores)))"

definition user_rating_summary_route :: "api_env \<Rightarrow> string \<Rightarrow> uuid \<Rightarrow> chat_io \<Rightarrow> outcome" where
  "user_rating_summary_route E header user_id st = authenticated E header st (\<lambda>_.
     let (average, count) = summary_for_user user_id (io_db st)
     in reading st (Inr (Rating_summary_reply \<lparr>su_user_id = str_uuid user_id, su_average_score = money_str average,
          su_count = count\<rparr>)))"

section \<open>Invoice and promo routes\<close>

definition item_reply :: "invoice_item \<Rightarrow> invoice_item_response" where
  "item_reply t = \<lparr>ii_position = it_position t, ii_title = it_title t, ii_description = it_description t,
     ii_unit_price_amount = money_str (it_unit_price_amount t), ii_quantity = it_quantity t,
     ii_tax_rate = rate_str (it_tax_rate t), ii_line_net_amount = money_str (it_line_net_amount t),
     ii_line_discount_amount = money_str (it_line_discount_amount t),
     ii_line_taxable_amount = money_str (it_line_taxable_amount t),
     ii_line_tax_amount = money_str (it_line_tax_amount t), ii_line_total_amount = money_str (it_line_total_amount t)\<rparr>"

definition invoice_detail :: "invoice \<Rightarrow> invoice_item list \<Rightarrow> reply" where
  "invoice_detail i items = Invoice_reply \<lparr>ir_id = str_uuid (inv_id i), ir_order_id = str_uuid (inv_order_id i),
     ir_status = invoice_status_text (inv_status i), ir_currency = inv_currency i,
     ir_items_net_amount = money_str (inv_items_net_amount i), ir_courier_fee_amount = money_str (inv_courier_fee_amount i),
     ir_service_fee_amount = money_str (inv_service_fee_amount i), ir_discount_amount = money_str (inv_discount_amount i),
     ir_net_after_discount_amount = money_str (inv_net_after_discount_amount i), ir_tax_amount = money_str (inv_tax_amount i),
     ir_total_amount = money_str (inv_total_amount i), ir_promo_code = inv_promo_code_snapshot i,
     ir_issued_at = inv_issued_at i, ir_expires_at = inv_expires_at i, ir_items = map item_reply items\<rparr>"

definition line_input :: "invoice_line_request \<Rightarrow> error + invoice_line_input" where
  "line_input b =
     and_then (parse_money (PyStr (il_unit_price_amount b))) (\<lambda>price.
     and_then (parse_rate (PyStr (il_tax_rate b))) (\<lambda>rate.
     Inr \<lparr>li_title = il_title b, li_unit_price_amount = price, li_quantity = il_quantity b, li_tax_rate = rate,
          li_description = il_description b\<rparr>))"

fun line_inputs :: "invoice_line_request list \<Rightarrow> error + invoice_line_input list" where
  "line_inputs [] = Inr []"
| "line_inputs (b # bs) = and_then (line_input b) (\<lambda>x. and_then (line_inputs bs) (\<lambda>xs. Inr (x # xs)))"

definition invoice_input :: "create_invoice_request \<Rightarrow> error + new_invoice_input" where
  "invoice_input b =
     and_then (line_inputs (ci_items b)) (\<lambda>items.
     and_then (parse_money (PyStr (ci_courier_fee_amount b))) (\<lambda>fee.
     Inr \<lparr>ni_items = items, ni_courier_fee_amount = fee, ni_promo_code = ci_promo_code b\<rparr>))"

definition create_invoice_route :: "api_env \<Rightarrow> string \<Rightarrow> uuid \<Rightarrow> create_invoice_request \<Rightarrow> chat_io \<Rightarrow> outcome" where
  "create_invoice_route E header order_id b st = with_role [UR_COURIER] E header st (\<lambda>a.
     checked (check_create_invoice b) st
       (get_db 201 (\<lambda>i d. invoice_detail i (list_items (inv_id i) d)) st
         (and_then (invoice_input b) (\<lambda>n. create_invoice (ap_now E) (ap_settings E) order_id (act_id a) n (io_db st)))))"

definition get_order_invoice_route :: "api_env \<Rightarrow> string \<Rightarrow> uuid \<Rightarrow> chat_io \<Rightarrow> outcome" where
  "get_order_invoice_route E header order_id st = with_role [UR_CUSTOMER, UR_COURIER] E header st (\<lambda>a. reading st
     (and_then (get_active_invoice_for_order order_id (act_id a) (io_db st)) (\<lambda>(i, items). Inr (invoice_detail i items))))"

definition get_invoice_route :: "api_env \<Rightarrow> string \<Rightarrow> uuid \<Rightarrow> chat_io \<Rightarrow> outcome" where
  "get_invoice_route E header invoice_id st = with_role [UR_CUSTOMER, UR_COURIER] E header st (\<lambda>a. reading st
     (and_then (get_invoice_for_actor invoice_id (act_id a) (io_db st)) (\<lambda>(i, items). Inr (invoice_detail i items))))"

definition pay_invoice_route :: "api_env \<Rightarrow> string \<Rightarrow> uuid \<Rightarrow> chat_io \<Rightarrow> outcome" where
  "pay_invoice_route E header invoice_id st = with_role [UR_CUSTOMER] E header st (\<lambda>a.
     get_db 200 (\<lambda>p _. Pay_reply \<lparr>py_invoice_id = str_uuid (pay_invoice_id p), py_status = pay_status_text (pay_status_of p),
          py_amount_from_wallet = money_str (pay_from_wallet p), py_amount_from_gateway = money_str (pay_from_gateway p),
          py_payment_url = pay_url p\<rparr>) st
       (pay_invoice (ap_now E) (ap_settings E) (ap_gateway E) invoice_id (act_id a) (io_db st)))"

definition cancel_invoice_route :: "api_env \<Rightarrow> string \<Rightarrow> uuid \<Rightarrow> chat_io \<Rightarrow> outcome" where
  "cancel_invoice_route E header invoice_id st = with_role [UR_COURIER] E header st (\<lambda>a.
     get_db 200 (\<lambda>i d. invoice_detail i (list_items (inv_id i) d)) st
       (cancel_invoice (ap_now E) invoice_id (act_id a) (io_db st)))"

definition validate_promo_route :: "api_env \<Rightarrow> string \<Rightarrow> promo_validate_request \<Rightarrow> chat_io \<Rightarrow> outcome" where
  "validate_promo_route E header b st = with_role [UR_CUSTOMER] E header st (\<lambda>a. checked (check_promo_validate b) st
     (reading st
       (or_raise (parse_uuid (pq_order_id b)) ValueError (\<lambda>order_id.
        and_then (preview_promo (ap_now E) (ap_settings E) order_id (pq_code b) (act_id a) (io_db st)) (\<lambda>v.
        Inr (Promo_reply \<lparr>pp_code = pv_code v, pp_discount_amount = money_str (pv_discount v),
          pp_original_total_amount = money_str (pv_original_total_amount v),
          pp_total_amount = money_str (pv_total_amount v)\<rparr>))))))"

section \<open>Wallet routes\<close>

definition get_my_wallet_route :: "api_env \<Rightarrow> string \<Rightarrow> chat_io \<Rightarrow> outcome" where
  "get_my_wallet_route E header st = with_role [UR_CUSTOMER, UR_COURIER] E header st (\<lambda>a. reading st
     (or_raise (get_by_user (act_id a) (io_db st)) NotFoundError (\<lambda>w.
      Inr (Wallet_reply \<lparr>wr_balance = money_str (w_balance w), wr_held_balance = money_str (w_held_balance w),
        wr_available = money_str (w_balance w - w_held_balance w), wr_currency = w_currency w\<rparr>))))"

definition start_topup_route :: "api_env \<Rightarrow> string \<Rightarrow> string \<Rightarrow> chat_io \<Rightarrow> outcome" where
  "start_topup_route E header amount st = with_role [UR_CUSTOMER, UR_COURIER] E header st (\<lambda>a.
     checked (check_topup amount) st
       (get_db 201 (\<lambda>t _. Topup_reply \<lparr>to_payment_intent_id = str_uuid (tr_intent_id t), to_amount = money_str (tr_amount t),
            to_payment_url = tr_payment_url t\<rparr>) st
         (and_then (parse_money (PyStr amount)) (\<lambda>m.
          create_topup (ap_now E) (ap_settings E) (ap_gateway E) (act_id a) m (io_db st)))))"

definition withdrawal_reply :: "withdrawal \<Rightarrow> reply" where
  "withdrawal_reply w = Withdrawal_reply \<lparr>wx_id = str_uuid (wd_id w), wx_amount = money_str (wd_amount w),
     wx_iban_last4 = wd_iban_last4 w, wx_status = withdrawal_status_text (wd_status w),
     wx_rejection_reason = wd_rejection_reason w\<rparr>"

definition request_withdrawal_route :: "api_env \<Rightarrow> string \<Rightarrow> withdrawal_request \<Rightarrow> string \<Rightarrow> chat_io \<Rightarrow> outcome" where
  "request_withdrawal_route E header b idempotency_key st = with_role [UR_COURIER] E header st (\<lambda>a.
     checked (check_withdrawal b idempotency_key) st
       (get_db 201 (\<lambda>w _. withdrawal_reply w) st
         (and_then (parse_money (PyStr (wq_amount b))) (\<lambda>amount.
          request_withdrawal (ap_settings E) (ae_aead (ap_auth E)) (ae_iv1 (ap_auth E)) (act_id a) amount
            (the (normalize_iban (wq_iban b))) idempotency_key (io_db st)))))"

text \<open>\<open>ORDER BY created_at DESC, id DESC\<close>; the stamps of the rows are those of the environment.\<close>

definition tx_key :: "(uuid \<Rightarrow> time) \<Rightarrow> transaction \<Rightarrow> time \<times> uuid" where
  "tx_key created t = (created (tx_id t), tx_id t)"

definition list_transactions :: "(uuid \<Rightarrow> time) \<Rightarrow> uuid \<Rightarrow> nat \<Rightarrow> uuid option \<Rightarrow> db \<Rightarrow> transaction list" where
  "list_transactions created wallet_id limit before_id d =
     (let newest_first = rev (sort_key (tx_key created) (filter (\<lambda>t. tx_wallet_id t = wallet_id) (transactions d)));
          after = (case before_id of None \<Rightarrow> newest_first
            | Some b \<Rightarrow> (case find_by tx_id b (transactions d) of None \<Rightarrow> newest_first
                | Some anchor \<Rightarrow> filter (\<lambda>t. tx_key created t < tx_key created anchor) newest_first))
      in take limit after)"

definition list_my_transactions_route :: "api_env \<Rightarrow> string \<Rightarrow> string option \<Rightarrow> int \<Rightarrow> chat_io \<Rightarrow> outcome" where
  "list_my_transactions_route E header cursor limit st = with_role [UR_CUSTOMER, UR_COURIER] E header st (\<lambda>a.
     checked (limit_ok limit) st (reading st
       (or_raise (get_by_user (act_id a) (io_db st)) NotFoundError (\<lambda>w.
        and_then (cursor_id cursor) (\<lambda>before.
        let rows = list_transactions (ap_tx_created_at E) (w_id w) (nat limit) before (io_db st)
        in Inr (Transactions_reply
             \<lparr>tg_items = map (\<lambda>t. \<lparr>tn_id = str_uuid (tx_id t), tn_amount = money_str (tx_amount t),
                tn_type = transaction_type_text (tx_type t), tn_status = transaction_status_text (tx_status t),
                tn_balance_after = money_str (tx_balance_after t), tn_created_at = ap_tx_created_at E (tx_id t)\<rparr>) rows,
              tg_next_cursor = next_cursor (\<lambda>t. str_uuid (tx_id t)) rows limit\<rparr>))))))"

section \<open>Routes of the administration\<close>

definition resolution_of :: "string \<Rightarrow> error + dispute_status" where
  "resolution_of t =
     or_raise (parse_dispute_status t) ValidationDomainError (\<lambda>x.
     ensure (x \<noteq> DS_OPEN) ValidationDomainError (Inr x))"

definition split_amount :: "string option \<Rightarrow> error + money option" where
  "split_amount v = (if truthy v then and_then (parse_money (PyStr (the v))) (\<lambda>m. Inr (Some m)) else Inr None)"

definition resolve_dispute_route :: "api_env \<Rightarrow> string \<Rightarrow> uuid \<Rightarrow> resolve_dispute_request \<Rightarrow> chat_io \<Rightarrow> outcome" where
  "resolve_dispute_route E header dispute_id b st = with_role [UR_ADMIN] E header st (\<lambda>a.
     checked (check_resolve_dispute b) st
       (get_db 200 (\<lambda>x _. dispute_reply x) st
         (and_then (resolution_of (rv_outcome b)) (\<lambda>resolution.
          and_then (split_amount (rv_courier_amount b)) (\<lambda>amount.
          resolve_dispute (ap_now E) (ap_settings E) dispute_id (act_id a) resolution (rv_note b) amount (io_db st))))))"

definition approve_withdrawal_route :: "api_env \<Rightarrow> string \<Rightarrow> uuid \<Rightarrow> chat_io \<Rightarrow> outcome" where
  "approve_withdrawal_route E header withdrawal_id st = with_role [UR_ADMIN] E header st (\<lambda>a.
     get_db 200 (\<lambda>w _. withdrawal_reply w) st (approve_withdrawal withdrawal_id (act_id a) (io_db st)))"

definition reject_withdrawal_route :: "api_env \<Rightarrow> string \<Rightarrow> uuid \<Rightarrow> string \<Rightarrow> chat_io \<Rightarrow> outcome" where
  "reject_withdrawal_route E header withdrawal_id reason st = with_role [UR_ADMIN] E header st (\<lambda>a.
     checked (check_reject_withdrawal reason) st
       (get_db 200 (\<lambda>w _. withdrawal_reply w) st (reject_withdrawal withdrawal_id (act_id a) reason (io_db st))))"

definition mark_withdrawal_paid_route :: "api_env \<Rightarrow> string \<Rightarrow> uuid \<Rightarrow> chat_io \<Rightarrow> outcome" where
  "mark_withdrawal_paid_route E header withdrawal_id st = with_role [UR_ADMIN] E header st (\<lambda>a.
     get_db 200 (\<lambda>w _. withdrawal_reply w) st (mark_withdrawal_paid withdrawal_id (act_id a) (io_db st)))"

section \<open>Gateway and development routes\<close>

definition streampay_webhook_route :: "api_env \<Rightarrow> webhook_body \<Rightarrow> string \<Rightarrow> chat_io \<Rightarrow> outcome" where
  "streampay_webhook_route E body signature st =
     (let (res, r) = handle_webhook (ap_now E) (ap_now' E) (ap_verify E) (ap_repr E) (ap_token E) body signature
            (io_db st) (io_redis st)
      in get_db 200 (\<lambda>x _. Ack_reply (outcome_text x)) (st\<lparr>io_redis := r\<rparr>) res)"

definition simulated_payload :: "simulate_payment_request \<Rightarrow> string \<Rightarrow> json" where
  "simulated_payload b amount = JObj
     [(''event_type'', JStr (if sp_status b = ''PAID'' then ''PAYMENT_SUCCEEDED'' else ''PAYMENT_FAILED'')),
      (''data'', JObj [(''payment_link'', JObj [(''id'', JStr (sp_payment_link_id b))]),
        (''payment'', JObj [(''status'', JStr (sp_status b)), (''amount'', JStr amount)])])]"

definition simulate_payment_route :: "api_env \<Rightarrow> simulate_payment_request \<Rightarrow> chat_io \<Rightarrow> outcome" where
  "simulate_payment_route E b st = checked (check_simulate_payment b) st
     (case intent_by_link (sp_payment_link_id b) (io_db st) of None \<Rightarrow> (Inl NotFoundError, st)
      | Some p \<Rightarrow>
          let payload = simulated_payload b (money_str (pi_amount p)); raw_body = ap_dumps E payload
          in streampay_webhook_route E \<lparr>raw_bytes = raw_body, parsed = Some payload\<rparr> (ap_sign E raw_body) st)"

section \<open>Chat routes\<close>

definition parse_cursor :: "api_env \<Rightarrow> string option \<Rightarrow> (time \<times> uuid) option" where
  "parse_cursor E cursor =
     (case cursor of None \<Rightarrow> None
      | Some c \<Rightarrow>
          let ts_raw = takeWhile (\<lambda>x. x \<noteq> CHR ''|'') c
          in if length ts_raw = length c then None
             else case (ap_fromisoformat E ts_raw, parse_uuid (drop (length ts_raw + 1) c)) of
                 (Some ts, Some i) \<Rightarrow> Some (ts, i) | _ \<Rightarrow> None)"

definition list_conversations_route :: "api_env \<Rightarrow> string \<Rightarrow> string option \<Rightarrow> int \<Rightarrow> chat_io \<Rightarrow> outcome" where
  "list_conversations_route E header cursor limit st = with_role [UR_CUSTOMER, UR_COURIER] E header st (\<lambda>a.
     checked (limit_ok limit) st (reading st
       (and_then (list_inbox (ap_settings E) (ae_aead (ap_auth E)) (act_id a) (nat limit) (parse_cursor E cursor) (io_db st))
         (\<lambda>items. Inr (Inbox_reply items (next_cursor
            (\<lambda>i. ap_isoformat E (ib_last_message_timestamp i) @ ''|'' @ ib_conversation_id i) items limit))))))"

definition list_messages_route :: "api_env \<Rightarrow> string \<Rightarrow> uuid \<Rightarrow> string option \<Rightarrow> int \<Rightarrow> chat_io \<Rightarrow> outcome" where
  "list_messages_route E header conversation_id cursor limit st = with_role [UR_CUSTOMER, UR_COURIER] E header st (\<lambda>a.
     checked (limit_ok limit) st (reading st
       (and_then (cursor_id cursor) (\<lambda>before.
        and_then (list_messages (ap_settings E) (ae_aead (ap_auth E)) conversation_id (act_id a) (nat limit) before (io_db st))
          (\<lambda>items. Inr (Messages_reply items (next_cursor cm_id items limit)))))))"

definition send_message_route :: "api_env \<Rightarrow> string \<Rightarrow> uuid \<Rightarrow> string \<Rightarrow> chat_io \<Rightarrow> outcome" where
  "send_message_route E header conversation_id body st = with_role [UR_CUSTOMER, UR_COURIER] E header st (\<lambda>a.
     checked (check_send_message body) st
       (case send_message_endpoint (ap_now E) (ap_settings E) (ae_aead (ap_auth E)) (ae_iv1 (ap_auth E))
           (ae_iv2 (ap_auth E)) (ap_push E) conversation_id (act_id a) body st of
          Inl e \<Rightarrow> (Inl e, st) | Inr (dto, st) \<Rightarrow> (Inr (respond 201 (Message_reply dto)), st)))"

definition mark_read_route :: "api_env \<Rightarrow> string \<Rightarrow> uuid \<Rightarrow> chat_io \<Rightarrow> outcome" where
  "mark_read_route E header conversation_id st = with_role [UR_CUSTOMER, UR_COURIER] E header st (\<lambda>a.
     get_db 204 (\<lambda>_ _. Empty) st
       (and_then (mark_read (ap_now E) conversation_id (act_id a) (io_db st)) (\<lambda>d. Inr ((), d))))"

section \<open>Health routes\<close>

definition health_route :: "chat_io \<Rightarrow> outcome" where
  "health_route st = (Inr (respond 200 (Status_reply ''ok'')), st)"

definition ready_route :: "api_env \<Rightarrow> chat_io \<Rightarrow> outcome" where
  "ready_route E st =
     (let checks = [(''database'', if ap_db_up E then ''ok'' else ''down''), (''redis'', if ap_redis_up E then ''ok'' else ''down'')];
          is_ready = list_all (\<lambda>(_, state). state = ''ok'') checks
      in (Inr (respond (if is_ready then 200 else 503)
            (Health_reply (if is_ready then ''ready'' else ''unavailable'') checks)), st))"

section \<open>The application\<close>

datatype route =
    Health | Ready
  | Send_otp send_otp_request | Verify_otp verify_otp_request | Register register_request | Refresh string | Logout
  | Get_me | Update_me user_update_request
  | Get_my_wallet | Start_topup string | Request_withdrawal withdrawal_request string
  | List_my_transactions "string option" int
  | Create_upload_url upload_url_request | Confirm_upload string
  | Create_order create_order_request | List_orders "string option" "string option" int
  | Available_orders "string option" int | Get_order uuid | Accept_order uuid | Cancel_order uuid "string option"
  | Deliver_order uuid deliver_request | Approve_order uuid | Dispute_order uuid string
  | Create_invoice uuid create_invoice_request | Get_order_invoice uuid | Get_invoice uuid | Pay_invoice uuid
  | Cancel_invoice uuid
  | Validate_promo promo_validate_request
  | Streampay_webhook webhook_body string
  | Rate_order uuid rating_request | User_rating_summary uuid
  | Resolve_dispute uuid resolve_dispute_request | Approve_withdrawal uuid | Reject_withdrawal uuid string
  | Mark_withdrawal_paid uuid
  | List_conversations "string option" int | List_messages uuid "string option" int | Send_message uuid string
  | Mark_read uuid
  | Register_device register_device_request | Unregister_device string
  | Dev_ping | Simulate_payment simulate_payment_request

text \<open>The routers that \<open>create_app\<close> includes; those for development only there.\<close>

fun dispatch :: "api_env \<Rightarrow> string \<Rightarrow> route \<Rightarrow> chat_io \<Rightarrow> outcome" where
  "dispatch E h Health st = health_route st"
| "dispatch E h Ready st = ready_route E st"
| "dispatch E h (Send_otp b) st = send_otp_route E b st"
| "dispatch E h (Verify_otp b) st = verify_otp_route E b st"
| "dispatch E h (Register b) st = register_route E b st"
| "dispatch E h (Refresh t) st = refresh_route E t st"
| "dispatch E h Logout st = logout_route E h st"
| "dispatch E h Get_me st = get_me_route E h st"
| "dispatch E h (Update_me b) st = update_me_route E h b st"
| "dispatch E h Get_my_wallet st = get_my_wallet_route E h st"
| "dispatch E h (Start_topup a) st = start_topup_route E h a st"
| "dispatch E h (Request_withdrawal b k) st = request_withdrawal_route E h b k st"
| "dispatch E h (List_my_transactions c l) st = list_my_transactions_route E h c l st"
| "dispatch E h (Create_upload_url b) st = create_upload_url_route E h b st"
| "dispatch E h (Confirm_upload k) st = confirm_upload_route E h k st"
| "dispatch E h (Create_order b) st = create_order_route E h b st"
| "dispatch E h (List_orders s c l) st = list_orders_route E h s c l st"
| "dispatch E h (Available_orders c l) st = available_orders_route E h c l st"
| "dispatch E h (Get_order i) st = get_order_route E h i st"
| "dispatch E h (Accept_order i) st = accept_order_route E h i st"
| "dispatch E h (Cancel_order i r) st = cancel_order_route E h i r st"
| "dispatch E h (Deliver_order i b) st = deliver_order_route E h i b st"
| "dispatch E h (Approve_order i) st = approve_order_route E h i st"
| "dispatch E h (Dispute_order i r) st = dispute_order_route E h i r st"
| "dispatch E h (Create_invoice i b) st = create_invoice_route E h i b st"
| "dispatch E h (Get_order_invoice i) st = get_order_invoice_route E h i st"
| "dispatch E h (Get_invoice i) st = get_invoice_route E h i st"
| "dispatch E h (Pay_invoice i) st = pay_invoice_route E h i st"
| "dispatch E h (Cancel_invoice i) st = cancel_invoice_route E h i st"
| "dispatch E h (Validate_promo b) st = validate_promo_route E h b st"
| "dispatch E h (Streampay_webhook b sig) st = streampay_webhook_route E b sig st"
| "dispatch E h (Rate_order i b) st = rate_order_route E h i b st"
| "dispatch E h (User_rating_summary i) st = user_rating_summary_route E h i st"
| "dispatch E h (Resolve_dispute i b) st = resolve_dispute_route E h i b st"
| "dispatch E h (Approve_withdrawal i) st = approve_withdrawal_route E h i st"
| "dispatch E h (Reject_withdrawal i r) st = reject_withdrawal_route E h i r st"
| "dispatch E h (Mark_withdrawal_paid i) st = mark_withdrawal_paid_route E h i st"
| "dispatch E h (List_conversations c l) st = list_conversations_route E h c l st"
| "dispatch E h (List_messages i c l) st = list_messages_route E h i c l st"
| "dispatch E h (Send_message i t) st = send_message_route E h i t st"
| "dispatch E h (Mark_read i) st = mark_read_route E h i st"
| "dispatch E h (Register_device b) st = register_device_route E h b st"
| "dispatch E h (Unregister_device t) st = unregister_device_route E h t st"
| "dispatch E h Dev_ping st =
     (if ENVIRONMENT (ap_settings E) = ENV_DEVELOPMENT then (Inr (respond 200 (Status_reply ''dev'')), st)
      else (Inr (respond 404 Empty), st))"
| "dispatch E h (Simulate_payment b) st =
     (if ENVIRONMENT (ap_settings E) = ENV_DEVELOPMENT then simulate_payment_route E b st
      else (Inr (respond 404 Empty), st))"

end
