(* ===== verification/Market.thy ===== *)
theory Market
  imports Solvency Dashboard Browser Api
begin

text \<open>
  The marketplace as a whole: every operation of the services and of the workers as one step
  relation over the database, the states reachable from a solvent one, and what holds in all of
  them.
\<close>

section \<open>Payout requests\<close>

lemma request_withdrawal_solvent:
  assumes "solvent d" and "request_withdrawal_at before s A iv c a iban k d = Inr (x, d')"
  shows "solvent d'"
proof (cases "by_idempotency c k before")
  case (Some y)
  then show ?thesis using assms by (simp add: request_withdrawal_at_def)
next
  case None
  note S = solventD [OF assms(1)]
  define e0 where "e0 = d\<lparr>next_id := next_id d + 1\<rparr>"
  have f: "fresh d = (next_id d, e0)" by (simp add: fresh_def e0_def)
  have sd: "solvent e0" using assms(1) by (simp add: e0_def)
  consider (again) "d' = e0"
    | (new) w enc e where "get_by_user c d = Some w" "hold_funds (w_id w) (quantize_money a) e0 = Inr e"
        "create_withdrawal (next_id d) c (w_id w) (quantize_money a) enc (drop (length iban - 4) iban) k e = Inr (x, d')"
  proof -
    obtain enc and w :: wallet where w: "get_by_user c d = Some w"
      and r: "(case and_then (hold_funds (w_id w) (quantize_money a) e0)
          (create_withdrawal (next_id d) c (w_id w) (quantize_money a) enc (drop (length iban - 4) iban) k) of
        Inr res \<Rightarrow> Inr res
      | Inl e \<Rightarrow> if e = IntegrityError then or_raise (by_idempotency c k e0) IntegrityError (\<lambda>w. Inr (w, e0))
          else Inl e) = Inr (x, d')"
      using assms(2) None by (auto simp: request_withdrawal_at_def f Let_def)
    show thesis
    proof (cases "and_then (hold_funds (w_id w) (quantize_money a) e0)
        (create_withdrawal (next_id d) c (w_id w) (quantize_money a) enc (drop (length iban - 4) iban) k)")
      case (Inl err)
      then show ?thesis using r again by (auto split: if_splits)
    next
      case (Inr res)
      with r have "and_then (hold_funds (w_id w) (quantize_money a) e0)
        (create_withdrawal (next_id d) c (w_id w) (quantize_money a) enc (drop (length iban - 4) iban) k) = Inr (x, d')"
        by simp
      then show ?thesis using new [OF w] by (auto simp del: fun_upd_apply)
    qed
  qed
  then show ?thesis
  proof cases
    case again
    then show ?thesis using sd by simp
  next
    case new
    have m: "moves 0 {} e0 e" by (rule moves_hold [OF solventD(1,13) [OF sd] new(2)])
    have "get_by_user c e0 = Some w" using new(1) by (simp add: get_by_user_def e0_def)
    then have u: "user_wallet (w_id w) e"
      using get_by_user_wallet(1) [OF solventD(2) [OF sd]] m
      by (auto simp: moves_def shifts_def intro: reshaped_user_wallet)
    have d': "d' = e\<lparr>withdrawals := withdrawals e @ [x]\<rparr>" "wd_wallet_id x = w_id w"
      using new(3) by (auto simp: create_withdrawal_def add_withdrawal_def Let_def)
    note se = quiet_solvent [OF m sd]
    show ?thesis unfolding d'(1)
      by (rule withdrawals_solvent [OF se])
         (use solventD(9) [OF se] u d'(2) in \<open>auto simp: withdrawals_ok_def list_all_iff\<close>)
  qed
qed

section \<open>Workers\<close>

lemma attempt_tx_solvent: "(\<And>e. m = Inr e \<Longrightarrow> solvent e) \<Longrightarrow> solvent d \<Longrightarrow> solvent (snd (attempt_tx m d))"
  by (auto simp: attempt_tx_def split: sum.splits)

lemma release_invoice_hold_solvent:
  assumes "solvent d" and "release_invoice_hold i d = Inr e"
  shows "solvent e" "orders e = orders d" "invoices e = invoices d"
proof -
  note S = solventD [OF assms(1)]
  have "solvent e \<and> orders e = orders d \<and> invoices e = invoices d"
  proof (cases "open_intent_for_invoice (inv_id i) d")
    case None
    then show ?thesis using assms by (simp add: release_invoice_hold_def)
  next
    case (Some p)
    obtain f where f: "(if inv_amount_from_wallet i > 0
                  then case get_by_user (pi_user_id p) d of None \<Rightarrow> Inr d
                    | Some w \<Rightarrow> release_hold (w_id w) (inv_amount_from_wallet i) d
                  else Inr d) = Inr f" and e: "mark_expired p f = Inr e"
      using assms(2) Some by (auto simp: release_invoice_hold_def)
    have m: "moves 0 {} d f"
      using f moves_release_hold [OF S(1,13) less_imp_le] moves_refl [OF S(1,13)] by (auto split: if_splits option.splits)
    note M = moves_paper [OF m assms(1)] and sf = quiet_solvent [OF m assms(1)]
    have "p \<in> set (payment_intents f)" using open_intentD(1) [OF Some] M(9) by simp
    then have "solvent e" using e close_intent_solvent [OF sf, of p] by (auto simp: mark_expired_def)
    then show ?thesis using M(7,8) e by (auto simp: mark_expired_def put_intent_def)
  qed
  then show "solvent e" "orders e = orders d" "invoices e = invoices d" by auto
qed

lemma expire_invoice_solvent: "solvent d \<Longrightarrow> solvent (snd (expire_invoice now n d))"
proof -
  assume s: "solvent d"
  have "solvent d'" if i: "get_invoice n d = Some i" "inv_status i = IS_ISSUED"
    and e: "expire_invoice_tx now i d = Inr d'" for i d'
  proof -
    obtain d1 d2 where 1: "release_invoice_hold i d = Inr d1" and 2: "release now (inv_id i) d1 = Inr d2"
      and sole: "sole_active (i\<lparr>inv_status := IS_EXPIRED\<rparr>) d2"
      and 3: "(case get_order (inv_order_id i) (put_invoice (i\<lparr>inv_status := IS_EXPIRED\<rparr>) d2) of None \<Rightarrow>
          Inr (put_invoice (i\<lparr>inv_status := IS_EXPIRED\<rparr>) d2)
        | Some ord \<Rightarrow>
         if o_status ord = OS_WAITING_PAYMENT
         then and_then (assert_transition (o_status ord) OS_ASSIGNED) (\<lambda>_.
              flush_order now (ord\<lparr>o_status := OS_ASSIGNED, o_total_amount := 0\<rparr>)
                (put_invoice (i\<lparr>inv_status := IS_EXPIRED\<rparr>) d2))
         else Inr (put_invoice (i\<lparr>inv_status := IS_EXPIRED\<rparr>) d2)) = Inr d'"
      using e by (auto simp: expire_invoice_tx_def)
    note H = release_invoice_hold_solvent [OF s 1] and R = release_solvent [OF release_invoice_hold_solvent(1) [OF s 1] 2]
    have "get_invoice (inv_id i) d2 = Some i"
      using i(1) invoice_row(2) [OF s i(1)] H(3) promo_frame_tables [OF R(2)] by (simp add: get_invoice_def)
    then have c: "solvent (put_invoice (i\<lparr>inv_status := IS_EXPIRED\<rparr>) d2)"
      by (rule close_invoice_solvent [OF R(1) _ _ _ sole]) (use i(2) in auto)
    show ?thesis
    proof (cases "get_order (inv_order_id i) (put_invoice (i\<lparr>inv_status := IS_EXPIRED\<rparr>) d2)")
      case None
      then show ?thesis using 3 c by simp
    next
      case (Some ord)
      then have "solvent (put_order (ord\<lparr>o_status := OS_ASSIGNED, o_total_amount := 0\<rparr>)
          (put_invoice (i\<lparr>inv_status := IS_EXPIRED\<rparr>) d2))" if "o_status ord = OS_WAITING_PAYMENT"
        by (intro put_order_solvent [OF c]) (use that order_tab.get_key [OF Some] in \<open>auto simp: under_way_def\<close>)
      then show ?thesis using 3 c Some by (auto split: if_splits)
    qed
  qed
  then show ?thesis using s by (auto simp: expire_invoice_def intro: attempt_tx_solvent split: option.splits)
qed

lemma expire_topup_solvent:
  assumes "solvent d"
  shows "solvent (snd (expire_topup_intent n d))"
proof (cases "get_intent n d")
  case None
  then show ?thesis using assms by (simp add: expire_topup_intent_def)
next
  case (Some p)
  have "solvent e" if "mark_expired p d = Inr e" for e
    using that close_intent_solvent [OF assms intent_tab.get_mem [OF Some]] by (auto simp: mark_expired_def)
  then show ?thesis using Some assms by (simp add: expire_topup_intent_def attempt_tx_solvent)
qed

lemma sweep_solvent: "(\<And>k d. solvent d \<Longrightarrow> solvent (snd (f k d))) \<Longrightarrow> solvent d \<Longrightarrow> solvent (snd (sweep f ks d))"
  by (induction ks arbitrary: d) (simp_all add: Let_def split_def)

lemma expire_stale_solvent: "solvent d \<Longrightarrow> solvent (snd (expire_stale now limit d))"
  by (simp add: expire_stale_def Let_def split_def sweep_solvent expire_invoice_solvent expire_topup_solvent)

lemma auto_approve_delivered_solvent:
  "solvent d \<Longrightarrow> fees_ok s \<Longrightarrow> solvent (snd (auto_approve_delivered now s limit d))"
  by (auto simp: auto_approve_delivered_def auto_approve_one_def intro!: sweep_solvent
      dest: auto_approve_solvent split: sum.splits)

lemma send_receipt_solvent:
  assumes "solvent (ob_db ob)"
  shows "solvent (ob_db (snd (send_receipt now s prov n ob)))"
proof -
  have "solvent e" if i: "get_invoice n (ob_db ob) = Some i" and p: "inv_status i = IS_PAID"
    and m: "mark_receipt_sent now i (ob_db ob) = Inr e" for i e
  proof -
    let ?i = "i\<lparr>inv_receipt_email_sent_at := Some now\<rparr>"
    note I = invoice_row [OF assms i]
    have e: "e = put_invoice ?i (ob_db ob)" "sole_active ?i (ob_db ob)" using m by (auto simp: mark_receipt_sent_def)
    show ?thesis unfolding e(1)
      by (rule put_invoice_solvent [OF assms _ _ e(2), where old = i]) (use i p I in \<open>auto simp: invoice_money_def\<close>)
  qed
  then have "solvent (snd (attempt_tx (mark_receipt_sent now i (ob_db ob)) (ob_db ob)))"
    if "get_invoice n (ob_db ob) = Some i" "inv_status i = IS_PAID" for i
    using that assms attempt_tx_solvent by blast
  then show ?thesis
    using assms by (auto simp: send_receipt_def Let_def split: option.splits prod.splits if_splits)
qed

lemma purge_solvent: "solvent d \<Longrightarrow> solvent (snd (purge_refresh_tokens now s d))"
  by (simp add: purge_refresh_tokens_def Let_def)

section \<open>Accounts and promo codes\<close>

lemma add_wallet_ledger:
  assumes "ledger_ok d" and "chk_wallet (new_wallet (next_id d) u t)"
  shows "ledger_ok (add_wallet (new_wallet (next_id d) u t) (d\<lparr>next_id := next_id d + 1\<rparr>))"
proof -
  let ?d = "add_wallet (new_wallet (next_id d) u t) (d\<lparr>next_id := next_id d + 1\<rparr>)"
  have sel: "wallets ?d = wallets d @ [new_wallet (next_id d) u t]" "transactions ?d = transactions d"
    "next_id ?d = next_id d + 1"
    by (simp_all add: add_wallet_def)
  have old: "w_id w < next_id d" if "w \<in> set (wallets d)" for w using ledger_okD(7) [OF assms(1) that] .
  then have "tx_wallet_id x \<noteq> next_id d" if "x \<in> set (transactions d)" for x
    using ledger_okD(9) [OF assms(1) that] by fastforce
  then have zero: "settled_balance (next_id d) d = 0" by (simp add: settled_balance_def filter_empty_conv)
  have sums: "settled_balance i ?d = settled_balance i d" "group_sum tx_correlation_id ?d c = group_sum tx_correlation_id d c" for i c
    by (simp_all add: settled_balance_def group_sum_def settled_def add_wallet_def)
  have "next_id d \<notin> w_id ` set (wallets d)" using old by fastforce
  then show ?thesis
    using assms zero unfolding ledger_ok_def sums sel
    by (auto simp: list_all_iff new_wallet_def less_SucI)
qed

lemma insert_wallet_solvent:
  assumes "solvent d" and "insert_wallet u t d = Inr d'"
  shows "solvent d'"
proof -
  note S = solventD [OF assms(1)]
  have d': "d' = add_wallet (new_wallet (next_id d) (Some u) t) (d\<lparr>next_id := next_id d + 1\<rparr>)"
    and chk: "chk_wallet (new_wallet (next_id d) (Some u) t)"
    using assms(2) by (auto simp: insert_wallet_def fresh_def Let_def)
  have sel: "wallets d' = wallets d @ [new_wallet (next_id d) (Some u) t]" "next_id d' = next_id d + 1"
    "orders d' = orders d" "invoices d' = invoices d" "payment_intents d' = payment_intents d"
    "transactions d' = transactions d" "promos d' = promos d" "withdrawals d' = withdrawals d"
    "promo_redemptions d' = promo_redemptions d"
    by (simp_all add: d' add_wallet_def)
  have "off_promo d d'" by (simp add: off_promo_def sel)
  then have "books d'"
    using add_wallet_ledger [OF S(2) chk, folded d'] S(1) off_promo_ok [of d d'] by (auto simp: books_def)
  moreover have get: "get_wallet i d' = Some w" if "get_wallet i d = Some w" for i w
    using that by (simp add: get_wallet_def sel find_by_append)
  then have "withdrawals_ok d'"
    using S(9) unfolding withdrawals_ok_def list_all_iff user_wallet_iff sel by metis
  moreover have "covered d'" using S(13) by (simp add: covered_def sel new_wallet_def)
  moreover have "promos_money d'" "orders_ok d'" "invoices_ok d'" "intents_ok d'"
    using paper_cong [of d' d] S sel by auto
  moreover have "keys_ok d'"
    using S(7) by (simp add: keys_ok_def idempotency_key_exists_def get_order_def get_invoice_def sel)
  moreover have "escrow_ok d'"
  proof -
    obtain e where e: "get_system WT_SYSTEM_ESCROW d = Inr e" "balance_of (w_id e) d = owed d"
      using S(8) by (auto simp: escrow_ok_def)
    have "List.find P (xs @ ys) = Some y" if "List.find P xs = Some y" for P xs ys and y :: wallet
      using that by (induction xs) auto
    then have "get_system WT_SYSTEM_ESCROW d' = Inr e" using e(1) by (auto simp: get_system_def sel)
    moreover have "e \<in> set (wallets d)" using e(1) by (auto simp: get_system_def find_Some_iff)
    then have "get_wallet (w_id e) d = Some e"
      using find_by_mem [OF ledger_okD(1) [OF S(2)]] by (simp add: get_wallet_def)
    ultimately show ?thesis
      using e(2) get owed_cong [OF sel(4,3)] by (auto simp: escrow_ok_def balance_of_def)
  qed
  ultimately show ?thesis by (simp add: solvent_def)
qed

lemma insert_user_solvent: "solvent d \<Longrightarrow> insert_user p n m b r st d = Inr (u, d') \<Longrightarrow> solvent d'"
  by (auto simp: insert_user_def add_user_def fresh_def Let_def)

lemma issue_tokens_solvent: "solvent d \<Longrightarrow> issue_tokens E now u r d = Inr (t, d') \<Longrightarrow> solvent d'"
  by (auto simp: issue_tokens_def new_refresh_def insert_refresh_token_def add_refresh_token_def fresh_def Let_def)

lemma create_customer_solvent: "solvent d \<Longrightarrow> create_customer p n m b d = Inr (u, d') \<Longrightarrow> solvent d'"
  by (auto simp: create_customer_def intro: insert_user_solvent insert_wallet_solvent)

lemma wallet_and_profile_solvent:
  assumes "solvent d" and "add_courier_wallet_and_profile u c n p f d = Inr d'"
  shows "solvent d'"
proof -
  obtain e x where "insert_wallet u WT_COURIER d = Inr e" and e: "insert_profile u c None n p f e = Inr (x, d')"
    using assms(2) by (auto simp: add_courier_wallet_and_profile_def)
  then have "solvent e" using insert_wallet_solvent [OF assms(1)] by blast
  then show ?thesis using e by (auto simp: insert_profile_def add_courier_profile_def Let_def)
qed

lemma register_solvent:
  assumes "solvent d" and "register E now token g d = Inr (t, d')"
  shows "solvent d'"
proof (cases "rg_role g")
  case UR_CUSTOMER
  then obtain phone u e r where "create_customer phone (rg_full_name g) (rg_email g) (rg_dob g) d = Inr (u, e)"
    "issue_tokens E now (u_id u) r e = Inr (t, d')"
    using assms(2) by (auto simp: register_def)
  then show ?thesis using create_customer_solvent [OF assms(1)] issue_tokens_solvent by blast
next
  case UR_COURIER
  then obtain phone where "register_courier E now phone g d = Inr (t, d')"
    using assms by (auto simp: register_def)
  then obtain u e n x fp f r where c: "create_courier_user phone (rg_full_name g) (rg_email g) (rg_dob g) d = Inr (u, e)"
    and w: "add_courier_wallet_and_profile (u_id u) (the (rg_city g)) n x fp e = Inr f"
    and i: "issue_tokens E now (u_id u) r f = Inr (t, d')"
    by (auto simp: register_courier_def Let_def)
  show ?thesis
    by (rule issue_tokens_solvent [OF wallet_and_profile_solvent [OF insert_user_solvent [OF assms(1)] w] i])
       (use c in \<open>simp add: create_courier_user_def\<close>)
next
  case UR_ADMIN
  then show ?thesis using assms by (auto simp: register_def)
qed

lemma login_solvent: "solvent d \<Longrightarrow> login_or_register E now p d = Inr (v, d') \<Longrightarrow> solvent d'"
  by (auto simp: login_or_register_def intro: issue_tokens_solvent split: option.splits)

lemma refresh_solvent: "solvent d \<Longrightarrow> solvent (snd (refresh E now raw d))"
  by (auto simp: refresh_def revoke_family_def revoke_where_def mark_refresh_used_def put_refresh_token_def
      new_refresh_def insert_refresh_token_def add_refresh_token_def fresh_def Let_def split: option.splits sum.splits)

lemma create_promo_solvent:
  assumes "solvent d" and "create_promo_row n a d = Inr (p, d')"
    and "money_opt (np_fixed_amount n)" and "money_opt (np_max_discount_amount n)"
  shows "solvent d'"
proof -
  note S = solventD [OF assms(1)]
  have b: "promo_inv d" "user_caps d" using S(1) by (auto simp: books_def)
  note K = create_promo_keeps [OF assms(2) b(1)]
  have "books d'" using K b promo_frame_ledger [OF K(3) S(2)] by (simp add: books_def)
  moreover have "promos d' = promos d @ [p]" "pr_fixed_amount p = np_fixed_amount n"
    "pr_max_discount_amount p = np_max_discount_amount n"
    using assms(2) by (auto simp: create_promo_row_def add_promo_def fresh_def Let_def)
  then have "promos_money d'" using S(3) assms(3,4) by (simp add: promos_money_def)
  ultimately show ?thesis using promo_solvent [OF K(3) _ _ _ assms(1)] K(4) by simp
qed

lemma set_active_solvent:
  assumes "solvent d" and "set_active p b d = Inr d'" and "get_promo (pr_id p) d = Some p"
  shows "solvent d'"
proof -
  note S = solventD [OF assms(1)]
  have b: "promo_inv d" "user_caps d" using S(1) by (auto simp: books_def)
  note K = set_active_keeps [OF assms(2) b(1) assms(3)]
  have "books d'" using K b promo_frame_ledger [OF K(3) S(2)] by (simp add: books_def)
  moreover have "promos_money d'"
    by (rule flush_promo_money [OF assms(2) [unfolded set_active_def] S(3)])
       (use promo_row_money [OF S(3) assms(3)] in auto)
  ultimately show ?thesis using promo_solvent [OF K(3) _ _ _ assms(1)] K(4) by simp
qed

section \<open>Chat and devices\<close>

lemma add_chat_message_solvent: "solvent d \<Longrightarrow> solvent (snd (add_chat_message now c u x y b d))"
  by (simp add: add_chat_message_def add_message_def put_conversation_def fresh_def Let_def)

lemma send_message_solvent:
  assumes "solvent d" and "send_message now s A iv iv' c u body d = Inr (m, d')"
  shows "solvent d'"
proof -
  obtain conv x y where "d' = snd (add_chat_message now conv u x y (u = cv_customer_id conv) d)"
    using assms(2) by (auto simp: send_message_def Let_def case_prod_unfold)
  then show ?thesis using add_chat_message_solvent [OF assms(1)] by simp
qed

lemma mark_read_solvent: "solvent d \<Longrightarrow> mark_read now c u d = Inr d' \<Longrightarrow> solvent d'"
  by (auto simp: mark_read_def mark_read_rows_def update_messages_def put_conversation_def Let_def)

lemma device_solvent:
  "solvent d \<Longrightarrow> solvent (register_device now u t os d)" "solvent d \<Longrightarrow> solvent (remove_device u t d)"
  by (simp_all add: register_device_def remove_device_def fresh_def split: option.splits)

section \<open>Administration\<close>

lemma find_by_filter: "k \<noteq> n \<Longrightarrow> find_by key k (filter (\<lambda>x. key x \<noteq> n) xs) = find_by key k xs"
  by (induction xs) (auto simp: find_by_Cons)

lemma drop_order_solvent:
  assumes "solvent d" and ord: "get_order n d = Some ord" "o_status ord = OS_NEW"
    and free: "\<And>i. i \<in> set (invoices d) \<Longrightarrow> inv_order_id i \<noteq> n"
  shows "solvent (d\<lparr>orders := filter (\<lambda>x. o_id x \<noteq> n) (orders d)\<rparr>)"
proof -
  let ?d = "d\<lparr>orders := filter (\<lambda>x. o_id x \<noteq> n) (orders d)\<rparr>"
  note S = solventD [OF assms(1)]
  have same: "x = ord" if "x \<in> set (orders d)" "o_id x = n" for x
    using find_by_mem [OF S(10) that(1)] ord(1) that(2) by (simp add: get_order_def)
  have "orders_ok ?d"
    using S(4) free by (fastforce simp: orders_ok_def past_new_def list_all_iff list_ex_iff distinct_map_filter)
  moreover have "filter (\<lambda>x. under_way (o_status x)) (orders ?d) = filter (\<lambda>x. under_way (o_status x)) (orders d)"
    using same ord(2) by (auto simp: under_way_def intro!: filter_cong)
  then have "owed ?d = owed d" unfolding owed_def by (simp add: paid_sum_def)
  then have "escrow_ok ?d" using S(8) by (simp add: escrow_ok_def get_system_def balance_of_def get_wallet_def)
  moreover have "get_order m ?d = Some x" if "get_order m d = Some x" "o_status x \<noteq> OS_NEW" for m x
    using that ord find_by_filter [of m n o_id "orders d"] by (cases "m = n") (auto simp: get_order_def)
  then have "keys_ok ?d"
    using S(7) unfolding keys_ok_def idempotency_key_exists_def get_invoice_def by simp (metis order_status.distinct)
  moreover have "intent_ok p d \<Longrightarrow> intent_ok p ?d" for p by (rule intent_ok_cong) simp_all
  then have "intents_ok ?d" using S(6) by (auto simp: intents_ok_def list_all_iff)
  moreover have "invoices_ok ?d" "withdrawals_ok ?d" "promos_money ?d" "books ?d" "covered ?d"
    using S by (simp_all add: invoices_ok_def sole_active_def covered_def withdrawals_ok_def user_wallet_def get_wallet_def
        promos_money_def)
  ultimately show ?thesis by (simp add: solvent_def)
qed

lemma delete_order_solvent:
  assumes "solvent d" and "delete_order a n d = Inr d'"
  shows "solvent d'"
proof -
  obtain ord e where ord: "get_order n d = Some ord" "o_status ord = OS_NEW"
    and del: "delete_order_row ord d = Inr e" "d' = record_audit (Some a) ''ORDER_DELETE'' ''orders'' (Some n) e"
    using assms(2) by (auto simp: delete_order_def)
  note S = solventD [OF assms(1)]
  have id: "o_id ord = n" by (rule order_tab.get_key [OF ord(1)])
  have free: "inv_order_id i \<noteq> n" if "i \<in> set (invoices d)" for i
  proof
    assume i: "inv_order_id i = n"
    have "past_new i d" using S(4) that by (auto simp: orders_ok_def list_all_iff)
    then obtain x where x: "x \<in> set (orders d)" "o_id x = n" "o_status x \<noteq> OS_NEW"
      using i by (auto simp: past_new_def list_ex_iff)
    then show False using find_by_mem [OF S(10) x(1)] ord by (simp add: get_order_def)
  qed
  then have none: "{i \<in> set (invoices d). inv_order_id i = n} = {}" "filter (\<lambda>i. inv_order_id i \<noteq> n) (invoices d) = invoices d"
    by (auto simp: filter_id_conv)
  have "aside (d\<lparr>orders := filter (\<lambda>x. o_id x \<noteq> n) (orders d)\<rparr>) e"
    using del(1) id none by (auto simp: delete_order_row_def Let_def aside_def off_books_iff)
  then have "solvent e" by (rule aside_solvent) (rule drop_order_solvent [OF assms(1) ord free])
  then show ?thesis by (simp add: del(2))
qed

lemma admin_create_order_solvent:
  assumes "solvent d" and "admin_create_order now a c n note d = Inr (i, d')"
  shows "solvent d'"
proof -
  obtain ord e where "create_order_row now c n note d = Inr (ord, e)"
    and d': "d' = record_audit (Some a) ''ORDER_CREATE'' ''orders'' (Some (o_id ord)) e"
    using assms(2) by (auto simp: admin_create_order_def)
  then have "solvent e"
    using add_order_solvent [OF assms(1)] by (auto simp: create_order_row_def fresh_def Let_def under_way_def)
  then show ?thesis by (simp add: d')
qed

lemma update_order_details_solvent:
  assumes "solvent d" and "update_order_details now a n ds city day note d = Inr d'"
  shows "solvent d'"
proof -
  obtain ord where ord: "get_order n d = Some ord"
    and d': "d' = record_audit (Some a) ''ORDER_DETAILS_UPDATE'' ''orders'' (Some n)
      (put_order (ord\<lparr>o_description := ds, o_delivery_city := city, o_delivery_date := day,
         o_delivery_address_note := note\<rparr>) d)"
    using assms(2) by (auto simp: update_order_details_def update_admin_details_def flush_order_def)
  have "solvent (put_order (ord\<lparr>o_description := ds, o_delivery_city := city, o_delivery_date := day,
      o_delivery_address_note := note\<rparr>) d)"
    by (rule put_order_solvent [OF assms(1)]) (use ord order_tab.get_key [OF ord] in auto)
  then show ?thesis by (simp add: d')
qed

lemma flush_user_solvent: "solvent d \<Longrightarrow> flush_user u d = Inr d' \<Longrightarrow> solvent d'"
  by (auto simp: flush_user_def put_user_def)

lemma verify_courier_solvent:
  assumes "solvent d" and "verify_courier now a c b d = Inr (p, d')"
  shows "solvent d'"
proof -
  obtain q e act where q: "(case get_user c (put_courier_profile q d) of
      Some u \<Rightarrow> if b \<and> u_status u = US_PENDING_VERIFICATION then set_status u US_ACTIVE (put_courier_profile q d)
        else Inr (put_courier_profile q d) | None \<Rightarrow> Inr (put_courier_profile q d)) = Inr e"
    and d': "d' = record_audit (Some a) act ''courier_profiles'' (Some c) e"
    using assms(2) by (auto simp: verify_courier_def set_verified_def Let_def)
  have "solvent (put_courier_profile q d)" using assms(1) by (simp add: put_courier_profile_def)
  then have "solvent e" using q by (auto simp: set_status_def intro: flush_user_solvent split: option.splits if_splits)
  then show ?thesis by (simp add: d')
qed

lemma moderation_solvent:
  "solvent d \<Longrightarrow> update_courier_profile a c city bio d = Inr d' \<Longrightarrow> solvent d'"
  "solvent d \<Longrightarrow> create_courier_profile s A h iv a u city bio doc kind d = Inr (q, d') \<Longrightarrow> solvent d'"
  "solvent d \<Longrightarrow> delete_courier_profile a c d = Inr d' \<Longrightarrow> solvent d'"
  by (auto simp: put_courier_profile_def update_courier_profile_def
      update_profile_row_def create_courier_profile_def insert_profile_def add_courier_profile_def
      delete_courier_profile_def delete_profile_row_def Let_def)

lemma revoke_all_solvent [simp]: "solvent (revoke_all_for_user u now d) = solvent d"
  by (simp add: revoke_all_for_user_def revoke_where_def)

lemma account_solvent:
  "solvent d \<Longrightarrow> set_user_banned now s a u b d r = (Inr d', r') \<Longrightarrow> solvent d'"
  "solvent d \<Longrightarrow> delete_user now s a u d r = (Inr d', r') \<Longrightarrow> solvent d'"
  "solvent d \<Longrightarrow> update_user_profile a u n m p d = Inr d' \<Longrightarrow> solvent d'"
  "solvent d \<Longrightarrow> create_user a ph n m ro d = Inr (v, d') \<Longrightarrow> solvent d'"
  by (auto simp: set_user_banned_def set_status_def delete_user_def soft_delete_def update_user_profile_def
      update_user_row_def create_user_def create_admin_user_def intro: flush_user_solvent insert_user_solvent
      split: sum.splits if_splits)

lemma update_me_solvent: "solvent d \<Longrightarrow> update_me u b d = Inr (v, d') \<Longrightarrow> solvent d'"
  by (auto simp: update_me_def Let_def intro: flush_user_solvent)

lemma reveal_solvent:
  "solvent d \<Longrightarrow> reveal_identity s A a c d = Inr (v, d') \<Longrightarrow> solvent d'"
  "solvent d \<Longrightarrow> reveal_iban s A a w d = Inr (t, d') \<Longrightarrow> solvent d'"
  by (auto simp: reveal_identity_def reveal_iban_def)

lemma ensure_admin_solvent: "solvent d \<Longrightarrow> ensure_dashboard_admin f g n d = (u, d') \<Longrightarrow> solvent d'"
  by (auto simp: ensure_dashboard_admin_def add_user_def Let_def split: if_splits)

lemma session_solvent:
  "solvent d \<Longrightarrow> complete_login W raw n p d r = (Inr (lg, d'), r') \<Longrightarrow> solvent d'"
  "solvent d \<Longrightarrow> load_session W raw d = Inr (x, d') \<Longrightarrow> solvent d'"
  "solvent d \<Longrightarrow> solvent (admin_logout W raw d)"
proof -
  show "solvent d \<Longrightarrow> complete_login W raw n p d r = (Inr (lg, d'), r') \<Longrightarrow> solvent d'"
    by (elim complete_loginE)
       (auto simp: create_session_def add_admin_session_def fresh_def Let_def dest: ensure_admin_solvent)
qed (auto simp: load_session_def touch_def admin_logout_def revoke_def put_admin_session_def Let_def split: option.splits)

section \<open>The marketplace\<close>

text \<open>One step of the running system under the settings \<open>s\<close>: an operation of a service that
  committed, or a run of a worker.  What an operation takes from outside (the clock, the object
  store, the gateway, the cipher, the tokens) is arbitrary.  An operation that fails is rolled
  back and is no step.\<close>

inductive market_step :: "settings \<Rightarrow> db \<Rightarrow> db \<Rightarrow> bool" for s where
  ms_register: "register E now token g d = Inr (t, d') \<Longrightarrow> market_step s d d'"
| ms_login: "login_or_register E now phone d = Inr (v, d') \<Longrightarrow> market_step s d d'"
| ms_refresh: "market_step s d (snd (refresh E now raw d))"
| ms_create_order: "create_order now s S c n d = Inr (ord, d') \<Longrightarrow> market_step s d d'"
| ms_accept_order: "assign_locked now s A iv oid c d = Inr (ord, d') \<Longrightarrow> market_step s d d'"
| ms_cancel_order: "cancel_order now oid a r d = Inr (ord, d') \<Longrightarrow> market_step s d d'"
| ms_create_invoice: "create_invoice now s oid c ni d = Inr (i, d') \<Longrightarrow> market_step s d d'"
| ms_cancel_invoice: "cancel_invoice now iid c d = Inr (i, d') \<Longrightarrow> market_step s d d'"
| ms_topup: "create_topup now s G u a d = Inr (tr, d') \<Longrightarrow> market_step s d d'"
| ms_pay_invoice: "pay_invoice now s G iid u d = Inr (pr, d') \<Longrightarrow> market_step s d d'"
| ms_webhook: "settle_locked now ev d = Inr (out, d') \<Longrightarrow> market_step s d d'"
| ms_deliver: "submit_delivery now s S dst oid c inp d = Inr (ord, d') \<Longrightarrow> market_step s d d'"
| ms_approve: "approve_order now s oid c d = Inr (ord, d') \<Longrightarrow> market_step s d d'"
| ms_raise_dispute: "raise_dispute now oid a r d = Inr (x, d') \<Longrightarrow> market_step s d d'"
| ms_resolve_dispute: "resolve_dispute now s did a outcome txt amt d = Inr (x, d') \<Longrightarrow> market_step s d d'"
| ms_rate: "rate oid u sc cm d = Inr (ra, d') \<Longrightarrow> market_step s d d'"
| ms_request_withdrawal: "request_withdrawal_at before s A iv c a iban k d = Inr (w, d') \<Longrightarrow> market_step s d d'"
| ms_approve_withdrawal: "approve_withdrawal wid a d = Inr (w, d') \<Longrightarrow> market_step s d d'"
| ms_reject_withdrawal: "reject_withdrawal wid a r d = Inr (w, d') \<Longrightarrow> market_step s d d'"
| ms_withdrawal_paid: "mark_withdrawal_paid wid a d = Inr (w, d') \<Longrightarrow> market_step s d d'"
| ms_create_promo: "create_promo_row n a d = Inr (p, d') \<Longrightarrow> money_opt (np_fixed_amount n) \<Longrightarrow>
    money_opt (np_max_discount_amount n) \<Longrightarrow> market_step s d d'"
| ms_set_active: "get_promo (pr_id p) d = Some p \<Longrightarrow> set_active p b d = Inr d' \<Longrightarrow> market_step s d d'"
| ms_expire: "market_step s d (snd (expire_stale now limit d))"
| ms_auto_approve: "market_step s d (snd (auto_approve_delivered now s limit d))"
| ms_receipt: "market_step s (ob_db ob) (ob_db (snd (send_receipt now s prov iid ob)))"
| ms_purge: "market_step s d (snd (purge_refresh_tokens now s d))"
| ms_send_message: "send_message now s A iv iv' cid u body d = Inr (m, d') \<Longrightarrow> market_step s d d'"
| ms_mark_read: "mark_read now cid u d = Inr d' \<Longrightarrow> market_step s d d'"
| ms_register_device: "market_step s d (register_device now u token os d)"
| ms_remove_device: "market_step s d (remove_device u token d)"
| ms_verify_courier: "verify_courier now a u b d = Inr (cp, d') \<Longrightarrow> market_step s d d'"
| ms_edit_courier: "update_courier_profile a u city bio d = Inr d' \<Longrightarrow> market_step s d d'"
| ms_new_courier: "create_courier_profile s A h iv a u city bio doc kind d = Inr (cp, d') \<Longrightarrow> market_step s d d'"
| ms_delete_courier: "delete_courier_profile a u d = Inr d' \<Longrightarrow> market_step s d d'"
| ms_reveal_identity: "reveal_identity s A a u d = Inr (idn, d') \<Longrightarrow> market_step s d d'"
| ms_reveal_iban: "reveal_iban s A a wd d = Inr (iban, d') \<Longrightarrow> market_step s d d'"
| ms_ban: "set_user_banned now s a u b d rs = (Inr d', rs') \<Longrightarrow> market_step s d d'"
| ms_delete_user: "delete_user now s a u d rs = (Inr d', rs') \<Longrightarrow> market_step s d d'"
| ms_edit_user: "update_user_profile a u name mail ph d = Inr d' \<Longrightarrow> market_step s d d'"
| ms_new_user: "create_user a phone name mail role d = Inr (usr, d') \<Longrightarrow> market_step s d d'"
| ms_admin_order: "admin_create_order now a u n adr d = Inr (oid, d') \<Longrightarrow> market_step s d d'"
| ms_edit_order: "update_order_details now a oid ds city day adr d = Inr d' \<Longrightarrow> market_step s d d'"
| ms_delete_order: "delete_order a oid d = Inr d' \<Longrightarrow> market_step s d d'"
| ms_update_me: "update_me u b d = Inr (usr, d') \<Longrightarrow> market_step s d d'"
| ms_admin_login: "complete_login W raw name pw d rs = (Inr (lg, d'), rs') \<Longrightarrow> market_step s d d'"
| ms_admin_request: "load_session W raw d = Inr (row, d') \<Longrightarrow> market_step s d d'"
| ms_admin_logout: "market_step s d (admin_logout W raw d)"

lemmas market_solvent =
  register_solvent login_solvent refresh_solvent create_order_solvent assign_locked_solvent cancel_order_solvent
  create_invoice_solvent cancel_invoice_solvent create_topup_solvent pay_invoice_solvent settle_locked_solvent
  submit_delivery_solvent approve_order_solvent raise_dispute_solvent resolve_dispute_solvent rate_solvent
  request_withdrawal_solvent approve_withdrawal_solvent reject_withdrawal_solvent mark_withdrawal_paid_solvent
  create_promo_solvent set_active_solvent expire_stale_solvent auto_approve_delivered_solvent send_receipt_solvent
  purge_solvent send_message_solvent mark_read_solvent device_solvent verify_courier_solvent moderation_solvent
  reveal_solvent account_solvent admin_create_order_solvent update_order_details_solvent delete_order_solvent
  update_me_solvent session_solvent

lemma market_step_solvent: "market_step s d d' \<Longrightarrow> fees_ok s \<Longrightarrow> solvent d \<Longrightarrow> solvent d'"
  by (induction rule: market_step.induct) (rule market_solvent; assumption)+

lemma market_reachable_solvent: "(market_step s)\<^sup>*\<^sup>* d d' \<Longrightarrow> fees_ok s \<Longrightarrow> solvent d \<Longrightarrow> solvent d'"
  by (induction rule: rtranclp_induct) (auto intro: market_step_solvent)

lemma seeded_solvent: "solvent seeded_db"
proof -
  have "ledger_ok seeded_db \<and> promo_inv seeded_db \<and> user_caps seeded_db" by code_simp
  moreover have "promos_money seeded_db \<and> orders_ok seeded_db \<and> invoices_ok seeded_db \<and> intents_ok seeded_db \<and>
      withdrawals_ok seeded_db \<and> covered seeded_db" by code_simp
  moreover have "keys_ok seeded_db" by (simp add: keys_ok_def idempotency_key_exists_def seeded_db_def empty_db_def)
  moreover have "escrow_ok seeded_db"
    by (simp add: escrow_ok_def get_system_def seeded_db_def empty_db_def new_wallet_def balance_of_def get_wallet_def
        find_by_Cons owed_def)
  ultimately show ?thesis by (simp add: solvent_def books_def)
qed

section \<open>Properties\<close>

lemma paid_sum_nonneg: "invoices_ok d \<Longrightarrow> 0 \<le> paid_sum n d"
  unfolding paid_sum_def by (rule sum_list_nonneg) (auto simp: invoices_ok_def invoice_money_def list_all_iff)

lemma paid_sum_le_owed:
  assumes "invoices_ok d" and "ord \<in> set (orders d)" and "under_way (o_status ord)"
  shows "paid_sum (o_id ord) d \<le> owed d"
  unfolding owed_def
  by (rule member_le_sum_list) (use assms paid_sum_nonneg in auto)

lemma solvent_wallets:
  assumes "solvent d" and "w \<in> set (wallets d)" and "w_user_id w \<noteq> None"
  shows "0 \<le> w_held_balance w \<and> w_held_balance w \<le> w_balance w"
proof -
  have "chk_wallet w" using ledger_okD(5) [OF solventD(2) [OF assms(1)] assms(2)] .
  then have "0 \<le> w_held_balance w" using assms(3) by (auto simp: chk_wallet_def is_user_wallet_type_def)
  moreover have "w_held_balance w \<le> w_balance w"
    using solventD(13) [OF assms(1)] assms(2,3) by (auto simp: covered_def list_all_iff)
  ultimately show ?thesis ..
qed

lemma escrow_wallet:
  assumes "solvent d"
  obtains e where "get_system WT_SYSTEM_ESCROW d = Inr e" and "w_balance e = owed d"
proof -
  obtain e where e: "get_system WT_SYSTEM_ESCROW d = Inr e" "balance_of (w_id e) d = owed d"
    using solventD(8) [OF assms] by (auto simp: escrow_ok_def)
  then have "e \<in> set (wallets d)" by (auto simp: get_system_def find_Some_iff)
  then have "get_wallet (w_id e) d = Some e"
    using find_by_mem [OF ledger_okD(1) [OF solventD(2) [OF assms]]] by (simp add: get_wallet_def)
  then show thesis using e by (intro that [of e]) (simp_all add: balance_of_def)
qed

text \<open>C1: The escrow is solvent.  Start from the seeded database and run any sequence of operations of
  customers, couriers, administrators, the payment gateway and the workers, under rates
  that pass the start-up check.  Then the escrow wallet holds exactly what was paid for the orders
  that are under way, delivered or in dispute, so it can settle every one of them; the nightly
  reconciliation finds no drift; no user's wallet is negative or has more on hold than it
  holds; no promo code is used beyond its cap; and no order that has been invoiced is new.\<close>

theorem escrow_solvency:
  assumes "fees_ok s" and "(market_step s)\<^sup>*\<^sup>* seeded_db d"
  shows "(\<exists>e. get_system WT_SYSTEM_ESCROW d = Inr e \<and> w_balance e = owed d \<and>
      (\<forall>ord \<in> set (orders d). under_way (o_status ord) \<longrightarrow> paid_sum (o_id ord) d \<le> w_balance e)) \<and>
    report_ok (reconcile d) \<and>
    (\<forall>w \<in> set (wallets d). w_user_id w \<noteq> None \<longrightarrow> 0 \<le> w_held_balance w \<and> w_held_balance w \<le> w_balance w) \<and>
    (\<forall>p \<in> set (promos d). \<forall>m. pr_max_total_usages p = Some m \<longrightarrow> pr_used_count p \<le> m) \<and>
    (\<forall>i \<in> set (invoices d). \<exists>ord \<in> set (orders d). o_id ord = inv_order_id i \<and> o_status ord \<noteq> OS_NEW)"
proof (intro conjI)
  have ok: "solvent d" by (rule market_reachable_solvent [OF assms(2,1) seeded_solvent])
  note S = solventD [OF ok]
  obtain e where e: "get_system WT_SYSTEM_ESCROW d = Inr e" "w_balance e = owed d" by (rule escrow_wallet [OF ok])
  then show "\<exists>e. get_system WT_SYSTEM_ESCROW d = Inr e \<and> w_balance e = owed d \<and>
      (\<forall>ord \<in> set (orders d). under_way (o_status ord) \<longrightarrow> paid_sum (o_id ord) d \<le> w_balance e)"
    using paid_sum_le_owed [OF S(5)] by auto
  show "report_ok (reconcile d)" by (simp add: report_ok_def ledger_ok_reconciles [OF S(2)])
  show "\<forall>w \<in> set (wallets d). w_user_id w \<noteq> None \<longrightarrow> 0 \<le> w_held_balance w \<and> w_held_balance w \<le> w_balance w"
    using solvent_wallets [OF ok] by blast
  show "\<forall>p \<in> set (promos d). \<forall>m. pr_max_total_usages p = Some m \<longrightarrow> pr_used_count p \<le> m"
    using S(1) by (auto simp: books_def promo_inv_def chk_promo_def list_all_iff)
  show "\<forall>i \<in> set (invoices d). \<exists>ord \<in> set (orders d). o_id ord = inv_order_id i \<and> o_status ord \<noteq> OS_NEW"
    using S(4) by (auto simp: orders_ok_def past_new_def list_all_iff list_ex_iff)
qed

definition sample_registration :: registration where
  "sample_registration = \<lparr>rg_role = UR_CUSTOMER, rg_full_name = None, rg_email = None, rg_dob = None, rg_city = None,
     rg_national_id = None, rg_passport_id = None\<rparr>"

definition sample_registration_env :: auth_env where
  "sample_registration_env = (sample_auth ''r'')\<lparr>ae_jwt := sample_jwt
     \<lparr>cl_sub = ''+9665'', cl_role = None, cl_jti = None, cl_purpose = Some ''registration'', cl_iat = 0, cl_exp = 600,
      cl_iss = ''safe-gift'', cl_aud = ''safe-gift''\<rparr>\<rparr>"

text \<open>A customer registers, starts a top-up of 1000 and the gateway reports it paid.\<close>

definition sample_run :: "error + webhook_outcome \<times> db" where
  "sample_run =
     and_then (register sample_registration_env 0 ''e30'' sample_registration seeded_db) (\<lambda>(_, d).
     and_then (create_topup 0 sample_settings (\<lambda>_ _ _. Inr \<lparr>co_payment_link_id = ''L'', co_payment_url = ''u''\<rparr>) 4 1000 d)
       (\<lambda>(_, d). settle_locked 5 sample_event d))"



lemma sample_run_pays:
  "case sample_run of Inl _ \<Rightarrow> False | Inr (_, d) \<Rightarrow> map w_balance (wallets d) = [0, 0, -1000, 0, 1000]"
  by code_simp

lemma sample_run_steps:
  assumes "sample_run = Inr (out, d)"
  shows "(market_step sample_settings)\<^sup>*\<^sup>* seeded_db d"
proof -
  obtain t d1 tr d2 where a: "register sample_registration_env 0 ''e30'' sample_registration seeded_db = Inr (t, d1)"
    and b: "create_topup 0 sample_settings (\<lambda>_ _ _. Inr \<lparr>co_payment_link_id = ''L'', co_payment_url = ''u''\<rparr>) 4 1000 d1 = Inr (tr, d2)"
    and c: "settle_locked 5 sample_event d2 = Inr (out, d)"
    using assms by (auto simp: sample_run_def)
  have "market_step sample_settings seeded_db d1" by (rule ms_register [OF a])
  moreover have "market_step sample_settings d1 d2" by (rule ms_topup [OF b])
  moreover have "market_step sample_settings d2 d" by (rule ms_webhook [OF c])
  ultimately show ?thesis by (meson converse_rtranclp_into_rtranclp rtranclp.rtrancl_refl)
qed

theorem escrow_solvency_witness:
  "\<exists>d. (market_step sample_settings)\<^sup>*\<^sup>* seeded_db d \<and> map w_balance (wallets d) = [0, 0, -1000, 0, 1000] \<and>
     report_ok (reconcile d)"
proof -
  obtain out d where r: "sample_run = Inr (out, d)" and w: "map w_balance (wallets d) = [0, 0, -1000, 0, 1000]"
    using sample_run_pays by (auto split: sum.splits)
  have "fees_ok sample_settings" by code_simp
  from escrow_solvency [OF this sample_run_steps [OF r]] have "report_ok (reconcile d)" by simp
  with sample_run_steps [OF r] w show ?thesis by (intro exI [of _ d] conjI)
qed

end
