(* ===== verification/Endpoints.thy ===== *)
theory Endpoints
  imports Market
begin

text \<open>
  What the HTTP routes do to the marketplace.  Every request either leaves the database as it was or
  commits one step of the marketplace, so what holds of all runs of the marketplace holds of all
  sequences of requests.
\<close>

section \<open>A server over a step relation\<close>

text \<open>The state after a sequence of requests, each handled from the state the one before left.\<close>

fun serve_all :: "('q \<Rightarrow> 's \<Rightarrow> 'o \<times> 's) \<Rightarrow> 'q list \<Rightarrow> 's \<Rightarrow> 's" where
  "serve_all handle [] st = st"
| "serve_all handle (q # qs) st = serve_all handle qs (snd (handle q st))"

locale server =
  fixes handle :: "'q \<Rightarrow> 's \<Rightarrow> 'o \<times> 's"
    and data :: "'s \<Rightarrow> 'd"
    and admissible :: "'q \<Rightarrow> bool"
    and step :: "'d \<Rightarrow> 'd \<Rightarrow> bool"
  assumes handle_step: "admissible q \<Longrightarrow> handle q st = (out, st') \<Longrightarrow> data st' = data st \<or> step (data st) (data st')"
begin

lemma serve_all_steps:
  assumes "list_all admissible qs"
  shows "step\<^sup>*\<^sup>* (data st) (data (serve_all handle qs st))"
  using assms
proof (induction qs arbitrary: st)
  case (Cons q qs)
  obtain out st' where h: "handle q st = (out, st')" by (cases "handle q st")
  have "step\<^sup>*\<^sup>* (data st) (data st')" using handle_step [OF _ h] Cons.prems by auto
  also have "step\<^sup>*\<^sup>* (data st') (data (serve_all handle qs st'))" using Cons by auto
  finally show ?case by (simp add: h)
qed simp

lemma serve_all_invariant:
  assumes "list_all admissible qs" and "P (data st)" and "\<And>d d'. P d \<Longrightarrow> step d d' \<Longrightarrow> P d'"
  shows "P (data (serve_all handle qs st))"
proof -
  have "P d" if "step\<^sup>*\<^sup>* (data st) d" for d
    using that by (induction rule: rtranclp_induct) (auto intro: assms(2,3))
  then show ?thesis using serve_all_steps [OF assms(1)] by blast
qed

end

section \<open>One request\<close>

text \<open>A committed step, or no change; an error and a reply with a status above 299 change nothing.\<close>

definition kept :: "settings \<Rightarrow> chat_io \<Rightarrow> outcome \<Rightarrow> bool" where
  "kept s st out \<longleftrightarrow> (case fst out of
       Inl e \<Rightarrow> io_db (snd out) = io_db st
     | Inr p \<Rightarrow> io_db (snd out) = io_db st \<or> hr_status p < 300 \<and> market_step s (io_db st) (io_db (snd out)))"

named_theorems kept_rules

lemma kept_same [kept_rules]: "io_db st' = io_db st \<Longrightarrow> kept s st (x, st')"
  by (auto simp: kept_def split: sum.splits)

lemma kept_get_db [kept_rules]:
  assumes "io_db st' = io_db st" and "n < 300"
    and "\<And>x d. res = Inr (x, d) \<Longrightarrow> d = io_db st \<or> market_step s (io_db st) d"
  shows "kept s st (get_db n f st' res)"
  using assms by (auto simp: kept_def get_db_def respond_def split: sum.splits)

lemma kept_reading [kept_rules]: "kept s st (reading st res)"
  by (simp add: reading_def kept_same)

lemma kept_checked [kept_rules]: "kept s st k \<Longrightarrow> kept s st (checked ok st k)"
  by (auto simp: checked_def kept_same split: sum.splits)

lemma kept_authenticated [kept_rules]: "(\<And>a. kept s st (k a)) \<Longrightarrow> kept s st (authenticated E h st k)"
  by (auto simp: authenticated_def kept_same split: sum.splits)

lemma kept_with_role [kept_rules]: "(\<And>a. kept s st (k a)) \<Longrightarrow> kept s st (with_role roles E h st k)"
  by (auto simp: with_role_def kept_same intro!: kept_authenticated split: sum.splits)

lemmas route_defs =
  health_route_def ready_route_def send_otp_route_def verify_otp_route_def register_route_def logout_route_def
  get_me_route_def update_me_route_def get_my_wallet_route_def start_topup_route_def request_withdrawal_route_def
  list_my_transactions_route_def create_upload_url_route_def confirm_upload_route_def create_order_route_def
  list_orders_route_def available_orders_route_def get_order_route_def accept_order_route_def cancel_order_route_def
  deliver_order_route_def approve_order_route_def dispute_order_route_def create_invoice_route_def
  get_order_invoice_route_def get_invoice_route_def pay_invoice_route_def cancel_invoice_route_def
  validate_promo_route_def streampay_webhook_route_def rate_order_route_def user_rating_summary_route_def
  resolve_dispute_route_def approve_withdrawal_route_def reject_withdrawal_route_def mark_withdrawal_paid_route_def
  list_conversations_route_def list_messages_route_def send_message_route_def mark_read_route_def
  register_device_route_def unregister_device_route_def simulate_payment_route_def

lemma accept_order_db:
  "accept_order now now' s A token iv n c d r = (Inr (ord, d'), r') \<Longrightarrow> assign_locked now s A iv n c d = Inr (ord, d')"
  by (auto simp: accept_order_def redis_lock_def map_sum_def split: sum.splits prod.splits if_splits)

lemma handle_webhook_db:
  assumes "handle_webhook now now' verify repr token b sig d r = (Inr (x, d'), r')"
  obtains ev where "settle_locked now ev d = Inr (x, d')" and "verify (raw_bytes b) sig"
  using assms by (auto simp: handle_webhook_def redis_lock_def split: sum.splits prod.splits if_splits)

lemma verify_login_db:
  "verify_login E now phone code d r = (Inr (v, d'), r') \<Longrightarrow> login_or_register E now phone d = Inr (v, d')"
  by (auto simp: verify_login_def ensure_def split: sum.splits prod.splits if_splits)

lemma send_endpoint_db:
  assumes "send_message_endpoint now s A iv iv' push n u t st = Inr (m, st')"
  shows "send_message now s A iv iv' n u t (io_db st) = Inr (m, io_db st')"
  using assms
  by (auto simp: send_message_endpoint_def publish_message_def push_to_def Let_def split: option.splits)

lemma kept_replied: "market_step s (io_db st) (io_db st') \<Longrightarrow> n < 300 \<Longrightarrow> kept s st (Inr (respond n b), st')"
  by (simp add: kept_def respond_def)

lemma kept_public [simp]:
  "kept s st (health_route st)" "kept s st (ready_route E st)" "kept s st (send_otp_route E b1 st)"
  "kept s st (verify_otp_route E b2 st)" "kept s st (register_route E b3 st)" "kept s st (logout_route E h st)"
  by (auto simp: route_defs Let_def intro!: kept_rules dest: verify_login_db intro: ms_login ms_register
      split: prod.splits sum.splits)

lemma kept_webhook [simp]: "kept s st (streampay_webhook_route E b sig st)"
  by (auto simp: streampay_webhook_route_def Let_def intro!: kept_get_db elim!: handle_webhook_db intro: ms_webhook
      split: prod.splits)

lemma kept_simulate [simp]: "kept s st (simulate_payment_route E b st)"
  by (auto simp: simulate_payment_route_def Let_def intro!: kept_checked kept_same split: option.splits)

lemma kept_reads [simp]:
  "kept s st (get_me_route E h st)" "kept s st (get_my_wallet_route E h st)"
  "kept s st (list_my_transactions_route E h c l st)" "kept s st (create_upload_url_route E h b st)"
  "kept s st (confirm_upload_route E h k st)" "kept s st (list_orders_route E h os c l st)"
  "kept s st (available_orders_route E h c l st)" "kept s st (get_order_route E h n st)"
  "kept s st (get_order_invoice_route E h n st)" "kept s st (get_invoice_route E h n st)"
  "kept s st (validate_promo_route E h v st)" "kept s st (user_rating_summary_route E h n st)"
  "kept s st (list_conversations_route E h c l st)" "kept s st (list_messages_route E h n c l st)"
  by (auto simp: route_defs Let_def intro!: kept_rules split: prod.splits)

lemma kept_users [simp]:
  "kept s st (update_me_route E h b st)" "kept s st (register_device_route E h v st)"
  "kept s st (unregister_device_route E h t st)" "kept s st (mark_read_route E h n st)"
  by (auto simp: route_defs intro!: kept_rules intro: ms_update_me ms_register_device ms_remove_device ms_mark_read)

lemma kept_orders [simp]:
  "kept (ap_settings E) st (cancel_order_route E h n r st)" "kept (ap_settings E) st (deliver_order_route E h n b st)"
  "kept (ap_settings E) st (approve_order_route E h n st)" "kept (ap_settings E) st (dispute_order_route E h n t st)"
  "kept (ap_settings E) st (rate_order_route E h n q st)"
  by (auto simp: route_defs intro!: kept_rules intro: ms_cancel_order ms_deliver ms_approve ms_raise_dispute ms_rate)

lemma kept_create_order [simp]: "kept (ap_settings E) st (create_order_route E h b st)"
  by (auto simp: create_order_route_def intro!: kept_rules intro: ms_create_order split: sum.splits)

lemma kept_accept [simp]: "kept (ap_settings E) st (accept_order_route E h n st)"
  by (auto simp: accept_order_route_def Let_def intro!: kept_with_role kept_get_db dest!: accept_order_db
      intro: ms_accept_order split: prod.splits)

lemma kept_invoices [simp]:
  "kept (ap_settings E) st (create_invoice_route E h n b st)" "kept (ap_settings E) st (pay_invoice_route E h n st)"
  "kept (ap_settings E) st (cancel_invoice_route E h n st)" "kept (ap_settings E) st (start_topup_route E h a st)"
  by (auto simp: route_defs intro!: kept_rules intro: ms_create_invoice ms_pay_invoice ms_cancel_invoice ms_topup)

lemma kept_admin [simp]:
  "kept (ap_settings E) st (resolve_dispute_route E h n b st)" "kept (ap_settings E) st (approve_withdrawal_route E h n st)"
  "kept (ap_settings E) st (reject_withdrawal_route E h n t st)" "kept (ap_settings E) st (mark_withdrawal_paid_route E h n st)"
  by (auto simp: route_defs intro!: kept_rules
      intro: ms_resolve_dispute ms_approve_withdrawal ms_reject_withdrawal ms_withdrawal_paid)

lemma kept_withdrawal [simp]: "kept (ap_settings E) st (request_withdrawal_route E h b k st)"
  by (auto simp: request_withdrawal_route_def request_withdrawal_def intro!: kept_rules intro: ms_request_withdrawal)

lemma kept_send [simp]: "kept (ap_settings E) st (send_message_route E h n t st)"
  unfolding send_message_route_def
  by (intro kept_with_role kept_checked)
     (auto simp: kept_same dest!: send_endpoint_db intro!: kept_replied intro: ms_send_message split: sum.split)

lemma kept_dispatch: "\<nexists>t. r = Refresh t \<Longrightarrow> kept (ap_settings E) st (dispatch E h r st)"
  by (cases r) (simp_all add: kept_same)

lemma refresh_cases:
  assumes "refresh E now raw d = (res, d')"
  shows "market_step s d d'" and "res = Inl e \<Longrightarrow> d' = d \<or> (\<exists>f. d' = revoke_family f now d)"
proof -
  show "market_step s d d'" using ms_refresh [of s d E now raw] assms by simp
  show "d' = d \<or> (\<exists>f. d' = revoke_family f now d)" if "res = Inl e"
    using assms that by (auto simp: refresh_def Let_def split: option.splits if_splits sum.splits)
qed

definition handle_request :: "api_env \<times> string \<times> route \<Rightarrow> chat_io \<Rightarrow> outcome" where
  "handle_request = (\<lambda>(E, h, r). dispatch E h r)"

definition runs_under :: "settings \<Rightarrow> api_env \<times> string \<times> route \<Rightarrow> bool" where
  "runs_under s = (\<lambda>(E, h, r). ap_settings E = s)"

lemma dispatch_refresh:
  assumes "dispatch E h (Refresh t) st = (res, st')"
  obtains x where "refresh (ap_auth E) (ap_now E) t (io_db st) = (x, io_db st')"
    and "res = map_sum id (\<lambda>t. respond 200 (Token_reply t)) x"
  using assms by (cases "refresh (ap_auth E) (ap_now E) t (io_db st)") (auto simp: refresh_route_def)

lemma dispatch_market:
  assumes "dispatch E h r st = (res, st')"
  shows "io_db st' = io_db st \<or> market_step (ap_settings E) (io_db st) (io_db st')"
proof (cases "\<exists>t. r = Refresh t")
  case True
  then show ?thesis using assms by (auto elim!: dispatch_refresh simp del: dispatch.simps intro: refresh_cases(1))
next
  case False
  then show ?thesis using kept_dispatch [OF False, of E st h] assms by (auto simp: kept_def split: sum.splits)
qed

interpretation api: server handle_request io_db "runs_under s" "market_step s" for s
  by unfold_locales (auto simp: handle_request_def runs_under_def dest: dispatch_market)

section \<open>Who may call what\<close>

datatype requirement = Public | Signed_in | Roles "user_role list"

text \<open>What the decorators of the routes ask for.\<close>

fun access :: "route \<Rightarrow> requirement" where
  "access Health = Public"
| "access Ready = Public"
| "access (Send_otp _) = Public"
| "access (Verify_otp _) = Public"
| "access (Register _) = Public"
| "access (Refresh _) = Public"
| "access (Streampay_webhook _ _) = Public"
| "access Dev_ping = Public"
| "access (Simulate_payment _) = Public"
| "access Logout = Signed_in"
| "access Get_me = Signed_in"
| "access (Update_me _) = Signed_in"
| "access (Create_upload_url _) = Signed_in"
| "access (Confirm_upload _) = Signed_in"
| "access (User_rating_summary _) = Signed_in"
| "access (Create_order _) = Roles [UR_CUSTOMER]"
| "access (List_orders _ _ _) = Roles [UR_CUSTOMER]"
| "access (Approve_order _) = Roles [UR_CUSTOMER]"
| "access (Pay_invoice _) = Roles [UR_CUSTOMER]"
| "access (Validate_promo _) = Roles [UR_CUSTOMER]"
| "access (Available_orders _ _) = Roles [UR_COURIER]"
| "access (Accept_order _) = Roles [UR_COURIER]"
| "access (Deliver_order _ _) = Roles [UR_COURIER]"
| "access (Create_invoice _ _) = Roles [UR_COURIER]"
| "access (Cancel_invoice _) = Roles [UR_COURIER]"
| "access (Request_withdrawal _ _) = Roles [UR_COURIER]"
| "access (Resolve_dispute _ _) = Roles [UR_ADMIN]"
| "access (Approve_withdrawal _) = Roles [UR_ADMIN]"
| "access (Reject_withdrawal _ _) = Roles [UR_ADMIN]"
| "access (Mark_withdrawal_paid _) = Roles [UR_ADMIN]"
| "access _ = Roles [UR_CUSTOMER, UR_COURIER]"

text \<open>The caller of a request, if its token is good.\<close>

definition caller :: "api_env \<Rightarrow> string \<Rightarrow> chat_io \<Rightarrow> error + actor" where
  "caller E h st = require_auth (ae_jwt (ap_auth E)) (ap_settings E) (ap_now E) h (io_redis st)"

fun permitted :: "requirement \<Rightarrow> error + actor \<Rightarrow> error + unit" where
  "permitted Public _ = Inr ()"
| "permitted Signed_in c = and_then c (\<lambda>_. Inr ())"
| "permitted (Roles rs) c = and_then c (\<lambda>a. ensure (act_role a \<in> set rs) ForbiddenError (Inr ()))"

lemma authenticated_denied: "caller E h st = Inl e \<Longrightarrow> authenticated E h st k = (Inl e, st)"
  by (simp add: authenticated_def caller_def)

lemma with_role_denied:
  "permitted (Roles rs) (caller E h st) = Inl e \<Longrightarrow> with_role rs E h st k = (Inl e, st)"
  by (auto simp: with_role_def authenticated_def caller_def require_role_def ensure_def split: sum.splits if_splits)

lemma dispatch_denied:
  assumes "permitted (access r) (caller E h st) = Inl e"
  shows "dispatch E h r st = (Inl e, st)"
  using assms
proof (cases r)
  case Logout
  then show ?thesis using assms
    by (auto simp: logout_route_def logout_endpoint_def caller_def and_then_def split: sum.splits)
qed (auto simp: route_defs intro!: authenticated_denied with_role_denied simp: and_then_def split: sum.splits)

section \<open>Whose data a reply shows\<close>

definition takes_part :: "uuid \<Rightarrow> order \<Rightarrow> bool" where
  "takes_part u ord \<longleftrightarrow> o_customer_id ord = u \<or> o_courier_id ord = Some u"

lemma get_for_actor_part: "get_for_actor n u d = Some ord \<Longrightarrow> takes_part u ord \<and> get_order n d = Some ord"
  by (auto simp: get_for_actor_def takes_part_def split: option.splits if_splits)

lemma order_results_part:
  "create_order now s S u n d = Inr (ord, d') \<Longrightarrow> takes_part u ord"
  "assign_locked now s A iv i u d = Inr (ord, d') \<Longrightarrow> takes_part u ord"
  "cancel_order now i u r d = Inr (ord, d') \<Longrightarrow> takes_part u ord"
  "submit_delivery now s S dst i u inp d = Inr (ord, d') \<Longrightarrow> takes_part u ord"
  "approve_order now s i u d = Inr (ord, d') \<Longrightarrow> takes_part u ord"
  by (auto simp: create_order_def create_order_row_def assign_locked_def cancel_order_def submit_delivery_def
      approve_order_def complete_and_release_def fresh_def Let_def takes_part_def dest!: get_for_actor_part)

text \<open>The data of a reply is the caller's own.\<close>

definition order_shown :: "actor \<Rightarrow> order_detail \<Rightarrow> bool" where
  "order_shown a v \<longleftrightarrow> (\<exists>ord. takes_part (act_id a) ord \<and> od_id v = str_uuid (o_id ord) \<and>
     od_status v = order_status_text (o_status ord) \<and>
     (act_role a = UR_COURIER \<and> o_status ord = OS_NEW \<longrightarrow> od_latitude v = None \<and> od_longitude v = None))"

definition order_listed :: "actor \<Rightarrow> db \<Rightarrow> order \<Rightarrow> bool" where
  "order_listed a d ord \<longleftrightarrow> ord \<in> set (orders d) \<and> (o_customer_id ord = act_id a \<or>
     act_role a = UR_COURIER \<and> o_status ord = OS_NEW \<and>
     Some (o_delivery_city ord) = map_option cp_city_of_residence (get_courier_profile (act_id a) d))"

definition invoice_shown :: "actor \<Rightarrow> db \<Rightarrow> invoice_response \<Rightarrow> bool" where
  "invoice_shown a d v \<longleftrightarrow> (\<exists>i :: invoice. ir_id v = str_uuid (inv_id i) \<and> ir_total_amount v = money_str (inv_total_amount i) \<and>
     (inv_issued_by_courier_id i = act_id a \<or> (\<exists>ord. get_order (inv_order_id i) d = Some ord \<and> takes_part (act_id a) ord)))"

definition wallet_shown :: "actor \<Rightarrow> db \<Rightarrow> wallet_response \<Rightarrow> bool" where
  "wallet_shown a d v \<longleftrightarrow> (\<exists>w. get_by_user (act_id a) d = Some w \<and> wr_balance v = money_str (w_balance w) \<and>
     wr_held_balance v = money_str (w_held_balance w) \<and> wr_available v = money_str (w_balance w - w_held_balance w))"

definition transactions_shown :: "actor \<Rightarrow> db \<Rightarrow> transaction_page \<Rightarrow> bool" where
  "transactions_shown a d v \<longleftrightarrow> (\<exists>w. get_by_user (act_id a) d = Some w \<and>
     (\<forall>n \<in> set (tg_items v). \<exists>t \<in> set (transactions d). tx_wallet_id t = w_id w \<and> tn_id n = str_uuid (tx_id t)))"

fun own :: "actor \<Rightarrow> db \<Rightarrow> reply \<Rightarrow> bool" where
  "own a d (Order_reply v) \<longleftrightarrow> order_shown a v"
| "own a d (Orders_reply v) \<longleftrightarrow> (\<exists>rows. ol_items v = map summary rows \<and> (\<forall>ord \<in> set rows. order_listed a d ord))"
| "own a d (Invoice_reply v) \<longleftrightarrow> invoice_shown a d v"
| "own a d (Wallet_reply v) \<longleftrightarrow> wallet_shown a d v"
| "own a d (Transactions_reply v) \<longleftrightarrow> transactions_shown a d v"
| "own a d (User_reply v) \<longleftrightarrow> me_id v = str_uuid (act_id a)"
| "own a d _ \<longleftrightarrow> True"

lemma own_detail: "takes_part (act_id a) ord \<Longrightarrow> own a d (detail a ord d')"
  by (auto simp: detail_def order_shown_def Let_def)

lemma own_invoice:
  "inv_issued_by_courier_id i = act_id a \<or> (\<exists>ord. get_order (inv_order_id i) d = Some ord \<and> takes_part (act_id a) ord)
     \<Longrightarrow> own a d (invoice_detail i items)"
  by (auto simp: invoice_detail_def invoice_shown_def)

lemma own_page: "\<forall>ord \<in> set rows. order_listed a d ord \<Longrightarrow> own a d (order_page rows limit)"
  by (auto simp: order_page_def)

lemma page_rows_mem: "ord \<in> set (page_rows P limit b d) \<Longrightarrow> ord \<in> set (orders d) \<and> P ord"
  by (auto simp: page_rows_def Let_def split: option.splits dest!: in_set_takeD)

lemma own_lists:
  "own a d (order_page (list_for_customer (act_id a) f n b d) limit)"
  "act_role a = UR_COURIER \<Longrightarrow> get_courier_profile (act_id a) d = Some p \<Longrightarrow>
     own a d (order_page (list_available (cp_city_of_residence p) n b d) limit)"
  by (auto intro!: own_page simp: order_listed_def list_for_customer_def list_available_def dest!: page_rows_mem)

lemma order_visible_part: "order_visible n u d \<longleftrightarrow> (\<exists>ord. get_order n d = Some ord \<and> takes_part u ord)"
  by (auto simp: order_visible_def get_for_actor_def takes_part_def split: option.splits if_splits)

lemma invoice_results_own:
  "create_invoice now s n u inp d = Inr (i, d') \<Longrightarrow> inv_issued_by_courier_id i = u"
  "cancel_invoice now n u d = Inr (i, d') \<Longrightarrow> inv_issued_by_courier_id i = u"
  "get_invoice_for_actor n u d = Inr (i, items) \<Longrightarrow> \<exists>ord. get_order (inv_order_id i) d = Some ord \<and> takes_part u ord"
  "get_active_invoice_for_order n u d = Inr (i, items) \<Longrightarrow>
     \<exists>ord. get_order (inv_order_id i) d = Some ord \<and> takes_part u ord"
  by (auto simp: create_invoice_def write_invoice_def create_draft_def issue_def fresh_def Let_def cancel_invoice_def
      lock_for_courier_def get_invoice_for_actor_def get_invoice_of_actor_def get_active_invoice_for_order_def
      get_active_for_order_for_actor_def get_active_for_order_def order_visible_part find_Some_iff
      split: option.splits if_splits)

lemma get_user_id: "get_user u d = Some v \<Longrightarrow> u_id v = u"
  by (rule user_tab.get_key)

lemma update_me_id: "update_me u b d = Inr (v, d') \<Longrightarrow> u_id v = u"
  by (auto simp: update_me_def Let_def dest!: get_user_id split: option.splits)

lemma list_transactions_mem:
  "t \<in> set (list_transactions created w limit b d) \<Longrightarrow> t \<in> set (transactions d) \<and> tx_wallet_id t = w"
  by (auto simp: list_transactions_def Let_def split: option.splits dest!: in_set_takeD)

lemma transactions_own:
  assumes "get_by_user (act_id a) d = Some w" and "rows = list_transactions created (w_id w) n b d"
    and "map tn_id (tg_items v) = map (\<lambda>t. str_uuid (tx_id t)) rows"
  shows "transactions_shown a d v"
  unfolding transactions_shown_def
proof (intro exI [of _ w] conjI ballI assms(1))
  fix n assume "n \<in> set (tg_items v)"
  then have "tn_id n \<in> set (map (\<lambda>t. str_uuid (tx_id t)) rows)" using assms(3) by (metis imageI list.set_map)
  then show "\<exists>t \<in> set (transactions d). tx_wallet_id t = w_id w \<and> tn_id n = str_uuid (tx_id t)"
    using list_transactions_mem assms(2) by fastforce
qed

definition shows_own :: "actor \<Rightarrow> chat_io \<Rightarrow> outcome \<Rightarrow> bool" where
  "shows_own a st out \<longleftrightarrow> (\<forall>p. fst out = Inr p \<longrightarrow> own a (io_db st) (hr_body p))"

definition personal :: "api_env \<Rightarrow> string \<Rightarrow> chat_io \<Rightarrow> outcome \<Rightarrow> bool" where
  "personal E h st out \<longleftrightarrow> (\<forall>p. fst out = Inr p \<longrightarrow> (\<exists>a. caller E h st = Inr a \<and> own a (io_db st) (hr_body p)))"

named_theorems own_rules

lemma personal_with_role [own_rules]:
  "(\<And>a. act_role a \<in> set rs \<Longrightarrow> shows_own a st (k a)) \<Longrightarrow> personal E h st (with_role rs E h st k)"
  by (auto simp: personal_def shows_own_def with_role_def authenticated_def caller_def require_role_def ensure_def
      split: sum.splits)

lemma personal_authenticated [own_rules]:
  "(\<And>a. shows_own a st (k a)) \<Longrightarrow> personal E h st (authenticated E h st k)"
  by (auto simp: personal_def shows_own_def authenticated_def caller_def split: sum.splits)

lemma own_checked [own_rules]: "shows_own a st k \<Longrightarrow> shows_own a st (checked ok st k)"
  by (auto simp: shows_own_def checked_def respond_def split: sum.splits)

lemma own_get_db [own_rules]:
  "(\<And>x d. res = Inr (x, d) \<Longrightarrow> own a (io_db st) (f x d)) \<Longrightarrow> shows_own a st (get_db n f st' res)"
  by (auto simp: shows_own_def get_db_def respond_def split: sum.splits)

lemma own_reading [own_rules]:
  "(\<And>b. res = Inr b \<Longrightarrow> own a (io_db st) b) \<Longrightarrow> shows_own a st (reading st res)"
  by (cases res) (auto simp: shows_own_def reading_def respond_def)

lemma own_error [own_rules]: "shows_own a st (Inl e, st')"
  by (simp add: shows_own_def)

lemma own_respond [own_rules]: "own a (io_db st) b \<Longrightarrow> shows_own a st (Inr (respond n b), st')"
  by (simp add: shows_own_def respond_def)

lemma personal_orders [simp]:
  "personal E h st (create_order_route E h b st)" "personal E h st (list_orders_route E h f c l st)"
  "personal E h st (available_orders_route E h c l st)" "personal E h st (get_order_route E h n st)"
  "personal E h st (accept_order_route E h n st)" "personal E h st (cancel_order_route E h n t st)"
  "personal E h st (deliver_order_route E h n dr st)" "personal E h st (approve_order_route E h n st)"
  by (auto simp: route_defs Let_def intro!: own_rules own_detail own_lists intro: order_results_part
      dest: get_for_actor_part dest!: accept_order_db split: sum.splits prod.splits)

lemma personal_invoices [simp]:
  "personal E h st (create_invoice_route E h n b st)" "personal E h st (get_order_invoice_route E h n st)"
  "personal E h st (get_invoice_route E h n st)" "personal E h st (cancel_invoice_route E h n st)"
  by (auto simp: route_defs intro!: own_rules own_invoice dest: invoice_results_own)

lemma personal_wallet [simp]: "personal E h st (get_my_wallet_route E h st)"
  by (auto simp: route_defs wallet_shown_def intro!: own_rules)

lemma personal_transactions [simp]: "personal E h st (list_my_transactions_route E h c l st)"
proof -
  have "own a (io_db st) b"
    if "or_raise (get_by_user (act_id a) (io_db st)) NotFoundError (\<lambda>w. and_then (cursor_id c) (\<lambda>before.
          let rows = list_transactions (ap_tx_created_at E) (w_id w) (nat l) before (io_db st)
          in Inr (Transactions_reply \<lparr>tg_items = map (\<lambda>t. \<lparr>tn_id = str_uuid (tx_id t), tn_amount = money_str (tx_amount t),
                tn_type = transaction_type_text (tx_type t), tn_status = transaction_status_text (tx_status t),
                tn_balance_after = money_str (tx_balance_after t), tn_created_at = ap_tx_created_at E (tx_id t)\<rparr>) rows,
              tg_next_cursor = next_cursor (\<lambda>t. str_uuid (tx_id t)) rows l\<rparr>))) = Inr b" for a b
    using that transactions_own [OF _ refl, of a "io_db st"] by (auto simp: Let_def comp_def)
  then show ?thesis unfolding list_my_transactions_route_def by (intro own_rules)
qed

lemma personal_users [simp]:
  "personal E h st (get_me_route E h st)" "personal E h st (update_me_route E h b st)"
  by (auto simp: route_defs to_response_def intro!: own_rules dest!: get_user_id update_me_id)

lemma personal_rest [simp]:
  "personal E h st (start_topup_route E h a st)" "personal E h st (request_withdrawal_route E h b k st)"
  "personal E h st (confirm_upload_route E h t st)"
  "personal E h st (dispute_order_route E h n t st)" "personal E h st (pay_invoice_route E h n st)"
  "personal E h st (validate_promo_route E h v st)" "personal E h st (rate_order_route E h n q st)"
  "personal E h st (user_rating_summary_route E h n st)" "personal E h st (resolve_dispute_route E h n rv st)"
  "personal E h st (approve_withdrawal_route E h n st)" "personal E h st (reject_withdrawal_route E h n t st)"
  "personal E h st (mark_withdrawal_paid_route E h n st)" "personal E h st (list_conversations_route E h c l st)"
  "personal E h st (list_messages_route E h n c l st)" "personal E h st (mark_read_route E h n st)"
  "personal E h st (register_device_route E h dv st)" "personal E h st (unregister_device_route E h t st)"
  by (auto simp: route_defs dispute_reply_def withdrawal_reply_def Let_def intro!: own_rules split: prod.splits)

lemma personal_send [simp]: "personal E h st (send_message_route E h n t st)"
  by (auto simp: send_message_route_def intro!: own_rules split: sum.splits)

lemma personal_upload [simp]: "personal E h st (create_upload_url_route E h b st)"
  by (auto simp: create_upload_url_route_def shows_own_def respond_def map_sum_def intro!: own_rules split: sum.splits)

lemma personal_logout [simp]: "personal E h st (logout_route E h st)"
  by (auto simp: logout_route_def logout_endpoint_def personal_def caller_def respond_def split: sum.splits)

lemma personal_dispatch: "access r \<noteq> Public \<Longrightarrow> personal E h st (dispatch E h r st)"
  by (cases r) simp_all

section \<open>What validation promises\<close>

lemma all_fields_True: "all_fields fs = Inr True \<longleftrightarrow> list_all (\<lambda>f. f = Inr True) fs"
  by (induction fs) (auto simp: and_then_def split: sum.splits)

lemma parse_money_is_money: "parse_money v = Inr m \<Longrightarrow> is_money m"
  by (auto simp: parse_money_def quantize_checked_money split: if_splits)

lemma parsed_fieldD: "parsed_field P v = Inr True \<Longrightarrow> \<exists>m. v = Inr m \<and> P m"
  by (auto simp: parsed_field_def split: sum.splits if_splits)

lemma money_parsedD:
  "parsed_field P (parse_money v) = Inr True \<Longrightarrow> \<exists>m. parse_money v = Inr m \<and> P m \<and> is_money m"
  by (auto simp: parse_money_is_money dest!: parsed_fieldD)

lemma money_fieldD: "money_field P v = Inr True \<Longrightarrow> \<exists>m. parse_money (PyStr v) = Inr m \<and> P m \<and> is_money m"
  by (auto simp: money_field_def split: if_splits dest!: money_parsedD)

lemma rate_fieldD: "rate_field P v = Inr True \<Longrightarrow> \<exists>m. parse_rate (PyStr v) = Inr m \<and> P m"
  by (auto simp: rate_field_def split: if_splits dest!: parsed_fieldD)

definition line_ok :: "invoice_line_input \<Rightarrow> bool" where
  "line_ok x \<longleftrightarrow> is_money (li_unit_price_amount x) \<and> 1 \<le> li_quantity x \<and> li_quantity x \<le> 999 \<and>
     0 \<le> li_tax_rate x \<and> li_tax_rate x \<le> 1"

lemma checked_line: "check_invoice_line b = Inr True \<Longrightarrow> \<exists>x. line_input b = Inr x \<and> line_ok x"
  by (auto simp: check_invoice_line_def all_fields_True line_input_def line_ok_def dest!: money_fieldD rate_fieldD)

lemma checked_lines:
  "all_fields (map check_invoice_line bs) = Inr True \<Longrightarrow>
   \<exists>xs. line_inputs bs = Inr xs \<and> length xs = length bs \<and> list_all line_ok xs"
  by (induction bs) (auto simp: all_fields_True dest!: checked_line)

lemma checked_invoice:
  assumes "check_create_invoice b = Inr True"
  shows "\<exists>n. invoice_input b = Inr n \<and> length_in 1 20 (ni_items n) \<and> list_all line_ok (ni_items n) \<and>
    0 \<le> ni_courier_fee_amount n \<and> is_money (ni_courier_fee_amount n)"
proof -
  have l: "length_in 1 20 (ci_items b)" and a: "all_fields (map check_invoice_line (ci_items b)) = Inr True"
    and f: "money_field (\<lambda>m. \<not> m < 0) (ci_courier_fee_amount b) = Inr True"
    using assms by (auto simp: check_create_invoice_def all_fields_True split: if_splits)
  obtain xs where "line_inputs (ci_items b) = Inr xs" "length xs = length (ci_items b)" "list_all line_ok xs"
    using checked_lines [OF a] by blast
  moreover obtain m where "parse_money (PyStr (ci_courier_fee_amount b)) = Inr m" "\<not> m < 0" "is_money m"
    using money_fieldD [OF f] by blast
  ultimately show ?thesis using l by (auto simp: invoice_input_def length_in_def)
qed

lemma parse_errors_500:
  "status_filter status = Inl e \<Longrightarrow> env_status (handle_exception e) = 500"
  "cursor_id cursor = Inl e \<Longrightarrow> env_status (handle_exception e) = 500"
  "parse_money v = Inl e \<Longrightarrow> env_status (handle_exception e) = 500"
  "check_topup t = Inl e \<Longrightarrow> env_status (handle_exception e) = 500"
proof -
  show m: "parse_money v = Inl e \<Longrightarrow> env_status (handle_exception e) = 500" for v
    by (auto simp: parse_money_def to_decimal_def finite_value_def quantize_checked_money handle_exception_def and_then_def
        or_raise_def split: py_value.splits decimal.splits option.splits if_splits sum.splits)
  then show "check_topup t = Inl e \<Longrightarrow> env_status (handle_exception e) = 500"
    by (auto simp: check_topup_def money_field_def parsed_field_def split: sum.splits if_splits)
qed (auto simp: status_filter_def cursor_id_def or_raise_def handle_exception_def split: if_splits option.splits)

section \<open>Properties\<close>


text \<open>Whatever arrives over HTTP, the books stay right.  After any sequence of requests to the API,
  from anybody and with any content, starting from the seeded database and under rates that pass the
  start-up check, the escrow wallet holds exactly what was paid for the orders under way, the
  reconciliation finds no drift, and no user's wallet is negative or overdrawn by its holds.\<close>

theorem api_keeps_books:
  assumes "fees_ok s" and "list_all (runs_under s) requests" and "io_db st = seeded_db"
    and "d = io_db (serve_all handle_request requests st)"
  shows "(\<exists>e. get_system WT_SYSTEM_ESCROW d = Inr e \<and> w_balance e = owed d) \<and> report_ok (reconcile d) \<and>
    (\<forall>w \<in> set (wallets d). w_user_id w \<noteq> None \<longrightarrow> 0 \<le> w_held_balance w \<and> w_held_balance w \<le> w_balance w)"
proof -
  have ok: "solvent d"
    unfolding assms(4)
    by (rule api.serve_all_invariant [OF assms(2)]) (auto simp: assms(3) seeded_solvent intro: market_step_solvent assms(1))
  obtain e where "get_system WT_SYSTEM_ESCROW d = Inr e" "w_balance e = owed d" by (rule escrow_wallet [OF ok])
  then show ?thesis
    using solvent_wallets [OF ok] ledger_ok_reconciles [OF solventD(2) [OF ok]] by (auto simp: report_ok_def)
qed

text \<open>Three requests: a customer registers, asks for a top-up of 1000 and the gateway reports it paid.\<close>

definition sample_env :: "time \<Rightarrow> auth_env \<Rightarrow> api_env" where
  "sample_env now A = \<lparr>ap_auth = A, ap_now = now, ap_now' = now,
     ap_store = \<lparr>head_object = Map.empty, verify_image_magic_bytes = (\<lambda>_. False)\<rparr>, ap_presign = id,
     ap_gateway = (\<lambda>_ _ _. Inr \<lparr>co_payment_link_id = ''L'', co_payment_url = ''u''\<rparr>),
     ap_verify = (\<lambda>_ sig. sig = ''s''), ap_repr = (\<lambda>_. []), ap_distance = (\<lambda>_ _. 0), ap_push = (\<lambda>_. True), ap_sms = True,
     ap_code = ''123456'', ap_uuid4 = ''u'', ap_token = ''t'', ap_tx_created_at = (\<lambda>_. 0), ap_isoformat = (\<lambda>_. []),
     ap_fromisoformat = (\<lambda>_. None), ap_dumps = (\<lambda>_. []), ap_sign = id, ap_db_up = True, ap_redis_up = True\<rparr>"

definition sample_bearer :: "uuid \<Rightarrow> user_role \<Rightarrow> auth_env" where
  "sample_bearer u role = (sample_auth ''r'')\<lparr>ae_jwt := sample_jwt (access_payload sample_settings 0 ''j'' u (role_text role))\<rparr>"

definition sample_register :: register_request where
  "sample_register = \<lparr>rr_registration_token = ''e30'', rr_role = ''CUSTOMER'', rr_full_name = None, rr_email = None,
     rr_dob = None, rr_city = None, rr_national_id = None, rr_passport_id = None\<rparr>"

definition sample_callback :: webhook_body where
  "sample_callback = \<lparr>raw_bytes = ''b'', parsed = Some (JObj [(''data'', JObj [(''payment_link'', JObj [(''id'', JStr ''L'')]),
     (''payment'', JObj [(''status'', JStr ''paid''), (''amount'', JStr ''1000'')])])])\<rparr>"

definition sample_requests :: "(api_env \<times> string \<times> route) list" where
  "sample_requests =
     [(sample_env 0 sample_registration_env, [], Register sample_register),
      (sample_env 0 (sample_bearer 4 UR_CUSTOMER), ''Bearer e30'', Start_topup ''1000''),
      (sample_env 5 (sample_bearer 4 UR_CUSTOMER), [], Streampay_webhook sample_callback ''s'')]"

definition sample_io :: chat_io where
  "sample_io = \<lparr>io_db = seeded_db, io_redis = Map.empty, io_published = [], io_pushed = []\<rparr>"

lemma register_request_db:
  assumes "check_register b = Inr True" and "parse_role (rr_role b) = Some role"
    and "register (ap_auth E) (ap_now E) (rr_registration_token b) (registration_of b role) (io_db st) = Inr (t, d)"
  shows "snd (dispatch E h (Register b) st) = st\<lparr>io_db := d\<rparr>"
  using assms by (simp add: register_route_def checked_def get_db_def)

lemma topup_request_db:
  assumes "require_auth (ae_jwt (ap_auth E)) (ap_settings E) (ap_now E) h (io_redis st) = Inr a"
    and "act_role a = UR_CUSTOMER" and "check_topup v = Inr True" and "parse_money (PyStr v) = Inr m"
    and "create_topup (ap_now E) (ap_settings E) (ap_gateway E) (act_id a) m (io_db st) = Inr (t, d)"
  shows "snd (dispatch E h (Start_topup v) st) = st\<lparr>io_db := d\<rparr>"
  using assms
  by (simp add: start_topup_route_def with_role_def authenticated_def require_role_def checked_def get_db_def)

lemma webhook_request_db:
  assumes "ap_verify E (raw_bytes b) sig" and "parse_webhook (ap_repr E) b = Inr ev" and "io_redis st = Map.empty"
    and "settle_locked (ap_now E) ev (io_db st) = Inr (x, d)"
  shows "io_db (snd (dispatch E h (Streampay_webhook b sig) st)) = d"
  using assms
  by (simp add: streampay_webhook_route_def handle_webhook_def redis_lock_def lock_acquire_def rget_def rlive_def
      rset_ex_def get_db_def)

lemma sample_amount: "parse_money (PyStr ''1000'') = Inr 1000"
proof -
  have "parse_decimal ''1000'' = Some (Finite 1000)"
    by (simp add: parse_decimal_def parse_number_def dec_value_def strip_def is_space_def take_sign_def lower_def is_digit_def
        digits_val_def digit_val_def)
  moreover have "half_up 100000 = 100000" using half_up_of_int [of 100000] by simp
  ultimately show ?thesis by (simp add: parse_money_def to_decimal_def finite_value_def quantize_checked_def)
qed

lemma sample_bearer_auth:
  "require_auth (ae_jwt (sample_bearer u role)) sample_settings 0 ''Bearer e30'' Map.empty =
     Inr \<lparr>act_id = u, act_role = role, act_jti = ''j''\<rparr>"
proof -
  have "parse_role (role_text role) = Some role" by (cases role) (simp_all add: parse_role_def)
  then show ?thesis
    by (simp add: sample_bearer_def require_auth_def decode_access_token_def verify_key_def sample_settings_def
        sample_jwt_def access_payload_def strip_def is_space_def timestamp_def has_flag_def rget_def rlive_def truthy_def)
qed

lemma sample_caller:
  "io_redis st = Map.empty \<Longrightarrow>
   caller (sample_env 0 (sample_bearer u role)) ''Bearer e30'' st = Inr \<lparr>act_id = u, act_role = role, act_jti = ''j''\<rparr>"
  using sample_bearer_auth [of u role] by (simp add: caller_def sample_env_def ap_settings_def sample_bearer_def sample_auth_def)

lemma sample_register_db:
  assumes "register sample_registration_env 0 ''e30'' sample_registration seeded_db = Inr (t, d)"
  shows "snd (dispatch (sample_env 0 sample_registration_env) [] (Register sample_register) sample_io) = sample_io\<lparr>io_db := d\<rparr>"
  by (rule register_request_db [where role = UR_CUSTOMER])
     (use assms in \<open>simp_all add: sample_register_def check_register_def opt_max_def email_field_def parse_role_def sample_env_def
        registration_of_def sample_registration_def sample_io_def\<close>)

lemma sample_requests_db:
  assumes "sample_run = Inr (x, d)"
  shows "io_db (serve_all handle_request sample_requests sample_io) = d"
proof -
  obtain t d1 tr d2 where a: "register sample_registration_env 0 ''e30'' sample_registration seeded_db = Inr (t, d1)"
    and b: "create_topup 0 sample_settings (\<lambda>_ _ _. Inr \<lparr>co_payment_link_id = ''L'', co_payment_url = ''u''\<rparr>) 4 1000 d1 = Inr (tr, d2)"
    and c: "settle_locked 5 sample_event d2 = Inr (x, d)"
    using assms by (auto simp: sample_run_def)
  note sample_register_db [OF a]
  moreover have "snd (dispatch (sample_env 0 (sample_bearer 4 UR_CUSTOMER)) ''Bearer e30'' (Start_topup ''1000'')
      (sample_io\<lparr>io_db := d1\<rparr>)) = sample_io\<lparr>io_db := d2\<rparr>"
  proof (subst topup_request_db [where a = "\<lparr>act_id = 4, act_role = UR_CUSTOMER, act_jti = ''j''\<rparr>" and m = 1000])
    show "check_topup ''1000'' = Inr True"
      by (simp add: check_topup_def money_field_def length_in_def parsed_field_def sample_amount)
    show "require_auth (ae_jwt (ap_auth (sample_env 0 (sample_bearer 4 UR_CUSTOMER)))) (ap_settings (sample_env 0 (sample_bearer 4 UR_CUSTOMER)))
        (ap_now (sample_env 0 (sample_bearer 4 UR_CUSTOMER))) ''Bearer e30'' (io_redis (sample_io\<lparr>io_db := d1\<rparr>)) =
        Inr \<lparr>act_id = 4, act_role = UR_CUSTOMER, act_jti = ''j''\<rparr>"
      using sample_caller [of "sample_io\<lparr>io_db := d1\<rparr>"] by (simp add: caller_def sample_io_def)
  qed (use b in \<open>simp_all add: sample_amount sample_env_def ap_settings_def sample_bearer_def sample_auth_def\<close>)
  moreover have "io_db (snd (dispatch (sample_env 5 (sample_bearer 4 UR_CUSTOMER)) [] (Streampay_webhook sample_callback ''s'')
      (sample_io\<lparr>io_db := d2\<rparr>))) = d"
  proof (rule webhook_request_db [where ev = sample_event])
    show "parse_webhook (ap_repr (sample_env 5 (sample_bearer 4 UR_CUSTOMER))) sample_callback = Inr sample_event"
      by (simp add: parse_webhook_def parse_body_def sample_callback_def sample_event_def get_default_def json_get_def
          event_amount_def upper_text_def sample_amount)
  qed (use c in \<open>simp_all add: sample_env_def sample_io_def\<close>)
  ultimately show ?thesis by (simp add: sample_requests_def handle_request_def)
qed

theorem api_keeps_books_witness:
  "map w_balance (wallets (io_db (serve_all handle_request sample_requests sample_io))) = [0, 0, -1000, 0, 1000] \<and>
   report_ok (reconcile (io_db (serve_all handle_request sample_requests sample_io)))"
proof -
  obtain x d where "sample_run = Inr (x, d)" and "map w_balance (wallets d) = [0, 0, -1000, 0, 1000]"
    using sample_run_pays by (auto split: sum.splits)
  moreover have "fees_ok sample_settings" by code_simp
  moreover have "list_all (runs_under sample_settings) sample_requests"
    by (simp add: sample_requests_def runs_under_def ap_settings_def sample_env_def sample_registration_env_def
        sample_bearer_def sample_auth_def)
  ultimately show ?thesis
    using api_keeps_books [of sample_settings sample_requests sample_io] sample_requests_db by (simp add: sample_io_def)
qed


text \<open>C6: The routes are closed to everyone they are not meant for.  Only the health probes, the sign-in
  routes, the gateway's callback and, in development, two test routes are public.  Any other request
  without a good token of an allowed role is answered with the error of the check, and neither the
  database nor Redis changes; a callback whose signature does not verify is refused the same way, and
  outside development the test routes do nothing.\<close>

theorem routes_closed:
  "(\<forall>e. permitted (access r) (caller E h st) = Inl e \<longrightarrow>
      dispatch E h r st = (Inl e, st) \<and> (e = ForbiddenError \<or> caller E h st = Inl e)) \<and>
   (access r = Public \<longleftrightarrow> r \<in> {Health, Ready, Dev_ping} \<union> range Send_otp \<union> range Verify_otp \<union> range Register
      \<union> range Refresh \<union> range Simulate_payment \<union> {Streampay_webhook b sig | b sig. True}) \<and>
   (\<forall>b sig. r = Streampay_webhook b sig \<and> \<not> ap_verify E (raw_bytes b) sig \<longrightarrow>
      dispatch E h r st = (Inl InvalidWebhookSignatureError, st)) \<and>
   (\<forall>b. r = Simulate_payment b \<and> ENVIRONMENT (ap_settings E) \<noteq> ENV_DEVELOPMENT \<longrightarrow>
      dispatch E h r st = (Inr (respond 404 Empty), st))"
proof (intro conjI allI impI)
  fix e assume p: "permitted (access r) (caller E h st) = Inl e"
  show "dispatch E h r st = (Inl e, st)" by (rule dispatch_denied [OF p])
  show "e = ForbiddenError \<or> caller E h st = Inl e"
    using p by (cases "access r") (auto simp: and_then_def ensure_def split: sum.splits if_splits)
next
  show "access r = Public \<longleftrightarrow> r \<in> {Health, Ready, Dev_ping} \<union> range Send_otp \<union> range Verify_otp \<union> range Register
      \<union> range Refresh \<union> range Simulate_payment \<union> {Streampay_webhook b sig | b sig. True}"
    by (cases r) auto
qed (auto simp: streampay_webhook_route_def handle_webhook_def get_db_def)

theorem routes_closed_witness:
  "dispatch (sample_env 0 (sample_bearer 4 UR_CUSTOMER)) ''Bearer e30'' (Approve_withdrawal 9) sample_io =
     (Inl ForbiddenError, sample_io)"
  using routes_closed [of "Approve_withdrawal 9" "sample_env 0 (sample_bearer 4 UR_CUSTOMER)" "''Bearer e30''" sample_io]
    sample_caller [of sample_io 4 UR_CUSTOMER] by (simp add: sample_io_def)



text \<open>What validation promises to the services.  When the body of a new invoice passes the checks of
  its model, all its texts parse: between one and twenty lines with prices in whole halalas,
  quantities from 1 to 999 and tax rates between 0 and 1, and a fee that is not negative.  A top-up
  that passes is a positive amount in whole halalas, and the share of a split that passes is no share
  or one that is not negative.\<close>

theorem validated_bodies:
  "(check_create_invoice b = Inr True \<longrightarrow> (\<exists>n. invoice_input b = Inr n \<and> length_in 1 20 (ni_items n) \<and>
      list_all line_ok (ni_items n) \<and>
      0 \<le> ni_courier_fee_amount n \<and> is_money (ni_courier_fee_amount n))) \<and>
   (check_topup v = Inr True \<longrightarrow> (\<exists>m. parse_money (PyStr v) = Inr m \<and> 0 < m \<and> is_money m)) \<and>
   (check_resolve_dispute w = Inr True \<longrightarrow> (\<exists>m. split_amount (rv_courier_amount w) = Inr m \<and>
      (\<forall>a. m = Some a \<longrightarrow> 0 \<le> a \<and> is_money a)))"
proof (intro conjI impI)
  show "check_create_invoice b = Inr True \<Longrightarrow> \<exists>n. invoice_input b = Inr n \<and> length_in 1 20 (ni_items n) \<and>
      list_all line_ok (ni_items n) \<and>
      0 \<le> ni_courier_fee_amount n \<and> is_money (ni_courier_fee_amount n)"
    by (rule checked_invoice)
  show "check_topup v = Inr True \<Longrightarrow> \<exists>m. parse_money (PyStr v) = Inr m \<and> 0 < m \<and> is_money m"
    by (auto simp: check_topup_def dest!: money_fieldD)
  show "check_resolve_dispute w = Inr True \<Longrightarrow> \<exists>m. split_amount (rv_courier_amount w) = Inr m \<and>
      (\<forall>a. m = Some a \<longrightarrow> 0 \<le> a \<and> is_money a)"
    by (auto simp: check_resolve_dispute_def split_amount_def truthy_def split: option.splits if_splits dest!: money_parsedD)
qed

definition sample_invoice :: create_invoice_request where
  "sample_invoice = \<lparr>ci_items = [\<lparr>il_title = ''Flowers'', il_description = None, il_unit_price_amount = ''1000'',
     il_quantity = 2, il_tax_rate = ''1''\<rparr>], ci_courier_fee_amount = ''1000'', ci_promo_code = None\<rparr>"

theorem validated_bodies_witness:
  "\<exists>n. invoice_input sample_invoice = Inr n \<and> length (ni_items n) \<le> 20 \<and> list_all line_ok (ni_items n)"
proof -
  have "parse_decimal ''1'' = Some (Finite 1)"
    by (simp add: parse_decimal_def parse_number_def dec_value_def strip_def is_space_def take_sign_def lower_def is_digit_def
        digits_val_def digit_val_def)
  moreover have "half_up 10000 = 10000" using half_up_of_int [of 10000] by simp
  ultimately have "parse_rate (PyStr ''1'') = Inr 1"
    by (simp add: parse_rate_def to_decimal_def finite_value_def quantize_checked_def)
  then have "check_create_invoice sample_invoice = Inr True"
    by (simp add: check_create_invoice_def sample_invoice_def check_invoice_line_def length_in_def opt_max_def money_field_def
        rate_field_def parsed_field_def sample_amount code_field_def)
  then show ?thesis using validated_bodies [of sample_invoice "[]"] by (auto simp: length_in_def)
qed



end
