(* ===== verification/Http.thy ===== *)
theory Http
  imports Endpoints
begin

text \<open>
  The layers around the routes: \<open>app/main.py\<close> and \<open>app/core/middleware.py\<close>.  A layer is a function from
  a handler to a handler; a handler gets the request id bound in the context, the request and the
  state, and answers or raises.  The application stacks them as \<open>_install_middleware\<close> does: the security
  headers outermost, then CORS, the request id, the guards, and inside the handler of domain errors
  around the matched route.  Starlette installs the handler of \<open>Exception\<close> around the whole stack, so an
  exception that no other handler takes passes every layer before it is answered.  The CORS layer is
  Starlette's and a parameter.  Header names are in lower case, as Starlette reads and writes them; the
  message of an error is left out of its envelope.
\<close>

section \<open>Requests and responses\<close>

record http_request =
  rq_method :: string
  rq_path :: string
  rq_headers :: "(string \<times> string) list"
  rq_client :: "string option"

datatype wire_body =
    Reply_body reply
  | Envelope (envelope_code: string) (envelope_request_id: string)

record wire_response =
  wr_status :: int
  wr_headers :: "(string \<times> string) list"
  wr_body :: wire_body

type_synonym handler = "string \<Rightarrow> http_request \<Rightarrow> chat_io \<Rightarrow> (error + wire_response) \<times> chat_io"

definition request_header :: "string \<Rightarrow> http_request \<Rightarrow> string option" where
  "request_header n q = map_of (rq_headers q) n"

definition authorization :: "http_request \<Rightarrow> string" where
  "authorization q = (case request_header ''authorization'' q of None \<Rightarrow> [] | Some v \<Rightarrow> v)"

definition put_header :: "string \<Rightarrow> string \<Rightarrow> wire_response \<Rightarrow> wire_response" where
  "put_header n v p = p\<lparr>wr_headers := filter (\<lambda>(m, _). m \<noteq> n) (wr_headers p) @ [(n, v)]\<rparr>"

definition del_header :: "string \<Rightarrow> wire_response \<Rightarrow> wire_response" where
  "del_header n p = p\<lparr>wr_headers := filter (\<lambda>(m, _). m \<noteq> n) (wr_headers p)\<rparr>"

definition response_header :: "string \<Rightarrow> wire_response \<Rightarrow> string option" where
  "response_header n p = map_of (wr_headers p) n"

text \<open>\<open>error_response\<close>: the envelope carries the request id of the context.\<close>

definition error_response :: "string \<Rightarrow> int \<Rightarrow> string \<Rightarrow> (string \<times> string) list \<Rightarrow> wire_response" where
  "error_response rid status code headers = \<lparr>wr_status = status, wr_headers = headers, wr_body = Envelope code rid\<rparr>"

section \<open>Exception handlers\<close>

definition handle_domain :: "string \<Rightarrow> error \<Rightarrow> wire_response" where
  "handle_domain rid e = error_response rid (error_status e) (error_code e)
     (case e of RateLimitedError n \<Rightarrow> [(''retry-after'', quantity_text n)] | _ \<Rightarrow> [])"

definition handle_unexpected :: "string \<Rightarrow> error \<Rightarrow> wire_response" where
  "handle_unexpected rid e = error_response rid 500 ''INTERNAL_ERROR'' []"

definition domain_errors :: "handler \<Rightarrow> handler" where
  "domain_errors next rid q st =
     (case next rid q st of
        (Inl e, st) \<Rightarrow> (if is_domain_error e then Inr (handle_domain rid e) else Inl e, st)
      | res \<Rightarrow> res)"

text \<open>Outside every layer no request id is bound: the context variable has its default.\<close>

definition server_errors :: "handler \<Rightarrow> http_request \<Rightarrow> chat_io \<Rightarrow> wire_response \<times> chat_io" where
  "server_errors next q st =
     (case next ''-'' q st of (Inl e, st) \<Rightarrow> (handle_unexpected ''-'' e, st) | (Inr p, st) \<Rightarrow> (p, st))"

section \<open>Request id\<close>

definition request_id_of :: "string \<Rightarrow> http_request \<Rightarrow> string" where
  "request_id_of uuid4 q =
     (case request_header ''x-request-id'' q of None \<Rightarrow> uuid4 | Some v \<Rightarrow> if v = [] then uuid4 else v)"

definition request_id_layer :: "string \<Rightarrow> handler \<Rightarrow> handler" where
  "request_id_layer uuid4 next rid q st =
     (let request_id = request_id_of uuid4 q
      in case next request_id q st of
           (Inl e, st) \<Rightarrow> (Inl e, st)
         | (Inr p, st) \<Rightarrow> (Inr (put_header ''x-request-id'' request_id p), st))"

section \<open>Request guards\<close>

text \<open>\<open>int\<close> of a text: white space around it, a sign, single underscores between digits, and at most 4300 digits.\<close>

definition py_int :: "string \<Rightarrow> int option" where
  "py_int v =
     (let (neg, u) = take_sign (strip v);
          groups = split_on (CHR ''_'') u
      in if list_all (\<lambda>g. g \<noteq> [] \<and> list_all is_digit g) groups \<and> length (concat groups) \<le> 4300
         then Some (if neg then - int (digits_val (concat groups)) else int (digits_val (concat groups)))
         else None)"

definition guard_body_size :: "settings \<Rightarrow> string \<Rightarrow> http_request \<Rightarrow> wire_response option" where
  "guard_body_size s rid q =
     (case request_header ''content-length'' q of
        Some content_length \<Rightarrow>
          (let length = (case py_int content_length of None \<Rightarrow> 0 | Some n \<Rightarrow> n)
           in if length > MAX_REQUEST_BODY_BYTES (hardening_of s)
              then Some (error_response rid 413 ''PAYLOAD_TOO_LARGE'' []) else None)
      | None \<Rightarrow>
          if contains ''chunked'' (map lower (case request_header ''transfer-encoding'' q of None \<Rightarrow> [] | Some v \<Rightarrow> v))
          then Some (error_response rid 411 ''LENGTH_REQUIRED'' []) else None)"

definition client_identity :: "jwt_lib \<Rightarrow> settings \<Rightarrow> time \<Rightarrow> http_request \<Rightarrow> string" where
  "client_identity J s now q =
     (let header = authorization q;
          ip = ''ip:'' @ (case rq_client q of None \<Rightarrow> ''unknown'' | Some host \<Rightarrow> host)
      in if take 7 header = ''Bearer '' then
           (case decode_access_token J s now (strip (drop 7 header)) of Inl _ \<Rightarrow> ip | Inr c \<Rightarrow> ''user:'' @ ac_sub c)
         else ip)"

definition http_limiter :: "settings \<Rightarrow> rate_limiter" where
  "http_limiter s = \<lparr>rl_max = RATE_LIMIT_MAX_REQUESTS (hardening_of s), rl_window = RATE_LIMIT_WINDOW_SECONDS (hardening_of s)\<rparr>"

definition unthrottled :: "settings \<Rightarrow> http_request \<Rightarrow> bool" where
  "unthrottled s q \<longleftrightarrow> \<not> RATE_LIMIT_ENABLED (hardening_of s) \<or> rq_method q = ''OPTIONS'' \<or>
     take 11 (rq_path q) = ''/api/health''"

definition request_guards :: "jwt_lib \<Rightarrow> settings \<Rightarrow> time \<Rightarrow> bool \<Rightarrow> handler \<Rightarrow> handler" where
  "request_guards J s now up next rid q st =
     (case guard_body_size s rid q of Some rejected \<Rightarrow> (Inr rejected, st)
      | None \<Rightarrow>
        if unthrottled s q then next rid q st
        else
          (let (d, r) = check (http_limiter s) (client_identity J s now q) up (now div 1000) (io_redis st)
           in if allowed d then next rid q (st\<lparr>io_redis := r\<rparr>)
              else (Inr (error_response rid 429 ''RATE_LIMITED'' [(''retry-after'', quantity_text (retry_after_seconds d))]),
                    st\<lparr>io_redis := r\<rparr>)))"

section \<open>Security headers\<close>

definition SECURITY_HEADERS :: "(string \<times> string) list" where
  "SECURITY_HEADERS =
     [(''x-content-type-options'', ''nosniff''), (''x-frame-options'', ''DENY''), (''referrer-policy'', ''no-referrer''),
      (''strict-transport-security'', ''max-age=63072000; includeSubDomains'')]"

definition quoted :: "string \<Rightarrow> string" where
  "quoted t = CHR 0x27 # t @ [CHR 0x27]"

definition ADMIN_CSP :: string where
  "ADMIN_CSP = ''default-src '' @ quoted ''self'' @ ''; script-src '' @ quoted ''self'' @ ''; object-src '' @ quoted ''none'' @
     ''; frame-ancestors '' @ quoted ''none'' @ ''; base-uri '' @ quoted ''none''"

definition stamp :: "http_request \<Rightarrow> wire_response \<Rightarrow> wire_response" where
  "stamp q p =
     (let p = fold (\<lambda>(n, v). put_header n v) SECURITY_HEADERS p;
          p = (if take 6 (rq_path q) = ''/admin'' then put_header ''content-security-policy'' ADMIN_CSP p else p)
      in del_header ''x-powered-by'' (del_header ''server'' p))"

definition security_headers :: "handler \<Rightarrow> handler" where
  "security_headers next rid q st =
     (case next rid q st of (Inl e, st) \<Rightarrow> (Inl e, st) | (Inr p, st) \<Rightarrow> (Inr (stamp q p), st))"

section \<open>The application\<close>

text \<open>A route answers with its status and body.\<close>

definition route_handler :: "api_env \<Rightarrow> route \<Rightarrow> handler" where
  "route_handler E r rid q st =
     (case dispatch E (authorization q) r st of
        (Inl e, st) \<Rightarrow> (Inl e, st)
      | (Inr p, st) \<Rightarrow> (Inr \<lparr>wr_status = hr_status p, wr_headers = [], wr_body = Reply_body (hr_body p)\<rparr>, st))"

text \<open>The origins and whether credentials are allowed.\<close>

type_synonym cors_policy = "string list \<times> bool"

definition install_cors :: "settings \<Rightarrow> cors_policy" where
  "install_cors s = (if ENVIRONMENT s = ENV_DEVELOPMENT then ([''*''], False) else (cors_origins s, True))"

definition install_middleware :: "(cors_policy \<Rightarrow> handler \<Rightarrow> handler) \<Rightarrow> api_env \<Rightarrow> string \<Rightarrow> handler \<Rightarrow> handler" where
  "install_middleware cors E uuid4 app =
     security_headers (cors (install_cors (ap_settings E)) (request_id_layer uuid4
       (request_guards (ae_jwt (ap_auth E)) (ap_settings E) (ap_now E) (ap_redis_up E) (domain_errors app))))"

definition serve :: "(cors_policy \<Rightarrow> handler \<Rightarrow> handler) \<Rightarrow> api_env \<Rightarrow> string \<Rightarrow> route \<Rightarrow> http_request \<Rightarrow> chat_io \<Rightarrow> wire_response \<times> chat_io" where
  "serve cors E uuid4 r = server_errors (install_middleware cors E uuid4 (route_handler E r))"

section \<open>Headers\<close>

lemma response_header_put [simp]:
  "response_header m (put_header n v p) = (if m = n then Some v else response_header m p)"
proof -
  have "map_of (filter (\<lambda>(k, _). k \<noteq> n) hs @ [(n, v)]) m = (if m = n then Some v else map_of hs m)"
    for hs :: "(string \<times> string) list"
    by (induction hs) (auto simp: map_add_def split: option.splits)
  then show ?thesis by (simp add: response_header_def put_header_def)
qed

lemma response_header_del [simp]:
  "response_header m (del_header n p) = (if m = n then None else response_header m p)"
proof -
  have "map_of (filter (\<lambda>(k, _). k \<noteq> n) hs) m = (if m = n then None else map_of hs m)"
    for hs :: "(string \<times> string) list"
    by (induction hs) auto
  then show ?thesis by (simp add: response_header_def del_header_def)
qed

lemma put_del_keep [simp]:
  "wr_status (put_header n v p) = wr_status p" "wr_body (put_header n v p) = wr_body p"
  "wr_status (del_header n p) = wr_status p" "wr_body (del_header n p) = wr_body p"
  by (simp_all add: put_header_def del_header_def)

definition secured :: "http_request \<Rightarrow> wire_response \<Rightarrow> bool" where
  "secured q p \<longleftrightarrow> list_all (\<lambda>(n, v). response_header n p = Some v) SECURITY_HEADERS \<and>
     response_header ''server'' p = None \<and> response_header ''x-powered-by'' p = None \<and>
     (take 6 (rq_path q) = ''/admin'' \<longrightarrow> response_header ''content-security-policy'' p = Some ADMIN_CSP)"

lemma stamp_secured: "secured q (stamp q p)"
  by (simp add: secured_def stamp_def SECURITY_HEADERS_def Let_def)

lemma stamp_keeps [simp]:
  "wr_status (stamp q p) = wr_status p" "wr_body (stamp q p) = wr_body p"
  "response_header ''x-request-id'' (stamp q p) = response_header ''x-request-id'' p"
  "response_header ''retry-after'' (stamp q p) = response_header ''retry-after'' p"
  by (simp_all add: stamp_def SECURITY_HEADERS_def Let_def)

section \<open>What the client sees\<close>

text \<open>Without an \<open>Origin\<close> header the CORS layer calls the next one.\<close>

definition same_origin_passes :: "(cors_policy \<Rightarrow> handler \<Rightarrow> handler) \<Rightarrow> bool" where
  "same_origin_passes cors \<longleftrightarrow>
     (\<forall>policy next rid q st. request_header ''origin'' q = None \<longrightarrow> cors policy next rid q st = next rid q st)"

text \<open>What the guards decide before a route runs: a rejection, or the state in which the route starts.\<close>

definition admitted :: "api_env \<Rightarrow> string \<Rightarrow> http_request \<Rightarrow> chat_io \<Rightarrow> (wire_response \<times> chat_io) + chat_io" where
  "admitted E rid q st =
     (case guard_body_size (ap_settings E) rid q of Some p \<Rightarrow> Inl (p, st)
      | None \<Rightarrow>
        if unthrottled (ap_settings E) q then Inr st
        else let (d, r) = check (http_limiter (ap_settings E)) (client_identity (ae_jwt (ap_auth E)) (ap_settings E) (ap_now E) q)
                 (ap_redis_up E) (ap_now E div 1000) (io_redis st)
             in if allowed d then Inr (st\<lparr>io_redis := r\<rparr>)
                else Inl (error_response rid 429 ''RATE_LIMITED'' [(''retry-after'', quantity_text (retry_after_seconds d))],
                       st\<lparr>io_redis := r\<rparr>))"

definition finished :: "string \<Rightarrow> http_request \<Rightarrow> wire_response \<Rightarrow> wire_response" where
  "finished rid q p = stamp q (put_header ''x-request-id'' rid p)"

lemma serve_layers:
  assumes "same_origin_passes cors" and "request_header ''origin'' q = None"
  shows "serve cors E uuid4 r q st =
    (case request_guards (ae_jwt (ap_auth E)) (ap_settings E) (ap_now E) (ap_redis_up E) (domain_errors (route_handler E r))
        (request_id_of uuid4 q) q st of
       (Inr p, st2) \<Rightarrow> (finished (request_id_of uuid4 q) q p, st2)
     | (Inl e, st2) \<Rightarrow> (handle_unexpected ''-'' e, st2))"
proof -
  have "cors policy app ''-'' q st = app ''-'' q st" for policy app
    using assms unfolding same_origin_passes_def by blast
  then show ?thesis
    by (simp add: serve_def server_errors_def install_middleware_def security_headers_def request_id_layer_def Let_def
      finished_def split: prod.splits sum.splits)
qed

lemma serve_rejected:
  assumes "same_origin_passes cors" and "request_header ''origin'' q = None"
    and "admitted E (request_id_of uuid4 q) q st = Inl (p, st')"
  shows "serve cors E uuid4 r q st = (finished (request_id_of uuid4 q) q p, st')"
proof -
  have "request_guards (ae_jwt (ap_auth E)) (ap_settings E) (ap_now E) (ap_redis_up E) app (request_id_of uuid4 q) q st =
      (Inr p, st')" for app
    using assms(3) by (auto simp: request_guards_def admitted_def Let_def split: option.splits if_splits prod.splits)
  then show ?thesis by (simp add: serve_layers[OF assms(1,2)])
qed

lemma serve_admitted:
  assumes "same_origin_passes cors" and "request_header ''origin'' q = None"
    and "admitted E (request_id_of uuid4 q) q st = Inr st1"
  shows "serve cors E uuid4 r q st =
    (case dispatch E (authorization q) r st1 of
       (Inr p, st2) \<Rightarrow> (finished (request_id_of uuid4 q) q
          \<lparr>wr_status = hr_status p, wr_headers = [], wr_body = Reply_body (hr_body p)\<rparr>, st2)
     | (Inl e, st2) \<Rightarrow>
        (if is_domain_error e then finished (request_id_of uuid4 q) q (handle_domain (request_id_of uuid4 q) e)
         else handle_unexpected ''-'' e, st2))"
proof -
  have "request_guards (ae_jwt (ap_auth E)) (ap_settings E) (ap_now E) (ap_redis_up E) app (request_id_of uuid4 q) q st =
      app (request_id_of uuid4 q) q st1" for app
    using assms(3) by (auto simp: request_guards_def admitted_def Let_def split: option.splits if_splits prod.splits)
  then show ?thesis
    by (simp add: serve_layers[OF assms(1,2)] domain_errors_def route_handler_def split: prod.splits sum.splits)
qed

lemma admitted_db: "admitted E rid q st = Inl (p, st') \<Longrightarrow> io_db st' = io_db st" "admitted E rid q st = Inr st' \<Longrightarrow> io_db st' = io_db st"
  by (auto simp: admitted_def Let_def split: option.splits if_splits prod.splits)

lemma refused_wait: "check l i up t r = (d, r') \<Longrightarrow> \<not> allowed d \<Longrightarrow> 0 < retry_after_seconds d"
  by (auto simp: check_def split: sum.splits if_splits)

lemma finished_simps [simp]:
  "wr_status (finished rid q p) = wr_status p" "wr_body (finished rid q p) = wr_body p"
  "response_header ''x-request-id'' (finished rid q p) = Some rid"
  "response_header ''retry-after'' (finished rid q p) = response_header ''retry-after'' p"
  "secured q (finished rid q p)"
  by (simp_all add: finished_def stamp_secured)

lemma error_response_simps [simp]:
  "wr_status (error_response rid n c hs) = n" "wr_body (error_response rid n c hs) = Envelope c rid"
  "response_header m (error_response rid n c hs) = map_of hs m"
  by (simp_all add: error_response_def response_header_def)


definition large_upload :: http_request where
  "large_upload = \<lparr>rq_method = ''POST'', rq_path = ''/api/orders'', rq_headers = [(''content-length'', ''99999999999'')],
     rq_client = Some ''10.0.0.1''\<rparr>"




section \<open>The application factory\<close>

record application =
  app_clients :: clients
  app_docs_url :: "string option"
  app_redoc_url :: "string option"
  app_openapi_url :: "string option"
  app_cors :: cors_policy
  app_routers :: "string list"

definition create_app :: "settings \<Rightarrow> error + application" where
  "create_app s =
     and_then (build_clients s) (\<lambda>c. Inr
       \<lparr>app_clients = c,
        app_docs_url = (if docs_enabled s then Some ''/docs'' else None),
        app_redoc_url = (if docs_enabled s then Some ''/redoc'' else None),
        app_openapi_url = (if docs_enabled s then Some ''/openapi.json'' else None),
        app_cors = install_cors s,
        app_routers = [''health'', ''auth'', ''users'', ''wallets'', ''media'', ''orders'', ''invoices'', ''promos'', ''webhooks'',
            ''ratings'', ''admin_api'', ''chat'', ''devices''] @
          (if ADMIN_DASHBOARD_ENABLED (admin_of s) then [''admin''] else []) @
          (if ENVIRONMENT s = ENV_DEVELOPMENT then [''dev''] else [])\<rparr>)"

text \<open>A wildcard origin never comes with credentials; in production there is neither a wildcard nor a
  fake client, the documentation is off and the development routes are absent.\<close>

lemma production_app:
  assumes "validate_boot s = Inr ()" and "create_app s = Inr a"
  shows "is_production s \<Longrightarrow> Fake \<notin> set (client_list (app_clients a)) \<and> app_docs_url a = None \<and> app_openapi_url a = None \<and>
      ''dev'' \<notin> set (app_routers a)"
    and "''*'' \<in> set (fst (app_cors a)) \<Longrightarrow> \<not> is_production s"
proof -
  have il: "validate_production_interlock s = Inr ()" if "is_production s"
    using assms that validate_boot_parts(5) by blast
  obtain c where c: "build_clients s = Inr c" and a: "app_clients a = c" "app_cors a = install_cors s"
      "app_docs_url a = (if docs_enabled s then Some ''/docs'' else None)"
      "app_openapi_url a = (if docs_enabled s then Some ''/openapi.json'' else None)"
      "''dev'' \<in> set (app_routers a) \<longleftrightarrow> ENVIRONMENT s = ENV_DEVELOPMENT"
    using assms(2) by (cases "build_clients s") (auto simp: create_app_def and_then_def)
  show "Fake \<notin> set (client_list (app_clients a)) \<and> app_docs_url a = None \<and> app_openapi_url a = None \<and>
      ''dev'' \<notin> set (app_routers a)" if p: "is_production s"
  proof -
    have "require_production_fields s = Inr ()" using il[OF p] by (simp add: validate_production_interlock_def)
    then have "Fake \<notin> set (client_list c)" using build_production_ok[of s] c p by (simp add: build_clients_def)
    then show ?thesis using p unfolding a docs_enabled_def is_production_def by simp
  qed
  show "\<not> is_production s" if w: "''*'' \<in> set (fst (app_cors a))"
  proof
    assume p: "is_production s"
    have "''*'' \<notin> set (cors_origins s)" using il[OF p] by (simp add: validate_production_interlock_def)
    then show False using w p unfolding a install_cors_def is_production_def by simp
  qed
qed

end
