(* ===== verification/Account_Book.thy ===== *)
theory Account_Book
  imports Ledger
begin

text \<open>
  The abstract specification of the ledger: a book of balances and of the idempotency keys that
  were used.  Posting a group adds its amounts once; a group with a used key changes nothing.  The
  interface \<open>book_impl\<close> says what an implementation owes to the book, its lemmas say what sequences
  of postings and retries do, and \<open>MoneyService.post_group\<close> (\<open>app/services/money_service.py\<close>) over the tables implements it.
\<close>

section \<open>The book\<close>

record book =
  bk_balance :: "uuid \<Rightarrow> money"
  bk_keys :: "string set"

definition legs_keys :: "leg list \<Rightarrow> string set" where
  "legs_keys legs = {k. k \<noteq> [] \<and> Some k \<in> leg_idempotency_key ` set legs}"

definition book_post :: "leg list \<Rightarrow> book \<Rightarrow> bool \<times> book" where
  "book_post legs b =
     (if legs_keys legs \<inter> bk_keys b \<noteq> {} then (False, b)
      else (True, \<lparr>bk_balance = (\<lambda>i. bk_balance b i + legs_delta i legs), bk_keys = bk_keys b \<union> legs_keys legs\<rparr>))"

fun book_run :: "leg list list \<Rightarrow> book \<Rightarrow> bool list \<times> book" where
  "book_run [] b = ([], b)"
| "book_run (g # gs) b = (let (p, b) = book_post g b; (ps, b) = book_run gs b in (p # ps, b))"

lemma book_post_keys: "bk_keys b \<subseteq> bk_keys (snd (book_post g b))"
  by (auto simp: book_post_def)

lemma book_run_keys: "bk_keys b \<subseteq> bk_keys (snd (book_run gs b))"
proof (induction gs arbitrary: b)
  case (Cons g gs)
  then show ?case using book_post_keys [of b g] by (auto simp: case_prod_unfold Let_def)
qed simp

lemma book_post_used: "legs_keys g \<noteq> {} \<Longrightarrow> legs_keys g \<inter> bk_keys (snd (book_post g b)) \<noteq> {}"
  by (auto simp: book_post_def)

lemma book_run_used: "g \<in> set gs \<Longrightarrow> legs_keys g \<noteq> {} \<Longrightarrow> legs_keys g \<inter> bk_keys (snd (book_run gs b)) \<noteq> {}"
proof (induction gs arbitrary: b)
  case (Cons h gs)
  show ?case
  proof (cases "g = h")
    case True
    then show ?thesis
      using book_post_used [OF Cons.prems(2), of b] book_run_keys [of "snd (book_post h b)" gs]
      by (auto simp: case_prod_unfold Let_def)
  next
    case False
    then show ?thesis using Cons by (simp add: case_prod_unfold Let_def)
  qed
qed simp

lemma book_run_balance:
  "bk_balance (snd (book_run gs b)) i =
     bk_balance b i + (\<Sum>(g, p) \<leftarrow> zip gs (fst (book_run gs b)). if p then legs_delta i g else 0)"
proof (induction gs arbitrary: b)
  case (Cons g gs)
  then show ?case by (auto simp: case_prod_unfold Let_def book_post_def)
qed simp

section \<open>Implementations of the book\<close>

text \<open>\<open>post\<close> is one transaction: it may raise, and then nothing happened.\<close>

locale book_impl =
  fixes ok :: "'d \<Rightarrow> bool" and abs :: "'d \<Rightarrow> book" and post :: "leg list \<Rightarrow> 'd \<Rightarrow> error + bool \<times> 'd"
  assumes refines: "ok d \<Longrightarrow> legs_ok g \<Longrightarrow> post g d = Inr (p, d') \<Longrightarrow> ok d' \<and> book_post g (abs d) = (p, abs d')"
    and replay: "ok d \<Longrightarrow> legs_ok g \<Longrightarrow> validate_legs g = Inr () \<Longrightarrow> legs_keys g \<inter> bk_keys (abs d) \<noteq> {} \<Longrightarrow>
      \<exists>d'. post g d = Inr (False, d')"
    and balanced: "post g d = Inr (p, d') \<Longrightarrow> validate_legs g = Inr ()"
begin

fun run :: "leg list list \<Rightarrow> 'd \<Rightarrow> error + bool list \<times> 'd" where
  "run [] d = Inr ([], d)"
| "run (g # gs) d = and_then (post g d) (\<lambda>(p, d). and_then (run gs d) (\<lambda>(ps, d). Inr (p # ps, d)))"

lemma run_refines:
  "run gs d = Inr (ps, d') \<Longrightarrow> ok d \<Longrightarrow> list_all legs_ok gs \<Longrightarrow> ok d' \<and> book_run gs (abs d) = (ps, abs d')"
proof (induction gs arbitrary: d ps)
  case (Cons g gs)
  obtain p e qs where p: "post g d = Inr (p, e)" "run gs e = Inr (qs, d')" "ps = p # qs"
    using Cons.prems(1) by auto
  have "ok e \<and> book_post g (abs d) = (p, abs e)" using refines [OF Cons.prems(2) _ p(1)] Cons.prems(3) by simp
  with Cons.IH [OF p(2)] Cons.prems(3) p(3) show ?case by simp
qed simp

lemma run_balanced: "run gs d = Inr (ps, d') \<Longrightarrow> g \<in> set gs \<Longrightarrow> validate_legs g = Inr ()"
  by (induction gs arbitrary: d ps) (auto dest: balanced)

text \<open>Retries of groups that are in the book already post nothing.\<close>

lemma retries:
  assumes "ok d" and "\<And>g. g \<in> set gs \<Longrightarrow> legs_ok g \<and> validate_legs g = Inr () \<and> legs_keys g \<inter> bk_keys (abs d) \<noteq> {}"
  shows "\<exists>d'. run gs d = Inr (replicate (length gs) False, d') \<and> abs d' = abs d"
  using assms
proof (induction gs arbitrary: d)
  case (Cons g gs)
  obtain e where e: "post g d = Inr (False, e)" using replay [OF Cons.prems(1)] Cons.prems(2) [of g] by auto
  then have "ok e \<and> abs e = abs d"
    using refines [OF Cons.prems(1) _ e] Cons.prems(2) [of g] by (auto simp: book_post_def split: if_splits)
  with Cons.IH [of e] Cons.prems(2) e show ?case by auto
qed simp

lemma exactly_once:
  assumes "ok d" and "list_all legs_ok gs" and "run gs d = Inr (ps, d')"
    and "set again \<subseteq> set gs" and "\<forall>g \<in> set again. legs_keys g \<noteq> {}"
  shows "\<exists>d''. run again d' = Inr (replicate (length again) False, d'') \<and> abs d'' = abs d'"
proof (rule retries)
  note R = run_refines [OF assms(3,1,2)]
  show "ok d'" using R by blast
  fix g assume g: "g \<in> set again"
  then have "legs_keys g \<inter> bk_keys (snd (book_run gs (abs d))) \<noteq> {}"
    using assms(4,5) by (intro book_run_used) auto
  then show "legs_ok g \<and> validate_legs g = Inr () \<and> legs_keys g \<inter> bk_keys (abs d') \<noteq> {}"
    using R g assms(2,4) run_balanced [OF assms(3)] by (auto simp: list_all_iff)
qed

end

section \<open>The ledger implements the book\<close>

definition book_of :: "db \<Rightarrow> book" where
  "book_of d = \<lparr>bk_balance = (\<lambda>i. balance_of i d), bk_keys = {k. k \<noteq> [] \<and> idempotency_key_exists k d}\<rparr>"

text \<open>A movement draws its correlation identifier and posts.\<close>

definition post_fresh :: "leg list \<Rightarrow> db \<Rightarrow> error + bool \<times> db" where
  "post_fresh legs d = (let (c, d) = fresh d in post_group legs c d)"

lemma any_key_iff: "any_key_exists legs d \<longleftrightarrow> legs_keys legs \<inter> bk_keys (book_of d) \<noteq> {}"
  by (force simp: any_key_exists_def legs_keys_def book_of_def list_ex_iff image_iff split: option.splits)

lemma any_key_next [simp]: "any_key_exists legs (d\<lparr>next_id := n\<rparr>) = any_key_exists legs d"
  by (simp add: any_key_exists_def idempotency_key_exists_def cong: option.case_cong)

lemma post_fresh_refines:
  assumes "ledger_ok d" and "legs_ok g" and "post_fresh g d = Inr (p, d')"
  shows "ledger_ok d' \<and> book_post g (book_of d) = (p, book_of d')"
proof -
  let ?e = "d\<lparr>next_id := next_id d + 1\<rparr>"
  have post: "post_group g (next_id d) ?e = Inr (p, d')" using assms(3) by (simp add: post_fresh_def fresh_def)
  note P = post_group_cases [OF post]
  have e: "ledger_ok ?e" using assms(1) by (intro ledger_ok_next_id) auto
  have bal: "balance_of i d' = balance_of i d + (if p then legs_delta i g else 0)" for i
    by (rule post_fresh_balance(1) [OF post assms(1,2)])
  have "{k. k \<noteq> [] \<and> idempotency_key_exists k d'} = {k. k \<noteq> [] \<and> idempotency_key_exists k d} \<union> (if p then legs_keys g else {})"
  proof (cases p)
    case True
    then obtain ts where ts: "transactions d' = transactions ?e @ ts" "list_all2 (row_of_leg (next_id d)) g ts"
      using P write_group_effect(5) [OF _ e assms(2)] by blast
    have "tx_idempotency_key ` set ts = leg_idempotency_key ` set g"
      using rows_amounts(6) [OF ts(2)] by (metis set_map)
    then show ?thesis
      using True key_exists_append [OF ts(1)] by (auto simp: legs_keys_def idempotency_key_exists_def)
  next
    case False
    then show ?thesis using P by (auto simp: idempotency_key_exists_def)
  qed
  then have abs: "book_of d' = \<lparr>bk_balance = (\<lambda>i. balance_of i d + (if p then legs_delta i g else 0)),
      bk_keys = bk_keys (book_of d) \<union> (if p then legs_keys g else {})\<rparr>"
    using bal by (simp add: book_of_def)
  have "p \<longleftrightarrow> legs_keys g \<inter> bk_keys (book_of d) = {}" using P any_key_iff [of g d] by auto
  then have "book_post g (book_of d) = (p, book_of d')"
    unfolding abs by (cases p) (simp_all add: book_post_def book_of_def)
  then show ?thesis using post_fresh_ledger_ok(1) [OF post assms(1,2)] by blast
qed

interpretation ledger_book: book_impl ledger_ok book_of post_fresh
proof unfold_locales
  show "\<exists>d'. post_fresh g d = Inr (False, d')"
    if "validate_legs g = Inr ()" "legs_keys g \<inter> bk_keys (book_of d) \<noteq> {}" for d g
    using that by (simp add: any_key_iff [symmetric] post_fresh_def fresh_def post_group_def post_group_at_def)
  show "validate_legs g = Inr ()" if "post_fresh g d = Inr (p, d')" for g d p d'
    using that post_group_cases [of g "next_id d" "d\<lparr>next_id := next_id d + 1\<rparr>" p d'] by (auto simp: post_fresh_def fresh_def)
qed (use post_fresh_refines in blast)

fun post_all :: "leg list list \<Rightarrow> db \<Rightarrow> error + bool list \<times> db" where
  "post_all [] d = Inr ([], d)"
| "post_all (g # gs) d =
     and_then (post_fresh g d) (\<lambda>(p, d). and_then (post_all gs d) (\<lambda>(ps, d). Inr (p # ps, d)))"

lemma post_all_run: "ledger_book.run gs d = post_all gs d"
  by (induction gs arbitrary: d) (auto simp: and_then_def split: sum.splits prod.splits)

text \<open>C3: The ledger refines an account book.  Whatever groups of legs are posted one after the other
  to a consistent ledger, the balances of the wallets and the reports to the callers are those of a
  book that adds each group at most once per idempotency key: a balance is what it was plus the
  legs of the groups that were posted.  Delivering groups again that carry a key, in any
  number and order, is reported as a replay each time and changes no balance and no key.\<close>

theorem ledger_refines_book:
  assumes "ledger_ok d" and "list_all legs_ok gs" and "post_all gs d = Inr (ps, d')"
  shows "ledger_ok d' \<and> book_run gs (book_of d) = (ps, book_of d') \<and>
    (\<forall>i. balance_of i d' = balance_of i d + (\<Sum>(g, p) \<leftarrow> zip gs ps. if p then legs_delta i g else 0)) \<and>
    (\<forall>again. set again \<subseteq> set gs \<and> (\<forall>g \<in> set again. keyed g) \<longrightarrow>
      (\<exists>d''. post_all again d' = Inr (replicate (length again) False, d'') \<and> book_of d'' = book_of d'))"
proof -
  note R = ledger_book.run_refines [unfolded post_all_run, OF assms(3,1,2)]
  have bal: "balance_of i d' = balance_of i d + (\<Sum>(g, p) \<leftarrow> zip gs ps. if p then legs_delta i g else 0)" for i
    using book_run_balance [of gs "book_of d" i] R by (simp add: book_of_def)
  have "legs_keys g \<noteq> {}" if "keyed g" for g
    using that by (fastforce simp: keyed_def legs_keys_def list_ex_iff image_iff)
  then show ?thesis
    using R bal ledger_book.exactly_once [unfolded post_all_run, OF assms] by blast
qed

theorem ledger_refines_book_witness:
  "\<exists>d'. post_all [sample_legs, sample_legs] sample_db = Inr ([True, False], d') \<and>
     balance_of 4 d' = balance_of 4 sample_db + legs_delta 4 sample_legs"
proof -
  have "case post_all [sample_legs, sample_legs] sample_db of Inl _ \<Rightarrow> False | Inr (ps, d') \<Rightarrow> ps = [True, False]"
    by code_simp
  then obtain d' where p: "post_all [sample_legs, sample_legs] sample_db = Inr ([True, False], d')"
    by (auto split: sum.splits)
  have "list_all legs_ok [sample_legs, sample_legs]" using sample_legs_ok by simp
  from ledger_refines_book [OF sample_ledger_ok this p]
  have "balance_of 4 d' = balance_of 4 sample_db + legs_delta 4 sample_legs" by simp
  with p show ?thesis by (intro exI [of _ d'] conjI)
qed

end
