(* ===== verification/Receipts.thy ===== *)
theory Receipts
  imports Workers "HOL-Library.Multiset"
begin

text \<open>
  What the receipt sweeper of \<open>app/workers/receipts.py\<close> achieves: the set of paid invoices
  without a receipt is drained, each customer gets one message.
\<close>

definition unsent :: "db \<Rightarrow> invoice list" where
  "unsent d = filter (\<lambda>i. inv_status i = IS_PAID \<and> inv_receipt_email_sent_at i = None) (invoices d)"

text \<open>The rows satisfy the constraints of the table.\<close>

definition invoice_rows_ok :: "db \<Rightarrow> bool" where
  "invoice_rows_ok d \<longleftrightarrow> distinct (map inv_id (invoices d)) \<and> list_all (\<lambda>i. chk_invoice i \<and> sole_active i d) (invoices d)"

text \<open>The message an invoice calls for, if its customer has an address.\<close>

definition receipt_mails :: "settings \<Rightarrow> db \<Rightarrow> invoice \<Rightarrow> email list" where
  "receipt_mails s d i =
     (case customer_email i d of None \<Rightarrow> []
      | Some addr \<Rightarrow> [\<lparr>em_to = addr, em_template = template_key s, em_variables = receipt_variables i,
          em_paid_at = inv_paid_at i\<rparr>])"

definition stamped :: "time \<Rightarrow> invoice \<Rightarrow> invoice" where
  "stamped now i = i\<lparr>inv_receipt_email_sent_at := Some now\<rparr>"

lemma stamped_simps [simp]:
  "inv_id (stamped now i) = inv_id i" "inv_status (stamped now i) = inv_status i"
  "inv_order_id (stamped now i) = inv_order_id i" "is_active (stamped now i) = is_active i"
  "chk_invoice (stamped now i) = chk_invoice i" "inv_receipt_email_sent_at (stamped now i) = Some now"
  by (simp_all add: stamped_def is_active_def chk_invoice_def)

lemma sole_active_stamped [simp]: "sole_active (stamped now i) d = sole_active i d"
  by (simp add: sole_active_def)

lemma unsentD: "i \<in> set (unsent d) \<Longrightarrow> i \<in> set (invoices d) \<and> inv_status i = IS_PAID \<and> inv_receipt_email_sent_at i = None"
  by (simp add: unsent_def)

lemma row_found: "invoice_rows_ok d \<Longrightarrow> i \<in> set (invoices d) \<Longrightarrow> get_invoice (inv_id i) d = Some i"
  by (simp add: invoice_rows_ok_def get_invoice_def find_by_mem)

lemma stamp_rows_ok:
  assumes "invoice_rows_ok d" and "i \<in> set (invoices d)"
  shows "invoice_rows_ok (put_invoice (stamped now i) d)"
proof -
  let ?f = "\<lambda>j. if inv_id j = inv_id i then stamped now i else j"
  have keep: "inv_id (?f j) = inv_id j" "inv_order_id (?f j) = inv_order_id j" "is_active (?f j) = is_active j"
    "chk_invoice (?f j) = chk_invoice j" if "j \<in> set (invoices d)" for j
    using row_found [OF assms] row_found [OF assms(1) that] by auto
  have rows: "invoices (put_invoice (stamped now i) d) = map ?f (invoices d)"
    by (simp add: put_invoice_def put_by_def)
  have sole: "sole_active j (put_invoice (stamped now i) d) \<longleftrightarrow> sole_active j d" for j
    unfolding sole_active_def rows list.pred_map comp_def by (simp add: keep cong: list.pred_cong)
  have "sole_active (?f j) d" if "j \<in> set (invoices d)" for j
    using assms that by (auto simp: invoice_rows_ok_def list_all_iff)
  then have "list_all (\<lambda>j. chk_invoice (?f j) \<and> sole_active (?f j) d) (invoices d)"
    using assms(1) keep(4) by (simp add: invoice_rows_ok_def list_all_iff)
  moreover have ids: "map inv_id (map ?f (invoices d)) = map inv_id (invoices d)" by simp
  ultimately show ?thesis
    using assms(1) unfolding invoice_rows_ok_def sole rows ids list.pred_map comp_def by blast
qed

lemma filter_stamped:
  "filter (\<lambda>i. inv_status i = IS_PAID \<and> inv_receipt_email_sent_at i = None) (put_by inv_id (stamped now i) xs) =
   filter (\<lambda>j. inv_id j \<noteq> inv_id i) (filter (\<lambda>i. inv_status i = IS_PAID \<and> inv_receipt_email_sent_at i = None) xs)"
  by (induction xs) (auto simp: put_by_def)

lemma stamp_unsent: "unsent (put_invoice (stamped now i) d) = filter (\<lambda>j. inv_id j \<noteq> inv_id i) (unsent d)"
  by (simp add: unsent_def put_invoice_def filter_stamped)

lemma stamp_mails: "receipt_mails s (put_invoice j d) = receipt_mails s d"
  by (rule ext) (simp add: receipt_mails_def customer_email_def get_order_def get_user_def put_invoice_def cong: option.case_cong)

lemma send_receipt_accepted:
  assumes "invoice_rows_ok (ob_db ob)" and "i \<in> set (unsent (ob_db ob))" and "\<forall>m. provider m"
  shows "snd (send_receipt now s provider (inv_id i) ob) =
    ob\<lparr>ob_db := put_invoice (stamped now i) (ob_db ob), ob_sent := ob_sent ob @ receipt_mails s (ob_db ob) i\<rparr>"
proof -
  note U = unsentD [OF assms(2)]
  have "get_invoice (inv_id i) (ob_db ob) = Some i" using row_found [OF assms(1)] U by blast
  moreover have "mark_receipt_sent now i (ob_db ob) = Inr (put_invoice (stamped now i) (ob_db ob))"
    using assms(1) U by (auto simp: mark_receipt_sent_def flush_invoice_def invoice_rows_ok_def list_all_iff
        simp flip: stamped_def)
  ultimately show ?thesis
    using U assms(3) by (simp add: send_receipt_def attempt_tx_def receipt_mails_def Let_def split: option.splits)
qed

lemma send_all_accepted:
  assumes "invoice_rows_ok (ob_db ob)" and "set is \<subseteq> set (unsent (ob_db ob))" and "distinct (map inv_id is)"
    and "\<forall>m. provider m" and "ob' = snd (send_all now s provider (map inv_id is) ob)"
  shows "invoice_rows_ok (ob_db ob') \<and> unsent (ob_db ob') = filter (\<lambda>j. inv_id j \<notin> inv_id ` set is) (unsent (ob_db ob)) \<and>
    ob_sent ob' = ob_sent ob @ concat (map (receipt_mails s (ob_db ob)) is) \<and>
    (\<forall>j. receipt_mails s (ob_db ob') j = receipt_mails s (ob_db ob) j)"
  using assms
proof (induction "is" arbitrary: ob)
  case (Cons i is')
  let ?o = "snd (send_receipt now s provider (inv_id i) ob)"
  have o: "?o = ob\<lparr>ob_db := put_invoice (stamped now i) (ob_db ob), ob_sent := ob_sent ob @ receipt_mails s (ob_db ob) i\<rparr>"
    using Cons.prems by (intro send_receipt_accepted) auto
  have i: "i \<in> set (invoices (ob_db ob))" using Cons.prems(2) unsentD by auto
  have d: "unsent (ob_db ?o) = filter (\<lambda>j. inv_id j \<noteq> inv_id i) (unsent (ob_db ob))" "invoice_rows_ok (ob_db ?o)"
    using o stamp_unsent stamp_rows_ok [OF Cons.prems(1) i] by simp_all
  have m: "receipt_mails s (ob_db ?o) = receipt_mails s (ob_db ob)" using o by (simp add: stamp_mails)
  have "set is' \<subseteq> set (unsent (ob_db ?o))" using Cons.prems(2,3) d(1) by (auto simp: rev_image_eqI)
  from Cons.IH [OF d(2) this _ Cons.prems(4)] Cons.prems(3,5)
  have IH: "invoice_rows_ok (ob_db ob') \<and> unsent (ob_db ob') = filter (\<lambda>j. inv_id j \<notin> inv_id ` set is') (unsent (ob_db ?o)) \<and>
      ob_sent ob' = ob_sent ?o @ concat (map (receipt_mails s (ob_db ?o)) is') \<and>
      (\<forall>j. receipt_mails s (ob_db ob') j = receipt_mails s (ob_db ?o) j)"
    by (simp add: Let_def case_prod_unfold)
  then show ?case using o unfolding d(1) m by (auto intro: filter_cong)
qed simp

text \<open>Runs of the sweeper, at the times of the list.\<close>

fun receipt_runs :: "settings \<Rightarrow> (email \<Rightarrow> bool) \<Rightarrow> nat \<Rightarrow> time list \<Rightarrow> outbox \<Rightarrow> outbox" where
  "receipt_runs s provider limit [] ob = ob"
| "receipt_runs s provider limit (t # ts) ob =
     receipt_runs s provider limit ts (snd (send_pending_receipts t s provider limit ob))"

lemma split_by_ids:
  assumes "distinct (map inv_id xs)" and "set is \<subseteq> set xs" and "distinct (map inv_id is)"
  shows "mset xs = mset is + mset (filter (\<lambda>j. inv_id j \<notin> inv_id ` set is) xs)"
proof -
  have "mset (filter (\<lambda>j. inv_id j \<in> inv_id ` set is) xs) = mset is"
  proof (rule set_eq_iff_mset_eq_distinct [THEN iffD1])
    have "x \<in> set is" if "x \<in> set xs" "inv_id x = inv_id y" "y \<in> set is" for x y
      using that assms(1,2) by (auto simp: distinct_map dest: inj_onD)
    then show "set (filter (\<lambda>j. inv_id j \<in> inv_id ` set is) xs) = set is" using assms(2) by auto
  qed (use assms in \<open>auto simp: distinct_map\<close>)
  then show ?thesis
    using multiset_partition [of "mset xs" "\<lambda>j. inv_id j \<in> inv_id ` set is"] by simp
qed

lemma receipt_run:
  assumes "invoice_rows_ok (ob_db ob)" and "\<forall>m. provider m" and "ob' = snd (send_pending_receipts now s provider limit ob)"
  shows "invoice_rows_ok (ob_db ob')" "length (unsent (ob_db ob')) = length (unsent (ob_db ob)) - limit"
    "mset (ob_sent ob') + mset (concat (map (receipt_mails s (ob_db ob')) (unsent (ob_db ob')))) =
       mset (ob_sent ob) + mset (concat (map (receipt_mails s (ob_db ob)) (unsent (ob_db ob))))"
proof -
  let ?u = "unsent (ob_db ob)"
  let ?is = "take limit (sort_key (\<lambda>i. the (inv_paid_at i)) ?u)"
  have du: "distinct (map inv_id ?u)"
    using assms(1) by (simp add: invoice_rows_ok_def unsent_def distinct_map_filter)
  have "mset (map inv_id (sort_key (\<lambda>i. the (inv_paid_at i)) ?u)) = mset (map inv_id ?u)" by simp
  then have "distinct (map inv_id (sort_key (\<lambda>i. the (inv_paid_at i)) ?u))" using du mset_eq_imp_distinct_iff by blast
  then have dis: "distinct (map inv_id ?is)" by (metis distinct_take take_map)
  have sub: "set ?is \<subseteq> set ?u" using set_take_subset [of limit "sort_key (\<lambda>i. the (inv_paid_at i)) ?u"] by simp
  have ob': "ob' = snd (send_all now s provider (map inv_id ?is) ob)"
    using assms(3) by (simp add: send_pending_receipts_def list_receipt_pending_def unsent_def)
  note A = send_all_accepted [OF assms(1) sub dis assms(2) ob']
  have parts: "mset ?u = mset ?is + mset (unsent (ob_db ob'))"
    using split_by_ids [OF du sub dis] A by simp
  show "invoice_rows_ok (ob_db ob')" using A by blast
  have "length ?u = length ?is + length (unsent (ob_db ob'))"
    using arg_cong [OF parts, of size] by simp
  then show "length (unsent (ob_db ob')) = length ?u - limit" by simp
  have concat: "mset (concat (map f xs)) = (\<Sum>x \<in># mset xs. mset (f x))" for f :: "invoice \<Rightarrow> email list" and xs
    by (induction xs) simp_all
  have same: "receipt_mails s (ob_db ob') = receipt_mails s (ob_db ob)" using A by (intro ext) blast
  have "ob_sent ob' = ob_sent ob @ concat (map (receipt_mails s (ob_db ob)) ?is)" using A by blast
  then show "mset (ob_sent ob') + mset (concat (map (receipt_mails s (ob_db ob')) (unsent (ob_db ob')))) =
      mset (ob_sent ob) + mset (concat (map (receipt_mails s (ob_db ob)) ?u))"
    unfolding same concat parts by (simp only: mset_append concat image_mset_union sum_mset.union add.assoc)
qed

text \<open>C17: Every receipt is sent, once.  When the provider takes the messages, runs of the sweeper, of
  any batch size, empty the set of paid invoices without a receipt as soon as there were
  enough runs for their number; the messages handed over are then exactly one for each of those invoices
  whose customer has an address, and a further run sends nothing.\<close>

theorem receipts_delivered:
  assumes "invoice_rows_ok (ob_db ob)" and "\<forall>m. provider m" and "length (unsent (ob_db ob)) \<le> length ts * limit"
  shows "(let ob' = receipt_runs s provider limit ts ob in
    unsent (ob_db ob') = [] \<and>
    mset (ob_sent ob') = mset (ob_sent ob) + mset (concat (map (receipt_mails s (ob_db ob)) (unsent (ob_db ob)))) \<and>
    (\<forall>t n. send_pending_receipts t s provider n ob' = (0, ob')))"
  using assms
proof (induction ts arbitrary: ob)
  case Nil
  then show ?case by (simp add: send_pending_receipts_def list_receipt_pending_def flip: unsent_def)
next
  case (Cons t ts)
  let ?o = "snd (send_pending_receipts t s provider limit ob)"
  note R = receipt_run [OF Cons.prems(1,2) refl, of t s limit]
  have "length (unsent (ob_db ?o)) \<le> length ts * limit" using R(2) Cons.prems(3) by simp
  note IH = Cons.IH [OF R(1) Cons.prems(2) this]
  show ?case using IH R(3) by (auto simp: Let_def)
qed

definition sample_paid :: invoice where
  "sample_paid = \<lparr>inv_id = 5, inv_order_id = 3, inv_issued_by_courier_id = 4, inv_status = IS_PAID, inv_currency = ''SAR'',
     inv_items_net_amount = 100, inv_courier_fee_amount = 0, inv_service_fee_amount = 0, inv_discount_amount = 0,
     inv_net_after_discount_amount = 100, inv_tax_amount = 0, inv_total_amount = 100, inv_promo_id = None,
     inv_promo_code_snapshot = None, inv_payment_method = None, inv_amount_from_wallet = 100, inv_amount_from_gateway = 0,
     inv_pricing_breakdown = None, inv_expires_at = None, inv_issued_at = None, inv_paid_at = Some 7,
     inv_receipt_email_sent_at = None\<rparr>"

definition paid_outbox :: outbox where
  "paid_outbox = \<lparr>ob_db = empty_db\<lparr>users := [(sample_user 2 UR_CUSTOMER)\<lparr>u_email := Some ''a''\<rparr>],
     orders := [sample_order\<lparr>o_id := 3, o_customer_id := 2\<rparr>], invoices := [sample_paid]\<rparr>, ob_sent = []\<rparr>"

theorem receipts_delivered_witness:
  "unsent (ob_db (receipt_runs sample_settings (\<lambda>_. True) 10 [20] paid_outbox)) = [] \<and>
   map em_to (ob_sent (receipt_runs sample_settings (\<lambda>_. True) 10 [20] paid_outbox)) = [''a'']"
proof -
  have u: "unsent (ob_db paid_outbox) = [sample_paid]" by (simp add: unsent_def paid_outbox_def sample_paid_def)
  have "invoice_rows_ok (ob_db paid_outbox)"
    by (simp add: invoice_rows_ok_def paid_outbox_def sample_paid_def chk_invoice_def sole_active_def)
  from receipts_delivered [OF this, of "\<lambda>_. True" "[20]" 10 sample_settings]
  have r: "unsent (ob_db (receipt_runs sample_settings (\<lambda>_. True) 10 [20] paid_outbox)) = []"
    "mset (ob_sent (receipt_runs sample_settings (\<lambda>_. True) 10 [20] paid_outbox)) =
       mset (receipt_mails sample_settings (ob_db paid_outbox) sample_paid)"
    by (simp_all add: u Let_def del: receipt_runs.simps, simp add: paid_outbox_def)
  have "map em_to (receipt_mails sample_settings (ob_db paid_outbox) sample_paid) = [''a'']"
    by (simp add: receipt_mails_def customer_email_def paid_outbox_def sample_paid_def get_order_def get_user_def
        find_by_Cons sample_user_def)
  then obtain m where m: "receipt_mails sample_settings (ob_db paid_outbox) sample_paid = [m]" "em_to m = ''a''"
    by (cases "receipt_mails sample_settings (ob_db paid_outbox) sample_paid") auto
  with r show ?thesis by (simp add: mset_single_iff del: receipt_runs.simps)
qed

end
