(* ===== verification/Migrations.thy ===== *)
theory Migrations
  imports Tables
begin

text \<open>
  The Alembic migrations of \<open>app/migrations/versions/\<close> as data, and the effect of a migration on a schema.
  The definitions of the migrations list the operations of their \<open>upgrade\<close> and \<open>downgrade\<close> in order.
  \<open>execute\<close> applies one operation the way PostgreSQL does and fails where PostgreSQL refuses: on a name
  that is taken or missing, on a foreign key to a table or an enum type that does not exist (yet), and
  on dropping what something else still uses.  SQL expressions are texts; the extensions, the seed rows
  (\<open>seeded_db\<close>) and the bodies of the trigger functions are not part of the schema.  The data change of the
  last migration is a function on the rows (\<open>cancel_legacy_links\<close>).
\<close>

section \<open>Schemas\<close>

datatype sql_type =
    T_uuid | T_string nat | T_text | T_integer | T_smallint | T_bigint | T_boolean | T_date | T_timestamptz
  | T_numeric nat nat | T_enum string | T_inet | T_jsonb | T_geometry string nat

text \<open>Name, type, nullable, server default.\<close>

datatype column = Column (col_name: string) (col_type: sql_type) (col_nullable: bool) (col_default: "string option")

datatype constraint =
    Primary_key "string list"
  | Unique string "string list"
  | Check string string
  | Foreign_key string string string "string option"

text \<open>Name, columns or expressions, unique, partial condition, method.\<close>

datatype index = Index (ix_name: string) (ix_columns: "string list") (ix_unique: bool) (ix_where: "string option")
  (ix_using: "string option")

record rel =
  rel_columns :: "column list"
  rel_constraints :: "constraint list"
  rel_indexes :: "index list"

record schema =
  sc_types :: "(string \<times> string list) list"
  sc_functions :: "string list"
  sc_tables :: "(string \<times> rel) list"
  sc_triggers :: "(string \<times> string list \<times> string \<times> string) list"

definition empty_schema :: schema where
  "empty_schema = \<lparr>sc_types = [], sc_functions = [], sc_tables = [], sc_triggers = []\<rparr>"

datatype ddl =
    Create_type string "string list"
  | Create_function string
  | Create_table string rel
  | Create_index string index
  | Create_trigger string "string list" string string
  | Add_column string column
  | Rename_column string string string
  | Set_default string string "string option"
  | Drop_index string string
  | Drop_column string string
  | Drop_table string
  | Drop_function string
  | Drop_type string

definition sql_quote :: "string \<Rightarrow> string" where
  "sql_quote t = CHR 0x27 # t @ [CHR 0x27]"

section \<open>Operations\<close>

definition table_of :: "string \<Rightarrow> schema \<Rightarrow> rel option" where
  "table_of n s = map_of (sc_tables s) n"

definition put_table :: "string \<Rightarrow> rel \<Rightarrow> schema \<Rightarrow> schema" where
  "put_table n t s = s\<lparr>sc_tables := map (\<lambda>(m, u). (m, if m = n then t else u)) (sc_tables s)\<rparr>"

definition column_names :: "rel \<Rightarrow> string list" where
  "column_names t = map col_name (rel_columns t)"

text \<open>An enum type that a column uses is there.\<close>

fun type_known :: "schema \<Rightarrow> sql_type \<Rightarrow> bool" where
  "type_known s (T_enum e) \<longleftrightarrow> map_of (sc_types s) e \<noteq> None"
| "type_known s _ \<longleftrightarrow> True"

text \<open>The columns that a constraint mentions are there, in the table and in the one it refers to.\<close>

fun constraint_fits :: "schema \<Rightarrow> string \<Rightarrow> rel \<Rightarrow> constraint \<Rightarrow> bool" where
  "constraint_fits s n t (Primary_key cs) \<longleftrightarrow> list_all (\<lambda>c. c \<in> set (column_names t)) cs"
| "constraint_fits s n t (Unique _ cs) \<longleftrightarrow> list_all (\<lambda>c. c \<in> set (column_names t)) cs"
| "constraint_fits s n t (Check _ _) \<longleftrightarrow> True"
| "constraint_fits s n t (Foreign_key c m k _) \<longleftrightarrow> c \<in> set (column_names t) \<and>
     (case (if m = n then Some t else table_of m s) of None \<Rightarrow> False | Some u \<Rightarrow> k \<in> set (column_names u))"

definition table_fits :: "schema \<Rightarrow> string \<Rightarrow> rel \<Rightarrow> bool" where
  "table_fits s n t \<longleftrightarrow> distinct (column_names t) \<and> list_all (\<lambda>c. type_known s (col_type c)) (rel_columns t) \<and>
     list_all (constraint_fits s n t) (rel_constraints t)"

text \<open>A column of an index may carry a direction, as in \<open>created_at DESC\<close>.\<close>

definition index_column :: "string \<Rightarrow> string" where
  "index_column e = takeWhile (\<lambda>c. c \<noteq> CHR '' '') e"

definition index_names :: "schema \<Rightarrow> string list" where
  "index_names s = concat (map (\<lambda>(_, t). map ix_name (rel_indexes t)) (sc_tables s))"

fun refers_to :: "string \<Rightarrow> constraint \<Rightarrow> bool" where
  "refers_to n (Foreign_key _ m _ _) \<longleftrightarrow> m = n"
| "refers_to n _ \<longleftrightarrow> False"

fun rename_in :: "string \<Rightarrow> string \<Rightarrow> constraint \<Rightarrow> constraint" where
  "rename_in a b (Primary_key cs) = Primary_key (map (\<lambda>c. if c = a then b else c) cs)"
| "rename_in a b (Unique n cs) = Unique n (map (\<lambda>c. if c = a then b else c) cs)"
| "rename_in a b (Foreign_key c m k x) = Foreign_key (if c = a then b else c) m k x"
| "rename_in a b (Check n e) = Check n e"

definition require :: "bool \<Rightarrow> 'a \<Rightarrow> 'a option" where
  "require P x = (if P then Some x else None)"

fun execute :: "ddl \<Rightarrow> schema \<Rightarrow> schema option" where
  "execute (Create_type n vs) s =
     Some (if map_of (sc_types s) n = None then s\<lparr>sc_types := sc_types s @ [(n, vs)]\<rparr> else s)"
| "execute (Create_function f) s =
     Some (if f \<in> set (sc_functions s) then s else s\<lparr>sc_functions := sc_functions s @ [f]\<rparr>)"
| "execute (Create_table n t) s =
     require (table_of n s = None \<and> table_fits s n t) (s\<lparr>sc_tables := sc_tables s @ [(n, t)]\<rparr>)"
| "execute (Create_index n i) s =
     (case table_of n s of None \<Rightarrow> None
      | Some t \<Rightarrow> require (ix_name i \<notin> set (index_names s) \<and>
            list_all (\<lambda>e. index_column e \<in> set (column_names t)) (ix_columns i))
          (put_table n (t\<lparr>rel_indexes := rel_indexes t @ [i]\<rparr>) s))"
| "execute (Create_trigger g events n f) s =
     require (table_of n s \<noteq> None \<and> f \<in> set (sc_functions s) \<and> g \<notin> set (map fst (sc_triggers s)))
       (s\<lparr>sc_triggers := sc_triggers s @ [(g, events, n, f)]\<rparr>)"
| "execute (Add_column n c) s =
     (case table_of n s of None \<Rightarrow> None
      | Some t \<Rightarrow> require (col_name c \<notin> set (column_names t) \<and> type_known s (col_type c))
          (put_table n (t\<lparr>rel_columns := rel_columns t @ [c]\<rparr>) s))"
| "execute (Rename_column n a b) s =
     (case table_of n s of None \<Rightarrow> None
      | Some t \<Rightarrow> require (a \<in> set (column_names t) \<and> b \<notin> set (column_names t))
          (put_table n \<lparr>rel_columns = map (\<lambda>c. if col_name c = a then Column b (col_type c) (col_nullable c) (col_default c) else c)
               (rel_columns t),
             rel_constraints = map (rename_in a b) (rel_constraints t),
             rel_indexes = map (\<lambda>i. Index (ix_name i) (map (\<lambda>c. if c = a then b else c) (ix_columns i)) (ix_unique i)
               (ix_where i) (ix_using i)) (rel_indexes t)\<rparr> s))"
| "execute (Set_default n a x) s =
     (case table_of n s of None \<Rightarrow> None
      | Some t \<Rightarrow> require (a \<in> set (column_names t))
          (put_table n (t\<lparr>rel_columns := map (\<lambda>c. if col_name c = a then Column a (col_type c) (col_nullable c) x else c)
             (rel_columns t)\<rparr>) s))"
| "execute (Drop_index i n) s =
     (case table_of n s of None \<Rightarrow> None
      | Some t \<Rightarrow> require (i \<in> set (map ix_name (rel_indexes t)))
          (put_table n (t\<lparr>rel_indexes := filter (\<lambda>x. ix_name x \<noteq> i) (rel_indexes t)\<rparr>) s))"
| "execute (Drop_column n a) s =
     (case table_of n s of None \<Rightarrow> None
      | Some t \<Rightarrow> require (a \<in> set (column_names t))
          (put_table n (t\<lparr>rel_columns := filter (\<lambda>c. col_name c \<noteq> a) (rel_columns t),
             rel_indexes := filter (\<lambda>i. a \<notin> set (map index_column (ix_columns i))) (rel_indexes t)\<rparr>) s))"
| "execute (Drop_table n) s =
     require (table_of n s \<noteq> None \<and>
         list_all (\<lambda>(m, t). m = n \<or> \<not> list_ex (refers_to n) (rel_constraints t)) (sc_tables s))
       (s\<lparr>sc_tables := filter (\<lambda>(m, _). m \<noteq> n) (sc_tables s),
          sc_triggers := filter (\<lambda>(_, _, m, _). m \<noteq> n) (sc_triggers s)\<rparr>)"
| "execute (Drop_function f) s =
     require (list_all (\<lambda>(_, _, _, g). g \<noteq> f) (sc_triggers s))
       (s\<lparr>sc_functions := filter (\<lambda>g. g \<noteq> f) (sc_functions s)\<rparr>)"
| "execute (Drop_type e) s =
     require (list_all (\<lambda>(_, t). list_all (\<lambda>c. col_type c \<noteq> T_enum e) (rel_columns t)) (sc_tables s))
       (s\<lparr>sc_types := filter (\<lambda>(m, _). m \<noteq> e) (sc_types s)\<rparr>)"

fun execute_all :: "ddl list \<Rightarrow> schema \<Rightarrow> schema option" where
  "execute_all [] s = Some s"
| "execute_all (x # xs) s = Option.bind (execute x s) (execute_all xs)"

section \<open>The migrations\<close>

definition create_types :: "ddl list" where
  "create_types =
    [Create_type ''user_role'' [''CUSTOMER'', ''COURIER'', ''ADMIN''],
     Create_type ''user_status'' [''ACTIVE'', ''BANNED'', ''PENDING_VERIFICATION''],
     Create_type ''order_status'' [''NEW'', ''ASSIGNED'', ''WAITING_PAYMENT'', ''IN_PROGRESS'', ''DELIVERED'', ''COMPLETED'', ''CANCELLED'', ''DISPUTED'', ''REFUNDED''],
     Create_type ''invoice_status'' [''DRAFT'', ''ISSUED'', ''PAID'', ''CANCELLED'', ''EXPIRED'', ''REFUNDED''],
     Create_type ''payment_purpose'' [''ORDER_INVOICE'', ''WALLET_TOPUP''],
     Create_type ''payment_intent_status'' [''NEW'', ''PAID'', ''FAILED'', ''EXPIRED'', ''CANCELLED''],
     Create_type ''payment_method'' [''WALLET_ONLY'', ''GATEWAY_ONLY'', ''SPLIT''],
     Create_type ''promo_discount_type'' [''PERCENT'', ''FIXED''],
     Create_type ''promo_redemption_status'' [''RESERVED'', ''CONSUMED'', ''RELEASED''],
     Create_type ''media_type'' [''CUSTOMER_REQUEST'', ''DELIVERY_PROOF''],
     Create_type ''message_type'' [''TEXT'', ''IMAGE'', ''VIDEO'', ''SYSTEM''],
     Create_type ''wallet_type'' [''CUSTOMER'', ''COURIER'', ''SYSTEM_ESCROW'', ''SYSTEM_REVENUE'', ''SYSTEM_GATEWAY'', ''SYSTEM_TAX_PAYABLE''],
     Create_type ''transaction_type'' [''TOPUP'', ''WITHDRAWAL'', ''ESCROW_HOLD'', ''ESCROW_RELEASE'', ''PAYMENT'', ''REFUND'', ''COMMISSION'', ''SERVICE_FEE'', ''TAX'', ''PROMO_SUBSIDY''],
     Create_type ''transaction_status'' [''PENDING'', ''SETTLED'', ''REVERSED''],
     Create_type ''device_os'' [''IOS'', ''ANDROID''],
     Create_type ''withdrawal_status'' [''REQUESTED'', ''APPROVED'', ''PAID'', ''REJECTED''],
     Create_type ''dispute_status'' [''OPEN'', ''RESOLVED_CUSTOMER'', ''RESOLVED_COURIER'', ''RESOLVED_SPLIT'']]"

definition create_functions :: "ddl list" where
  "create_functions =
    [Create_function ''set_updated_at'',
     Create_function ''enforce_ledger_immutability'',
     Create_function ''enforce_invoice_item_freeze'',
     Create_function ''enforce_message_append_only'']"

definition create_otp_attempts :: "ddl list" where
  "create_otp_attempts =
    [Create_table ''otp_attempts''
       \<lparr>rel_columns =
          [Column ''phone_hash'' (T_string 64) False None, Column ''ip_address'' T_inet True None,
           Column ''was_successful'' T_boolean False None, Column ''id'' T_uuid False (Some ''gen_random_uuid()''),
           Column ''created_at'' T_timestamptz False (Some ''now()''),
           Column ''updated_at'' T_timestamptz False (Some ''now()'')],
        rel_constraints =
          [Primary_key [''id'']],
        rel_indexes = []\<rparr>]"

definition create_users :: "ddl list" where
  "create_users =
    [Create_table ''users''
       \<lparr>rel_columns =
          [Column ''phone'' (T_string 20) False None, Column ''email'' (T_string 255) True None,
           Column ''full_name'' (T_string 120) True None, Column ''date_of_birth'' T_date True None,
           Column ''role'' (T_enum ''user_role'') False None,
           Column ''status'' (T_enum ''user_status'') False (Some (sql_quote ''ACTIVE'')),
           Column ''rating'' (T_numeric 2 1) False (Some ''5.0''),
           Column ''rating_count'' T_integer False (Some ''0''), Column ''deleted_at'' T_timestamptz True None,
           Column ''id'' T_uuid False (Some ''gen_random_uuid()''),
           Column ''created_at'' T_timestamptz False (Some ''now()''),
           Column ''updated_at'' T_timestamptz False (Some ''now()'')],
        rel_constraints =
          [Check ''chk_rating_range'' ''rating BETWEEN 0.0 AND 5.0'', Primary_key [''id''],
           Unique ''uq_users_phone'' [''phone'']],
        rel_indexes = []\<rparr>,
     Create_index ''users'' (Index ''idx_users_role_status'' [''role'', ''status''] False None None),
     Create_index ''users'' (Index ''uq_users_email'' [''email''] True (Some ''email IS NOT NULL'') None)]"

definition create_admin_sessions :: "ddl list" where
  "create_admin_sessions =
    [Create_table ''admin_sessions''
       \<lparr>rel_columns =
          [Column ''admin_user_id'' T_uuid False None, Column ''session_token_hash'' (T_string 64) False None,
           Column ''ip_address'' T_inet True None, Column ''user_agent'' (T_string 255) True None,
           Column ''expires_at'' T_timestamptz False None, Column ''revoked_at'' T_timestamptz True None,
           Column ''id'' T_uuid False (Some ''gen_random_uuid()''),
           Column ''created_at'' T_timestamptz False (Some ''now()''),
           Column ''updated_at'' T_timestamptz False (Some ''now()'')],
        rel_constraints =
          [Foreign_key ''admin_user_id'' ''users'' ''id'' (Some ''CASCADE''), Primary_key [''id''],
           Unique ''uq_admin_sessions_token_hash'' [''session_token_hash'']],
        rel_indexes = []\<rparr>,
     Create_index ''admin_sessions'' (Index ''idx_admin_sessions_admin_expires'' [''admin_user_id'', ''expires_at''] False None None)]"

definition create_audit_logs :: "ddl list" where
  "create_audit_logs =
    [Create_table ''audit_logs''
       \<lparr>rel_columns =
          [Column ''actor_user_id'' T_uuid True None, Column ''action'' (T_string 100) False None,
           Column ''entity_type'' (T_string 50) False None, Column ''entity_id'' T_uuid True None,
           Column ''ip_address'' T_inet True None, Column ''metadata'' T_jsonb True None,
           Column ''id'' T_uuid False (Some ''gen_random_uuid()''),
           Column ''created_at'' T_timestamptz False (Some ''now()''),
           Column ''updated_at'' T_timestamptz False (Some ''now()'')],
        rel_constraints =
          [Foreign_key ''actor_user_id'' ''users'' ''id'' None, Primary_key [''id'']],
        rel_indexes = []\<rparr>,
     Create_index ''audit_logs'' (Index ''idx_audit_logs_actor_created'' [''actor_user_id'', ''created_at DESC''] False None None),
     Create_index ''audit_logs'' (Index ''idx_audit_logs_entity'' [''entity_type'', ''entity_id''] False None None)]"

definition create_courier_portfolios :: "ddl list" where
  "create_courier_portfolios =
    [Create_table ''courier_portfolios''
       \<lparr>rel_columns =
          [Column ''courier_id'' T_uuid False None, Column ''storage_key'' (T_string 512) False None,
           Column ''media_type'' (T_enum ''message_type'') False (Some (sql_quote ''IMAGE'')),
           Column ''description'' (T_string 500) True None, Column ''display_order'' T_integer False (Some ''0''),
           Column ''id'' T_uuid False (Some ''gen_random_uuid()''),
           Column ''created_at'' T_timestamptz False (Some ''now()''),
           Column ''updated_at'' T_timestamptz False (Some ''now()'')],
        rel_constraints =
          [Foreign_key ''courier_id'' ''users'' ''id'' (Some ''CASCADE''), Primary_key [''id'']],
        rel_indexes = []\<rparr>,
     Create_index ''courier_portfolios'' (Index ''idx_courier_portfolios_courier'' [''courier_id'', ''display_order''] False None None)]"

definition create_courier_profiles :: "ddl list" where
  "create_courier_profiles =
    [Create_table ''courier_profiles''
       \<lparr>rel_columns =
          [Column ''user_id'' T_uuid False None, Column ''passport_id_encrypted'' (T_string 512) True None,
           Column ''national_id_encrypted'' (T_string 512) True None,
           Column ''identity_fingerprint'' (T_string 64) True None,
           Column ''city_of_residence'' (T_string 100) False None, Column ''bio'' T_text True None,
           Column ''is_verified'' T_boolean False (Some ''false''), Column ''verified_at'' T_timestamptz True None,
           Column ''verified_by_admin_id'' T_uuid True None,
           Column ''created_at'' T_timestamptz False (Some ''now()''),
           Column ''updated_at'' T_timestamptz False (Some ''now()'')],
        rel_constraints =
          [Check ''chk_identity_present'' ''passport_id_encrypted IS NOT NULL OR national_id_encrypted IS NOT NULL'',
           Foreign_key ''user_id'' ''users'' ''id'' (Some ''CASCADE''),
           Foreign_key ''verified_by_admin_id'' ''users'' ''id'' None, Primary_key [''user_id'']],
        rel_indexes = []\<rparr>,
     Create_index ''courier_profiles'' (Index ''idx_courier_profiles_city_verified'' [''city_of_residence'', ''is_verified''] False None None),
     Create_index ''courier_profiles'' (Index ''uq_courier_identity_fingerprint'' [''identity_fingerprint''] True (Some ''identity_fingerprint IS NOT NULL'') None)]"

definition create_device_tokens :: "ddl list" where
  "create_device_tokens =
    [Create_table ''device_tokens''
       \<lparr>rel_columns =
          [Column ''user_id'' T_uuid False None, Column ''device_os'' (T_enum ''device_os'') False None,
           Column ''token'' (T_string 512) False None, Column ''last_seen_at'' T_timestamptz False (Some ''now()''),
           Column ''id'' T_uuid False (Some ''gen_random_uuid()''),
           Column ''created_at'' T_timestamptz False (Some ''now()''),
           Column ''updated_at'' T_timestamptz False (Some ''now()'')],
        rel_constraints =
          [Foreign_key ''user_id'' ''users'' ''id'' (Some ''CASCADE''), Primary_key [''id''],
           Unique ''uq_device_tokens_token'' [''token'']],
        rel_indexes = []\<rparr>,
     Create_index ''device_tokens'' (Index ''idx_device_tokens_user'' [''user_id''] False None None)]"

definition create_orders :: "ddl list" where
  "create_orders =
    [Create_table ''orders''
       \<lparr>rel_columns =
          [Column ''customer_id'' T_uuid False None, Column ''courier_id'' T_uuid True None,
           Column ''description'' T_text True None, Column ''delivery_city'' (T_string 100) False None,
           Column ''delivery_location'' (T_geometry ''POINT'' 4326) False None,
           Column ''delivery_address_note'' (T_string 255) True None, Column ''delivery_date'' T_date False None,
           Column ''status'' (T_enum ''order_status'') False (Some (sql_quote ''NEW'')),
           Column ''total_amount'' (T_numeric 12 2) False (Some ''0.00''),
           Column ''commission_amount'' (T_numeric 12 2) False (Some ''0.00''),
           Column ''courier_payout_amount'' (T_numeric 12 2) False (Some ''0.00''),
           Column ''assigned_at'' T_timestamptz True None, Column ''delivered_at'' T_timestamptz True None,
           Column ''completed_at'' T_timestamptz True None, Column ''cancelled_reason'' (T_string 255) True None,
           Column ''id'' T_uuid False (Some ''gen_random_uuid()''),
           Column ''created_at'' T_timestamptz False (Some ''now()''),
           Column ''updated_at'' T_timestamptz False (Some ''now()'')],
        rel_constraints =
          [Check ''chk_delivery_date_window'' (''delivery_date >= CURRENT_DATE AND delivery_date <= CURRENT_DATE + INTERVAL '' @ sql_quote ''180 days''),
           Check ''chk_courier_required_after_assignment'' (''status IN ('' @ sql_quote ''NEW'' @ '','' @ sql_quote ''CANCELLED'' @ '') OR courier_id IS NOT NULL''),
           Check ''chk_amounts_non_negative'' ''total_amount >= 0 AND commission_amount >= 0 AND courier_payout_amount >= 0'',
           Foreign_key ''courier_id'' ''users'' ''id'' (Some ''RESTRICT''),
           Foreign_key ''customer_id'' ''users'' ''id'' (Some ''RESTRICT''), Primary_key [''id'']],
        rel_indexes = []\<rparr>,
     Create_index ''orders'' (Index ''idx_orders_city_status'' [''delivery_city'', ''status''] False None None),
     Create_index ''orders'' (Index ''idx_orders_courier_created'' [''courier_id'', ''created_at DESC''] False (Some ''courier_id IS NOT NULL'') None),
     Create_index ''orders'' (Index ''idx_orders_customer_created'' [''customer_id'', ''created_at DESC''] False None None),
     Create_index ''orders'' (Index ''idx_orders_location_gist'' [''delivery_location''] False None (Some ''gist'')),
     Create_index ''orders'' (Index ''idx_orders_status_delivered_at'' [''status'', ''delivered_at''] False (Some (''status = '' @ sql_quote ''DELIVERED'')) None)]"

definition create_promos :: "ddl list" where
  "create_promos =
    [Create_table ''promos''
       \<lparr>rel_columns =
          [Column ''code'' (T_string 32) False None, Column ''description'' (T_string 255) False None,
           Column ''discount_type'' (T_enum ''promo_discount_type'') False None,
           Column ''percent_value'' (T_numeric 5 2) True None, Column ''fixed_amount'' (T_numeric 12 2) True None,
           Column ''max_discount_amount'' (T_numeric 12 2) True None,
           Column ''min_order_amount'' (T_numeric 12 2) False (Some ''0.00''),
           Column ''max_total_usages'' T_integer True None,
           Column ''max_usages_per_user'' T_integer False (Some ''1''),
           Column ''used_count'' T_integer False (Some ''0''), Column ''is_active'' T_boolean False (Some ''true''),
           Column ''starts_at'' T_timestamptz True None, Column ''ends_at'' T_timestamptz True None,
           Column ''created_by_admin_id'' T_uuid True None, Column ''id'' T_uuid False (Some ''gen_random_uuid()''),
           Column ''created_at'' T_timestamptz False (Some ''now()''),
           Column ''updated_at'' T_timestamptz False (Some ''now()'')],
        rel_constraints =
          [Check ''chk_promo_value_by_type'' (''(discount_type='' @ sql_quote ''PERCENT'' @ '' AND percent_value IS NOT NULL AND fixed_amount IS NULL AND percent_value > 0 AND percent_value <= 100) OR (discount_type='' @ sql_quote ''FIXED'' @ '' AND fixed_amount IS NOT NULL AND percent_value IS NULL AND fixed_amount > 0)''),
           Check ''chk_promo_code_len'' ''char_length(code) BETWEEN 3 AND 32'',
           Check ''chk_promo_code_upper'' ''code = upper(code) AND code = btrim(code)'',
           Check ''chk_promo_window'' ''starts_at IS NULL OR ends_at IS NULL OR ends_at > starts_at'',
           Check ''chk_promo_usage_bounds'' ''used_count >= 0 AND (max_total_usages IS NULL OR used_count <= max_total_usages) AND max_usages_per_user >= 1'',
           Foreign_key ''created_by_admin_id'' ''users'' ''id'' None, Primary_key [''id''],
           Unique ''uq_promos_code'' [''code'']],
        rel_indexes = []\<rparr>,
     Create_index ''promos'' (Index ''idx_promos_active_window'' [''is_active'', ''starts_at'', ''ends_at''] False None None)]"

definition create_wallets :: "ddl list" where
  "create_wallets =
    [Create_table ''wallets''
       \<lparr>rel_columns =
          [Column ''user_id'' T_uuid True None, Column ''type'' (T_enum ''wallet_type'') False None,
           Column ''balance'' (T_numeric 12 2) False (Some ''0.00''),
           Column ''held_balance'' (T_numeric 12 2) False (Some ''0.00''),
           Column ''currency'' (T_string 3) False (Some (sql_quote ''SAR'')),
           Column ''version'' T_integer False (Some ''0''), Column ''id'' T_uuid False (Some ''gen_random_uuid()''),
           Column ''created_at'' T_timestamptz False (Some ''now()''),
           Column ''updated_at'' T_timestamptz False (Some ''now()'')],
        rel_constraints =
          [Check ''chk_user_wallet_pairing'' (''(type IN ('' @ sql_quote ''CUSTOMER'' @ '','' @ sql_quote ''COURIER'' @ '') AND user_id IS NOT NULL) OR (type IN ('' @ sql_quote ''SYSTEM_ESCROW'' @ '','' @ sql_quote ''SYSTEM_REVENUE'' @ '','' @ sql_quote ''SYSTEM_GATEWAY'' @ '','' @ sql_quote ''SYSTEM_TAX_PAYABLE'' @ '') AND user_id IS NULL)''),
           Check ''chk_balance_non_negative'' (''type IN ('' @ sql_quote ''SYSTEM_GATEWAY'' @ '','' @ sql_quote ''SYSTEM_REVENUE'' @ '') OR (balance >= 0 AND held_balance >= 0)''),
           Foreign_key ''user_id'' ''users'' ''id'' (Some ''RESTRICT''), Primary_key [''id'']],
        rel_indexes = []\<rparr>,
     Create_index ''wallets'' (Index ''uq_wallets_one_escrow'' [''type''] True (Some (''type='' @ sql_quote ''SYSTEM_ESCROW'')) None),
     Create_index ''wallets'' (Index ''uq_wallets_one_gateway'' [''type''] True (Some (''type='' @ sql_quote ''SYSTEM_GATEWAY'')) None),
     Create_index ''wallets'' (Index ''uq_wallets_one_revenue'' [''type''] True (Some (''type='' @ sql_quote ''SYSTEM_REVENUE'')) None),
     Create_index ''wallets'' (Index ''uq_wallets_one_tax'' [''type''] True (Some (''type='' @ sql_quote ''SYSTEM_TAX_PAYABLE'')) None),
     Create_index ''wallets'' (Index ''uq_wallets_user'' [''user_id''] True (Some ''user_id IS NOT NULL'') None)]"

definition create_conversations :: "ddl list" where
  "create_conversations =
    [Create_table ''conversations''
       \<lparr>rel_columns =
          [Column ''order_id'' T_uuid False None, Column ''customer_id'' T_uuid False None,
           Column ''courier_id'' T_uuid False None,
           Column ''last_message_preview_encrypted'' (T_string 512) True None,
           Column ''last_message_timestamp'' T_timestamptz False (Some ''now()''),
           Column ''customer_unread_count'' T_integer False (Some ''0''),
           Column ''courier_unread_count'' T_integer False (Some ''0''),
           Column ''is_closed'' T_boolean False (Some ''false''),
           Column ''id'' T_uuid False (Some ''gen_random_uuid()''),
           Column ''created_at'' T_timestamptz False (Some ''now()''),
           Column ''updated_at'' T_timestamptz False (Some ''now()'')],
        rel_constraints =
          [Foreign_key ''courier_id'' ''users'' ''id'' None, Foreign_key ''customer_id'' ''users'' ''id'' None,
           Foreign_key ''order_id'' ''orders'' ''id'' (Some ''CASCADE''), Primary_key [''id''],
           Unique ''uq_conversations_order'' [''order_id'']],
        rel_indexes = []\<rparr>,
     Create_index ''conversations'' (Index ''idx_conversations_courier_inbox'' [''courier_id'', ''last_message_timestamp DESC''] False None None),
     Create_index ''conversations'' (Index ''idx_conversations_customer_inbox'' [''customer_id'', ''last_message_timestamp DESC''] False None None)]"

definition create_disputes :: "ddl list" where
  "create_disputes =
    [Create_table ''disputes''
       \<lparr>rel_columns =
          [Column ''order_id'' T_uuid False None, Column ''raised_by_user_id'' T_uuid False None,
           Column ''reason'' (T_string 1000) False None,
           Column ''status'' (T_enum ''dispute_status'') False (Some (sql_quote ''OPEN'')),
           Column ''resolution_note'' T_text True None, Column ''resolved_by_admin_id'' T_uuid True None,
           Column ''resolved_at'' T_timestamptz True None, Column ''id'' T_uuid False (Some ''gen_random_uuid()''),
           Column ''created_at'' T_timestamptz False (Some ''now()''),
           Column ''updated_at'' T_timestamptz False (Some ''now()'')],
        rel_constraints =
          [Foreign_key ''order_id'' ''orders'' ''id'' None, Foreign_key ''raised_by_user_id'' ''users'' ''id'' None,
           Foreign_key ''resolved_by_admin_id'' ''users'' ''id'' None, Primary_key [''id''],
           Unique ''uq_disputes_order'' [''order_id'']],
        rel_indexes = []\<rparr>,
     Create_index ''disputes'' (Index ''idx_disputes_status_created'' [''status'', ''created_at''] False None None)]"

definition create_invoices :: "ddl list" where
  "create_invoices =
    [Create_table ''invoices''
       \<lparr>rel_columns =
          [Column ''order_id'' T_uuid False None, Column ''issued_by_courier_id'' T_uuid False None,
           Column ''status'' (T_enum ''invoice_status'') False (Some (sql_quote ''DRAFT'')),
           Column ''currency'' (T_string 3) False (Some (sql_quote ''SAR'')),
           Column ''items_net_amount'' (T_numeric 12 2) False (Some ''0.00''),
           Column ''courier_fee_amount'' (T_numeric 12 2) False (Some ''0.00''),
           Column ''service_fee_amount'' (T_numeric 12 2) False (Some ''0.00''),
           Column ''discount_amount'' (T_numeric 12 2) False (Some ''0.00''),
           Column ''net_after_discount_amount'' (T_numeric 12 2) False (Some ''0.00''),
           Column ''tax_amount'' (T_numeric 12 2) False (Some ''0.00''),
           Column ''total_amount'' (T_numeric 12 2) False (Some ''0.00''), Column ''promo_id'' T_uuid True None,
           Column ''promo_code_snapshot'' (T_string 32) True None,
           Column ''payment_method'' (T_enum ''payment_method'') True None,
           Column ''amount_from_wallet'' (T_numeric 12 2) False (Some ''0.00''),
           Column ''amount_from_gateway'' (T_numeric 12 2) False (Some ''0.00''),
           Column ''pricing_breakdown'' T_jsonb True None, Column ''expires_at'' T_timestamptz True None,
           Column ''issued_at'' T_timestamptz True None, Column ''paid_at'' T_timestamptz True None,
           Column ''receipt_email_sent_at'' T_timestamptz True None,
           Column ''id'' T_uuid False (Some ''gen_random_uuid()''),
           Column ''created_at'' T_timestamptz False (Some ''now()''),
           Column ''updated_at'' T_timestamptz False (Some ''now()'')],
        rel_constraints =
          [Check ''chk_invoice_total_positive'' (''status = '' @ sql_quote ''DRAFT'' @ '' OR total_amount > 0''),
           Check ''chk_invoice_promo_pairing'' ''(promo_id IS NULL AND discount_amount = 0) OR (promo_id IS NOT NULL AND discount_amount > 0)'',
           Check ''chk_invoice_amounts_non_negative'' ''items_net_amount >= 0 AND courier_fee_amount >= 0 AND service_fee_amount >= 0 AND discount_amount >= 0 AND tax_amount >= 0 AND total_amount >= 0'',
           Check ''chk_invoice_net_math'' ''net_after_discount_amount = items_net_amount + courier_fee_amount + service_fee_amount - discount_amount'',
           Check ''chk_invoice_total_math'' ''total_amount = net_after_discount_amount + tax_amount'',
           Foreign_key ''issued_by_courier_id'' ''users'' ''id'' None,
           Foreign_key ''order_id'' ''orders'' ''id'' (Some ''CASCADE''),
           Foreign_key ''promo_id'' ''promos'' ''id'' (Some ''RESTRICT''), Primary_key [''id'']],
        rel_indexes = []\<rparr>,
     Create_index ''invoices'' (Index ''idx_invoices_order'' [''order_id''] False None None),
     Create_index ''invoices'' (Index ''idx_invoices_promo'' [''promo_id''] False (Some ''promo_id IS NOT NULL'') None),
     Create_index ''invoices'' (Index ''idx_invoices_receipt_pending'' [''id''] False (Some (''status='' @ sql_quote ''PAID'' @ '' AND receipt_email_sent_at IS NULL'')) None),
     Create_index ''invoices'' (Index ''idx_invoices_status_expires'' [''status'', ''expires_at''] False (Some (''status='' @ sql_quote ''ISSUED'')) None),
     Create_index ''invoices'' (Index ''uq_invoices_one_active_per_order'' [''order_id''] True (Some (''status IN ('' @ sql_quote ''DRAFT'' @ '','' @ sql_quote ''ISSUED'' @ '','' @ sql_quote ''PAID'' @ '')'')) None)]"

definition create_order_media :: "ddl list" where
  "create_order_media =
    [Create_table ''order_media''
       \<lparr>rel_columns =
          [Column ''order_id'' T_uuid False None, Column ''uploaded_by_user_id'' T_uuid False None,
           Column ''media_type'' (T_enum ''media_type'') False None,
           Column ''storage_key'' (T_string 512) False None, Column ''content_type'' (T_string 50) False None,
           Column ''byte_size'' T_bigint False None,
           Column ''capture_location'' (T_geometry ''POINT'' 4326) True None,
           Column ''captured_at'' T_timestamptz True None, Column ''id'' T_uuid False (Some ''gen_random_uuid()''),
           Column ''created_at'' T_timestamptz False (Some ''now()''),
           Column ''updated_at'' T_timestamptz False (Some ''now()'')],
        rel_constraints =
          [Check ''chk_proof_has_location'' (''media_type <> '' @ sql_quote ''DELIVERY_PROOF'' @ '' OR capture_location IS NOT NULL''),
           Foreign_key ''order_id'' ''orders'' ''id'' (Some ''CASCADE''),
           Foreign_key ''uploaded_by_user_id'' ''users'' ''id'' None, Primary_key [''id'']],
        rel_indexes = []\<rparr>,
     Create_index ''order_media'' (Index ''idx_order_media_order_type'' [''order_id'', ''media_type''] False None None)]"

definition create_ratings :: "ddl list" where
  "create_ratings =
    [Create_table ''ratings''
       \<lparr>rel_columns =
          [Column ''order_id'' T_uuid False None, Column ''rater_id'' T_uuid False None,
           Column ''rated_user_id'' T_uuid False None, Column ''score'' T_smallint False None,
           Column ''comment'' (T_string 500) True None, Column ''id'' T_uuid False (Some ''gen_random_uuid()''),
           Column ''created_at'' T_timestamptz False (Some ''now()''),
           Column ''updated_at'' T_timestamptz False (Some ''now()'')],
        rel_constraints =
          [Check ''chk_no_self_rating'' ''rater_id <> rated_user_id'',
           Check ''chk_score_range'' ''score BETWEEN 1 AND 5'',
           Foreign_key ''order_id'' ''orders'' ''id'' (Some ''CASCADE''),
           Foreign_key ''rated_user_id'' ''users'' ''id'' None, Foreign_key ''rater_id'' ''users'' ''id'' None,
           Primary_key [''id''], Unique ''uq_ratings_order_rater'' [''order_id'', ''rater_id'']],
        rel_indexes = []\<rparr>,
     Create_index ''ratings'' (Index ''idx_ratings_rated_user'' [''rated_user_id''] False None None)]"

definition create_withdrawals :: "ddl list" where
  "create_withdrawals =
    [Create_table ''withdrawals''
       \<lparr>rel_columns =
          [Column ''courier_id'' T_uuid False None, Column ''wallet_id'' T_uuid False None,
           Column ''amount'' (T_numeric 12 2) False None, Column ''iban_encrypted'' (T_string 512) False None,
           Column ''iban_last4'' (T_string 4) False None,
           Column ''status'' (T_enum ''withdrawal_status'') False (Some (sql_quote ''REQUESTED'')),
           Column ''processed_by_admin_id'' T_uuid True None, Column ''rejection_reason'' (T_string 255) True None,
           Column ''id'' T_uuid False (Some ''gen_random_uuid()''),
           Column ''created_at'' T_timestamptz False (Some ''now()''),
           Column ''updated_at'' T_timestamptz False (Some ''now()'')],
        rel_constraints =
          [Check ''chk_withdrawal_min'' ''amount >= 50.00'', Foreign_key ''courier_id'' ''users'' ''id'' None,
           Foreign_key ''processed_by_admin_id'' ''users'' ''id'' None,
           Foreign_key ''wallet_id'' ''wallets'' ''id'' None, Primary_key [''id'']],
        rel_indexes = []\<rparr>,
     Create_index ''withdrawals'' (Index ''idx_withdrawals_courier_status'' [''courier_id'', ''status''] False None None),
     Create_index ''withdrawals'' (Index ''idx_withdrawals_status_created'' [''status'', ''created_at''] False None None)]"

definition create_invoice_items :: "ddl list" where
  "create_invoice_items =
    [Create_table ''invoice_items''
       \<lparr>rel_columns =
          [Column ''invoice_id'' T_uuid False None, Column ''position'' T_smallint False None,
           Column ''title'' (T_string 120) False None, Column ''description'' (T_string 500) True None,
           Column ''unit_price_amount'' (T_numeric 12 2) False None, Column ''quantity'' T_integer False None,
           Column ''tax_rate'' (T_numeric 6 4) False None, Column ''line_net_amount'' (T_numeric 12 2) False None,
           Column ''line_discount_amount'' (T_numeric 12 2) False (Some ''0.00''),
           Column ''line_taxable_amount'' (T_numeric 12 2) False None,
           Column ''line_tax_amount'' (T_numeric 12 2) False None,
           Column ''line_total_amount'' (T_numeric 12 2) False None,
           Column ''id'' T_uuid False (Some ''gen_random_uuid()''),
           Column ''created_at'' T_timestamptz False (Some ''now()''),
           Column ''updated_at'' T_timestamptz False (Some ''now()'')],
        rel_constraints =
          [Check ''chk_item_line_math'' ''line_net_amount = unit_price_amount * quantity AND line_taxable_amount = line_net_amount - line_discount_amount AND line_total_amount = line_taxable_amount + line_tax_amount'',
           Check ''chk_item_quantity'' ''quantity BETWEEN 1 AND 999'',
           Check ''chk_item_tax_rate'' ''tax_rate >= 0 AND tax_rate <= 1'',
           Check ''chk_item_unit_price'' ''unit_price_amount > 0'',
           Foreign_key ''invoice_id'' ''invoices'' ''id'' (Some ''CASCADE''), Primary_key [''id''],
           Unique ''uq_invoice_item_position'' [''invoice_id'', ''position'']],
        rel_indexes = []\<rparr>,
     Create_index ''invoice_items'' (Index ''idx_invoice_items_invoice'' [''invoice_id'', ''position''] False None None)]"

definition create_messages :: "ddl list" where
  "create_messages =
    [Create_table ''messages''
       \<lparr>rel_columns =
          [Column ''conversation_id'' T_uuid False None, Column ''sender_id'' T_uuid False None,
           Column ''message_type'' (T_enum ''message_type'') False (Some (sql_quote ''TEXT'')),
           Column ''content_encrypted'' T_text False None, Column ''is_read'' T_boolean False (Some ''false''),
           Column ''read_at'' T_timestamptz True None, Column ''id'' T_uuid False (Some ''gen_random_uuid()''),
           Column ''created_at'' T_timestamptz False (Some ''now()''),
           Column ''updated_at'' T_timestamptz False (Some ''now()'')],
        rel_constraints =
          [Foreign_key ''conversation_id'' ''conversations'' ''id'' (Some ''CASCADE''),
           Foreign_key ''sender_id'' ''users'' ''id'' None, Primary_key [''id'']],
        rel_indexes = []\<rparr>,
     Create_index ''messages'' (Index ''idx_messages_conversation_keyset'' [''conversation_id'', ''created_at DESC'', ''id DESC''] False None None)]"

definition create_payment_intents :: "ddl list" where
  "create_payment_intents =
    [Create_table ''payment_intents''
       \<lparr>rel_columns =
          [Column ''user_id'' T_uuid False None, Column ''purpose'' (T_enum ''payment_purpose'') False None,
           Column ''amount'' (T_numeric 12 2) False None,
           Column ''currency'' (T_string 3) False (Some (sql_quote ''SAR'')),
           Column ''status'' (T_enum ''payment_intent_status'') False (Some (sql_quote ''NEW'')),
           Column ''paylink_transaction_no'' (T_string 100) True None,
           Column ''paylink_url'' (T_string 512) True None, Column ''reference_invoice_id'' T_uuid True None,
           Column ''expires_at'' T_timestamptz False None, Column ''paid_at'' T_timestamptz True None,
           Column ''failure_reason'' (T_string 255) True None,
           Column ''id'' T_uuid False (Some ''gen_random_uuid()''),
           Column ''created_at'' T_timestamptz False (Some ''now()''),
           Column ''updated_at'' T_timestamptz False (Some ''now()'')],
        rel_constraints =
          [Check ''chk_intent_purpose_reference'' (''(purpose='' @ sql_quote ''ORDER_INVOICE'' @ '' AND reference_invoice_id IS NOT NULL) OR (purpose='' @ sql_quote ''WALLET_TOPUP'' @ '' AND reference_invoice_id IS NULL)''),
           Check ''chk_intent_amount_positive'' ''amount > 0'',
           Foreign_key ''reference_invoice_id'' ''invoices'' ''id'' None,
           Foreign_key ''user_id'' ''users'' ''id'' None, Primary_key [''id'']],
        rel_indexes = []\<rparr>,
     Create_index ''payment_intents'' (Index ''idx_payment_intents_invoice'' [''reference_invoice_id''] False (Some ''reference_invoice_id IS NOT NULL'') None),
     Create_index ''payment_intents'' (Index ''idx_payment_intents_status_expires'' [''status'', ''expires_at''] False (Some (''status='' @ sql_quote ''NEW'')) None),
     Create_index ''payment_intents'' (Index ''idx_payment_intents_user_created'' [''user_id'', ''created_at DESC''] False None None),
     Create_index ''payment_intents'' (Index ''uq_payment_intents_paylink_txn'' [''paylink_transaction_no''] True (Some ''paylink_transaction_no IS NOT NULL'') None)]"

definition create_promo_redemptions :: "ddl list" where
  "create_promo_redemptions =
    [Create_table ''promo_redemptions''
       \<lparr>rel_columns =
          [Column ''promo_id'' T_uuid False None, Column ''user_id'' T_uuid False None,
           Column ''invoice_id'' T_uuid False None, Column ''order_id'' T_uuid False None,
           Column ''discount_amount'' (T_numeric 12 2) False None,
           Column ''status'' (T_enum ''promo_redemption_status'') False (Some (sql_quote ''RESERVED'')),
           Column ''released_at'' T_timestamptz True None, Column ''consumed_at'' T_timestamptz True None,
           Column ''id'' T_uuid False (Some ''gen_random_uuid()''),
           Column ''created_at'' T_timestamptz False (Some ''now()''),
           Column ''updated_at'' T_timestamptz False (Some ''now()'')],
        rel_constraints =
          [Check ''chk_redemption_amount_positive'' ''discount_amount > 0'',
           Foreign_key ''invoice_id'' ''invoices'' ''id'' (Some ''CASCADE''),
           Foreign_key ''order_id'' ''orders'' ''id'' None,
           Foreign_key ''promo_id'' ''promos'' ''id'' (Some ''RESTRICT''),
           Foreign_key ''user_id'' ''users'' ''id'' None, Primary_key [''id''],
           Unique ''uq_promo_redemption_invoice'' [''promo_id'', ''invoice_id'']],
        rel_indexes = []\<rparr>,
     Create_index ''promo_redemptions'' (Index ''idx_promo_redemptions_invoice'' [''invoice_id''] False None None),
     Create_index ''promo_redemptions'' (Index ''idx_promo_redemptions_promo_user'' [''promo_id'', ''user_id'', ''status''] False None None)]"

definition create_transactions :: "ddl list" where
  "create_transactions =
    [Create_table ''transactions''
       \<lparr>rel_columns =
          [Column ''wallet_id'' T_uuid False None, Column ''amount'' (T_numeric 12 2) False None,
           Column ''type'' (T_enum ''transaction_type'') False None,
           Column ''status'' (T_enum ''transaction_status'') False (Some (sql_quote ''SETTLED'')),
           Column ''reference_order_id'' T_uuid True None, Column ''reference_invoice_id'' T_uuid True None,
           Column ''reference_intent_id'' T_uuid True None, Column ''correlation_id'' T_uuid False None,
           Column ''balance_after'' (T_numeric 12 2) False None, Column ''idempotency_key'' (T_string 128) True None,
           Column ''description'' (T_string 255) True None, Column ''id'' T_uuid False (Some ''gen_random_uuid()''),
           Column ''created_at'' T_timestamptz False (Some ''now()''),
           Column ''updated_at'' T_timestamptz False (Some ''now()'')],
        rel_constraints =
          [Check ''chk_amount_non_zero'' ''amount <> 0'',
           Foreign_key ''reference_intent_id'' ''payment_intents'' ''id'' (Some ''RESTRICT''),
           Foreign_key ''reference_invoice_id'' ''invoices'' ''id'' (Some ''RESTRICT''),
           Foreign_key ''reference_order_id'' ''orders'' ''id'' (Some ''RESTRICT''),
           Foreign_key ''wallet_id'' ''wallets'' ''id'' (Some ''RESTRICT''), Primary_key [''id'']],
        rel_indexes = []\<rparr>,
     Create_index ''transactions'' (Index ''idx_transactions_correlation'' [''correlation_id''] False None None),
     Create_index ''transactions'' (Index ''idx_transactions_order'' [''reference_order_id''] False (Some ''reference_order_id IS NOT NULL'') None),
     Create_index ''transactions'' (Index ''idx_transactions_wallet_created'' [''wallet_id'', ''created_at DESC'', ''id DESC''] False None None),
     Create_index ''transactions'' (Index ''uq_transactions_idempotency'' [''idempotency_key''] True (Some ''idempotency_key IS NOT NULL'') None)]"

definition create_wallet_topups :: "ddl list" where
  "create_wallet_topups =
    [Create_table ''wallet_topups''
       \<lparr>rel_columns =
          [Column ''user_id'' T_uuid False None, Column ''wallet_id'' T_uuid False None,
           Column ''payment_intent_id'' T_uuid False None, Column ''amount'' (T_numeric 12 2) False None,
           Column ''id'' T_uuid False (Some ''gen_random_uuid()''),
           Column ''created_at'' T_timestamptz False (Some ''now()''),
           Column ''updated_at'' T_timestamptz False (Some ''now()'')],
        rel_constraints =
          [Check ''chk_topup_bounds'' ''amount >= 100.00 AND amount <= 20000.00'',
           Foreign_key ''payment_intent_id'' ''payment_intents'' ''id'' None,
           Foreign_key ''user_id'' ''users'' ''id'' None, Foreign_key ''wallet_id'' ''wallets'' ''id'' None,
           Primary_key [''id''], Unique ''uq_wallet_topups_intent'' [''payment_intent_id'']],
        rel_indexes = []\<rparr>,
     Create_index ''wallet_topups'' (Index ''idx_wallet_topups_user_created'' [''user_id'', ''created_at DESC''] False None None)]"

definition create_triggers :: "ddl list" where
  "create_triggers =
    [Create_trigger ''trg_users_updated_at'' [''UPDATE''] ''users'' ''set_updated_at'',
     Create_trigger ''trg_courier_profiles_updated_at'' [''UPDATE''] ''courier_profiles'' ''set_updated_at'',
     Create_trigger ''trg_courier_portfolios_updated_at'' [''UPDATE''] ''courier_portfolios'' ''set_updated_at'',
     Create_trigger ''trg_device_tokens_updated_at'' [''UPDATE''] ''device_tokens'' ''set_updated_at'',
     Create_trigger ''trg_orders_updated_at'' [''UPDATE''] ''orders'' ''set_updated_at'',
     Create_trigger ''trg_order_media_updated_at'' [''UPDATE''] ''order_media'' ''set_updated_at'',
     Create_trigger ''trg_promos_updated_at'' [''UPDATE''] ''promos'' ''set_updated_at'',
     Create_trigger ''trg_invoices_updated_at'' [''UPDATE''] ''invoices'' ''set_updated_at'',
     Create_trigger ''trg_invoice_items_updated_at'' [''UPDATE''] ''invoice_items'' ''set_updated_at'',
     Create_trigger ''trg_promo_redemptions_updated_at'' [''UPDATE''] ''promo_redemptions'' ''set_updated_at'',
     Create_trigger ''trg_payment_intents_updated_at'' [''UPDATE''] ''payment_intents'' ''set_updated_at'',
     Create_trigger ''trg_wallet_topups_updated_at'' [''UPDATE''] ''wallet_topups'' ''set_updated_at'',
     Create_trigger ''trg_conversations_updated_at'' [''UPDATE''] ''conversations'' ''set_updated_at'',
     Create_trigger ''trg_messages_updated_at'' [''UPDATE''] ''messages'' ''set_updated_at'',
     Create_trigger ''trg_wallets_updated_at'' [''UPDATE''] ''wallets'' ''set_updated_at'',
     Create_trigger ''trg_transactions_updated_at'' [''UPDATE''] ''transactions'' ''set_updated_at'',
     Create_trigger ''trg_withdrawals_updated_at'' [''UPDATE''] ''withdrawals'' ''set_updated_at'',
     Create_trigger ''trg_ratings_updated_at'' [''UPDATE''] ''ratings'' ''set_updated_at'',
     Create_trigger ''trg_disputes_updated_at'' [''UPDATE''] ''disputes'' ''set_updated_at'',
     Create_trigger ''trg_admin_sessions_updated_at'' [''UPDATE''] ''admin_sessions'' ''set_updated_at'',
     Create_trigger ''trg_otp_attempts_updated_at'' [''UPDATE''] ''otp_attempts'' ''set_updated_at'',
     Create_trigger ''trg_audit_logs_updated_at'' [''UPDATE''] ''audit_logs'' ''set_updated_at'',
     Create_trigger ''trg_transactions_immutable'' [''UPDATE'', ''DELETE''] ''transactions'' ''enforce_ledger_immutability'',
     Create_trigger ''trg_invoice_items_freeze'' [''INSERT'', ''UPDATE'', ''DELETE''] ''invoice_items'' ''enforce_invoice_item_freeze'',
     Create_trigger ''trg_messages_append_only'' [''UPDATE'', ''DELETE''] ''messages'' ''enforce_message_append_only'']"

definition baseline_upgrade :: "ddl list" where
  "baseline_upgrade = create_types @ create_functions @
     create_otp_attempts @ create_users @ create_admin_sessions @ create_audit_logs @ create_courier_portfolios @
     create_courier_profiles @ create_device_tokens @ create_orders @ create_promos @ create_wallets @
     create_conversations @ create_disputes @ create_invoices @ create_order_media @ create_ratings @ create_withdrawals @
     create_invoice_items @ create_messages @ create_payment_intents @ create_promo_redemptions @ create_transactions @
     create_wallet_topups @
     create_triggers"

definition drop_tables_1 :: "ddl list" where
  "drop_tables_1 =
    [Drop_index ''idx_wallet_topups_user_created'' ''wallet_topups'',
     Drop_table ''wallet_topups'',
     Drop_index ''uq_transactions_idempotency'' ''transactions'',
     Drop_index ''idx_transactions_wallet_created'' ''transactions'',
     Drop_index ''idx_transactions_order'' ''transactions'',
     Drop_index ''idx_transactions_correlation'' ''transactions'',
     Drop_table ''transactions'',
     Drop_index ''idx_promo_redemptions_promo_user'' ''promo_redemptions'',
     Drop_index ''idx_promo_redemptions_invoice'' ''promo_redemptions'',
     Drop_table ''promo_redemptions'',
     Drop_index ''uq_payment_intents_paylink_txn'' ''payment_intents'',
     Drop_index ''idx_payment_intents_user_created'' ''payment_intents'',
     Drop_index ''idx_payment_intents_status_expires'' ''payment_intents'',
     Drop_index ''idx_payment_intents_invoice'' ''payment_intents'',
     Drop_table ''payment_intents'',
     Drop_index ''idx_messages_conversation_keyset'' ''messages'',
     Drop_table ''messages'',
     Drop_index ''idx_invoice_items_invoice'' ''invoice_items'',
     Drop_table ''invoice_items'',
     Drop_index ''idx_withdrawals_status_created'' ''withdrawals'',
     Drop_index ''idx_withdrawals_courier_status'' ''withdrawals'',
     Drop_table ''withdrawals'',
     Drop_index ''idx_ratings_rated_user'' ''ratings'',
     Drop_table ''ratings'',
     Drop_index ''idx_order_media_order_type'' ''order_media'',
     Drop_table ''order_media'',
     Drop_index ''uq_invoices_one_active_per_order'' ''invoices'',
     Drop_index ''idx_invoices_status_expires'' ''invoices'',
     Drop_index ''idx_invoices_receipt_pending'' ''invoices'',
     Drop_index ''idx_invoices_promo'' ''invoices'',
     Drop_index ''idx_invoices_order'' ''invoices'',
     Drop_table ''invoices'',
     Drop_index ''idx_disputes_status_created'' ''disputes'',
     Drop_table ''disputes'']"

definition drop_tables_2 :: "ddl list" where
  "drop_tables_2 =
    [Drop_index ''idx_conversations_customer_inbox'' ''conversations'',
     Drop_index ''idx_conversations_courier_inbox'' ''conversations'',
     Drop_table ''conversations'',
     Drop_index ''uq_wallets_user'' ''wallets'',
     Drop_index ''uq_wallets_one_tax'' ''wallets'',
     Drop_index ''uq_wallets_one_revenue'' ''wallets'',
     Drop_index ''uq_wallets_one_gateway'' ''wallets'',
     Drop_index ''uq_wallets_one_escrow'' ''wallets'',
     Drop_table ''wallets'',
     Drop_index ''idx_promos_active_window'' ''promos'',
     Drop_table ''promos'',
     Drop_index ''idx_orders_status_delivered_at'' ''orders'',
     Drop_index ''idx_orders_location_gist'' ''orders'',
     Drop_index ''idx_orders_customer_created'' ''orders'',
     Drop_index ''idx_orders_courier_created'' ''orders'',
     Drop_index ''idx_orders_city_status'' ''orders'',
     Drop_table ''orders'',
     Drop_index ''idx_device_tokens_user'' ''device_tokens'',
     Drop_table ''device_tokens'',
     Drop_index ''uq_courier_identity_fingerprint'' ''courier_profiles'',
     Drop_index ''idx_courier_profiles_city_verified'' ''courier_profiles'',
     Drop_table ''courier_profiles'',
     Drop_index ''idx_courier_portfolios_courier'' ''courier_portfolios'',
     Drop_table ''courier_portfolios'',
     Drop_index ''idx_audit_logs_entity'' ''audit_logs'',
     Drop_index ''idx_audit_logs_actor_created'' ''audit_logs'',
     Drop_table ''audit_logs'',
     Drop_index ''idx_admin_sessions_admin_expires'' ''admin_sessions'',
     Drop_table ''admin_sessions'',
     Drop_index ''uq_users_email'' ''users'',
     Drop_index ''idx_users_role_status'' ''users'',
     Drop_table ''users'',
     Drop_table ''otp_attempts'']"

definition drop_functions_and_types :: "ddl list" where
  "drop_functions_and_types =
    [Drop_function ''set_updated_at'',
     Drop_function ''enforce_ledger_immutability'',
     Drop_function ''enforce_invoice_item_freeze'',
     Drop_function ''enforce_message_append_only'',
     Drop_type ''user_role'',
     Drop_type ''user_status'',
     Drop_type ''order_status'',
     Drop_type ''invoice_status'',
     Drop_type ''payment_purpose'',
     Drop_type ''payment_intent_status'',
     Drop_type ''payment_method'',
     Drop_type ''promo_discount_type'',
     Drop_type ''promo_redemption_status'',
     Drop_type ''media_type'',
     Drop_type ''message_type'',
     Drop_type ''wallet_type'',
     Drop_type ''transaction_type'',
     Drop_type ''transaction_status'',
     Drop_type ''device_os'',
     Drop_type ''withdrawal_status'',
     Drop_type ''dispute_status'']"

definition baseline_downgrade :: "ddl list" where
  "baseline_downgrade = drop_tables_1 @ drop_tables_2 @ drop_functions_and_types"

definition refresh_tokens_upgrade :: "ddl list" where
  "refresh_tokens_upgrade =
    [Create_table ''refresh_tokens''
       \<lparr>rel_columns =
          [Column ''user_id'' T_uuid False None, Column ''token_hash'' (T_string 64) False None,
           Column ''family_id'' T_uuid False None, Column ''expires_at'' T_timestamptz False None,
           Column ''used_at'' T_timestamptz True None, Column ''revoked_at'' T_timestamptz True None,
           Column ''created_at'' T_timestamptz False (Some ''now()''),
           Column ''id'' T_uuid False (Some ''gen_random_uuid()'')],
        rel_constraints =
          [Foreign_key ''user_id'' ''users'' ''id'' (Some ''CASCADE''), Primary_key [''id''],
           Unique ''uq_refresh_tokens_hash'' [''token_hash'']],
        rel_indexes = []\<rparr>,
     Create_index ''refresh_tokens'' (Index ''idx_refresh_tokens_family'' [''family_id''] False None None),
     Create_index ''refresh_tokens'' (Index ''idx_refresh_tokens_user'' [''user_id''] False None None)]"

definition refresh_tokens_downgrade :: "ddl list" where
  "refresh_tokens_downgrade =
    [Drop_index ''idx_refresh_tokens_user'' ''refresh_tokens'',
     Drop_index ''idx_refresh_tokens_family'' ''refresh_tokens'',
     Drop_table ''refresh_tokens'']"

definition withdrawal_idempotency_upgrade :: "ddl list" where
  "withdrawal_idempotency_upgrade =
    [Add_column ''withdrawals'' (Column ''idempotency_key'' (T_string 128) True None),
     Create_index ''withdrawals'' (Index ''uq_withdrawals_courier_idempotency'' [''courier_id'', ''idempotency_key''] True (Some ''idempotency_key IS NOT NULL'') None)]"

definition withdrawal_idempotency_downgrade :: "ddl list" where
  "withdrawal_idempotency_downgrade =
    [Drop_index ''uq_withdrawals_courier_idempotency'' ''withdrawals'',
     Drop_column ''withdrawals'' ''idempotency_key'']"

definition streampay_upgrade :: "ddl list" where
  "streampay_upgrade =
    [Drop_index ''uq_payment_intents_paylink_txn'' ''payment_intents'',
     Rename_column ''payment_intents'' ''paylink_transaction_no'' ''streampay_payment_link_id'',
     Rename_column ''payment_intents'' ''paylink_url'' ''streampay_payment_url'',
     Create_index ''payment_intents'' (Index ''uq_payment_intents_streampay_link'' [''streampay_payment_link_id''] True (Some ''streampay_payment_link_id IS NOT NULL'') None)]"

definition streampay_downgrade :: "ddl list" where
  "streampay_downgrade =
    [Drop_index ''uq_payment_intents_streampay_link'' ''payment_intents'',
     Rename_column ''payment_intents'' ''streampay_payment_link_id'' ''paylink_transaction_no'',
     Rename_column ''payment_intents'' ''streampay_payment_url'' ''paylink_url'',
     Create_index ''payment_intents'' (Index ''uq_payment_intents_paylink_txn'' [''paylink_transaction_no''] True (Some ''paylink_transaction_no IS NOT NULL'') None)]"

definition legacy_links_upgrade :: "ddl list" where
  "legacy_links_upgrade =
    [Add_column ''payment_intents'' (Column ''checkout_provider'' (T_string 20) False (Some (sql_quote ''LEGACY''))),
     Set_default ''payment_intents'' ''checkout_provider'' (Some (sql_quote ''STREAMPAY''))]"

definition legacy_links_downgrade :: "ddl list" where
  "legacy_links_downgrade =
    [Drop_column ''payment_intents'' ''checkout_provider'']"

section \<open>The data change of the last migration\<close>

definition legacy_intent :: "payment_intent \<Rightarrow> bool" where
  "legacy_intent p \<longleftrightarrow> pi_status p = PI_NEW \<and> pi_checkout_provider p = ''LEGACY''"

text \<open>The subquery \<open>legacy_hold\<close>: for each user with such intents, the wallet parts of their invoices.\<close>

definition legacy_rows :: "db \<Rightarrow> (uuid \<times> money) list" where
  "legacy_rows d = concat (map (\<lambda>p. if legacy_intent p \<and> pi_purpose p = PP_ORDER_INVOICE
     then map (\<lambda>i. (pi_user_id p, inv_amount_from_wallet i)) (filter (\<lambda>i. pi_reference_invoice_id p = Some (inv_id i)) (invoices d))
     else []) (payment_intents d))"

definition legacy_hold :: "db \<Rightarrow> uuid \<Rightarrow> money option" where
  "legacy_hold d u = (let rows = filter (\<lambda>(v, _). v = u) (legacy_rows d)
     in if rows = [] then None else Some (sum_list (map snd rows)))"

definition release_legacy_holds :: "db \<Rightarrow> db" where
  "release_legacy_holds d = d\<lparr>wallets := map (\<lambda>w.
     case Option.bind (w_user_id w) (legacy_hold d) of None \<Rightarrow> w
     | Some a \<Rightarrow> w\<lparr>w_held_balance := max 0 (w_held_balance w - a)\<rparr>) (wallets d)\<rparr>"

definition cancel_legacy_intents :: "db \<Rightarrow> db" where
  "cancel_legacy_intents d = d\<lparr>payment_intents := map (\<lambda>p.
     if legacy_intent p
     then p\<lparr>pi_status := PI_CANCELLED, pi_failure_reason := Some ''Legacy payment link replaced by StreamPay'',
            pi_streampay_payment_link_id := None, pi_streampay_payment_url := None\<rparr>
     else p) (payment_intents d)\<rparr>"

definition cancel_legacy_links :: "db \<Rightarrow> db" where
  "cancel_legacy_links d = cancel_legacy_intents (release_legacy_holds d)"

text \<open>It leaves no open legacy link, changes no balance, never makes a hold negative or larger, touches neither
  other intents nor the wallets of users without one, and running it again does nothing.\<close>

lemma no_legacy_left: "p \<in> set (payment_intents (cancel_legacy_links d)) \<Longrightarrow> \<not> legacy_intent p"
  by (auto simp: cancel_legacy_links_def cancel_legacy_intents_def legacy_intent_def split: if_splits)

lemma legacy_balances: "map w_balance (wallets (cancel_legacy_links d)) = map w_balance (wallets d)"
  by (simp add: cancel_legacy_links_def cancel_legacy_intents_def release_legacy_holds_def split: option.splits)

lemma legacy_hold_nonneg:
  assumes "list_all (\<lambda>i. 0 \<le> inv_amount_from_wallet i) (invoices d)" and "legacy_hold d u = Some a"
  shows "0 \<le> a"
  using assms
  by (auto simp: legacy_hold_def legacy_rows_def list_all_iff Let_def split: if_splits intro!: sum_list_nonneg)

lemma legacy_holds_shrink:
  assumes "list_all (\<lambda>i. 0 \<le> inv_amount_from_wallet i) (invoices d)"
    and "list_all (\<lambda>w. 0 \<le> w_held_balance w) (wallets d)"
  shows "list_all2 (\<lambda>w w'. 0 \<le> w_held_balance w' \<and> w_held_balance w' \<le> w_held_balance w) (wallets d) (wallets (cancel_legacy_links d))"
proof -
  have "list_all2 (\<lambda>w w'. 0 \<le> w_held_balance w' \<and> w_held_balance w' \<le> w_held_balance w) ws
      (map (\<lambda>w. case Option.bind (w_user_id w) (legacy_hold d) of None \<Rightarrow> w
        | Some a \<Rightarrow> w\<lparr>w_held_balance := max 0 (w_held_balance w - a)\<rparr>) ws)"
    if "list_all (\<lambda>w. 0 \<le> w_held_balance w) ws" for ws
    using that
  proof (induction ws)
    case (Cons w ws)
    show ?case
    proof (cases "Option.bind (w_user_id w) (legacy_hold d)")
      case (Some a)
      then have "0 \<le> a" using legacy_hold_nonneg[OF assms(1)] by (auto split: bind_splits)
      then show ?thesis using Cons Some by auto
    qed (use Cons in auto)
  qed simp
  then show ?thesis using assms(2)
    by (simp add: cancel_legacy_links_def cancel_legacy_intents_def release_legacy_holds_def)
qed

lemma legacy_again: "cancel_legacy_links (cancel_legacy_links d) = cancel_legacy_links d"
proof -
  let ?d = "cancel_legacy_links d"
  have "legacy_rows ?d = []" using no_legacy_left by (auto simp: legacy_rows_def)
  then have "legacy_hold ?d = (\<lambda>_. None)" by (simp add: legacy_hold_def fun_eq_iff)
  then have "release_legacy_holds ?d = ?d" by (simp add: release_legacy_holds_def bind_eq_None_conv split: option.splits)
  moreover have "map (\<lambda>p. if legacy_intent p then f p else p) (payment_intents ?d) = payment_intents ?d" for f
    using no_legacy_left by (simp add: map_idI)
  ultimately show ?thesis unfolding cancel_legacy_links_def[of ?d] by (simp add: cancel_legacy_intents_def)
qed

end
