(* ===== verification/Models.thy ===== *)
theory Models
  imports Migrations
begin

text \<open>
  The declarative models of \<open>app/models/\<close> as data: the columns of each class with those of its mixins,
  its constraints and its indexes, under the name of its table; and the enum types of the columns.
\<close>

section \<open>The models\<close>

definition uuid_primary_key :: "column list" where
  "uuid_primary_key = [Column ''id'' T_uuid False (Some ''gen_random_uuid()'')]"

definition timestamp_columns :: "column list" where
  "timestamp_columns = [Column ''created_at'' T_timestamptz False (Some ''now()''),
     Column ''updated_at'' T_timestamptz False (Some ''now()'')]"

definition orm_refresh_tokens :: rel where
  "orm_refresh_tokens =
    \<lparr>rel_columns = uuid_primary_key @
       [Column ''user_id'' T_uuid False None, Column ''token_hash'' (T_string 64) False None,
        Column ''family_id'' T_uuid False None, Column ''expires_at'' T_timestamptz False None,
        Column ''used_at'' T_timestamptz True None, Column ''revoked_at'' T_timestamptz True None,
        Column ''created_at'' T_timestamptz False (Some ''now()'')],
     rel_constraints =
       [Primary_key [''id''], Foreign_key ''user_id'' ''users'' ''id'' (Some ''CASCADE''),
        Unique ''uq_refresh_tokens_hash'' [''token_hash'']],
     rel_indexes = [Index ''idx_refresh_tokens_family'' [''family_id''] False None None,
        Index ''idx_refresh_tokens_user'' [''user_id''] False None None]\<rparr>"

definition orm_users :: rel where
  "orm_users =
    \<lparr>rel_columns = uuid_primary_key @ timestamp_columns @
       [Column ''phone'' (T_string 20) False None, Column ''email'' (T_string 255) True None,
        Column ''full_name'' (T_string 120) True None, Column ''date_of_birth'' T_date True None,
        Column ''role'' (T_enum ''user_role'') False None,
        Column ''status'' (T_enum ''user_status'') False (Some (sql_quote ''ACTIVE'')),
        Column ''rating'' (T_numeric 2 1) False (Some ''5.0''), Column ''rating_count'' T_integer False (Some ''0''),
        Column ''deleted_at'' T_timestamptz True None],
     rel_constraints =
       [Primary_key [''id''], Check ''chk_rating_range'' ''rating BETWEEN 0.0 AND 5.0'',
        Unique ''uq_users_phone'' [''phone'']],
     rel_indexes = [Index ''uq_users_email'' [''email''] True (Some ''email IS NOT NULL'') None,
        Index ''idx_users_role_status'' [''role'', ''status''] False None None]\<rparr>"

definition orm_courier_profiles :: rel where
  "orm_courier_profiles =
    \<lparr>rel_columns = timestamp_columns @
       [Column ''user_id'' T_uuid False None, Column ''passport_id_encrypted'' (T_string 512) True None,
        Column ''national_id_encrypted'' (T_string 512) True None,
        Column ''identity_fingerprint'' (T_string 64) True None,
        Column ''city_of_residence'' (T_string 100) False None, Column ''bio'' T_text True None,
        Column ''is_verified'' T_boolean False (Some ''false''), Column ''verified_at'' T_timestamptz True None,
        Column ''verified_by_admin_id'' T_uuid True None],
     rel_constraints =
       [Primary_key [''user_id''], Foreign_key ''user_id'' ''users'' ''id'' (Some ''CASCADE''),
        Foreign_key ''verified_by_admin_id'' ''users'' ''id'' None,
        Check ''chk_identity_present'' ''passport_id_encrypted IS NOT NULL OR national_id_encrypted IS NOT NULL''],
     rel_indexes = [Index ''idx_courier_profiles_city_verified'' [''city_of_residence'', ''is_verified''] False None None,
        Index ''uq_courier_identity_fingerprint'' [''identity_fingerprint''] True (Some ''identity_fingerprint IS NOT NULL'') None]\<rparr>"

definition orm_courier_portfolios :: rel where
  "orm_courier_portfolios =
    \<lparr>rel_columns = uuid_primary_key @ timestamp_columns @
       [Column ''courier_id'' T_uuid False None, Column ''storage_key'' (T_string 512) False None,
        Column ''media_type'' (T_enum ''message_type'') False (Some (sql_quote ''IMAGE'')),
        Column ''description'' (T_string 500) True None, Column ''display_order'' T_integer False (Some ''0'')],
     rel_constraints =
       [Primary_key [''id''], Foreign_key ''courier_id'' ''users'' ''id'' (Some ''CASCADE'')],
     rel_indexes = [Index ''idx_courier_portfolios_courier'' [''courier_id'', ''display_order''] False None None]\<rparr>"

definition orm_device_tokens :: rel where
  "orm_device_tokens =
    \<lparr>rel_columns = uuid_primary_key @ timestamp_columns @
       [Column ''user_id'' T_uuid False None, Column ''device_os'' (T_enum ''device_os'') False None,
        Column ''token'' (T_string 512) False None, Column ''last_seen_at'' T_timestamptz False (Some ''now()'')],
     rel_constraints =
       [Primary_key [''id''], Foreign_key ''user_id'' ''users'' ''id'' (Some ''CASCADE''),
        Unique ''uq_device_tokens_token'' [''token'']],
     rel_indexes = [Index ''idx_device_tokens_user'' [''user_id''] False None None]\<rparr>"

definition orm_orders :: rel where
  "orm_orders =
    \<lparr>rel_columns = uuid_primary_key @ timestamp_columns @
       [Column ''customer_id'' T_uuid False None, Column ''courier_id'' T_uuid True None,
        Column ''description'' T_text True None, Column ''delivery_city'' (T_string 100) False None,
        Column ''delivery_location'' (T_geometry ''POINT'' 4326) False None,
        Column ''delivery_address_note'' (T_string 255) True None, Column ''delivery_date'' T_date False None,
        Column ''status'' (T_enum ''order_status'') False (Some (sql_quote ''NEW'')),
        Column ''total_amount'' (T_numeric 12 2) False (Some ''0.00''),
        Column ''commission_amount'' (T_numeric 12 2) False (Some ''0.00''),
        Column ''courier_payout_amount'' (T_numeric 12 2) False (Some ''0.00''),
        Column ''assigned_at'' T_timestamptz True None, Column ''delivered_at'' T_timestamptz True None,
        Column ''completed_at'' T_timestamptz True None, Column ''cancelled_reason'' (T_string 255) True None],
     rel_constraints =
       [Primary_key [''id''], Foreign_key ''customer_id'' ''users'' ''id'' (Some ''RESTRICT''),
        Foreign_key ''courier_id'' ''users'' ''id'' (Some ''RESTRICT''),
        Check ''chk_delivery_date_window'' (''delivery_date >= CURRENT_DATE AND delivery_date <= CURRENT_DATE + INTERVAL '' @ sql_quote ''180 days''),
        Check ''chk_amounts_non_negative'' ''total_amount >= 0 AND commission_amount >= 0 AND courier_payout_amount >= 0'',
        Check ''chk_courier_required_after_assignment'' (''status IN ('' @ sql_quote ''NEW'' @ '','' @ sql_quote ''CANCELLED'' @ '') OR courier_id IS NOT NULL'')],
     rel_indexes = [Index ''idx_orders_city_status'' [''delivery_city'', ''status''] False None None,
        Index ''idx_orders_customer_created'' [''customer_id'', ''created_at DESC''] False None None,
        Index ''idx_orders_courier_created'' [''courier_id'', ''created_at DESC''] False (Some ''courier_id IS NOT NULL'') None,
        Index ''idx_orders_status_delivered_at'' [''status'', ''delivered_at''] False (Some (''status = '' @ sql_quote ''DELIVERED'')) None,
        Index ''idx_orders_location_gist'' [''delivery_location''] False None (Some ''gist'')]\<rparr>"

definition orm_order_media :: rel where
  "orm_order_media =
    \<lparr>rel_columns = uuid_primary_key @ timestamp_columns @
       [Column ''order_id'' T_uuid False None, Column ''uploaded_by_user_id'' T_uuid False None,
        Column ''media_type'' (T_enum ''media_type'') False None, Column ''storage_key'' (T_string 512) False None,
        Column ''content_type'' (T_string 50) False None, Column ''byte_size'' T_bigint False None,
        Column ''capture_location'' (T_geometry ''POINT'' 4326) True None,
        Column ''captured_at'' T_timestamptz True None],
     rel_constraints =
       [Primary_key [''id''], Foreign_key ''order_id'' ''orders'' ''id'' (Some ''CASCADE''),
        Foreign_key ''uploaded_by_user_id'' ''users'' ''id'' None,
        Check ''chk_proof_has_location'' (''media_type <> '' @ sql_quote ''DELIVERY_PROOF'' @ '' OR capture_location IS NOT NULL'')],
     rel_indexes = [Index ''idx_order_media_order_type'' [''order_id'', ''media_type''] False None None]\<rparr>"

definition orm_promos :: rel where
  "orm_promos =
    \<lparr>rel_columns = uuid_primary_key @ timestamp_columns @
       [Column ''code'' (T_string 32) False None, Column ''description'' (T_string 255) False None,
        Column ''discount_type'' (T_enum ''promo_discount_type'') False None,
        Column ''percent_value'' (T_numeric 5 2) True None, Column ''fixed_amount'' (T_numeric 12 2) True None,
        Column ''max_discount_amount'' (T_numeric 12 2) True None,
        Column ''min_order_amount'' (T_numeric 12 2) False (Some ''0.00''),
        Column ''max_total_usages'' T_integer True None, Column ''max_usages_per_user'' T_integer False (Some ''1''),
        Column ''used_count'' T_integer False (Some ''0''), Column ''is_active'' T_boolean False (Some ''true''),
        Column ''starts_at'' T_timestamptz True None, Column ''ends_at'' T_timestamptz True None,
        Column ''created_by_admin_id'' T_uuid True None],
     rel_constraints =
       [Primary_key [''id''], Foreign_key ''created_by_admin_id'' ''users'' ''id'' None,
        Check ''chk_promo_code_upper'' ''code = upper(code) AND code = btrim(code)'',
        Check ''chk_promo_code_len'' ''char_length(code) BETWEEN 3 AND 32'',
        Check ''chk_promo_value_by_type'' (''(discount_type='' @ sql_quote ''PERCENT'' @ '' AND percent_value IS NOT NULL AND fixed_amount IS NULL AND percent_value > 0 AND percent_value <= 100) OR (discount_type='' @ sql_quote ''FIXED'' @ '' AND fixed_amount IS NOT NULL AND percent_value IS NULL AND fixed_amount > 0)''),
        Check ''chk_promo_usage_bounds'' ''used_count >= 0 AND (max_total_usages IS NULL OR used_count <= max_total_usages) AND max_usages_per_user >= 1'',
        Check ''chk_promo_window'' ''starts_at IS NULL OR ends_at IS NULL OR ends_at > starts_at'',
        Unique ''uq_promos_code'' [''code'']],
     rel_indexes = [Index ''idx_promos_active_window'' [''is_active'', ''starts_at'', ''ends_at''] False None None]\<rparr>"

definition orm_invoices :: rel where
  "orm_invoices =
    \<lparr>rel_columns = uuid_primary_key @ timestamp_columns @
       [Column ''order_id'' T_uuid False None, Column ''issued_by_courier_id'' T_uuid False None,
        Column ''status'' (T_enum ''invoice_status'') False (Some (sql_quote ''DRAFT'')),
        Column ''currency'' (T_string 3) False (Some (sql_quote ''SAR'')),
        Column ''items_net_amount'' (T_numeric 12 2) False (Some ''0.00''),
        Column ''courier_fee_amount'' (T_numeric 12 2) False (Some ''0.00''),
        Column ''service_fee_amount'' (T_numeric 12 2) False (Some ''0.00''),
        Column ''discount_amount'' (T_numeric 12 2) False (Some ''0.00''),
        Column ''net_after_discount_amount'' (T_numeric 12 2) False (Some ''0.00''),
        Column ''tax_amount'' (T_numeric 12 2) False (Some ''0.00''),
        Column ''total_amount'' (T_numeric 12 2) False (Some ''0.00''), Column ''promo_id'' T_uuid True None,
        Column ''promo_code_snapshot'' (T_string 32) True None,
        Column ''payment_method'' (T_enum ''payment_method'') True None,
        Column ''amount_from_wallet'' (T_numeric 12 2) False (Some ''0.00''),
        Column ''amount_from_gateway'' (T_numeric 12 2) False (Some ''0.00''),
        Column ''pricing_breakdown'' T_jsonb True None, Column ''expires_at'' T_timestamptz True None,
        Column ''issued_at'' T_timestamptz True None, Column ''paid_at'' T_timestamptz True None,
        Column ''receipt_email_sent_at'' T_timestamptz True None],
     rel_constraints =
       [Primary_key [''id''], Foreign_key ''order_id'' ''orders'' ''id'' (Some ''CASCADE''),
        Foreign_key ''issued_by_courier_id'' ''users'' ''id'' None,
        Foreign_key ''promo_id'' ''promos'' ''id'' (Some ''RESTRICT''),
        Check ''chk_invoice_amounts_non_negative'' ''items_net_amount >= 0 AND courier_fee_amount >= 0 AND service_fee_amount >= 0 AND discount_amount >= 0 AND tax_amount >= 0 AND total_amount >= 0'',
        Check ''chk_invoice_total_positive'' (''status = '' @ sql_quote ''DRAFT'' @ '' OR total_amount > 0''),
        Check ''chk_invoice_net_math'' ''net_after_discount_amount = items_net_amount + courier_fee_amount + service_fee_amount - discount_amount'',
        Check ''chk_invoice_total_math'' ''total_amount = net_after_discount_amount + tax_amount'',
        Check ''chk_invoice_promo_pairing'' ''(promo_id IS NULL AND discount_amount = 0) OR (promo_id IS NOT NULL AND discount_amount > 0)''],
     rel_indexes = [Index ''idx_invoices_order'' [''order_id''] False None None,
        Index ''uq_invoices_one_active_per_order'' [''order_id''] True (Some (''status IN ('' @ sql_quote ''DRAFT'' @ '','' @ sql_quote ''ISSUED'' @ '','' @ sql_quote ''PAID'' @ '')'')) None,
        Index ''idx_invoices_receipt_pending'' [''id''] False (Some (''status='' @ sql_quote ''PAID'' @ '' AND receipt_email_sent_at IS NULL'')) None,
        Index ''idx_invoices_status_expires'' [''status'', ''expires_at''] False (Some (''status='' @ sql_quote ''ISSUED'')) None,
        Index ''idx_invoices_promo'' [''promo_id''] False (Some ''promo_id IS NOT NULL'') None]\<rparr>"

definition orm_invoice_items :: rel where
  "orm_invoice_items =
    \<lparr>rel_columns = uuid_primary_key @ timestamp_columns @
       [Column ''invoice_id'' T_uuid False None, Column ''position'' T_smallint False None,
        Column ''title'' (T_string 120) False None, Column ''description'' (T_string 500) True None,
        Column ''unit_price_amount'' (T_numeric 12 2) False None, Column ''quantity'' T_integer False None,
        Column ''tax_rate'' (T_numeric 6 4) False None, Column ''line_net_amount'' (T_numeric 12 2) False None,
        Column ''line_discount_amount'' (T_numeric 12 2) False (Some ''0.00''),
        Column ''line_taxable_amount'' (T_numeric 12 2) False None,
        Column ''line_tax_amount'' (T_numeric 12 2) False None,
        Column ''line_total_amount'' (T_numeric 12 2) False None],
     rel_constraints =
       [Primary_key [''id''], Foreign_key ''invoice_id'' ''invoices'' ''id'' (Some ''CASCADE''),
        Unique ''uq_invoice_item_position'' [''invoice_id'', ''position''],
        Check ''chk_item_quantity'' ''quantity BETWEEN 1 AND 999'',
        Check ''chk_item_unit_price'' ''unit_price_amount > 0'',
        Check ''chk_item_tax_rate'' ''tax_rate >= 0 AND tax_rate <= 1'',
        Check ''chk_item_line_math'' ''line_net_amount = unit_price_amount * quantity AND line_taxable_amount = line_net_amount - line_discount_amount AND line_total_amount = line_taxable_amount + line_tax_amount''],
     rel_indexes = [Index ''idx_invoice_items_invoice'' [''invoice_id'', ''position''] False None None]\<rparr>"

definition orm_promo_redemptions :: rel where
  "orm_promo_redemptions =
    \<lparr>rel_columns = uuid_primary_key @ timestamp_columns @
       [Column ''promo_id'' T_uuid False None, Column ''user_id'' T_uuid False None,
        Column ''invoice_id'' T_uuid False None, Column ''order_id'' T_uuid False None,
        Column ''discount_amount'' (T_numeric 12 2) False None,
        Column ''status'' (T_enum ''promo_redemption_status'') False (Some (sql_quote ''RESERVED'')),
        Column ''released_at'' T_timestamptz True None, Column ''consumed_at'' T_timestamptz True None],
     rel_constraints =
       [Primary_key [''id''], Foreign_key ''promo_id'' ''promos'' ''id'' (Some ''RESTRICT''),
        Foreign_key ''user_id'' ''users'' ''id'' None,
        Foreign_key ''invoice_id'' ''invoices'' ''id'' (Some ''CASCADE''),
        Foreign_key ''order_id'' ''orders'' ''id'' None,
        Unique ''uq_promo_redemption_invoice'' [''promo_id'', ''invoice_id''],
        Check ''chk_redemption_amount_positive'' ''discount_amount > 0''],
     rel_indexes = [Index ''idx_promo_redemptions_promo_user'' [''promo_id'', ''user_id'', ''status''] False None None,
        Index ''idx_promo_redemptions_invoice'' [''invoice_id''] False None None]\<rparr>"

definition orm_payment_intents :: rel where
  "orm_payment_intents =
    \<lparr>rel_columns = uuid_primary_key @ timestamp_columns @
       [Column ''user_id'' T_uuid False None, Column ''purpose'' (T_enum ''payment_purpose'') False None,
        Column ''amount'' (T_numeric 12 2) False None,
        Column ''currency'' (T_string 3) False (Some (sql_quote ''SAR'')),
        Column ''status'' (T_enum ''payment_intent_status'') False (Some (sql_quote ''NEW'')),
        Column ''checkout_provider'' (T_string 20) False (Some (sql_quote ''STREAMPAY'')),
        Column ''streampay_payment_link_id'' (T_string 100) True None,
        Column ''streampay_payment_url'' (T_string 512) True None, Column ''reference_invoice_id'' T_uuid True None,
        Column ''expires_at'' T_timestamptz False None, Column ''paid_at'' T_timestamptz True None,
        Column ''failure_reason'' (T_string 255) True None],
     rel_constraints =
       [Primary_key [''id''], Foreign_key ''user_id'' ''users'' ''id'' None,
        Foreign_key ''reference_invoice_id'' ''invoices'' ''id'' None,
        Check ''chk_intent_amount_positive'' ''amount > 0'',
        Check ''chk_intent_purpose_reference'' (''(purpose='' @ sql_quote ''ORDER_INVOICE'' @ '' AND reference_invoice_id IS NOT NULL) OR (purpose='' @ sql_quote ''WALLET_TOPUP'' @ '' AND reference_invoice_id IS NULL)'')],
     rel_indexes = [Index ''uq_payment_intents_streampay_link'' [''streampay_payment_link_id''] True (Some ''streampay_payment_link_id IS NOT NULL'') None,
        Index ''idx_payment_intents_user_created'' [''user_id'', ''created_at DESC''] False None None,
        Index ''idx_payment_intents_status_expires'' [''status'', ''expires_at''] False (Some (''status='' @ sql_quote ''NEW'')) None,
        Index ''idx_payment_intents_invoice'' [''reference_invoice_id''] False (Some ''reference_invoice_id IS NOT NULL'') None]\<rparr>"

definition orm_wallet_topups :: rel where
  "orm_wallet_topups =
    \<lparr>rel_columns = uuid_primary_key @ timestamp_columns @
       [Column ''user_id'' T_uuid False None, Column ''wallet_id'' T_uuid False None,
        Column ''payment_intent_id'' T_uuid False None, Column ''amount'' (T_numeric 12 2) False None],
     rel_constraints =
       [Primary_key [''id''], Foreign_key ''user_id'' ''users'' ''id'' None,
        Foreign_key ''wallet_id'' ''wallets'' ''id'' None,
        Foreign_key ''payment_intent_id'' ''payment_intents'' ''id'' None,
        Check ''chk_topup_bounds'' ''amount >= 100.00 AND amount <= 20000.00'',
        Unique ''uq_wallet_topups_intent'' [''payment_intent_id'']],
     rel_indexes = [Index ''idx_wallet_topups_user_created'' [''user_id'', ''created_at DESC''] False None None]\<rparr>"

definition orm_conversations :: rel where
  "orm_conversations =
    \<lparr>rel_columns = uuid_primary_key @ timestamp_columns @
       [Column ''order_id'' T_uuid False None, Column ''customer_id'' T_uuid False None,
        Column ''courier_id'' T_uuid False None, Column ''last_message_preview_encrypted'' (T_string 512) True None,
        Column ''last_message_timestamp'' T_timestamptz False (Some ''now()''),
        Column ''customer_unread_count'' T_integer False (Some ''0''),
        Column ''courier_unread_count'' T_integer False (Some ''0''),
        Column ''is_closed'' T_boolean False (Some ''false'')],
     rel_constraints =
       [Primary_key [''id''], Foreign_key ''order_id'' ''orders'' ''id'' (Some ''CASCADE''),
        Foreign_key ''customer_id'' ''users'' ''id'' None, Foreign_key ''courier_id'' ''users'' ''id'' None,
        Unique ''uq_conversations_order'' [''order_id'']],
     rel_indexes = [Index ''idx_conversations_customer_inbox'' [''customer_id'', ''last_message_timestamp DESC''] False None None,
        Index ''idx_conversations_courier_inbox'' [''courier_id'', ''last_message_timestamp DESC''] False None None]\<rparr>"

definition orm_messages :: rel where
  "orm_messages =
    \<lparr>rel_columns = uuid_primary_key @ timestamp_columns @
       [Column ''conversation_id'' T_uuid False None, Column ''sender_id'' T_uuid False None,
        Column ''message_type'' (T_enum ''message_type'') False (Some (sql_quote ''TEXT'')),
        Column ''content_encrypted'' T_text False None, Column ''is_read'' T_boolean False (Some ''false''),
        Column ''read_at'' T_timestamptz True None],
     rel_constraints =
       [Primary_key [''id''], Foreign_key ''conversation_id'' ''conversations'' ''id'' (Some ''CASCADE''),
        Foreign_key ''sender_id'' ''users'' ''id'' None],
     rel_indexes = [Index ''idx_messages_conversation_keyset'' [''conversation_id'', ''created_at DESC'', ''id DESC''] False None None]\<rparr>"

definition orm_wallets :: rel where
  "orm_wallets =
    \<lparr>rel_columns = uuid_primary_key @ timestamp_columns @
       [Column ''user_id'' T_uuid True None, Column ''type'' (T_enum ''wallet_type'') False None,
        Column ''balance'' (T_numeric 12 2) False (Some ''0.00''),
        Column ''held_balance'' (T_numeric 12 2) False (Some ''0.00''),
        Column ''currency'' (T_string 3) False (Some (sql_quote ''SAR'')),
        Column ''version'' T_integer False (Some ''0'')],
     rel_constraints =
       [Primary_key [''id''], Foreign_key ''user_id'' ''users'' ''id'' (Some ''RESTRICT''),
        Check ''chk_user_wallet_pairing'' (''(type IN ('' @ sql_quote ''CUSTOMER'' @ '','' @ sql_quote ''COURIER'' @ '') AND user_id IS NOT NULL) OR (type IN ('' @ sql_quote ''SYSTEM_ESCROW'' @ '','' @ sql_quote ''SYSTEM_REVENUE'' @ '','' @ sql_quote ''SYSTEM_GATEWAY'' @ '','' @ sql_quote ''SYSTEM_TAX_PAYABLE'' @ '') AND user_id IS NULL)''),
        Check ''chk_balance_non_negative'' (''type IN ('' @ sql_quote ''SYSTEM_GATEWAY'' @ '','' @ sql_quote ''SYSTEM_REVENUE'' @ '') OR (balance >= 0 AND held_balance >= 0)'')],
     rel_indexes = [Index ''uq_wallets_user'' [''user_id''] True (Some ''user_id IS NOT NULL'') None,
        Index ''uq_wallets_one_escrow'' [''type''] True (Some (''type='' @ sql_quote ''SYSTEM_ESCROW'')) None,
        Index ''uq_wallets_one_revenue'' [''type''] True (Some (''type='' @ sql_quote ''SYSTEM_REVENUE'')) None,
        Index ''uq_wallets_one_gateway'' [''type''] True (Some (''type='' @ sql_quote ''SYSTEM_GATEWAY'')) None,
        Index ''uq_wallets_one_tax'' [''type''] True (Some (''type='' @ sql_quote ''SYSTEM_TAX_PAYABLE'')) None]\<rparr>"

definition orm_transactions :: rel where
  "orm_transactions =
    \<lparr>rel_columns = uuid_primary_key @ timestamp_columns @
       [Column ''wallet_id'' T_uuid False None, Column ''amount'' (T_numeric 12 2) False None,
        Column ''type'' (T_enum ''transaction_type'') False None,
        Column ''status'' (T_enum ''transaction_status'') False (Some (sql_quote ''SETTLED'')),
        Column ''reference_order_id'' T_uuid True None, Column ''reference_invoice_id'' T_uuid True None,
        Column ''reference_intent_id'' T_uuid True None, Column ''correlation_id'' T_uuid False None,
        Column ''balance_after'' (T_numeric 12 2) False None, Column ''idempotency_key'' (T_string 128) True None,
        Column ''description'' (T_string 255) True None],
     rel_constraints =
       [Primary_key [''id''], Foreign_key ''wallet_id'' ''wallets'' ''id'' (Some ''RESTRICT''),
        Foreign_key ''reference_order_id'' ''orders'' ''id'' (Some ''RESTRICT''),
        Foreign_key ''reference_invoice_id'' ''invoices'' ''id'' (Some ''RESTRICT''),
        Foreign_key ''reference_intent_id'' ''payment_intents'' ''id'' (Some ''RESTRICT''),
        Check ''chk_amount_non_zero'' ''amount <> 0''],
     rel_indexes = [Index ''idx_transactions_wallet_created'' [''wallet_id'', ''created_at DESC'', ''id DESC''] False None None,
        Index ''idx_transactions_correlation'' [''correlation_id''] False None None,
        Index ''idx_transactions_order'' [''reference_order_id''] False (Some ''reference_order_id IS NOT NULL'') None,
        Index ''uq_transactions_idempotency'' [''idempotency_key''] True (Some ''idempotency_key IS NOT NULL'') None]\<rparr>"

definition orm_withdrawals :: rel where
  "orm_withdrawals =
    \<lparr>rel_columns = uuid_primary_key @ timestamp_columns @
       [Column ''courier_id'' T_uuid False None, Column ''wallet_id'' T_uuid False None,
        Column ''amount'' (T_numeric 12 2) False None, Column ''iban_encrypted'' (T_string 512) False None,
        Column ''iban_last4'' (T_string 4) False None,
        Column ''status'' (T_enum ''withdrawal_status'') False (Some (sql_quote ''REQUESTED'')),
        Column ''processed_by_admin_id'' T_uuid True None, Column ''rejection_reason'' (T_string 255) True None,
        Column ''idempotency_key'' (T_string 128) True None],
     rel_constraints =
       [Primary_key [''id''], Foreign_key ''courier_id'' ''users'' ''id'' None,
        Foreign_key ''wallet_id'' ''wallets'' ''id'' None,
        Foreign_key ''processed_by_admin_id'' ''users'' ''id'' None, Check ''chk_withdrawal_min'' ''amount >= 50.00''],
     rel_indexes = [Index ''idx_withdrawals_courier_status'' [''courier_id'', ''status''] False None None,
        Index ''idx_withdrawals_status_created'' [''status'', ''created_at''] False None None,
        Index ''uq_withdrawals_courier_idempotency'' [''courier_id'', ''idempotency_key''] True (Some ''idempotency_key IS NOT NULL'') None]\<rparr>"

definition orm_ratings :: rel where
  "orm_ratings =
    \<lparr>rel_columns = uuid_primary_key @ timestamp_columns @
       [Column ''order_id'' T_uuid False None, Column ''rater_id'' T_uuid False None,
        Column ''rated_user_id'' T_uuid False None, Column ''score'' T_smallint False None,
        Column ''comment'' (T_string 500) True None],
     rel_constraints =
       [Primary_key [''id''], Foreign_key ''order_id'' ''orders'' ''id'' (Some ''CASCADE''),
        Foreign_key ''rater_id'' ''users'' ''id'' None, Foreign_key ''rated_user_id'' ''users'' ''id'' None,
        Check ''chk_score_range'' ''score BETWEEN 1 AND 5'',
        Check ''chk_no_self_rating'' ''rater_id <> rated_user_id'',
        Unique ''uq_ratings_order_rater'' [''order_id'', ''rater_id'']],
     rel_indexes = [Index ''idx_ratings_rated_user'' [''rated_user_id''] False None None]\<rparr>"

definition orm_disputes :: rel where
  "orm_disputes =
    \<lparr>rel_columns = uuid_primary_key @ timestamp_columns @
       [Column ''order_id'' T_uuid False None, Column ''raised_by_user_id'' T_uuid False None,
        Column ''reason'' (T_string 1000) False None,
        Column ''status'' (T_enum ''dispute_status'') False (Some (sql_quote ''OPEN'')),
        Column ''resolution_note'' T_text True None, Column ''resolved_by_admin_id'' T_uuid True None,
        Column ''resolved_at'' T_timestamptz True None],
     rel_constraints =
       [Primary_key [''id''], Foreign_key ''order_id'' ''orders'' ''id'' None,
        Foreign_key ''raised_by_user_id'' ''users'' ''id'' None,
        Foreign_key ''resolved_by_admin_id'' ''users'' ''id'' None, Unique ''uq_disputes_order'' [''order_id'']],
     rel_indexes = [Index ''idx_disputes_status_created'' [''status'', ''created_at''] False None None]\<rparr>"

definition orm_admin_sessions :: rel where
  "orm_admin_sessions =
    \<lparr>rel_columns = uuid_primary_key @ timestamp_columns @
       [Column ''admin_user_id'' T_uuid False None, Column ''session_token_hash'' (T_string 64) False None,
        Column ''ip_address'' T_inet True None, Column ''user_agent'' (T_string 255) True None,
        Column ''expires_at'' T_timestamptz False None, Column ''revoked_at'' T_timestamptz True None],
     rel_constraints =
       [Primary_key [''id''], Foreign_key ''admin_user_id'' ''users'' ''id'' (Some ''CASCADE''),
        Unique ''uq_admin_sessions_token_hash'' [''session_token_hash'']],
     rel_indexes = [Index ''idx_admin_sessions_admin_expires'' [''admin_user_id'', ''expires_at''] False None None]\<rparr>"

definition orm_otp_attempts :: rel where
  "orm_otp_attempts =
    \<lparr>rel_columns = uuid_primary_key @ timestamp_columns @
       [Column ''phone_hash'' (T_string 64) False None, Column ''ip_address'' T_inet True None,
        Column ''was_successful'' T_boolean False None],
     rel_constraints =
       [Primary_key [''id'']],
     rel_indexes = []\<rparr>"

definition orm_audit_logs :: rel where
  "orm_audit_logs =
    \<lparr>rel_columns = uuid_primary_key @ timestamp_columns @
       [Column ''actor_user_id'' T_uuid True None, Column ''action'' (T_string 100) False None,
        Column ''entity_type'' (T_string 50) False None, Column ''entity_id'' T_uuid True None,
        Column ''ip_address'' T_inet True None, Column ''metadata'' T_jsonb True None],
     rel_constraints =
       [Primary_key [''id''], Foreign_key ''actor_user_id'' ''users'' ''id'' None],
     rel_indexes = [Index ''idx_audit_logs_actor_created'' [''actor_user_id'', ''created_at DESC''] False None None,
        Index ''idx_audit_logs_entity'' [''entity_type'', ''entity_id''] False None None]\<rparr>"

definition model_tables :: "(string \<times> rel) list" where
  "model_tables =
    [(''refresh_tokens'', orm_refresh_tokens), (''users'', orm_users), (''courier_profiles'', orm_courier_profiles),
     (''courier_portfolios'', orm_courier_portfolios), (''device_tokens'', orm_device_tokens),
     (''orders'', orm_orders), (''order_media'', orm_order_media), (''promos'', orm_promos),
     (''invoices'', orm_invoices), (''invoice_items'', orm_invoice_items),
     (''promo_redemptions'', orm_promo_redemptions), (''payment_intents'', orm_payment_intents),
     (''wallet_topups'', orm_wallet_topups), (''conversations'', orm_conversations), (''messages'', orm_messages),
     (''wallets'', orm_wallets), (''transactions'', orm_transactions), (''withdrawals'', orm_withdrawals),
     (''ratings'', orm_ratings), (''disputes'', orm_disputes), (''admin_sessions'', orm_admin_sessions),
     (''otp_attempts'', orm_otp_attempts), (''audit_logs'', orm_audit_logs)]"

text \<open>The enum types of the columns and the names of the members of their classes.\<close>

definition orm_enums :: "(string \<times> string list) list" where
  "orm_enums =
    [(''user_role'', [''CUSTOMER'', ''COURIER'', ''ADMIN'']),
     (''user_status'', [''ACTIVE'', ''BANNED'', ''PENDING_VERIFICATION'']),
     (''order_status'', [''NEW'', ''ASSIGNED'', ''WAITING_PAYMENT'', ''IN_PROGRESS'', ''DELIVERED'', ''COMPLETED'', ''CANCELLED'', ''DISPUTED'', ''REFUNDED'']),
     (''invoice_status'', [''DRAFT'', ''ISSUED'', ''PAID'', ''CANCELLED'', ''EXPIRED'', ''REFUNDED'']),
     (''payment_purpose'', [''ORDER_INVOICE'', ''WALLET_TOPUP'']),
     (''payment_intent_status'', [''NEW'', ''PAID'', ''FAILED'', ''EXPIRED'', ''CANCELLED'']),
     (''payment_method'', [''WALLET_ONLY'', ''GATEWAY_ONLY'', ''SPLIT'']),
     (''promo_discount_type'', [''PERCENT'', ''FIXED'']),
     (''promo_redemption_status'', [''RESERVED'', ''CONSUMED'', ''RELEASED'']),
     (''media_type'', [''CUSTOMER_REQUEST'', ''DELIVERY_PROOF'']),
     (''message_type'', [''TEXT'', ''IMAGE'', ''VIDEO'', ''SYSTEM'']),
     (''wallet_type'', [''CUSTOMER'', ''COURIER'', ''SYSTEM_ESCROW'', ''SYSTEM_REVENUE'', ''SYSTEM_GATEWAY'', ''SYSTEM_TAX_PAYABLE'']),
     (''transaction_type'', [''TOPUP'', ''WITHDRAWAL'', ''ESCROW_HOLD'', ''ESCROW_RELEASE'', ''PAYMENT'', ''REFUND'', ''COMMISSION'', ''SERVICE_FEE'', ''TAX'', ''PROMO_SUBSIDY'']),
     (''transaction_status'', [''PENDING'', ''SETTLED'', ''REVERSED'']),
     (''device_os'', [''IOS'', ''ANDROID'']),
     (''withdrawal_status'', [''REQUESTED'', ''APPROVED'', ''PAID'', ''REJECTED'']),
     (''dispute_status'', [''OPEN'', ''RESOLVED_CUSTOMER'', ''RESOLVED_COURIER'', ''RESOLVED_SPLIT''])]"

end
