(* ===== verification/Schema_Ops.thy ===== *)
theory Schema_Ops
  imports Migrations
begin

text \<open>
  Lemmas on \<open>execute\<close>.  Running a whole history on schemas written out in full is too slow for the
  simplifier, so each kind of step has a rule that asks for little: the groups that create a table and its
  indexes are checked on outlines (names only, \<open>execute_groups\<close>), alterations that stay within one table are
  run on a schema with that table alone and framed (\<open>alter_table\<close>), and drops are checked on the references and
  index names that remain (\<open>drops_execute\<close>).
\<close>

section \<open>Groups of operations that create a table\<close>

fun index_of :: "ddl \<Rightarrow> index list" where
  "index_of (Create_index n i) = [i]"
| "index_of _ = []"

fun built :: "ddl list \<Rightarrow> string \<times> rel" where
  "built (Create_table n t # xs) = (n, t\<lparr>rel_indexes := concat (map index_of xs)\<rparr>)"
| "built _ = ([], \<lparr>rel_columns = [], rel_constraints = [], rel_indexes = []\<rparr>)"

fun own_columns :: "constraint \<Rightarrow> string list" where
  "own_columns (Primary_key cs) = cs"
| "own_columns (Unique _ cs) = cs"
| "own_columns (Check _ _) = []"
| "own_columns (Foreign_key c _ _ _) = [c]"

fun references :: "constraint \<Rightarrow> (string \<times> string) list" where
  "references (Foreign_key _ m k _) = [(m, k)]"
| "references _ = []"

fun enum_of :: "sql_type \<Rightarrow> string list" where
  "enum_of (T_enum e) = [e]"
| "enum_of _ = []"

record outline =
  ol_name :: string
  ol_columns :: "string list"
  ol_enums :: "string list"
  ol_refs :: "(string \<times> string) list"
  ol_indexes :: "string list"

definition outline_of :: "string \<times> rel \<Rightarrow> outline" where
  "outline_of x = (case x of (n, t) \<Rightarrow> \<lparr>ol_name = n, ol_columns = column_names t,
     ol_enums = remdups (concat (map (\<lambda>c. enum_of (col_type c)) (rel_columns t))),
     ol_refs = remdups (concat (map references (rel_constraints t))),
     ol_indexes = map ix_name (rel_indexes t)\<rparr>)"

text \<open>What a group needs of itself, and what it needs of the schema it runs on.\<close>

definition well_formed :: "ddl list \<Rightarrow> bool" where
  "well_formed g \<longleftrightarrow> (case g of
     Create_table n t # xs \<Rightarrow> rel_indexes t = [] \<and> xs = map (Create_index n) (concat (map index_of xs)) \<and>
       distinct (column_names t) \<and> distinct (map ix_name (concat (map index_of xs))) \<and>
       list_all (\<lambda>c. list_all (\<lambda>a. a \<in> set (column_names t)) (own_columns c)) (rel_constraints t) \<and>
       list_all (\<lambda>i. list_all (\<lambda>e. index_column e \<in> set (column_names t)) (ix_columns i)) (concat (map index_of xs))
   | _ \<Rightarrow> False)"

definition fits :: "string list \<Rightarrow> outline list \<Rightarrow> outline \<Rightarrow> bool" where
  "fits T A x \<longleftrightarrow> list_all (\<lambda>y. ol_name y \<noteq> ol_name x) A \<and> list_all (\<lambda>e. e \<in> set T) (ol_enums x) \<and>
     list_all (\<lambda>(m, k). list_ex (\<lambda>y. ol_name y = m \<and> k \<in> set (ol_columns y)) (x # A)) (ol_refs x) \<and>
     list_all (\<lambda>i. list_all (\<lambda>y. i \<notin> set (ol_indexes y)) A) (ol_indexes x)"

fun ready :: "string list \<Rightarrow> outline list \<Rightarrow> outline list \<Rightarrow> bool" where
  "ready T A [] \<longleftrightarrow> True"
| "ready T A (x # xs) \<longleftrightarrow> fits T A x \<and> ready T (A @ [x]) xs"

lemma table_of_snoc: "table_of n (s\<lparr>sc_tables := ts @ [(m, t)]\<rparr>) =
    (case map_of ts n of None \<Rightarrow> (if m = n then Some t else None) | Some u \<Rightarrow> Some u)"
  by (simp add: table_of_def map_add_def split: option.splits)

lemma put_table_last:
  "n \<notin> fst ` set ts \<Longrightarrow> put_table n u (s\<lparr>sc_tables := ts @ [(n, t)]\<rparr>) = s\<lparr>sc_tables := ts @ [(n, u)]\<rparr>"
proof -
  assume "n \<notin> fst ` set ts"
  then have "map (\<lambda>(m, v). (m, if m = n then u else v)) ts = ts"
    by (force intro: map_idI)
  then show ?thesis by (simp add: put_table_def)
qed

lemma index_names_snoc:
  "set (index_names (s\<lparr>sc_tables := ts @ [(m, t)]\<rparr>)) = (\<Union>(n, u) \<in> set ts. ix_name ` set (rel_indexes u)) \<union> ix_name ` set (rel_indexes t)"
  by (auto simp: index_names_def)

lemma create_indexes:
  assumes "n \<notin> fst ` set ts"
    and "distinct (map ix_name (rel_indexes t @ is))"
    and "\<forall>i \<in> set is. \<forall>(m, u) \<in> set ts. ix_name i \<notin> ix_name ` set (rel_indexes u)"
    and "\<forall>i \<in> set is. list_all (\<lambda>e. index_column e \<in> set (column_names t)) (ix_columns i)"
  shows "execute_all (map (Create_index n) is) (s\<lparr>sc_tables := ts @ [(n, t)]\<rparr>) =
    Some (s\<lparr>sc_tables := ts @ [(n, t\<lparr>rel_indexes := rel_indexes t @ is\<rparr>)]\<rparr>)"
  using assms
proof (induction "is" arbitrary: t)
  case (Cons i "is")
  have "map_of ts n = None" using Cons.prems(1) by (simp add: map_of_eq_None_iff)
  moreover have "ix_name i \<notin> (\<Union>(n, u) \<in> set ts. ix_name ` set (rel_indexes u)) \<union> ix_name ` set (rel_indexes t)"
    using Cons.prems(2,3) by auto
  moreover have "execute_all (map (Create_index n) is)
      (s\<lparr>sc_tables := ts @ [(n, t\<lparr>rel_indexes := rel_indexes t @ [i]\<rparr>)]\<rparr>) =
    Some (s\<lparr>sc_tables := ts @ [(n, t\<lparr>rel_indexes := (rel_indexes t @ [i]) @ is\<rparr>)]\<rparr>)"
    using Cons.IH[of "t\<lparr>rel_indexes := rel_indexes t @ [i]\<rparr>"] Cons.prems by (simp add: column_names_def)
  ultimately show ?case using Cons.prems(1,4)
    by (simp add: table_of_snoc index_names_snoc require_def put_table_last del: UN_iff Un_iff)
qed simp

lemma constraint_fits_alt:
  "constraint_fits s n t c \<longleftrightarrow> list_all (\<lambda>a. a \<in> set (column_names t)) (own_columns c) \<and>
     list_all (\<lambda>(m, k). \<exists>u. (if m = n then Some t else table_of m s) = Some u \<and> k \<in> set (column_names u)) (references c)"
  by (cases c) (auto split: option.splits)

lemma type_known_alt: "type_known s x \<longleftrightarrow> list_all (\<lambda>e. e \<in> fst ` set (sc_types s)) (enum_of x)"
  by (cases x) (auto simp: map_of_eq_None_iff)

lemma execute_all_append: "execute_all (xs @ ys) s = Option.bind (execute_all xs s) (execute_all ys)"
  by (induction xs arbitrary: s) (auto split: bind_split)

lemma well_formedE:
  assumes "well_formed g"
  obtains n t "is" where "g = Create_table n t # map (Create_index n) is" and "rel_indexes t = []"
    and "built g = (n, t\<lparr>rel_indexes := is\<rparr>)" and "distinct (column_names t)" and "distinct (map ix_name is)"
    and "list_all (\<lambda>c. list_all (\<lambda>a. a \<in> set (column_names t)) (own_columns c)) (rel_constraints t)"
    and "list_all (\<lambda>i. list_all (\<lambda>e. index_column e \<in> set (column_names t)) (ix_columns i)) is"
proof -
  obtain n t xs where g: "g = Create_table n t # xs"
    using assms by (auto simp: well_formed_def split: list.splits ddl.splits)
  show thesis
    by (rule that[of n t "concat (map index_of xs)"]) (use assms in \<open>simp_all add: well_formed_def g\<close>)
qed

lemma group_step:
  assumes g: "well_formed g" and f: "fits (map fst (sc_types s)) (map outline_of (sc_tables s)) (outline_of (built g))"
    and d: "distinct (map fst (sc_tables s))"
  shows "execute_all g s = Some (s\<lparr>sc_tables := sc_tables s @ [built g]\<rparr>)"
proof -
  obtain n t "is" where g': "g = Create_table n t # map (Create_index n) is" and t: "rel_indexes t = []"
    and bt: "built g = (n, t\<lparr>rel_indexes := is\<rparr>)"
    and cols: "distinct (column_names t)" and ixs: "distinct (map ix_name is)"
    and own: "list_all (\<lambda>c. list_all (\<lambda>a. a \<in> set (column_names t)) (own_columns c)) (rel_constraints t)"
    and ic: "list_all (\<lambda>i. list_all (\<lambda>e. index_column e \<in> set (column_names t)) (ix_columns i)) is"
    using g by (rule well_formedE)
  have new: "n \<notin> fst ` set (sc_tables s)"
    using f unfolding fits_def bt outline_of_def by (force simp: list_all_iff)
  have "\<exists>u. (if m = n then Some t else table_of m s) = Some u \<and> k \<in> set (column_names u)"
    if c: "c \<in> set (rel_constraints t)" and "(m, k) \<in> set (references c)" for c m k
  proof -
    have "(m, k) \<in> set (ol_refs (outline_of (built g)))" using that by (auto simp: bt outline_of_def)
    then have "list_ex (\<lambda>y. ol_name y = m \<and> k \<in> set (ol_columns y)) (outline_of (built g) # map outline_of (sc_tables s))"
      using f unfolding fits_def by (auto simp: list_all_iff)
    then show ?thesis using d new
      by (force simp: bt outline_of_def list_ex_iff column_names_def table_of_def)
  qed
  then have "table_fits s n t" using f cols own
    by (force simp: table_fits_def constraint_fits_alt type_known_alt list_all_iff fits_def bt outline_of_def)
  then have "execute (Create_table n t) s = Some (s\<lparr>sc_tables := sc_tables s @ [(n, t)]\<rparr>)"
    using new by (simp add: require_def table_of_def map_of_eq_None_iff)
  moreover have "execute_all (map (Create_index n) is) (s\<lparr>sc_tables := sc_tables s @ [(n, t)]\<rparr>) =
     Some (s\<lparr>sc_tables := sc_tables s @ [(n, t\<lparr>rel_indexes := rel_indexes t @ is\<rparr>)]\<rparr>)"
    using f by (intro create_indexes new) (use ixs ic t in \<open>fastforce simp: list_all_iff fits_def bt outline_of_def\<close>)+
  ultimately show ?thesis by (simp add: g' bt[unfolded g'] t del: built.simps)
qed

lemma execute_groups:
  assumes "list_all well_formed gs" and "distinct (map fst (sc_tables s))"
    and "ready (map fst (sc_types s)) (map outline_of (sc_tables s)) (map (\<lambda>g. outline_of (built g)) gs)"
  shows "execute_all (concat gs) s = Some (s\<lparr>sc_tables := sc_tables s @ map built gs\<rparr>)"
  using assms
proof (induction gs arbitrary: s)
  case (Cons g gs)
  let ?s = "s\<lparr>sc_tables := sc_tables s @ [built g]\<rparr>"
  have f: "fits (map fst (sc_types s)) (map outline_of (sc_tables s)) (outline_of (built g))" using Cons.prems(3) by simp
  then have "fst (built g) \<notin> fst ` set (sc_tables s)"
    by (force simp: fits_def outline_of_def list_all_iff split: prod.splits)
  then have "execute_all (concat gs) ?s = Some (?s\<lparr>sc_tables := sc_tables ?s @ map built gs\<rparr>)"
    using Cons.prems by (intro Cons.IH) auto
  then show ?case using group_step[OF _ f] Cons.prems by (simp add: execute_all_append)
qed simp

section \<open>Alterations of one table\<close>

definition elsewhere :: "string \<Rightarrow> schema \<Rightarrow> string list" where
  "elsewhere n s = concat (map (\<lambda>(m, t). if m = n then [] else map ix_name (rel_indexes t)) (sc_tables s))"

text \<open>A schema that holds one table only, and the operations that stay within a table; \<open>F\<close> are index
  names that other tables use.\<close>

definition only :: "string \<Rightarrow> rel \<Rightarrow> schema" where
  "only n t = empty_schema\<lparr>sc_tables := [(n, t)]\<rparr>"

fun local_op :: "string list \<Rightarrow> string \<Rightarrow> ddl \<Rightarrow> bool" where
  "local_op F n (Create_index m i) \<longleftrightarrow> m = n \<and> ix_name i \<notin> set F"
| "local_op F n (Add_column m c) \<longleftrightarrow> m = n"
| "local_op F n (Rename_column m a b) \<longleftrightarrow> m = n"
| "local_op F n (Set_default m a x) \<longleftrightarrow> m = n"
| "local_op F n (Drop_index i m) \<longleftrightarrow> m = n"
| "local_op F n (Drop_column m a) \<longleftrightarrow> m = n"
| "local_op F n _ \<longleftrightarrow> False"

lemma table_of_put [simp]:
  "table_of m (put_table n t s) = (if m = n then map_option (\<lambda>_. t) (table_of n s) else table_of m s)"
proof -
  have "map_of (map (\<lambda>(k, u). (k, if k = n then t else u)) ts) m = (if m = n then map_option (\<lambda>_. t) (map_of ts n) else map_of ts m)"
    for ts :: "(string \<times> rel) list"
    by (induction ts) auto
  then show ?thesis by (simp add: table_of_def put_table_def)
qed

lemma only_eq [simp]: "only n t = only n u \<longleftrightarrow> t = u"
  by (simp add: only_def empty_schema_def)

lemma table_of_only [simp]: "table_of m (only n t) = (if m = n then Some t else None)"
  by (simp add: table_of_def only_def)

lemma put_only [simp]: "put_table n u (only n t) = only n u"
  by (simp add: put_table_def only_def)

lemma put_put [simp]: "put_table n u (put_table n t s) = put_table n u s"
  by (simp add: put_table_def comp_def case_prod_beta)

lemma elsewhere_put [simp]: "elsewhere n (put_table n t s) = elsewhere n s"
  by (auto simp: elsewhere_def put_table_def intro!: arg_cong[of _ _ concat])

lemma index_names_only [simp]: "index_names (only n t) = map ix_name (rel_indexes t)"
  by (simp add: index_names_def only_def)

lemma type_known_only: "type_known (only n t) x \<Longrightarrow> type_known s x"
  by (cases x) (auto simp: only_def empty_schema_def)

definition holds_table :: "string \<Rightarrow> rel \<Rightarrow> schema \<Rightarrow> bool" where
  "holds_table n t s \<longleftrightarrow> distinct (map fst (sc_tables s)) \<and> table_of n s = Some t"

lemma index_names_split:
  assumes "holds_table n t s"
  shows "set (index_names s) = set (elsewhere n s) \<union> ix_name ` set (rel_indexes t)"
proof -
  have "(n, u) \<in> set (sc_tables s) \<longleftrightarrow> u = t" for u
    using assms by (auto simp: holds_table_def table_of_def)
  then show ?thesis by (force simp: index_names_def elsewhere_def split: if_splits)
qed

lemma holds_put: "holds_table n t s \<Longrightarrow> holds_table n u (put_table n u s)"
  by (simp add: holds_table_def) (simp add: put_table_def comp_def case_prod_beta)

lemma frame_step:
  assumes "local_op F n x" and "holds_table n t s" and "set (elsewhere n s) \<subseteq> set F"
    and "execute x (only n t) = Some s'"
  shows "\<exists>u. s' = only n u \<and> execute x s = Some (put_table n u s)"
proof -
  have t: "table_of n s = Some t" using assms(2) by (simp add: holds_table_def)
  have i: "i \<notin> set (index_names s) \<longleftrightarrow> i \<notin> set (elsewhere n s) \<and> i \<notin> ix_name ` set (rel_indexes t)" for i
    using index_names_split[OF assms(2)] by simp
  show ?thesis using assms(1,3,4) t i
    by (cases x) (auto simp: require_def split: if_splits intro: type_known_only)
qed

lemma frame:
  assumes "list_all (local_op F n) xs" and "holds_table n t s" and "set (elsewhere n s) \<subseteq> set F"
    and "execute_all xs (only n t) = Some s'"
  shows "\<exists>u. s' = only n u \<and> execute_all xs s = Some (if xs = [] then s else put_table n u s)"
  using assms
proof (induction xs arbitrary: t s)
  case (Cons x xs)
  then obtain s1 where s1: "execute x (only n t) = Some s1" and r: "execute_all xs s1 = Some s'"
    by (auto split: bind_splits)
  then obtain u where u: "s1 = only n u" "execute x s = Some (put_table n u s)"
    using frame_step[of F n x t s s1] Cons.prems by auto
  then show ?case using Cons.IH[of u "put_table n u s"] Cons.prems r by (auto simp: holds_put)
qed auto

section \<open>Dropping tables\<close>

definition shape :: "rel \<Rightarrow> string list \<times> string list" where
  "shape t = (remdups (map fst (concat (map references (rel_constraints t)))), map ix_name (rel_indexes t))"

fun drops :: "ddl list \<Rightarrow> (string \<times> string list \<times> string list) list \<Rightarrow> (string \<times> string list \<times> string list) list option" where
  "drops [] A = Some A"
| "drops (Drop_index i n # xs) A = (case map_of A n of None \<Rightarrow> None
     | Some (r, is) \<Rightarrow> if i \<in> set is then drops xs (map (\<lambda>(m, y). (m, if m = n then (r, filter (\<lambda>j. j \<noteq> i) is) else y)) A)
         else None)"
| "drops (Drop_table n # xs) A = (case map_of A n of None \<Rightarrow> None
     | Some _ \<Rightarrow> if list_all (\<lambda>(m, r, _). m = n \<or> n \<notin> set r) A then drops xs (filter (\<lambda>(m, _). m \<noteq> n) A) else None)"
| "drops _ A = None"

definition shapes :: "schema \<Rightarrow> (string \<times> string list \<times> string list) list" where
  "shapes s = map (\<lambda>(n, t). (n, shape t)) (sc_tables s)"

definition triggers_hang :: "schema \<Rightarrow> bool" where
  "triggers_hang s \<longleftrightarrow> (\<forall>(g, e, m, f) \<in> set (sc_triggers s). m \<in> fst ` set (sc_tables s))"

lemma map_of_shapes: "map_of (shapes s) n = map_option shape (table_of n s)"
  by (simp add: shapes_def table_of_def map_of_map)

lemma shapes_put: "shapes (put_table n t s) = map (\<lambda>(m, y). (m, if m = n then shape t else y)) (shapes s)"
  by (auto simp: shapes_def put_table_def)

lemma refers_references: "refers_to n c \<longleftrightarrow> n \<in> fst ` set (references c)"
  by (cases c) auto

lemma hang_put: "triggers_hang (put_table n t s) \<longleftrightarrow> triggers_hang s"
  by (simp add: triggers_hang_def put_table_def image_image case_prod_beta)

lemma drop_index_step:
  assumes "drops (Drop_index i n # xs) (shapes s) = Some A"
  shows "\<exists>s'. execute (Drop_index i n) s = Some s' \<and> drops xs (shapes s') = Some A \<and> sc_types s' = sc_types s \<and>
    sc_functions s' = sc_functions s \<and> (triggers_hang s \<longrightarrow> triggers_hang s')"
proof -
  obtain t where t: "table_of n s = Some t" and i: "i \<in> set (map ix_name (rel_indexes t))"
    using assms by (auto simp: map_of_shapes shape_def split: option.splits if_splits)
  let ?s = "put_table n (t\<lparr>rel_indexes := filter (\<lambda>x. ix_name x \<noteq> i) (rel_indexes t)\<rparr>) s"
  have "shape (t\<lparr>rel_indexes := filter (\<lambda>x. ix_name x \<noteq> i) (rel_indexes t)\<rparr>) =
     (fst (shape t), filter (\<lambda>j. j \<noteq> i) (snd (shape t)))"
    by (simp add: shape_def filter_map comp_def)
  then have "drops xs (shapes ?s) = Some A"
    using assms t i by (cases "shape t") (simp add: map_of_shapes shapes_put split: if_splits cong: if_cong)
  moreover have "execute (Drop_index i n) s = Some ?s" using t i by (simp add: require_def)
  moreover have "sc_types ?s = sc_types s" "sc_functions ?s = sc_functions s" by (simp_all add: put_table_def)
  ultimately show ?thesis by (auto simp: hang_put)
qed

lemma refers_shape: "list_ex (refers_to n) (rel_constraints t) \<longleftrightarrow> n \<in> set (fst (shape t))"
  by (force simp: list_ex_iff refers_references shape_def)

lemma drop_table_step:
  assumes "drops (Drop_table n # xs) (shapes s) = Some A"
  shows "\<exists>s'. execute (Drop_table n) s = Some s' \<and> drops xs (shapes s') = Some A \<and> sc_types s' = sc_types s \<and>
    sc_functions s' = sc_functions s \<and> (triggers_hang s \<longrightarrow> triggers_hang s')"
proof -
  let ?s = "s\<lparr>sc_tables := filter (\<lambda>(m, _). m \<noteq> n) (sc_tables s), sc_triggers := filter (\<lambda>(_, _, m, _). m \<noteq> n) (sc_triggers s)\<rparr>"
  have "table_of n s \<noteq> None"
    and r: "list_all (\<lambda>(m, r, _). m = n \<or> n \<notin> set r) (shapes s)"
    and d: "drops xs (filter (\<lambda>(m, _). m \<noteq> n) (shapes s)) = Some A"
    using assms by (auto simp: map_of_shapes split: option.splits if_splits)
  moreover have "list_all (\<lambda>(m, t). m = n \<or> \<not> list_ex (refers_to n) (rel_constraints t)) (sc_tables s)"
    using r by (auto simp: shapes_def list_all_iff refers_shape)
  moreover have "shapes ?s = filter (\<lambda>(m, _). m \<noteq> n) (shapes s)"
    by (simp add: shapes_def filter_map comp_def split_def)
  ultimately have "execute (Drop_table n) s = Some ?s" and "drops xs (shapes ?s) = Some A"
    by (simp_all add: require_def)
  moreover have "triggers_hang s \<longrightarrow> triggers_hang ?s" by (force simp: triggers_hang_def)
  ultimately show ?thesis by (intro exI[of _ ?s]) simp
qed

lemma drops_execute:
  assumes "drops xs (shapes s) = Some A"
  shows "\<exists>s'. execute_all xs s = Some s' \<and> shapes s' = A \<and> sc_types s' = sc_types s \<and>
    sc_functions s' = sc_functions s \<and> (triggers_hang s \<longrightarrow> triggers_hang s')"
  using assms
proof (induction xs arbitrary: s)
  case (Cons x xs)
  consider i n where "x = Drop_index i n" | n where "x = Drop_table n" using Cons.prems by (cases x) auto
  then have "\<exists>s1. execute x s = Some s1 \<and> drops xs (shapes s1) = Some A \<and> sc_types s1 = sc_types s \<and>
    sc_functions s1 = sc_functions s \<and> (triggers_hang s \<longrightarrow> triggers_hang s1)"
  proof cases
    case 1
    then show ?thesis using Cons.prems by (simp only: drop_index_step)
  next
    case 2
    then show ?thesis using Cons.prems by (simp only: drop_table_step)
  qed
  then obtain s1 where "execute x s = Some s1" "drops xs (shapes s1) = Some A" "sc_types s1 = sc_types s"
    "sc_functions s1 = sc_functions s" "triggers_hang s \<longrightarrow> triggers_hang s1" by blast
  then show ?case using Cons.IH[of s1] by auto
qed auto

section \<open>Types, functions and triggers\<close>

fun types_of :: "ddl \<Rightarrow> (string \<times> string list) list" where
  "types_of (Create_type n vs) = [(n, vs)]"
| "types_of _ = []"

fun functions_of :: "ddl \<Rightarrow> string list" where
  "functions_of (Create_function f) = [f]"
| "functions_of _ = []"

fun trigger_of :: "ddl \<Rightarrow> string \<times> string list \<times> string \<times> string" where
  "trigger_of (Create_trigger g e n f) = (g, e, n, f)"
| "trigger_of _ = ([], [], [], [])"

definition trigger_fits :: "string list \<Rightarrow> string list \<Rightarrow> ddl \<Rightarrow> bool" where
  "trigger_fits N F x \<longleftrightarrow> (case x of Create_trigger g e n f \<Rightarrow> n \<in> set N \<and> f \<in> set F | _ \<Rightarrow> False)"

lemma execute_triggers:
  assumes "list_all (trigger_fits (map fst (sc_tables s)) (sc_functions s)) xs"
    and "distinct (map fst (sc_triggers s @ map trigger_of xs))"
  shows "execute_all xs s = Some (s\<lparr>sc_triggers := sc_triggers s @ map trigger_of xs\<rparr>)"
  using assms
proof (induction xs arbitrary: s)
  case (Cons x xs)
  then obtain g e n f where x: "x = Create_trigger g e n f"
    by (auto simp: trigger_fits_def split: ddl.splits)
  let ?s = "s\<lparr>sc_triggers := sc_triggers s @ [(g, e, n, f)]\<rparr>"
  have "execute x s = Some ?s" using Cons.prems
    by (auto simp: x trigger_fits_def require_def table_of_def map_of_eq_None_iff)
  then show ?case using Cons.IH[of ?s] Cons.prems by (simp add: x)
qed simp

section \<open>The frame of an alteration\<close>

definition altered :: "string \<Rightarrow> ddl list \<Rightarrow> rel \<Rightarrow> rel" where
  "altered n xs t = the (table_of n (the (execute_all xs (only n t))))"

lemma put_table_same: "holds_table n t s \<Longrightarrow> put_table n t s = s"
proof -
  assume h: "holds_table n t s"
  have "map (\<lambda>(m, u). (m, if m = n then t else u)) (sc_tables s) = sc_tables s"
    using h by (intro map_idI) (auto simp: holds_table_def table_of_def dest: eq_key_imp_eq_value)
  then show ?thesis by (simp add: put_table_def)
qed

lemma alter_table:
  assumes "list_all (local_op F n) xs" and h: "holds_table n t s" and "set (elsewhere n s) \<subseteq> set F"
    and "execute_all xs (only n t) \<noteq> None"
  shows "execute_all xs s = Some (put_table n (altered n xs t) s)"
proof -
  obtain s' where s': "execute_all xs (only n t) = Some s'" using assms(4) by auto
  obtain u where u: "s' = only n u" "execute_all xs s = Some (if xs = [] then s else put_table n u s)"
    using frame[OF assms(1) h assms(3) s'] by auto
  have "altered n xs t = u" using s' u by (simp add: altered_def)
  moreover have "put_table n u s = s" if "xs = []"
    using that s' u put_table_same[OF h] by auto
  ultimately show ?thesis using u by auto
qed

lemma ready_append: "ready T A (xs @ ys) \<longleftrightarrow> ready T A xs \<and> ready T (A @ xs) ys"
  by (induction xs arbitrary: A) auto

lemma ready_distinct: "ready T A xs \<Longrightarrow> distinct (map ol_name A) \<Longrightarrow> distinct (map ol_name (A @ xs))"
proof (induction xs arbitrary: A)
  case (Cons x xs)
  then have "distinct (map ol_name (A @ [x]))" by (auto simp: fits_def list_all_iff)
  then show ?case using Cons by fastforce
qed simp

lemma holds_other: "holds_table m t s \<Longrightarrow> m \<noteq> n \<Longrightarrow> holds_table m t (put_table n u s)"
  by (simp add: holds_table_def) (simp add: put_table_def comp_def split_def)

lemma in_elsewhere:
  "x \<in> set (elsewhere n s) \<longleftrightarrow> (\<exists>m t. (m, t) \<in> set (sc_tables s) \<and> m \<noteq> n \<and> x \<in> ix_name ` set (rel_indexes t))"
  by (fastforce simp: elsewhere_def split: if_splits)

lemma elsewhere_put_other: "set (elsewhere n (put_table m t s)) \<subseteq> set (elsewhere n s) \<union> ix_name ` set (rel_indexes t)"
  by (fastforce simp: in_elsewhere put_table_def split: if_splits)

lemma elsewhere_mem: "(m, t) \<in> set (sc_tables s) \<Longrightarrow> m \<noteq> n \<Longrightarrow> ix_name ` set (rel_indexes t) \<subseteq> set (elsewhere n s)"
  by (fastforce simp: in_elsewhere)

lemma drop_last_table:
  assumes "n \<notin> fst ` set (sc_tables s)" and "list_all (\<lambda>(m, t). n \<notin> set (fst (shape t))) (sc_tables s)"
    and "triggers_hang s" and "distinct is" and "set is \<subseteq> ix_name ` set (rel_indexes t)"
  shows "execute_all (map (\<lambda>i. Drop_index i n) is @ [Drop_table n]) (s\<lparr>sc_tables := sc_tables s @ [(n, t)]\<rparr>) = Some s"
  using assms
proof (induction "is" arbitrary: t)
  case Nil
  have "map_of (sc_tables s) n = None" using Nil.prems(1) by (simp add: map_of_eq_None_iff)
  moreover have "filter (\<lambda>(m, _). m \<noteq> n) (sc_tables s) = sc_tables s"
    using Nil.prems(1) by (force simp: filter_id_conv)
  moreover have "filter (\<lambda>(_, _, m, _). m \<noteq> n) (sc_triggers s) = sc_triggers s"
    using Nil.prems(1,3) by (fastforce simp: filter_id_conv triggers_hang_def)
  moreover have "list_all (\<lambda>(m, t). m = n \<or> \<not> list_ex (refers_to n) (rel_constraints t)) (sc_tables s)"
    using Nil.prems(2) by (auto simp: list_all_iff refers_shape)
  ultimately show ?case by (simp add: table_of_snoc require_def)
next
  case (Cons i "is")
  let ?t = "t\<lparr>rel_indexes := filter (\<lambda>x. ix_name x \<noteq> i) (rel_indexes t)\<rparr>"
  have "map_of (sc_tables s) n = None" using Cons.prems(1) by (simp add: map_of_eq_None_iff)
  then have "execute (Drop_index i n) (s\<lparr>sc_tables := sc_tables s @ [(n, t)]\<rparr>) = Some (s\<lparr>sc_tables := sc_tables s @ [(n, ?t)]\<rparr>)"
    using Cons.prems(1,5) by (simp add: table_of_snoc require_def put_table_last)
  moreover have "set is \<subseteq> ix_name ` set (rel_indexes ?t)" using Cons.prems(4,5) by force
  ultimately show ?case using Cons by simp
qed

end
