(* ===== verification/Schema_Head.thy ===== *)
theory Schema_Head
  imports Models Schema_Ops
begin

text \<open>
  The five revisions as a history.  The schema after each of them is given (\<open>schema_1\<close> to \<open>schema_5\<close>), each
  upgrade leads to the next and each downgrade back, and the tables of the last are those of the models.
\<close>

section \<open>The operations fit together\<close>

definition tables :: "ddl list list" where
  "tables = [create_otp_attempts, create_users, create_admin_sessions, create_audit_logs, create_courier_portfolios,
     create_courier_profiles, create_device_tokens, create_orders, create_promos, create_wallets,
     create_conversations, create_disputes, create_invoices, create_order_media, create_ratings, create_withdrawals,
     create_invoice_items, create_messages, create_payment_intents, create_promo_redemptions, create_transactions,
     create_wallet_topups]"

definition enum_types :: "(string \<times> string list) list" where
  "enum_types = concat (map types_of create_types)"

definition trigger_functions :: "string list" where
  "trigger_functions = concat (map functions_of create_functions)"

lemma groups_well_formed: "list_all well_formed (tables @ [refresh_tokens_upgrade])"
  unfolding tables_def by code_simp

lemma groups_ready:
  "ready (map fst enum_types) [] (map (\<lambda>g. outline_of (built g)) (tables @ [refresh_tokens_upgrade]))"
  unfolding tables_def by code_simp

lemma types_and_functions:
  "execute_all (create_types @ create_functions) empty_schema =
     Some (empty_schema\<lparr>sc_types := enum_types, sc_functions := trigger_functions\<rparr>)"
  by code_simp

lemma triggers_fit: "list_all (trigger_fits (map (\<lambda>g. fst (built g)) tables) trigger_functions) create_triggers"
  unfolding tables_def by code_simp

lemma triggers_distinct: "distinct (map fst (map trigger_of create_triggers))"
  by code_simp

definition rel_of :: "ddl list \<Rightarrow> rel" where
  "rel_of g = snd (built g)"

lemma built_names:
  "built refresh_tokens_upgrade = (''refresh_tokens'', rel_of refresh_tokens_upgrade)"
    "built create_users = (''users'', rel_of create_users)"
    "built create_courier_profiles = (''courier_profiles'', rel_of create_courier_profiles)"
    "built create_courier_portfolios = (''courier_portfolios'', rel_of create_courier_portfolios)"
    "built create_device_tokens = (''device_tokens'', rel_of create_device_tokens)"
    "built create_orders = (''orders'', rel_of create_orders)"
    "built create_order_media = (''order_media'', rel_of create_order_media)"
    "built create_promos = (''promos'', rel_of create_promos)"
    "built create_invoices = (''invoices'', rel_of create_invoices)"
    "built create_invoice_items = (''invoice_items'', rel_of create_invoice_items)"
    "built create_promo_redemptions = (''promo_redemptions'', rel_of create_promo_redemptions)"
    "built create_payment_intents = (''payment_intents'', rel_of create_payment_intents)"
    "built create_wallet_topups = (''wallet_topups'', rel_of create_wallet_topups)"
    "built create_conversations = (''conversations'', rel_of create_conversations)"
    "built create_messages = (''messages'', rel_of create_messages)"
    "built create_wallets = (''wallets'', rel_of create_wallets)"
    "built create_transactions = (''transactions'', rel_of create_transactions)"
    "built create_withdrawals = (''withdrawals'', rel_of create_withdrawals)"
    "built create_ratings = (''ratings'', rel_of create_ratings)"
    "built create_disputes = (''disputes'', rel_of create_disputes)"
    "built create_admin_sessions = (''admin_sessions'', rel_of create_admin_sessions)"
    "built create_otp_attempts = (''otp_attempts'', rel_of create_otp_attempts)"
    "built create_audit_logs = (''audit_logs'', rel_of create_audit_logs)"
  by (simp_all add: rel_of_def refresh_tokens_upgrade_def create_users_def create_courier_profiles_def create_courier_portfolios_def create_device_tokens_def create_orders_def create_order_media_def create_promos_def create_invoices_def create_invoice_items_def create_promo_redemptions_def create_payment_intents_def create_wallet_topups_def create_conversations_def create_messages_def create_wallets_def create_transactions_def create_withdrawals_def create_ratings_def create_disputes_def create_admin_sessions_def create_otp_attempts_def create_audit_logs_def)

section \<open>The schema of each revision\<close>

definition withdrawals_2 :: rel where
  "withdrawals_2 = altered ''withdrawals'' withdrawal_idempotency_upgrade (rel_of create_withdrawals)"

definition intents_2 :: rel where
  "intents_2 = altered ''payment_intents'' streampay_upgrade (rel_of create_payment_intents)"

definition intents_3 :: rel where
  "intents_3 = altered ''payment_intents'' legacy_links_upgrade intents_2"

definition schema_1 :: schema where
  "schema_1 = \<lparr>sc_types = enum_types, sc_functions = trigger_functions, sc_tables = map built tables,
     sc_triggers = map trigger_of create_triggers\<rparr>"

definition schema_2 :: schema where
  "schema_2 = schema_1\<lparr>sc_tables := sc_tables schema_1 @ [built refresh_tokens_upgrade]\<rparr>"

definition schema_3 :: schema where
  "schema_3 = put_table ''withdrawals'' withdrawals_2 schema_2"

definition schema_4 :: schema where
  "schema_4 = put_table ''payment_intents'' intents_2 schema_3"

definition schema_5 :: schema where
  "schema_5 = put_table ''payment_intents'' intents_3 schema_4"

definition same_rel :: "rel \<Rightarrow> rel \<Rightarrow> bool" where
  "same_rel t u \<longleftrightarrow> set (rel_columns t) = set (rel_columns u) \<and> set (rel_constraints t) = set (rel_constraints u) \<and>
     set (rel_indexes t) = set (rel_indexes u)"

definition head_tables :: "(string \<times> rel \<times> rel) list" where
  "head_tables =
    [(''refresh_tokens'', rel_of refresh_tokens_upgrade, orm_refresh_tokens),
     (''users'', rel_of create_users, orm_users),
     (''courier_profiles'', rel_of create_courier_profiles, orm_courier_profiles),
     (''courier_portfolios'', rel_of create_courier_portfolios, orm_courier_portfolios),
     (''device_tokens'', rel_of create_device_tokens, orm_device_tokens),
     (''orders'', rel_of create_orders, orm_orders),
     (''order_media'', rel_of create_order_media, orm_order_media),
     (''promos'', rel_of create_promos, orm_promos),
     (''invoices'', rel_of create_invoices, orm_invoices),
     (''invoice_items'', rel_of create_invoice_items, orm_invoice_items),
     (''promo_redemptions'', rel_of create_promo_redemptions, orm_promo_redemptions),
     (''payment_intents'', intents_3, orm_payment_intents),
     (''wallet_topups'', rel_of create_wallet_topups, orm_wallet_topups),
     (''conversations'', rel_of create_conversations, orm_conversations),
     (''messages'', rel_of create_messages, orm_messages),
     (''wallets'', rel_of create_wallets, orm_wallets),
     (''transactions'', rel_of create_transactions, orm_transactions),
     (''withdrawals'', withdrawals_2, orm_withdrawals),
     (''ratings'', rel_of create_ratings, orm_ratings),
     (''disputes'', rel_of create_disputes, orm_disputes),
     (''admin_sessions'', rel_of create_admin_sessions, orm_admin_sessions),
     (''otp_attempts'', rel_of create_otp_attempts, orm_otp_attempts),
     (''audit_logs'', rel_of create_audit_logs, orm_audit_logs)]"

lemma head_tables_same: "list_all (\<lambda>(n, t, u). same_rel t u) head_tables"
  by code_simp

lemma alterations_apply:
  "execute_all withdrawal_idempotency_upgrade (only ''withdrawals'' (rel_of create_withdrawals)) \<noteq> None"
  "execute_all withdrawal_idempotency_downgrade (only ''withdrawals'' withdrawals_2) \<noteq> None"
  "execute_all streampay_upgrade (only ''payment_intents'' (rel_of create_payment_intents)) \<noteq> None"
  "execute_all streampay_downgrade (only ''payment_intents'' intents_2) \<noteq> None"
  "execute_all legacy_links_upgrade (only ''payment_intents'' intents_2) \<noteq> None"
  "execute_all legacy_links_downgrade (only ''payment_intents'' intents_3) \<noteq> None"
  by code_simp+

lemma alterations_undone:
  "altered ''withdrawals'' withdrawal_idempotency_downgrade withdrawals_2 = rel_of create_withdrawals"
  "altered ''payment_intents'' streampay_downgrade intents_2 = rel_of create_payment_intents"
  "altered ''payment_intents'' legacy_links_downgrade intents_3 = intents_2"
  by code_simp+

definition foreign_indexes :: "string \<Rightarrow> string list" where
  "foreign_indexes n = concat (map (\<lambda>g. if fst (built g) = n then [] else map ix_name (rel_indexes (rel_of g)))
     (tables @ [refresh_tokens_upgrade]))"

lemma alterations_local:
  "list_all (local_op (foreign_indexes ''withdrawals'') ''withdrawals'')
     (withdrawal_idempotency_upgrade @ withdrawal_idempotency_downgrade)"
  "list_all (local_op (''uq_withdrawals_courier_idempotency'' # foreign_indexes ''payment_intents'') ''payment_intents'')
     (streampay_upgrade @ streampay_downgrade @ legacy_links_upgrade @ legacy_links_downgrade)"
  unfolding foreign_indexes_def tables_def by code_simp+

lemma tables_drop: "drops (drop_tables_1 @ drop_tables_2) (map (\<lambda>g. (fst (built g), shape (rel_of g))) tables) = Some []"
  unfolding tables_def by code_simp

lemma types_drop:
  "execute_all drop_functions_and_types (empty_schema\<lparr>sc_types := enum_types, sc_functions := trigger_functions\<rparr>) = Some empty_schema"
  by code_simp

section \<open>Each migration leads from one revision to the next\<close>

lemma table_names_distinct: "distinct (map (\<lambda>g. fst (built g)) (tables @ [refresh_tokens_upgrade]))"
  using ready_distinct[OF groups_ready] by (simp add: comp_def outline_of_def split_def del: distinct_append)

lemma baseline_applies: "execute_all baseline_upgrade empty_schema = Some schema_1"
proof -
  let ?s = "empty_schema\<lparr>sc_types := enum_types, sc_functions := trigger_functions\<rparr>"
  have "execute_all (concat tables) ?s = Some (?s\<lparr>sc_tables := sc_tables ?s @ map built tables\<rparr>)"
    using groups_well_formed groups_ready by (intro execute_groups) (simp_all add: empty_schema_def ready_append)
  moreover have "execute_all create_triggers (?s\<lparr>sc_tables := map built tables\<rparr>) =
     Some (?s\<lparr>sc_tables := map built tables, sc_triggers := map trigger_of create_triggers\<rparr>)"
    using triggers_fit triggers_distinct
    by (subst execute_triggers) (simp_all add: empty_schema_def comp_def)
  moreover have b: "baseline_upgrade = (create_types @ create_functions) @ concat tables @ create_triggers"
    by (simp add: baseline_upgrade_def tables_def)
  ultimately show ?thesis
    unfolding b execute_all_append[of "create_types @ create_functions"] types_and_functions
    by (simp add: execute_all_append empty_schema_def schema_1_def)
qed

lemma schema_1_names: "map fst (sc_tables schema_1) = map (\<lambda>g. fst (built g)) tables"
  by (simp add: schema_1_def comp_def)

lemma refresh_applies: "execute_all refresh_tokens_upgrade schema_1 = Some schema_2"
  unfolding schema_2_def using groups_well_formed groups_ready table_names_distinct
  by (intro group_step) (simp_all add: ready_append schema_1_def comp_def)

lemma schema_2_tables: "sc_tables schema_2 = map built (tables @ [refresh_tokens_upgrade])"
  by (simp add: schema_2_def schema_1_def)

lemma schema_2_holds:
  assumes "g \<in> set (tables @ [refresh_tokens_upgrade])"
  shows "holds_table (fst (built g)) (rel_of g) schema_2"
  using assms table_names_distinct unfolding holds_table_def table_of_def schema_2_tables rel_of_def
  by (subst map_of_eq_Some_iff) (auto simp add: comp_def simp del: map_append distinct_append)

lemma elsewhere_2: "elsewhere n schema_2 = foreign_indexes n"
  by (simp add: elsewhere_def foreign_indexes_def schema_2_tables rel_of_def comp_def split_def del: map_append cong: if_cong)

lemma withdrawals_hold:
  "holds_table ''withdrawals'' (rel_of create_withdrawals) schema_2"
  "holds_table ''withdrawals'' withdrawals_2 schema_3"
  using schema_2_holds[of create_withdrawals] by (simp_all add: built_names tables_def schema_3_def holds_put)

lemma intents_hold:
  "holds_table ''payment_intents'' (rel_of create_payment_intents) schema_3"
  "holds_table ''payment_intents'' intents_2 schema_4"
  "holds_table ''payment_intents'' intents_3 schema_5"
  using schema_2_holds[of create_payment_intents]
  by (auto simp: built_names tables_def schema_3_def schema_4_def schema_5_def intro: holds_put holds_other)

lemma withdrawals_2_indexes:
  "map ix_name (rel_indexes withdrawals_2) = map ix_name (rel_indexes (rel_of create_withdrawals)) @ [''uq_withdrawals_courier_idempotency'']"
  by code_simp

lemma elsewhere_3: "set (elsewhere ''payment_intents'' schema_3) \<subseteq>
   set (''uq_withdrawals_courier_idempotency'' # foreign_indexes ''payment_intents'')"
proof -
  have "(''withdrawals'', rel_of create_withdrawals) \<in> set (sc_tables schema_2)"
    by (simp add: schema_2_tables tables_def built_names)
  then have "ix_name ` set (rel_indexes (rel_of create_withdrawals)) \<subseteq> set (elsewhere ''payment_intents'' schema_2)"
    by (rule elsewhere_mem) simp
  then have "ix_name ` set (rel_indexes withdrawals_2) \<subseteq>
      set (''uq_withdrawals_courier_idempotency'' # elsewhere ''payment_intents'' schema_2)"
    using arg_cong[OF withdrawals_2_indexes, of set] by auto
  then show ?thesis using elsewhere_put_other[of "''payment_intents''" "''withdrawals''" withdrawals_2 schema_2]
    unfolding elsewhere_2[symmetric] schema_3_def list.set by blast
qed

lemma elsewhere_4 [simp]: "elsewhere ''payment_intents'' schema_4 = elsewhere ''payment_intents'' schema_3"
  "elsewhere ''payment_intents'' schema_5 = elsewhere ''payment_intents'' schema_3"
  "elsewhere ''withdrawals'' schema_3 = elsewhere ''withdrawals'' schema_2"
  by (simp_all add: schema_3_def schema_4_def schema_5_def)

lemma local_parts:
  "list_all (local_op (foreign_indexes ''withdrawals'') ''withdrawals'') withdrawal_idempotency_upgrade"
  "list_all (local_op (foreign_indexes ''withdrawals'') ''withdrawals'') withdrawal_idempotency_downgrade"
  "list_all (local_op (''uq_withdrawals_courier_idempotency'' # foreign_indexes ''payment_intents'') ''payment_intents'')
     streampay_upgrade"
  "list_all (local_op (''uq_withdrawals_courier_idempotency'' # foreign_indexes ''payment_intents'') ''payment_intents'')
     streampay_downgrade"
  "list_all (local_op (''uq_withdrawals_courier_idempotency'' # foreign_indexes ''payment_intents'') ''payment_intents'')
     legacy_links_upgrade"
  "list_all (local_op (''uq_withdrawals_courier_idempotency'' # foreign_indexes ''payment_intents'') ''payment_intents'')
     legacy_links_downgrade"
  using alterations_local unfolding list_all_append by blast+

lemma elsewhere_all:
  "set (elsewhere ''withdrawals'' schema_2) \<subseteq> set (foreign_indexes ''withdrawals'')"
  "set (elsewhere ''withdrawals'' schema_3) \<subseteq> set (foreign_indexes ''withdrawals'')"
  "set (elsewhere ''payment_intents'' schema_4) \<subseteq>
     set (''uq_withdrawals_courier_idempotency'' # foreign_indexes ''payment_intents'')"
  "set (elsewhere ''payment_intents'' schema_5) \<subseteq>
     set (''uq_withdrawals_courier_idempotency'' # foreign_indexes ''payment_intents'')"
  using elsewhere_3 unfolding elsewhere_4 elsewhere_2 by blast+

lemma upgrades_apply:
  "execute_all withdrawal_idempotency_upgrade schema_2 = Some schema_3"
  "execute_all streampay_upgrade schema_3 = Some schema_4"
  "execute_all legacy_links_upgrade schema_4 = Some schema_5"
  unfolding schema_3_def withdrawals_2_def schema_4_def intents_2_def schema_5_def intents_3_def
  using alter_table[OF local_parts(1) withdrawals_hold(1) elsewhere_all(1) alterations_apply(1)]
    alter_table[OF local_parts(3) intents_hold(1) elsewhere_3 alterations_apply(3)]
    alter_table[OF local_parts(5) intents_hold(2) elsewhere_all(3) alterations_apply(5)]
  unfolding schema_3_def withdrawals_2_def schema_4_def intents_2_def by blast+

lemma downgrades_apply:
  "execute_all withdrawal_idempotency_downgrade schema_3 = Some schema_2"
  "execute_all streampay_downgrade schema_4 = Some schema_3"
  "execute_all legacy_links_downgrade schema_5 = Some schema_4"
  using alter_table[OF local_parts(2) withdrawals_hold(2) elsewhere_all(2) alterations_apply(2), unfolded alterations_undone]
    alter_table[OF local_parts(4) intents_hold(2) elsewhere_all(3) alterations_apply(4), unfolded alterations_undone]
    alter_table[OF local_parts(6) intents_hold(3) elsewhere_all(4) alterations_apply(6), unfolded alterations_undone]
    put_table_same[OF withdrawals_hold(1)] put_table_same[OF intents_hold(1)] put_table_same[OF intents_hold(2)]
  unfolding schema_3_def schema_4_def schema_5_def put_put by simp_all

lemma refresh_unused: "list_all (\<lambda>g. ''refresh_tokens'' \<notin> set (fst (shape (rel_of g)))) tables"
  unfolding tables_def by code_simp

lemma refresh_indexes: "ix_name ` set (rel_indexes (rel_of refresh_tokens_upgrade)) = {''idx_refresh_tokens_user'', ''idx_refresh_tokens_family''}"
  by (auto simp: rel_of_def refresh_tokens_upgrade_def)

lemma schema_1_triggers: "triggers_hang schema_1"
proof -
  have "fst (snd (snd (trigger_of x))) \<in> set N" if "trigger_fits N F x" for N F x
    using that by (auto simp: trigger_fits_def split: ddl.splits)
  then have "\<forall>x \<in> set create_triggers. fst (snd (snd (trigger_of x))) \<in> fst ` set (map built tables)"
    using triggers_fit unfolding list_all_iff by (fastforce simp: image_image)
  then show ?thesis by (auto simp: triggers_hang_def schema_1_def split_def)
qed

lemma refresh_reverts: "execute_all refresh_tokens_downgrade schema_2 = Some schema_1"
proof -
  have "refresh_tokens_downgrade = map (\<lambda>i. Drop_index i ''refresh_tokens'') [''idx_refresh_tokens_user'', ''idx_refresh_tokens_family''] @
      [Drop_table ''refresh_tokens'']"
    by (simp add: refresh_tokens_downgrade_def)
  moreover have "execute_all \<dots> schema_2 = Some schema_1"
    unfolding schema_2_def built_names
  proof (rule drop_last_table[OF _ _ schema_1_triggers])
    show "''refresh_tokens'' \<notin> fst ` set (sc_tables schema_1)"
      using table_names_distinct by (auto simp: schema_1_def built_names image_image)
    show "list_all (\<lambda>(m, t). ''refresh_tokens'' \<notin> set (fst (shape t))) (sc_tables schema_1)"
      using refresh_unused by (auto simp: schema_1_def list_all_iff rel_of_def)
  qed (simp_all add: refresh_indexes)
  ultimately show ?thesis by simp
qed

lemma baseline_reverts: "execute_all baseline_downgrade schema_1 = Some empty_schema"
proof -
  have "shapes schema_1 = map (\<lambda>g. (fst (built g), shape (rel_of g))) tables"
    by (simp add: shapes_def schema_1_def rel_of_def split_def)
  then obtain s where s: "execute_all (drop_tables_1 @ drop_tables_2) schema_1 = Some s" and "shapes s = []"
    and "sc_types s = enum_types" and "sc_functions s = trigger_functions" and "triggers_hang s"
    using drops_execute[of "drop_tables_1 @ drop_tables_2" schema_1 "[]"] tables_drop schema_1_triggers
    by (auto simp: schema_1_def)
  moreover from this have "sc_triggers s = []"
    by (intro equals0I[where A = "set (sc_triggers s)", simplified set_empty]) (auto simp: shapes_def triggers_hang_def)
  ultimately have "s = empty_schema\<lparr>sc_types := enum_types, sc_functions := trigger_functions\<rparr>"
    by (cases s) (auto simp: shapes_def empty_schema_def)
  then show ?thesis using s types_drop
    unfolding baseline_downgrade_def append_assoc[symmetric] execute_all_append[of "drop_tables_1 @ drop_tables_2"] by simp
qed

section \<open>The history as a whole\<close>

record migration =
  revision :: string
  down_revision :: "string option"
  upgrade :: "ddl list"
  downgrade :: "ddl list"

definition versions :: "migration list" where
  "versions =
    [\<lparr>revision = ''0013a70d0480'', down_revision = None, upgrade = baseline_upgrade, downgrade = baseline_downgrade\<rparr>,
     \<lparr>revision = ''dadcdbda923c'', down_revision = Some ''0013a70d0480'',
        upgrade = refresh_tokens_upgrade, downgrade = refresh_tokens_downgrade\<rparr>,
     \<lparr>revision = ''8c9d1e2f3a4b'', down_revision = Some ''dadcdbda923c'',
        upgrade = withdrawal_idempotency_upgrade, downgrade = withdrawal_idempotency_downgrade\<rparr>,
     \<lparr>revision = ''f1c2a3b4d5e6'', down_revision = Some ''8c9d1e2f3a4b'',
        upgrade = streampay_upgrade, downgrade = streampay_downgrade\<rparr>,
     \<lparr>revision = ''b7c8d9e0f1a2'', down_revision = Some ''f1c2a3b4d5e6'',
        upgrade = legacy_links_upgrade, downgrade = legacy_links_downgrade\<rparr>]"

text \<open>The versions after a revision, in the order of their links, and the schema after the first \<open>k\<close> of them.\<close>

fun follows :: "string option \<Rightarrow> migration list \<Rightarrow> bool" where
  "follows r [] \<longleftrightarrow> True"
| "follows r (m # ms) \<longleftrightarrow> down_revision m = r \<and> follows (Some (revision m)) ms"

definition schema_at :: "nat \<Rightarrow> schema option" where
  "schema_at k = execute_all (concat (map upgrade (take k versions))) empty_schema"

definition stages :: "schema list" where
  "stages = [empty_schema, schema_1, schema_2, schema_3, schema_4, schema_5]"

lemma stage_step:
  assumes "k < 5"
  shows "execute_all (upgrade (versions ! k)) (stages ! k) = Some (stages ! Suc k)"
    and "execute_all (downgrade (versions ! k)) (stages ! Suc k) = Some (stages ! k)"
proof -
  have "k = 0 \<or> k = 1 \<or> k = 2 \<or> k = 3 \<or> k = 4" using assms by arith
  then show "execute_all (upgrade (versions ! k)) (stages ! k) = Some (stages ! Suc k)"
    and "execute_all (downgrade (versions ! k)) (stages ! Suc k) = Some (stages ! k)"
    by (auto simp: versions_def stages_def baseline_applies refresh_applies upgrades_apply baseline_reverts refresh_reverts
      downgrades_apply)
qed

lemma length_versions: "length versions = 5" by (simp add: versions_def)

lemma schema_at_stage: "k \<le> 5 \<Longrightarrow> schema_at k = Some (stages ! k)"
proof (induction k)
  case 0
  then show ?case by (simp add: schema_at_def stages_def)
next
  case (Suc k)
  then show ?case using stage_step(1)[of k]
    by (simp add: schema_at_def take_Suc_conv_app_nth length_versions execute_all_append)
qed

lemma downgrade_stage:
  assumes "j \<le> k" and "k \<le> 5"
  shows "execute_all (concat (map downgrade (rev (drop j (take k versions))))) (stages ! k) = Some (stages ! j)"
  using assms
proof (induction k rule: dec_induct)
  case base
  then show ?case by simp
next
  case (step k)
  then have "drop j (take (Suc k) versions) = drop j (take k versions) @ [versions ! k]"
    by (simp add: take_Suc_conv_app_nth length_versions)
  then show ?case using step stage_step(2)[of k] by (simp add: execute_all_append)
qed

text \<open>C37: the five revisions form one line from the empty schema.  Every upgrade succeeds, and going down from
  any revision to any earlier one succeeds and gives exactly the schema that the upgrades to that one give: no table,
  index, trigger, function or type is left behind or lost on the way.\<close>

theorem migrations_invertible:
  assumes "j \<le> k" and "k \<le> length versions"
  shows "follows None versions \<and> (\<exists>s s'. schema_at k = Some s \<and> schema_at j = Some s' \<and>
     execute_all (concat (map downgrade (rev (drop j (take k versions))))) s = Some s')"
  using assms downgrade_stage[of j k] by (simp add: schema_at_stage length_versions) (simp add: versions_def)

theorem migrations_invertible_witness:
  "\<exists>s. schema_at 5 = Some s \<and> execute_all (concat (map downgrade (rev versions))) s = Some empty_schema"
  using migrations_invertible[of 0 5] by (simp add: length_versions) (simp add: schema_at_def)

lemma head_set: "set (sc_tables schema_5) = set (map (\<lambda>(n, t, u). (n, t)) head_tables)"
  by (simp add: schema_5_def schema_4_def schema_3_def put_table_def schema_2_tables tables_def built_names head_tables_def insert_commute)

lemma model_tables_head: "model_tables = map (\<lambda>(n, t, u). (n, u)) head_tables"
  by (simp add: model_tables_def head_tables_def)

lemma enums_head: "enum_types = orm_enums"
  by (simp add: enum_types_def create_types_def orm_enums_def)

text \<open>A table with a column \<open>updated_at\<close> has the trigger that maintains it.\<close>

definition updated_at_kept :: "schema \<Rightarrow> bool" where
  "updated_at_kept s \<longleftrightarrow> list_all (\<lambda>(n, t). ''updated_at'' \<in> set (column_names t) \<longrightarrow>
     list_ex (\<lambda>(_, e, m, f). e = [''UPDATE''] \<and> m = n \<and> f = ''set_updated_at'') (sc_triggers s)) (sc_tables s)"

lemma head_updated_at: "list_all (\<lambda>(n, t, u). ''updated_at'' \<in> set (column_names t) \<longrightarrow>
     list_ex (\<lambda>(_, e, m, f). e = [''UPDATE''] \<and> m = n \<and> f = ''set_updated_at'') (map trigger_of create_triggers)) head_tables"
  by code_simp

lemma schema_5_rest: "sc_triggers schema_5 = map trigger_of create_triggers" "sc_types schema_5 = enum_types"
  by (simp_all add: schema_5_def schema_4_def schema_3_def schema_2_def schema_1_def put_table_def)

lemma schema_5_updated_at: "updated_at_kept schema_5"
  using head_updated_at unfolding updated_at_kept_def schema_5_rest list_all_iff head_set by fastforce

lemma model_tables_distinct: "distinct (map fst model_tables)"
  unfolding model_tables_head by code_simp

lemma schema_5_distinct: "distinct (map fst (sc_tables schema_5))"
  using intents_hold(3) by (simp add: holds_table_def)

text \<open>C8: the migrations, run on an empty database, succeed and build the schema that the models declare: under
  every name either both have a table, with the same columns, constraints and indexes, or neither has; the enum types
  are those of the models, and every table with \<open>updated_at\<close> has its trigger.\<close>

theorem migrations_build_models:
  "\<exists>s. schema_at (length versions) = Some s \<and> (\<forall>n. rel_option same_rel (table_of n s) (map_of model_tables n)) \<and>
     sc_types s = orm_enums \<and> updated_at_kept s"
proof -
  have "rel_option same_rel (table_of n schema_5) (map_of model_tables n)" for n
  proof (cases "\<exists>t u. (n, t, u) \<in> set head_tables")
    case True
    then obtain t u where h: "(n, t, u) \<in> set head_tables" by blast
    have "(n, t) \<in> set (sc_tables schema_5)" using h unfolding head_set by force
    then have "table_of n schema_5 = Some t" unfolding table_of_def
      using schema_5_distinct by (rule map_of_is_SomeI[rotated])
    moreover have "(n, u) \<in> set model_tables" using h unfolding model_tables_head by force
    then have "map_of model_tables n = Some u" using model_tables_distinct by (rule map_of_is_SomeI[rotated])
    moreover have "same_rel t u" using h head_tables_same by (auto simp: list_all_iff)
    ultimately show ?thesis by simp
  next
    case False
    then have "n \<notin> fst ` set (sc_tables schema_5)" "n \<notin> fst ` set model_tables"
      unfolding head_set model_tables_head by force+
    then show ?thesis by (simp add: table_of_def map_of_eq_None_iff[THEN iffD2])
  qed
  then show ?thesis
    by (simp add: length_versions schema_at_stage stages_def schema_5_rest enums_head schema_5_updated_at)
qed

end
