(* ===== verification/Gateway.thy ===== *)
theory Gateway
  imports Api
begin

text \<open>
  The StreamPay client of \<open>app/integrations/streampay/real.py\<close> and the development one of \<open>fake.py\<close>.
  The provider is a parameter: it answers a POST of a JSON body to a path with a JSON value, or the call
  raises (a transport error, or a status that \<open>raise_for_status\<close> refuses), and keeps a state of its own.
  What the theorem asks of it (\<open>honours\<close>) is the documented meaning of its three resources.
\<close>

section \<open>The live client\<close>

type_synonym 'g provider = "string \<Rightarrow> json \<Rightarrow> 'g \<Rightarrow> (error + json) \<times> 'g"

definition then_run :: "('g \<Rightarrow> (error + 'a) \<times> 'g) \<Rightarrow> ('a \<Rightarrow> 'g \<Rightarrow> (error + 'b) \<times> 'g) \<Rightarrow> 'g \<Rightarrow> (error + 'b) \<times> 'g" where
  "then_run f k g = (case f g of (Inl e, g) \<Rightarrow> (Inl e, g) | (Inr x, g) \<Rightarrow> k x g)"

definition post :: "'g provider \<Rightarrow> string \<Rightarrow> json \<Rightarrow> 'g \<Rightarrow> (error + (string \<times> json) list) \<times> 'g" where
  "post P path payload = then_run (P path payload) (\<lambda>data g.
     (case data of JObj kvs \<Rightarrow> Inr kvs | _ \<Rightarrow> Inl ValueError, g))"

definition required_value :: "(json \<Rightarrow> string) \<Rightarrow> (string \<times> json) list \<Rightarrow> string \<Rightarrow> error + string" where
  "required_value repr data key =
     (case json_get data key of None \<Rightarrow> Inl ValueError
      | Some value \<Rightarrow> if value = JNull \<or> py_str repr value = [] then Inl ValueError else Inr (py_str repr value))"

text \<open>\<open>f"{amount:.2f}"\<close>.\<close>

definition money_2f :: "money \<Rightarrow> string" where
  "money_2f amount = money_str (round_2dp amount)"

definition consumer_payload :: "streampay_customer \<Rightarrow> json" where
  "consumer_payload c = JObj ([(''external_id'', JStr (sc_external_id c)), (''name'', JStr (sc_name c)),
     (''phone_number'', JStr (sc_phone_number c))] @
     (if truthy (sc_email c) then [(''email'', JStr (the (sc_email c)))] else []))"

definition create_consumer :: "(json \<Rightarrow> string) \<Rightarrow> 'g provider \<Rightarrow> streampay_customer \<Rightarrow> 'g \<Rightarrow> (error + string) \<times> 'g" where
  "create_consumer repr P c = then_run (post P ''/consumers'' (consumer_payload c)) (\<lambda>data g.
     (required_value repr data ''id'', g))"

definition product_payload :: "streampay_item \<Rightarrow> string \<Rightarrow> json" where
  "product_payload x reference = JObj ([(''name'', JStr (take 160 (si_name x))), (''type'', JStr ''ONE_OFF''),
     (''is_one_time'', JBool True),
     (''prices'', JArr [JObj [(''amount'', JStr (money_2f (si_amount x))), (''currency'', JStr ''SAR''),
        (''is_price_inclusive_of_vat'', JBool True), (''is_price_exempt_from_vat'', JBool False)]]),
     (''external_metadata'', JObj [(''payment_intent_id'', JStr reference)])] @
     (if truthy (si_description x) then [(''description'', JStr (take 512 (the (si_description x))))] else []))"

definition create_product :: "(json \<Rightarrow> string) \<Rightarrow> 'g provider \<Rightarrow> string \<Rightarrow> streampay_item \<Rightarrow> 'g \<Rightarrow> (error + string) \<times> 'g" where
  "create_product repr P reference x = then_run (post P ''/products'' (product_payload x reference)) (\<lambda>data g.
     (required_value repr data ''id'', g))"

fun create_products ::
  "(json \<Rightarrow> string) \<Rightarrow> 'g provider \<Rightarrow> string \<Rightarrow> streampay_item list \<Rightarrow> 'g \<Rightarrow> (error + string list) \<times> 'g" where
  "create_products repr P reference [] g = (Inr [], g)"
| "create_products repr P reference (x # xs) g =
     then_run (create_product repr P reference x) (\<lambda>i.
     then_run (create_products repr P reference xs) (\<lambda>is g. (Inr (i # is), g))) g"

definition link_payload :: "string \<Rightarrow> string \<Rightarrow> string list \<Rightarrow> string option \<Rightarrow> string option \<Rightarrow> json" where
  "link_payload reference consumer_id product_ids success failure = JObj ([
     (''name'', JStr (''SAFE-GIFT invoice '' @ reference)), (''currency'', JStr ''SAR''),
     (''items'', JArr (map (\<lambda>i. JObj [(''product_id'', JStr i), (''quantity'', JNum ''1'')]) product_ids)),
     (''max_number_of_payments'', JNum ''1''), (''organization_consumer_id'', JStr consumer_id),
     (''contact_information_type'', JStr ''PHONE''),
     (''custom_metadata'', JObj [(''payment_intent_id'', JStr reference)])] @
     (if truthy success then [(''success_redirect_url'', JStr (the success))] else []) @
     (if truthy failure then [(''failure_redirect_url'', JStr (the failure))] else []))"

definition create_payment_link ::
  "(json \<Rightarrow> string) \<Rightarrow> 'g provider \<Rightarrow> string option \<Rightarrow> string option \<Rightarrow> string \<Rightarrow> streampay_customer \<Rightarrow> streampay_item list
     \<Rightarrow> 'g \<Rightarrow> (error + streampay_checkout) \<times> 'g" where
  "create_payment_link repr P success failure reference customer items =
     then_run (create_consumer repr P customer) (\<lambda>consumer_id.
     then_run (create_products repr P reference items) (\<lambda>product_ids.
     then_run (post P ''/payment_links'' (link_payload reference consumer_id product_ids success failure)) (\<lambda>data g.
     (and_then (required_value repr data ''id'') (\<lambda>link_id.
      and_then (required_value repr data ''url'') (\<lambda>url.
      Inr \<lparr>co_payment_link_id = link_id, co_payment_url = url\<rparr>)), g))))"

section \<open>The development client\<close>

text \<open>The state is the counter; \<open>:08d\<close> pads with zeros to eight digits.\<close>

definition fake_payment_link :: "string \<Rightarrow> nat \<Rightarrow> streampay_checkout \<times> nat" where
  "fake_payment_link prefix n =
     (let d = digits n;
          payment_link_id = ''FAKE-STREAM-LINK-'' @ prefix @ ''-'' @ replicate (8 - length d) (CHR ''0'') @ d
      in (\<lparr>co_payment_link_id = payment_link_id,
           co_payment_url = ''http://localhost:8000/api/dev/streampay/simulate?payment_link_id='' @ payment_link_id\<rparr>, Suc n))"

section \<open>What the customer is charged\<close>

text \<open>The price of a product and the products of a link, as the provider reads them.\<close>

fun price_of :: "json \<Rightarrow> money option" where
  "price_of (JObj kvs) =
     (case json_get kvs ''prices'' of Some (JArr [JObj p]) \<Rightarrow>
        (case json_get p ''amount'' of Some (JStr t) \<Rightarrow>
           (case parse_money (PyStr t) of Inr m \<Rightarrow> Some m | Inl _ \<Rightarrow> None)
         | _ \<Rightarrow> None)
      | _ \<Rightarrow> None)"
| "price_of _ = None"

fun line_of :: "json \<Rightarrow> (string \<times> nat) option" where
  "line_of (JObj kvs) =
     (case (json_get kvs ''product_id'', json_get kvs ''quantity'') of
        (Some (JStr i), Some (JNum n)) \<Rightarrow> map_option (Pair i) (as_count n)
      | _ \<Rightarrow> None)"
| "line_of _ = None"

fun lines_of :: "json \<Rightarrow> (string \<times> nat) list option" where
  "lines_of (JObj kvs) = (case json_get kvs ''items'' of Some (JArr xs) \<Rightarrow> those (map line_of xs) | _ \<Rightarrow> None)"
| "lines_of _ = None"

definition answers_id :: "(json \<Rightarrow> string) \<Rightarrow> json \<Rightarrow> string \<Rightarrow> bool" where
  "answers_id repr v i \<longleftrightarrow> (\<exists>kvs. v = JObj kvs \<and> required_value repr kvs ''id'' = Inr i)"

text \<open>The provider's contract: a consumer changes no price; a product gets its price under a new identifier; a link asks for
  the sum of its lines.\<close>

definition honours ::
  "(json \<Rightarrow> string) \<Rightarrow> 'g provider \<Rightarrow> ('g \<Rightarrow> string \<rightharpoonup> money) \<Rightarrow> ('g \<Rightarrow> string \<rightharpoonup> money) \<Rightarrow> bool" where
  "honours repr P price due \<longleftrightarrow>
     (\<forall>g body v g'. P ''/consumers'' body g = (Inr v, g') \<longrightarrow> price g' = price g) \<and>
     (\<forall>g body v g' i m. P ''/products'' body g = (Inr v, g') \<and> answers_id repr v i \<and> price_of body = Some m \<longrightarrow>
        price g i = None \<and> price g' = (price g)(i \<mapsto> m)) \<and>
     (\<forall>g body v g' i xs. P ''/payment_links'' body g = (Inr v, g') \<and> answers_id repr v i \<and> lines_of body = Some xs \<and>
        list_all (\<lambda>(j, n). price g j \<noteq> None) xs \<longrightarrow>
        due g' i = Some (\<Sum>(j, n) \<leftarrow> xs. of_nat n * the (price g j)))"

lemma honours_product:
  assumes "honours repr P price due" and "P ''/products'' body g = (Inr v, g')" and "answers_id repr v i" and "price_of body = Some m"
  shows "price g i = None \<and> price g' = (price g)(i \<mapsto> m)"
  by (rule assms(1)[unfolded honours_def, THEN conjunct2, THEN conjunct1, rule_format]) (use assms in blast)

lemma honours_link:
  assumes "honours repr P price due" and "P ''/payment_links'' body g = (Inr v, g')" and "answers_id repr v i"
    and "lines_of body = Some xs" and "list_all (\<lambda>(j, n). price g j \<noteq> None) xs"
  shows "due g' i = Some (\<Sum>(j, n) \<leftarrow> xs. of_nat n * the (price g j))"
  by (rule assms(1)[unfolded honours_def, THEN conjunct2, THEN conjunct2, rule_format]) (use assms in blast)

lemma then_runE:
  assumes "then_run f k g = (Inr y, g')"
  obtains x g1 where "f g = (Inr x, g1)" and "k x g1 = (Inr y, g')"
  using assms by (auto simp: then_run_def split: prod.splits sum.splits)

lemma post_id:
  assumes "then_run (post P path body) (\<lambda>data g. (required_value repr data ''id'', g)) g = (Inr i, g')"
  shows "\<exists>v. P path body g = (Inr v, g') \<and> answers_id repr v i"
  using assms by (auto simp: post_def answers_id_def elim!: then_runE split: json.splits)

lemma round_2dp_money: "is_money m \<Longrightarrow> round_2dp m = m"
proof -
  assume "is_money m"
  then have "m * 100 = of_int \<lfloor>m * 100\<rfloor>" by (auto simp: is_money_def)
  then show ?thesis by (simp add: round_2dp_def Let_def)
qed

definition payable :: "money \<Rightarrow> bool" where
  "payable m \<longleftrightarrow> is_money m \<and> \<bar>m\<bar> < 10 ^ 26"

lemma payable_text: "payable m \<Longrightarrow> parse_money (PyStr (money_2f m)) = Inr m"
proof -
  assume p: "payable m"
  then have m: "is_money m" and q: "m * 100 = of_int \<lfloor>m * 100\<rfloor>" by (auto simp: payable_def is_money_def)
  have "half_up (m * 100) = \<lfloor>m * 100\<rfloor>" using half_up_of_int[of "\<lfloor>m * 100\<rfloor>"] q by simp
  moreover have "\<bar>m * 100\<bar> < 10 ^ 28" using p by (simp add: payable_def abs_mult)
  then have "\<bar>of_int \<lfloor>m * 100\<rfloor> :: rat\<bar> < of_int (10 ^ 28)" using q by simp
  then have "\<bar>\<lfloor>m * 100\<rfloor>\<bar> < 10 ^ 28" unfolding of_int_abs[symmetric] of_int_less_iff .
  ultimately show ?thesis using parse_money_str[of m] m
    by (simp add: money_2f_def round_2dp_money quantize_money_id)
qed

lemma product_price: "payable (si_amount x) \<Longrightarrow> price_of (product_payload x reference) = Some (si_amount x)"
  by (simp add: product_payload_def json_get_def payable_text)

lemma products_priced:
  assumes "honours repr P price due" and "create_products repr P reference items g = (Inr ids, g')"
    and "list_all (\<lambda>x. payable (si_amount x)) items"
  shows "list_all2 (\<lambda>x i. price g' i = Some (si_amount x)) items ids \<and> price g \<subseteq>\<^sub>m price g'"
  using assms(2,3)
proof (induction items arbitrary: g ids)
  case (Cons x items)
  then obtain i g1 ids' where i: "create_product repr P reference x g = (Inr i, g1)"
    and rest: "create_products repr P reference items g1 = (Inr ids', g')" and ids: "ids = i # ids'"
    by (auto elim!: then_runE)
  obtain v where "P ''/products'' (product_payload x reference) g = (Inr v, g1)" "answers_id repr v i"
    using post_id[of P "''/products''" "product_payload x reference" repr g i g1] i by (auto simp: create_product_def)
  then have new: "price g i = None" "price g1 = (price g)(i \<mapsto> si_amount x)"
    using honours_product[OF assms(1)] product_price[of x reference] Cons.prems(2) by auto
  have ih: "list_all2 (\<lambda>x i. price g' i = Some (si_amount x)) items ids'" "price g1 \<subseteq>\<^sub>m price g'"
    using Cons.IH[OF rest] Cons.prems(2) by simp_all
  have "price g \<subseteq>\<^sub>m price g1" using new by (auto simp: map_le_def)
  moreover have "price g' i = Some (si_amount x)" using new(2) ih(2) by (auto simp: map_le_def)
  ultimately show ?case unfolding ids using ih by (auto intro: map_le_trans)
qed simp

lemma link_lines: "lines_of (link_payload reference consumer_id ids success failure) = Some (map (\<lambda>i. (i, 1)) ids)"
proof -
  have "those (map line_of (map (\<lambda>i. JObj [(''product_id'', JStr i), (''quantity'', JNum ''1'')]) ids)) = Some (map (\<lambda>i. (i, 1)) ids)"
    by (induction ids) (simp_all add: json_get_def as_count_def is_digit_def digits_val_def digit_val_def)
  then show ?thesis by (simp add: link_payload_def json_get_def)
qed

lemma link_due:
  assumes h: "honours repr P price due" and p: "list_all (\<lambda>x. payable (si_amount x)) items"
    and c: "create_payment_link repr P success failure reference customer items g = (Inr co, g')"
  shows "due g' (co_payment_link_id co) = Some (\<Sum>x \<leftarrow> items. si_amount x)"
proof -
  obtain cid g1 ids g2 kvs where cs: "create_consumer repr P customer g = (Inr cid, g1)"
    and pr: "create_products repr P reference items g1 = (Inr ids, g2)"
    and po: "post P ''/payment_links'' (link_payload reference cid ids success failure) g2 = (Inr kvs, g')"
    and id: "required_value repr kvs ''id'' = Inr (co_payment_link_id co)"
    using c by (auto simp: create_payment_link_def and_then_def elim!: then_runE split: sum.splits)
  have l2: "list_all2 (\<lambda>x i. price g2 i = Some (si_amount x)) items ids" using products_priced[OF h pr p] by simp
  obtain v where "P ''/payment_links'' (link_payload reference cid ids success failure) g2 = (Inr v, g')"
    "answers_id repr v (co_payment_link_id co)"
    using po id by (auto simp: post_def answers_id_def elim!: then_runE split: json.splits)
  moreover have "list_all (\<lambda>(j, n). price g2 j \<noteq> None) (map (\<lambda>i. (i, 1 :: nat)) ids)"
    using l2 by (auto simp: list_all2_conv_all_nth list_all_length)
  ultimately have "due g' (co_payment_link_id co) = Some (\<Sum>(j, n) \<leftarrow> map (\<lambda>i. (i, 1 :: nat)) ids. of_nat n * the (price g2 j))"
    by (intro honours_link[OF h _ _ link_lines])
  moreover have "(\<Sum>(j, n) \<leftarrow> map (\<lambda>i. (i, 1 :: nat)) ids. of_nat n * the (price g2 j)) = (\<Sum>x \<leftarrow> items. si_amount x)"
    using l2 by (induction rule: list_all2_induct) simp_all
  ultimately show ?thesis by simp
qed

lemma checkout_items_money:
  assumes "is_money payment"
  shows "list_all (\<lambda>x. is_money (si_amount x)) (invoice_checkout_items invoice_id payment items)"
  using assms by (auto simp: invoice_checkout_items_def Let_def list_all_iff map_butlast[symmetric] dest: in_set_butlastD)

lemma checkout_items_payable:
  assumes "is_money payment" and "0 < payment" and "payment < 10 ^ 26" and "\<forall>t \<in> set items. is_money (it_line_total_amount t)"
  shows "list_all (\<lambda>x. payable (si_amount x)) (invoice_checkout_items invoice_id payment items)"
proof -
  let ?xs = "invoice_checkout_items invoice_id payment items"
  have s: "(\<Sum>x \<leftarrow> ?xs. si_amount x) = payment" and pos: "\<forall>x \<in> set ?xs. 0 < si_amount x"
    using checkout_items_add_up[OF assms(1,2,4) refl, of invoice_id] by simp_all
  have "si_amount x \<le> payment" if "x \<in> set ?xs" for x
    using member_le_sum_list[of "si_amount x" "map si_amount ?xs"] that pos s by fastforce
  then show ?thesis using checkout_items_money[OF assms(1)] pos assms(3)
    by (fastforce simp: list_all_iff payable_def)
qed

text \<open>C10: The customer is charged exactly the outstanding amount.  When the client creates a payment link for the lines of
  an invoice, at a provider that prices products as they are posted and asks for the sum of the lines of a link, the
  link asks for the amount of the payment, to the halala.\<close>

theorem checkout_charges_exactly:
  assumes "honours repr P price due"
    and "is_money payment" and "0 < payment" and "payment < 10 ^ 26" and "\<forall>t \<in> set items. is_money (it_line_total_amount t)"
    and "create_payment_link repr P success failure reference customer (invoice_checkout_items invoice_id payment items) g = (Inr co, g')"
  shows "due g' (co_payment_link_id co) = Some payment"
  using link_due[OF assms(1) checkout_items_payable[OF assms(2-5)] assms(6)] checkout_items_add_up[OF assms(2,3,5) refl, of invoice_id]
  by simp

text \<open>A provider that keeps the contract: products are numbered.\<close>

definition sample_price :: "nat \<times> (string \<rightharpoonup> money) \<times> (string \<rightharpoonup> money) \<Rightarrow> string \<rightharpoonup> money" where
  "sample_price g = (case g of (n, prices, dues) \<Rightarrow> \<lambda>j. if \<exists>i < n. j = digits i then prices j else None)"

definition sample_provider :: "(nat \<times> (string \<rightharpoonup> money) \<times> (string \<rightharpoonup> money)) provider" where
  "sample_provider path body g =
     (case g of (n, prices, dues) \<Rightarrow>
        if path = ''/products''
        then (Inr (JObj [(''id'', JStr (digits n))]), (Suc n, (case price_of body of None \<Rightarrow> prices | Some m \<Rightarrow> prices(digits n \<mapsto> m)), dues))
        else if path = ''/payment_links''
        then (Inr (JObj [(''id'', JStr ''L''), (''url'', JStr ''https://pay'')]), (n, prices,
          (case lines_of body of None \<Rightarrow> dues | Some xs \<Rightarrow>
             dues(''L'' \<mapsto> (\<Sum>(j, k) \<leftarrow> xs. of_nat k * the (sample_price g j))))))
        else (Inr (JObj [(''id'', JStr ''C'')]), g))"

definition sample_due :: "nat \<times> (string \<rightharpoonup> money) \<times> (string \<rightharpoonup> money) \<Rightarrow> string \<rightharpoonup> money" where
  "sample_due g = snd (snd g)"

lemma digits_eq [simp]: "digits m = digits n \<longleftrightarrow> m = n"
  by (metis digits_val_digits)

lemma sample_provider_honours: "honours repr sample_provider sample_price sample_due"
  unfolding honours_def
proof (intro conjI allI impI)
  fix g body v g' i m
  assume a: "sample_provider ''/products'' body g = (Inr v, g') \<and> answers_id repr v i \<and> price_of body = Some m"
  then show "sample_price g i = None" and "sample_price g' = (sample_price g)(i \<mapsto> m)"
    by (auto simp: sample_provider_def sample_price_def answers_id_def required_value_def json_get_def less_Suc_eq fun_eq_iff
      split: prod.splits if_splits)
next
  fix g body v g' i xs
  assume a: "sample_provider ''/payment_links'' body g = (Inr v, g') \<and> answers_id repr v i \<and> lines_of body = Some xs \<and>
    list_all (\<lambda>(j, n). sample_price g j \<noteq> None) xs"
  then show "sample_due g' i = Some (\<Sum>(j, n) \<leftarrow> xs. of_nat n * the (sample_price g j))"
    by (auto simp: sample_provider_def sample_due_def answers_id_def required_value_def json_get_def split: prod.splits)
qed (auto simp: sample_provider_def sample_price_def split: prod.splits if_splits)

lemma sample_products: "\<exists>ids g'. create_products repr sample_provider reference items g = (Inr ids, g')"
proof (induction items arbitrary: g)
  case (Cons x items)
  obtain i g1 where "create_product repr sample_provider reference x g = (Inr i, g1)"
    by (cases g) (simp add: create_product_def post_def then_run_def sample_provider_def required_value_def json_get_def)
  then show ?case using Cons[of g1] by (auto simp: then_run_def)
qed (metis create_products.simps(1))

lemma sample_link: "\<exists>co g'. create_payment_link repr sample_provider success failure reference customer items g = (Inr co, g')"
proof -
  have "create_consumer repr sample_provider customer g = (Inr ''C'', g)"
    by (cases g) (simp add: create_consumer_def post_def then_run_def sample_provider_def required_value_def json_get_def)
  moreover obtain ids n prices dues where "create_products repr sample_provider reference items g = (Inr ids, (n, prices, dues))"
    using sample_products[of repr reference items g] by auto
  ultimately show ?thesis
    by (simp add: create_payment_link_def then_run_def post_def sample_provider_def required_value_def json_get_def)
qed

theorem checkout_charges_exactly_witness:
  "\<exists>co g'. create_payment_link (\<lambda>_. []) sample_provider None None ''7'' \<lparr>sc_external_id = ''4'', sc_name = ''A'',
      sc_phone_number = ''+966500000000'', sc_email = None\<rparr> (invoice_checkout_items 7 (100 + 1 / 2) [sample_item])
      (0, Map.empty, Map.empty) = (Inr co, g') \<and>
    sample_due g' (co_payment_link_id co) = Some (100 + 1 / 2)"
proof -
  let ?c = "\<lparr>sc_external_id = ''4'', sc_name = ''A'', sc_phone_number = ''+966500000000'', sc_email = None\<rparr>"
  obtain co g' where l: "create_payment_link (\<lambda>_. []) sample_provider None None ''7'' ?c
      (invoice_checkout_items 7 (100 + 1 / 2) [sample_item]) (0, Map.empty, Map.empty) = (Inr co, g')"
    using sample_link by blast
  have "is_money (100 + 1 / 2)" "\<forall>t \<in> set [sample_item]. is_money (it_line_total_amount t)"
    by (simp_all add: is_money_def sample_item_def)
  then have "sample_due g' (co_payment_link_id co) = Some (100 + 1 / 2)"
    by (intro checkout_charges_exactly[OF sample_provider_honours _ _ _ _ l]) simp_all
  with l show ?thesis by blast
qed

end
