(* ===== verification/Pages.thy ===== *)
theory Pages
  imports Dashboard Browser
begin

text \<open>
  The pages of the dashboard that only read: the remaining handlers of \<open>app/admin/router.py\<close>, the reads of
  \<open>app/services/admin_service.py\<close> and the listings of the repositories behind them.  A page is the name of
  its template with the data it is given; what the template prints of them is not modelled.  The column
  \<open>created_at\<close> of the tables whose rows carry none is a parameter (\<open>stamps\<close>); rows of one instant come in the order
  of the table.
\<close>

section \<open>Listings\<close>

record stamps =
  st_profile :: "uuid \<Rightarrow> time"
  st_invoice :: "uuid \<Rightarrow> time"
  st_promo :: "uuid \<Rightarrow> time"
  st_redemption :: "uuid \<Rightarrow> time"
  st_dispute :: "uuid \<Rightarrow> time"
  st_withdrawal :: "uuid \<Rightarrow> time"
  st_wallet :: "uuid \<Rightarrow> time"
  st_audit :: "audit_log \<Rightarrow> time"

definition newest :: "('a \<Rightarrow> time) \<Rightarrow> nat \<Rightarrow> 'a list \<Rightarrow> 'a list" where
  "newest created limit rows = take limit (sort_key (\<lambda>x. - created x) rows)"

definition list_pending :: "stamps \<Rightarrow> db \<Rightarrow> courier_profile list" where
  "list_pending T d = newest (\<lambda>x. st_profile T (cp_user_id x)) 50 (filter (\<lambda>x. \<not> cp_is_verified x) (courier_profiles d))"

definition recent_orders :: "order_status option \<Rightarrow> nat \<Rightarrow> db \<Rightarrow> order list" where
  "recent_orders status limit d = newest o_created_at limit
     (filter (\<lambda>x. case status of None \<Rightarrow> True | Some s \<Rightarrow> o_status x = s) (orders d))"

definition recent_invoices :: "stamps \<Rightarrow> nat \<Rightarrow> db \<Rightarrow> invoice list" where
  "recent_invoices T limit d = newest (\<lambda>x. st_invoice T (inv_id x)) limit (invoices d)"

definition all_promos :: "stamps \<Rightarrow> nat \<Rightarrow> db \<Rightarrow> promo list" where
  "all_promos T limit d = newest (\<lambda>x. st_promo T (pr_id x)) limit (promos d)"

definition list_redemptions :: "stamps \<Rightarrow> uuid \<Rightarrow> nat \<Rightarrow> db \<Rightarrow> promo_redemption list" where
  "list_redemptions T promo_id limit d = newest (\<lambda>x. st_redemption T (red_id x)) limit
     (filter (\<lambda>x. red_promo_id x = promo_id) (promo_redemptions d))"

definition recent_disputes :: "stamps \<Rightarrow> dispute_status option \<Rightarrow> nat \<Rightarrow> db \<Rightarrow> dispute list" where
  "recent_disputes T status limit d = newest (\<lambda>x. st_dispute T (dp_id x)) limit
     (filter (\<lambda>x. case status of None \<Rightarrow> True | Some s \<Rightarrow> dp_status x = s) (disputes d))"

definition recent_withdrawals :: "stamps \<Rightarrow> withdrawal_status option \<Rightarrow> nat \<Rightarrow> db \<Rightarrow> withdrawal list" where
  "recent_withdrawals T status limit d = newest (\<lambda>x. st_withdrawal T (wd_id x)) limit
     (filter (\<lambda>x. case status of None \<Rightarrow> True | Some s \<Rightarrow> wd_status x = s) (withdrawals d))"

text \<open>\<open>ORDER BY user_id IS NULL DESC, created_at DESC\<close>: the wallets of the system first.\<close>

definition list_wallets :: "stamps \<Rightarrow> nat \<Rightarrow> db \<Rightarrow> wallet list" where
  "list_wallets T limit d =
     take limit (sort_key (\<lambda>x. (w_user_id x \<noteq> None, - st_wallet T (w_id x))) (wallets d))"

definition list_topups :: "nat \<Rightarrow> db \<Rightarrow> payment_intent list" where
  "list_topups limit d = newest pi_created_at limit (filter (\<lambda>x. pi_purpose x = PP_WALLET_TOPUP) (payment_intents d))"

definition list_recent :: "stamps \<Rightarrow> nat \<Rightarrow> db \<Rightarrow> audit_log list" where
  "list_recent T limit d = newest (st_audit T) limit (audit_logs d)"

section \<open>Pages\<close>

datatype page =
    Login_view
  | Step_up_view string
  | Overview_view overview
  | Catalog_view "table_info list" nat
  | Table_view "table_page option"
  | Courier_new_view
  | Couriers_view "courier_profile list"
  | Courier_view "courier_profile option" "user option"
  | Order_new_view
  | Orders_view "order list"
  | Order_view "order option" bool
  | Invoices_view "invoice list"
  | Invoice_view "invoice option"
  | Promos_view "promo list"
  | Promo_view "promo option"
  | Redemptions_view "promo_redemption list" uuid
  | Disputes_view "dispute list"
  | Dispute_view "dispute option"
  | Withdrawals_view "withdrawal list"
  | Wallets_view "wallet list"
  | Wallet_view "wallet option"
  | Topups_view "payment_intent list"
  | User_new_view "user_role list"
  | User_view "user option"
  | Audit_view "audit_log list"

type_synonym page_result = "admin_exit + page \<times> db"

text \<open>A page for an administrator; the session that was found has its expiry moved, and the request commits.\<close>

definition for_admin :: "web \<Rightarrow> (admin_context \<Rightarrow> db \<Rightarrow> page) \<Rightarrow> db \<Rightarrow> page_result" where
  "for_admin W view d = and_then (require_admin W d) (\<lambda>(ctx, d). Inr (view ctx d, d))"

definition login_page :: "db \<Rightarrow> page_result" where
  "login_page d = Inr (Login_view, d)"

definition step_up_request :: "web \<Rightarrow> string \<Rightarrow> db \<Rightarrow> page_result" where
  "step_up_request W next_url = for_admin W (\<lambda>ctx d. Step_up_view next_url)"

definition overview_page :: "web \<Rightarrow> db \<Rightarrow> page_result" where
  "overview_page W = for_admin W (\<lambda>ctx d. Overview_view (overview_of d))"

definition table_catalog_page :: "web \<Rightarrow> db \<Rightarrow> page_result" where
  "table_catalog_page W = for_admin W (\<lambda>ctx d. Catalog_view list_table_catalog (length list_table_catalog))"

definition table_browser_page ::
  "(db \<Rightarrow> string \<Rightarrow> (string \<Rightarrow> field) list) \<Rightarrow> web \<Rightarrow> string \<Rightarrow> int \<Rightarrow> db \<Rightarrow> page_result" where
  "table_browser_page select W table_name page d =
     (if 1 \<le> page \<and> page \<le> 100000
      then for_admin W (\<lambda>ctx d. Table_view (list_table_page (select d) table_name (nat page))) d
      else Inl InvalidForm)"

definition courier_new_page :: "web \<Rightarrow> db \<Rightarrow> page_result" where
  "courier_new_page W = for_admin W (\<lambda>ctx d. Courier_new_view)"

definition couriers_page :: "stamps \<Rightarrow> web \<Rightarrow> db \<Rightarrow> page_result" where
  "couriers_page T W = for_admin W (\<lambda>ctx d. Couriers_view (list_pending T d))"

definition courier_detail_page :: "web \<Rightarrow> uuid \<Rightarrow> db \<Rightarrow> page_result" where
  "courier_detail_page W courier_id = for_admin W (\<lambda>ctx d. Courier_view (get_courier_profile courier_id d) (get_user courier_id d))"

definition order_new_page :: "web \<Rightarrow> db \<Rightarrow> page_result" where
  "order_new_page W = for_admin W (\<lambda>ctx d. Order_new_view)"

definition orders_page :: "web \<Rightarrow> db \<Rightarrow> page_result" where
  "orders_page W = for_admin W (\<lambda>ctx d. Orders_view (recent_orders None 50 d))"

definition order_detail_page :: "web \<Rightarrow> redis \<Rightarrow> uuid \<Rightarrow> db \<Rightarrow> page_result" where
  "order_detail_page W r order_id = for_admin W (\<lambda>ctx d. Order_view (get_order order_id d)
     (has_step_up W (as_session_token_hash (ctx_session_row ctx)) r))"

definition invoices_page :: "stamps \<Rightarrow> web \<Rightarrow> db \<Rightarrow> page_result" where
  "invoices_page T W = for_admin W (\<lambda>ctx d. Invoices_view (recent_invoices T 50 d))"

definition invoice_detail_page :: "web \<Rightarrow> uuid \<Rightarrow> db \<Rightarrow> page_result" where
  "invoice_detail_page W invoice_id = for_admin W (\<lambda>ctx d. Invoice_view (get_invoice invoice_id d))"

definition promos_page :: "stamps \<Rightarrow> web \<Rightarrow> db \<Rightarrow> page_result" where
  "promos_page T W = for_admin W (\<lambda>ctx d. Promos_view (all_promos T 100 d))"

definition promo_detail_page :: "web \<Rightarrow> uuid \<Rightarrow> db \<Rightarrow> page_result" where
  "promo_detail_page W promo_id = for_admin W (\<lambda>ctx d. Promo_view (get_promo promo_id d))"

definition promo_redemptions_page :: "stamps \<Rightarrow> web \<Rightarrow> uuid \<Rightarrow> db \<Rightarrow> page_result" where
  "promo_redemptions_page T W promo_id = for_admin W (\<lambda>ctx d. Redemptions_view (list_redemptions T promo_id 100 d) promo_id)"

definition disputes_page :: "stamps \<Rightarrow> web \<Rightarrow> db \<Rightarrow> page_result" where
  "disputes_page T W = for_admin W (\<lambda>ctx d. Disputes_view (recent_disputes T None 50 d))"

definition dispute_detail_page :: "web \<Rightarrow> uuid \<Rightarrow> db \<Rightarrow> page_result" where
  "dispute_detail_page W dispute_id = for_admin W (\<lambda>ctx d. Dispute_view (get_dispute dispute_id d))"

definition withdrawals_page :: "stamps \<Rightarrow> web \<Rightarrow> db \<Rightarrow> page_result" where
  "withdrawals_page T W = for_admin W (\<lambda>ctx d. Withdrawals_view (recent_withdrawals T None 50 d))"

definition wallets_page :: "stamps \<Rightarrow> web \<Rightarrow> db \<Rightarrow> page_result" where
  "wallets_page T W = for_admin W (\<lambda>ctx d. Wallets_view (list_wallets T 50 d))"

definition wallet_detail_page :: "web \<Rightarrow> uuid \<Rightarrow> db \<Rightarrow> page_result" where
  "wallet_detail_page W wallet_id = for_admin W (\<lambda>ctx d. Wallet_view (get_wallet wallet_id d))"

definition topups_page :: "web \<Rightarrow> db \<Rightarrow> page_result" where
  "topups_page W = for_admin W (\<lambda>ctx d. Topups_view (list_topups 50 d))"

definition user_new_page :: "web \<Rightarrow> db \<Rightarrow> page_result" where
  "user_new_page W = for_admin W (\<lambda>ctx d. User_new_view [UR_CUSTOMER, UR_COURIER])"

definition user_detail_page :: "web \<Rightarrow> uuid \<Rightarrow> db \<Rightarrow> page_result" where
  "user_detail_page W user_id = for_admin W (\<lambda>ctx d. User_view (get_user user_id d))"

definition audit_logs_page :: "stamps \<Rightarrow> web \<Rightarrow> db \<Rightarrow> page_result" where
  "audit_logs_page T W = for_admin W (\<lambda>ctx d. Audit_view (list_recent T 100 d))"

section \<open>Every page\<close>

datatype page_request =
    Get_step_up string | Get_overview | Get_catalog | Get_table string int | Get_courier_new | Get_couriers
  | Get_courier uuid | Get_order_new | Get_orders | Get_order_page uuid | Get_invoices | Get_invoice_page uuid
  | Get_promos | Get_promo_page uuid | Get_redemptions uuid | Get_disputes | Get_dispute_page uuid | Get_withdrawals
  | Get_wallets | Get_wallet_page uuid | Get_topups | Get_user_new | Get_user_page uuid | Get_audit_logs

fun serve_page ::
  "(db \<Rightarrow> string \<Rightarrow> (string \<Rightarrow> field) list) \<Rightarrow> stamps \<Rightarrow> web \<Rightarrow> redis \<Rightarrow> page_request \<Rightarrow> db \<Rightarrow> page_result" where
  "serve_page select T W r (Get_step_up next_url) = step_up_request W next_url"
| "serve_page select T W r Get_overview = overview_page W"
| "serve_page select T W r Get_catalog = table_catalog_page W"
| "serve_page select T W r (Get_table n i) = table_browser_page select W n i"
| "serve_page select T W r Get_courier_new = courier_new_page W"
| "serve_page select T W r Get_couriers = couriers_page T W"
| "serve_page select T W r (Get_courier i) = courier_detail_page W i"
| "serve_page select T W r Get_order_new = order_new_page W"
| "serve_page select T W r Get_orders = orders_page W"
| "serve_page select T W r (Get_order_page i) = order_detail_page W r i"
| "serve_page select T W r Get_invoices = invoices_page T W"
| "serve_page select T W r (Get_invoice_page i) = invoice_detail_page W i"
| "serve_page select T W r Get_promos = promos_page T W"
| "serve_page select T W r (Get_promo_page i) = promo_detail_page W i"
| "serve_page select T W r (Get_redemptions i) = promo_redemptions_page T W i"
| "serve_page select T W r Get_disputes = disputes_page T W"
| "serve_page select T W r (Get_dispute_page i) = dispute_detail_page W i"
| "serve_page select T W r Get_withdrawals = withdrawals_page T W"
| "serve_page select T W r Get_wallets = wallets_page T W"
| "serve_page select T W r (Get_wallet_page i) = wallet_detail_page W i"
| "serve_page select T W r Get_topups = topups_page W"
| "serve_page select T W r Get_user_new = user_new_page W"
| "serve_page select T W r (Get_user_page i) = user_detail_page W i"
| "serve_page select T W r Get_audit_logs = audit_logs_page T W"

lemmas page_defs = step_up_request_def overview_page_def table_catalog_page_def table_browser_page_def courier_new_page_def
  couriers_page_def courier_detail_page_def order_new_page_def orders_page_def order_detail_page_def invoices_page_def
  invoice_detail_page_def promos_page_def promo_detail_page_def promo_redemptions_page_def disputes_page_def
  dispute_detail_page_def withdrawals_page_def wallets_page_def wallet_detail_page_def topups_page_def user_new_page_def
  user_detail_page_def audit_logs_page_def

text \<open>Every page is a view for an administrator, or its query is malformed.\<close>

lemma serve_page_view: "(\<exists>view. serve_page select T W r q = for_admin W view) \<or> (\<forall>d. serve_page select T W r q d = Inl InvalidForm)"
  by (cases q) (auto simp: page_defs fun_eq_iff)

fun rows_on :: "page \<Rightarrow> nat" where
  "rows_on (Couriers_view xs) = length xs"
| "rows_on (Orders_view xs) = length xs"
| "rows_on (Invoices_view xs) = length xs"
| "rows_on (Promos_view xs) = length xs"
| "rows_on (Redemptions_view xs _) = length xs"
| "rows_on (Disputes_view xs) = length xs"
| "rows_on (Withdrawals_view xs) = length xs"
| "rows_on (Wallets_view xs) = length xs"
| "rows_on (Topups_view xs) = length xs"
| "rows_on (Audit_view xs) = length xs"
| "rows_on (Table_view (Some t)) = length (tp_rows t)"
| "rows_on _ = 0"

lemma newest_length [simp]: "n \<le> m \<Longrightarrow> length (newest f n xs) \<le> m"
  by (simp add: newest_def)

text \<open>A listing shows the newest rows: nothing that is left out is newer than anything that is shown.\<close>

lemma newest_top:
  assumes "x \<in> set (newest f n xs)" and "y \<in> set xs" and "y \<notin> set (newest f n xs)"
  shows "f y \<le> f x"
proof -
  let ?s = "sort_key (\<lambda>x. - f x) xs"
  obtain i where i: "i < n" "i < length ?s" "x = ?s ! i"
    using assms(1) by (auto simp: newest_def in_set_conv_nth)
  obtain j where j: "j < length ?s" "y = ?s ! j"
    using assms(2) by (metis in_set_conv_nth set_sort)
  have "n \<le> j"
  proof (rule ccontr)
    assume "\<not> n \<le> j"
    then have "take n ?s ! j = y" and "j < length (take n ?s)" using j by simp_all
    then show False using assms(3) nth_mem[of j "take n ?s"] by (simp add: newest_def)
  qed
  then have "- f (?s ! i) \<le> - f (?s ! j)"
    using i j sorted_nth_mono[OF sorted_sort_key[of "\<lambda>x. - f x" xs], of i j] by simp
  then show ?thesis using i j by simp
qed

lemma table_page_rows: "list_table_page select n i = Some t \<Longrightarrow> length (tp_rows t) \<le> 50"
  by (auto simp: list_table_page_def Let_def split: option.splits)

lemma serve_page_rows:
  assumes "serve_page select T W r q d = Inr (p, d')"
  shows "rows_on p \<le> 100"
proof -
  have "rows_on (Table_view (list_table_page s n i)) \<le> 100" for s n i
    using table_page_rows[of s n i] by (cases "list_table_page s n i") force+
  then show ?thesis using assms
    by (cases q) (auto simp: page_defs for_admin_def and_then_def list_pending_def recent_orders_def recent_invoices_def all_promos_def
      list_redemptions_def recent_disputes_def recent_withdrawals_def list_wallets_def list_topups_def list_recent_def
      split: sum.splits if_splits)
qed

lemma require_admin_only:
  assumes "require_admin W d = Inr (ctx, d')"
  shows "\<exists>row admin. truthy (wb_cookie W) \<and> get_active (wb_sha W (the (wb_cookie W))) (wb_now W) d = Some row \<and>
    get_user (as_admin_user_id row) d = Some admin \<and> u_role admin = UR_ADMIN \<and> u_status admin = US_ACTIVE \<and>
    d' = put_admin_session (row\<lparr>as_expires_at := min (wb_now W + session_ttl W) (as_created_at row + ABSOLUTE_CAP)\<rparr>) d"
  using assms
  by (auto simp: require_admin_def load_session_def or_raise_def ensure_def Let_def touch_def valid_admin_def and_then_def
      split: if_splits option.splits sum.splits)


definition sample_stamps :: stamps where
  "sample_stamps = \<lparr>st_profile = int, st_invoice = int, st_promo = int, st_redemption = int, st_dispute = int,
     st_withdrawal = int, st_wallet = int, st_audit = (\<lambda>_. 0)\<rparr>"


end
