(* ===== verification/Logging.thy ===== *)
theory Logging
  imports Payments
begin

text \<open>
  The scrubbing of log records, \<open>app/core/logging.py\<close>.  Each regular expression is a function that gives
  the length of its match at the head of a text, after the character before it (for \<open>\b\<close>); \<open>re_sub\<close> is
  \<open>Pattern.sub\<close>, leftmost and without overlaps.  Text is 8-bit, so \<open>\d\<close> is an ASCII digit; the five bullets of
  a masked phone number are a parameter.  A payload is a JSON value.
\<close>

section \<open>Substitution\<close>

type_synonym matcher = "char option \<Rightarrow> string \<Rightarrow> nat option"

function re_sub :: "matcher \<Rightarrow> (string \<Rightarrow> string) \<Rightarrow> char option \<Rightarrow> string \<Rightarrow> string" where
  "re_sub m f prev [] = []"
| "re_sub m f prev (c # s) =
     (case m prev (c # s) of
        Some (Suc n) \<Rightarrow> f (take (Suc n) (c # s)) @ re_sub m f (Some (last (take (Suc n) (c # s)))) (drop n s)
      | _ \<Rightarrow> c # re_sub m f (Some c) s)"
  by pat_completeness auto

termination by (relation "measure (\<lambda>(m, f, prev, s). length s)") auto

section \<open>Patterns\<close>

text \<open>\<open>\w\<close> on Latin-1: letters, digits, the underscore, and the letters and numerals of the upper half.\<close>

definition word_char :: "char \<Rightarrow> bool" where
  "word_char c \<longleftrightarrow> is_digit c \<or> c = CHR ''_'' \<or>
     (let n = of_char c :: nat in 65 \<le> n \<and> n \<le> 90 \<or> 97 \<le> n \<and> n \<le> 122 \<or> n \<in> set [170, 178, 179, 181, 185, 186, 188, 189, 190] \<or>
        192 \<le> n \<and> n \<noteq> 215 \<and> n \<noteq> 247)"

definition ascii_alnum :: "char \<Rightarrow> bool" where
  "ascii_alnum c \<longleftrightarrow> is_digit c \<or> (let n = of_char c :: nat in 65 \<le> n \<and> n \<le> 90 \<or> 97 \<le> n \<and> n \<le> 122)"

definition jwt_char :: "char \<Rightarrow> bool" where
  "jwt_char c \<longleftrightarrow> ascii_alnum c \<or> c = CHR ''_'' \<or> c = CHR ''-''"

definition bearer_char :: "char \<Rightarrow> bool" where
  "bearer_char c \<longleftrightarrow> jwt_char c \<or> c = CHR ''.''"

text \<open>Whether the character before or after a position is a word character; there is none at the ends.\<close>

definition word_at :: "char option \<Rightarrow> bool" where
  "word_at x \<longleftrightarrow> (case x of None \<Rightarrow> False | Some c \<Rightarrow> word_char c)"

definition head_of :: "string \<Rightarrow> char option" where
  "head_of s = (case s of [] \<Rightarrow> None | c # _ \<Rightarrow> Some c)"

text \<open>The last part of a token is as long as possible with a word boundary behind it.\<close>

fun last_boundary :: "nat \<Rightarrow> string \<Rightarrow> nat option" where
  "last_boundary n s =
     (if n < 5 then None
      else if word_char (s ! (n - 1)) \<noteq> word_at (head_of (drop n s)) then Some n
      else last_boundary (n - 1) s)"

definition JWT_RE :: matcher where
  "JWT_RE prev s =
     (let a = takeWhile jwt_char (drop 3 s); s1 = drop (3 + length a) s;
          b = takeWhile jwt_char (tl s1); s2 = drop (1 + length b) s1;
          c = takeWhile jwt_char (tl s2)
      in if \<not> word_at prev \<and> take 3 s = ''eyJ'' \<and> 5 \<le> length a \<and> head_of s1 = Some (CHR ''.'') \<and> 5 \<le> length b \<and>
           head_of s2 = Some (CHR ''.'')
         then map_option (\<lambda>n. 3 + length a + 1 + length b + 1 + n) (last_boundary (length c) (tl s2))
         else None)"

definition BEARER_RE :: matcher where
  "BEARER_RE prev s =
     (let w = takeWhile is_space (drop 6 s); t = takeWhile bearer_char (drop (6 + length w) s)
      in if map lower (take 6 s) = ''bearer'' \<and> w \<noteq> [] \<and> t \<noteq> [] then Some (6 + length w + length t) else None)"

definition PHONE_RE :: matcher where
  "PHONE_RE prev s =
     (if take 5 s = ''+9665'' \<and> 13 \<le> length s \<and> list_all is_digit (take 8 (drop 5 s)) then Some 13 else None)"

definition LONG_DIGITS_RE :: matcher where
  "LONG_DIGITS_RE prev s =
     (let n = length (takeWhile is_digit s)
      in if \<not> word_at prev \<and> 9 \<le> n \<and> \<not> word_at (head_of (drop n s)) then Some n else None)"

section \<open>Scrubbing\<close>

definition REDACTED :: string where
  "REDACTED = ''***REDACTED***''"

definition mask_phone :: "string \<Rightarrow> string \<Rightarrow> string" where
  "mask_phone bullets phone = take 5 phone @ bullets @ drop (length phone - 2) phone"

definition scrub_text :: "string \<Rightarrow> string \<Rightarrow> string" where
  "scrub_text bullets text =
     re_sub LONG_DIGITS_RE (\<lambda>_. REDACTED) None
       (re_sub PHONE_RE (mask_phone bullets) None
         (re_sub BEARER_RE (\<lambda>_. REDACTED) None
           (re_sub JWT_RE (\<lambda>_. REDACTED) None text)))"

definition SENSITIVE_KEYS :: "string list" where
  "SENSITIVE_KEYS = [''otp'', ''password'', ''secret'', ''token'', ''authorization'', ''jwt'', ''refresh'', ''national_id'',
     ''passport'', ''iban'', ''encryption'', ''api_key'', ''webhook_secret'', ''content_encrypted'', ''session_token'', ''pepper'']"

definition is_sensitive_key :: "string \<Rightarrow> bool" where
  "is_sensitive_key key = list_ex (\<lambda>token. contains token (map lower key)) SENSITIVE_KEYS"

fun scrub_value :: "string \<Rightarrow> json \<Rightarrow> json" where
  "scrub_value bullets (JObj kvs) =
     JObj (map (\<lambda>(k, v). (k, if is_sensitive_key k then JStr REDACTED else scrub_value bullets v)) kvs)"
| "scrub_value bullets (JArr xs) = JArr (map (scrub_value bullets) xs)"
| "scrub_value bullets (JStr t) = JStr (scrub_text bullets t)"
| "scrub_value bullets v = v"

record log_record =
  lr_level :: string
  lr_logger :: string
  lr_message :: string
  lr_request_id :: "string option"
  lr_extra :: "json option"

text \<open>The object that \<open>format\<close> prints.\<close>

definition log_payload :: "string \<Rightarrow> log_record \<Rightarrow> (string \<times> json) list" where
  "log_payload bullets r =
     [(''level'', JStr (lr_level r)), (''logger'', JStr (lr_logger r)), (''message'', JStr (scrub_text bullets (lr_message r)))] @
     (case lr_request_id r of None \<Rightarrow> [] | Some i \<Rightarrow> [(''request_id'', JStr i)]) @
     (case lr_extra r of Some (JObj kvs) \<Rightarrow> [(''fields'', scrub_value bullets (JObj kvs))] | _ \<Rightarrow> [])"

section \<open>No phone number survives\<close>

fun phone_free :: "string \<Rightarrow> bool" where
  "phone_free [] \<longleftrightarrow> True"
| "phone_free (c # s) \<longleftrightarrow> PHONE_RE None (c # s) = None \<and> phone_free s"

lemma digit_plus [simp]: "\<not> is_digit (CHR ''+'')"
  by (simp add: is_digit_def)

lemma takeWhile_all_prefix: "list_all P (take n xs) \<Longrightarrow> n \<le> length xs \<Longrightarrow> n \<le> length (takeWhile P xs) \<and> take n (takeWhile P xs) = take n xs"
  by (induction xs arbitrary: n) (auto simp: take_Cons split: nat.splits)

lemma takeWhile_take: "n \<le> length (takeWhile P xs) \<Longrightarrow> take n (takeWhile P xs) = take n xs \<and> list_all P (take n xs)"
  by (induction xs arbitrary: n) (auto simp: take_Cons split: nat.splits if_splits)

lemma phone_alt:
  "PHONE_RE p (c # s) \<noteq> None \<longleftrightarrow>
     c = CHR ''+'' \<and> 12 \<le> length (takeWhile is_digit s) \<and> take 4 (takeWhile is_digit s) = ''9665''"
  (is "?l \<longleftrightarrow> ?r")
proof
  assume l: ?l
  then have c: "c = CHR ''+''" "take 4 s = ''9665''" "12 \<le> length s" "list_all is_digit (take 8 (drop 4 s))"
    by (auto simp: PHONE_RE_def split: if_splits)
  have "take 12 s = take 4 s @ take 8 (drop 4 s)" using take_add[of 4 8 s] by simp
  then have "list_all is_digit (take 12 s)" using c by (simp add: is_digit_def)
  then have "12 \<le> length (takeWhile is_digit s)" "take 12 (takeWhile is_digit s) = take 12 s"
    using takeWhile_all_prefix[of is_digit 12 s] c by simp_all
  then show ?r using c takeWhile_take[of 4 is_digit s] by simp
next
  assume r: ?r
  then have t: "take 12 (takeWhile is_digit s) = take 12 s" "list_all is_digit (take 12 s)"
    using takeWhile_take[of 12 is_digit s] by simp_all
  have "take 4 s = ''9665''" using r takeWhile_take[of 4 is_digit s] by simp
  moreover have "take 8 (drop 4 s) = drop 4 (take 12 s)" by (simp add: drop_take)
  then have "list_all is_digit (take 8 (drop 4 s))" using t(2) by (auto simp: list_all_iff dest: in_set_dropD)
  moreover have "12 \<le> length s" using r length_takeWhile_le[of is_digit s] by simp
  ultimately show ?l using r by (simp add: PHONE_RE_def)
qed

lemma phone_free_append: "CHR ''+'' \<notin> set xs \<Longrightarrow> phone_free (xs @ ys) \<longleftrightarrow> phone_free ys"
  by (induction xs) (auto simp: phone_alt[THEN iffD1] simp flip: not_None_eq dest: phone_alt[THEN iffD1])

lemma phone_free_drop: "phone_free s \<Longrightarrow> phone_free (drop n s)"
  by (induction s arbitrary: n) (auto simp: drop_Cons split: nat.splits)

definition opaque :: "string \<Rightarrow> bool" where
  "opaque bullets \<longleftrightarrow> bullets \<noteq> [] \<and> list_all (\<lambda>c. \<not> is_digit c \<and> c \<noteq> CHR ''+'') bullets"

lemma re_sub_cases:
  assumes "re_sub m f p (c # s) = t"
  obtains "m p (c # s) = None" "t = c # re_sub m f (Some c) s"
    | "m p (c # s) = Some 0" "t = c # re_sub m f (Some c) s"
    | n where "m p (c # s) = Some (Suc n)"
        "t = f (take (Suc n) (c # s)) @ re_sub m f (Some (last (take (Suc n) (c # s)))) (drop n s)"
  using assms by (auto split: option.splits nat.splits)

lemma phone_match:
  assumes "PHONE_RE p s = Some n"
  obtains ds where "n = 13" and "take 13 s = ''+9665'' @ ds" and "length ds = 8" and "list_all is_digit ds"
proof -
  from assms have "n = 13" "take 5 s = ''+9665''" "13 \<le> length s" "list_all is_digit (take 8 (drop 5 s))"
    by (auto simp: PHONE_RE_def split: if_splits)
  moreover have "take 13 s = take 5 s @ take 8 (drop 5 s)" using take_add[of 5 8 s] by simp
  ultimately show thesis by (intro that[of "take 8 (drop 5 s)"]) simp_all
qed

lemma phone_pass_digits: "takeWhile is_digit (re_sub PHONE_RE (mask_phone b) p s) = takeWhile is_digit s"
proof (induction s arbitrary: p)
  case (Cons c s)
  show ?case
  proof (cases "PHONE_RE p (c # s)")
    case None
    then show ?thesis using Cons by simp
  next
    case (Some n)
    then obtain ds where "n = 13" and ds: "take 13 (c # s) = ''+9665'' @ ds" by (rule phone_match)
    then show ?thesis using Some by (simp add: mask_phone_def numeral_eq_Suc)
  qed
qed simp

lemma opaque_run: "opaque b \<Longrightarrow> takeWhile is_digit (''9665'' @ b @ u) = ''9665''"
  by (cases b) (simp_all add: opaque_def is_digit_def)

lemma short_run: "takeWhile is_digit s = d \<Longrightarrow> length d < 12 \<Longrightarrow> PHONE_RE p (c # s) = None"
  using phone_alt[of p c s] by (metis not_le)

lemma phone_pass: "opaque b \<Longrightarrow> phone_free (re_sub PHONE_RE (mask_phone b) p s)"
proof (induction s arbitrary: p rule: length_induct)
  case (1 s)
  show ?case
  proof (cases s)
    case (Cons c s')
    show ?thesis
    proof (cases "PHONE_RE p (c # s')")
      case None
      have "PHONE_RE None (c # s') = None" using None by (simp add: PHONE_RE_def)
      then have "PHONE_RE None (c # re_sub PHONE_RE (mask_phone b) (Some c) s') = None"
        using phone_alt[of None c] by (metis phone_pass_digits)
      then show ?thesis using None Cons 1 by simp
    next
      case (Some n)
      then obtain ds where n: "n = 13" and ds: "take 13 (c # s') = ''+9665'' @ ds" "length ds = 8" "list_all is_digit ds"
        by (rule phone_match)
      let ?rest = "re_sub PHONE_RE (mask_phone b) (Some (last (''+9665'' @ ds))) (drop 12 s')"
      have out: "re_sub PHONE_RE (mask_phone b) p s = CHR ''+'' # (''9665'' @ b @ drop 6 ds) @ ?rest"
        using Some n ds by (simp add: Cons mask_phone_def numeral_eq_Suc)
      have "phone_free ?rest" using 1 Cons by simp
      moreover have nb: "CHR ''+'' \<notin> set b" using 1(2) by (auto simp: opaque_def list_all_iff)
      have "CHR ''+'' \<notin> set ds" using ds(3) digit_plus by (auto simp: list_all_iff)
      then have "CHR ''+'' \<notin> set (drop 6 ds)" using set_drop_subset[of 6 ds] by blast
      with nb have "CHR ''+'' \<notin> set (''9665'' @ b @ drop 6 ds)" by simp
      moreover have "takeWhile is_digit ((''9665'' @ b @ drop 6 ds) @ ?rest) = ''9665''"
        using opaque_run[OF 1(2)] by simp
      then have "PHONE_RE None (CHR ''+'' # (''9665'' @ b @ drop 6 ds) @ ?rest) = None"
        by (rule short_run) simp
      ultimately show ?thesis unfolding out phone_free.simps using phone_free_append by blast
    qed
  qed simp
qed

section \<open>No long number survives\<close>

fun long_free :: "char option \<Rightarrow> string \<Rightarrow> bool" where
  "long_free p [] \<longleftrightarrow> True"
| "long_free p (c # s) \<longleftrightarrow> LONG_DIGITS_RE p (c # s) = None \<and> long_free (Some c) s"

lemma long_no_digit: "\<not> is_digit c \<Longrightarrow> LONG_DIGITS_RE p (c # s) = None"
  by (simp add: LONG_DIGITS_RE_def)

lemma long_after_word: "word_at p \<Longrightarrow> LONG_DIGITS_RE p s = None"
  by (simp add: LONG_DIGITS_RE_def Let_def)

lemma digit_word: "is_digit c \<Longrightarrow> word_at (Some c)"
  by (simp add: word_at_def word_char_def)

lemma long_run:
  "word_at p \<Longrightarrow> re_sub LONG_DIGITS_RE f p s = takeWhile is_digit s @
     (case dropWhile is_digit s of [] \<Rightarrow> [] | x # t \<Rightarrow> x # re_sub LONG_DIGITS_RE f (Some x) t)"
proof (induction s arbitrary: p)
  case (Cons c s)
  then show ?case by (simp add: long_after_word digit_word)
qed simp

lemma long_run_same:
  assumes "is_digit c" and "t = re_sub LONG_DIGITS_RE f (Some c) s"
  shows "takeWhile is_digit t = takeWhile is_digit s \<and>
    head_of (drop (length (takeWhile is_digit s)) t) = head_of (drop (length (takeWhile is_digit s)) s)"
proof -
  have d: "drop (length (takeWhile is_digit s)) s = dropWhile is_digit s" by (simp add: dropWhile_eq_drop)
  have all: "\<forall>x \<in> set (takeWhile is_digit s). is_digit x" by (auto dest: set_takeWhileD)
  show ?thesis
  proof (cases "dropWhile is_digit s")
    case Nil
    then have "t = takeWhile is_digit s" unfolding assms(2) long_run[OF digit_word[OF assms(1)]]
      by (simp only: Nil list.case append_Nil2)
    then show ?thesis using all d Nil by (simp add: takeWhile_eq_all_conv[THEN iffD2])
  next
    case (Cons x u)
    then have "\<not> is_digit x" by (metis hd_dropWhile list.discI list.sel(1))
    moreover have "t = takeWhile is_digit s @ x # re_sub LONG_DIGITS_RE f (Some x) u"
      unfolding assms(2) long_run[OF digit_word[OF assms(1)]] by (simp only: Cons list.case)
    ultimately show ?thesis using all d Cons by (simp add: takeWhile_append2 head_of_def)
  qed
qed

lemma long_match:
  assumes "LONG_DIGITS_RE p s = Some n"
  shows "0 < n" and "n \<le> length s" and "list_all is_digit (take n s)" and "\<not> word_at (head_of (drop n s))"
proof -
  have n: "n = length (takeWhile is_digit s)" "9 \<le> n" "\<not> word_at (head_of (drop n s))"
    using assms by (auto simp: LONG_DIGITS_RE_def Let_def split: if_splits)
  have "n \<le> length (takeWhile is_digit s)" using n(1) by (rule eq_imp_le)
  then have "list_all is_digit (take n s)" using takeWhile_take by blast
  then show "0 < n" and "\<not> word_at (head_of (drop n s))" and "n \<le> length s" and "list_all is_digit (take n s)"
    using n length_takeWhile_le[of is_digit s] by linarith+
qed

lemma long_free_append:
  "list_all (\<lambda>c. \<not> is_digit c) xs \<Longrightarrow> xs \<noteq> [] \<Longrightarrow> long_free p (xs @ ys) \<longleftrightarrow> long_free (Some (last xs)) ys"
  by (induction xs arbitrary: p) (auto simp: long_no_digit)

lemma redacted_plain: "list_all (\<lambda>c. \<not> is_digit c) REDACTED" "REDACTED \<noteq> []" "CHR ''+'' \<notin> set REDACTED"
  by (simp_all add: REDACTED_def is_digit_def)

lemma long_pass_digits:
  "takeWhile is_digit (re_sub LONG_DIGITS_RE (\<lambda>_. REDACTED) p s) \<in> {[], takeWhile is_digit s}"
proof (cases s)
  case (Cons c s')
  show ?thesis
  proof (cases "LONG_DIGITS_RE p (c # s')")
    case None
    show ?thesis
    proof (cases "is_digit c")
      case True
      then have "takeWhile is_digit (re_sub LONG_DIGITS_RE (\<lambda>_. REDACTED) (Some c) s') = takeWhile is_digit s'"
        using long_run_same by blast
      then show ?thesis using None Cons True by simp
    qed (use None Cons in simp)
  next
    case (Some n)
    then obtain k where "n = Suc k" using long_match(1) by (cases n) auto
    then show ?thesis using Some Cons redacted_plain by (simp add: REDACTED_def is_digit_def)
  qed
qed simp

lemma long_pass_phone: "phone_free s \<Longrightarrow> phone_free (re_sub LONG_DIGITS_RE (\<lambda>_. REDACTED) p s)"
proof (induction s arbitrary: p rule: length_induct)
  case (1 s)
  show ?case
  proof (cases s)
    case (Cons c s')
    show ?thesis
    proof (cases "LONG_DIGITS_RE p (c # s')")
      case None
      have "PHONE_RE None (c # re_sub LONG_DIGITS_RE (\<lambda>_. REDACTED) (Some c) s') = None"
        using long_pass_digits[of "Some c" s'] 1(2) phone_alt[of None c] short_run Cons
        by (metis insertE list.size(3) phone_free.simps(2) singletonD zero_less_numeral)
      then show ?thesis using None Cons 1 by simp
    next
      case (Some n)
      then obtain k where k: "n = Suc k" using long_match(1) by (cases n) auto
      have "phone_free (re_sub LONG_DIGITS_RE (\<lambda>_. REDACTED) q (drop k s'))" for q
        using 1 Cons phone_free_drop[of s' k] by simp
      then show ?thesis using Some Cons k phone_free_append[OF redacted_plain(3)] by simp
    qed
  qed simp
qed

lemma long_pass: "word_at q = word_at p \<Longrightarrow> long_free q (re_sub LONG_DIGITS_RE (\<lambda>_. REDACTED) p s)"
proof (induction s arbitrary: p q rule: length_induct)
  case (1 s)
  show ?case
  proof (cases s)
    case (Cons c s')
    have ih: "long_free (Some c) (re_sub LONG_DIGITS_RE (\<lambda>_. REDACTED) (Some c) s')" using 1 Cons by simp
    show ?thesis
    proof (cases "LONG_DIGITS_RE p (c # s')")
      case None
      have "LONG_DIGITS_RE q (c # re_sub LONG_DIGITS_RE (\<lambda>_. REDACTED) (Some c) s') = None"
      proof (cases "is_digit c \<and> \<not> word_at p")
        case True
        then show ?thesis using None 1(2) long_run_same[OF _ refl, of c "\<lambda>_. REDACTED" s'] by (simp add: LONG_DIGITS_RE_def Let_def)
      next
        case False
        then show ?thesis using 1(2) long_no_digit long_after_word by blast
      qed
      then show ?thesis using None Cons ih by simp
    next
      case (Some n)
      then obtain k where k: "n = Suc k" using long_match(1) by (cases n) auto
      let ?l = "Some (last (c # take k s'))"
      have "long_free (Some (last REDACTED)) (re_sub LONG_DIGITS_RE (\<lambda>_. REDACTED) ?l (drop k s'))"
      proof (cases "drop k s'")
        case (Cons x u)
        have "length (drop k s') \<le> length s'" by simp
        then have "long_free ?l (re_sub LONG_DIGITS_RE (\<lambda>_. REDACTED) ?l (drop k s'))"
          using 1 \<open>s = c # s'\<close> by (metis le_imp_less_Suc length_Cons)
        moreover have nx: "\<not> is_digit x"
          using long_match(4)[OF Some] k Cons digit_word[of x] by (auto simp: head_of_def)
        ultimately show ?thesis using Cons by (simp add: long_no_digit)
      qed simp
      then show ?thesis using Some Cons k long_free_append[OF redacted_plain(1,2)] by simp
    qed
  qed simp
qed

section \<open>Records\<close>

fun scrubbed :: "json \<Rightarrow> bool" where
  "scrubbed (JObj kvs) \<longleftrightarrow> list_all (\<lambda>(k, v). if is_sensitive_key k then v = JStr REDACTED else scrubbed v) kvs"
| "scrubbed (JArr xs) \<longleftrightarrow> list_all scrubbed xs"
| "scrubbed (JStr t) \<longleftrightarrow> phone_free t \<and> long_free None t"
| "scrubbed v \<longleftrightarrow> True"

lemma text_scrubbed: "opaque bullets \<Longrightarrow> phone_free (scrub_text bullets t) \<and> long_free None (scrub_text bullets t)"
  unfolding scrub_text_def by (intro conjI long_pass_phone phone_pass long_pass) simp_all

lemma value_scrubbed: "opaque bullets \<Longrightarrow> scrubbed (scrub_value bullets v)"
  by (induction bullets v rule: scrub_value.induct) (auto simp: list_all_iff text_scrubbed)

text \<open>C40: What reaches the log.  In the message and in every text of the fields of a record, at any depth, no Saudi mobile
  number and no word of nine digits or more is left, and every value under a sensitive key is the redaction mark; this holds
  for any text of bullets without digits and plus signs.  Values that are numbers are kept.  The request id is written as it was received.\<close>

theorem logs_scrubbed:
  assumes "opaque bullets"
  shows "(\<forall>v. (''message'', v) \<in> set (log_payload bullets r) \<or> (''fields'', v) \<in> set (log_payload bullets r) \<longrightarrow> scrubbed v) \<and>
    (\<forall>i. lr_request_id r = Some i \<longrightarrow> (''request_id'', JStr i) \<in> set (log_payload bullets r))"
  using text_scrubbed[OF assms] value_scrubbed[OF assms, of "JObj _"]
  by (auto simp: log_payload_def split: option.splits json.splits)

definition sample_log :: log_record where
  "sample_log = \<lparr>lr_level = ''INFO'', lr_logger = ''app'', lr_message = ''call +966512345678'', lr_request_id = Some ''r1'',
     lr_extra = Some (JObj [(''otp'', JStr ''123456''), (''order'', JStr ''1234567890'')])\<rparr>"

theorem logs_scrubbed_witness:
  "log_payload ''.....'' sample_log =
     [(''level'', JStr ''INFO''), (''logger'', JStr ''app''), (''message'', JStr ''call +9665.....78''), (''request_id'', JStr ''r1''),
      (''fields'', JObj [(''otp'', JStr ''***REDACTED***''), (''order'', JStr ''***REDACTED***'')])] \<and>
   scrubbed (JStr ''call +9665.....78'')"
proof -
  have o: "opaque ''.....''" by (simp add: opaque_def is_digit_def)
  have p: "log_payload ''.....'' sample_log =
     [(''level'', JStr ''INFO''), (''logger'', JStr ''app''), (''message'', JStr ''call +9665.....78''), (''request_id'', JStr ''r1''),
      (''fields'', JObj [(''otp'', JStr ''***REDACTED***''), (''order'', JStr ''***REDACTED***'')])]"
    by code_simp
  then show ?thesis using logs_scrubbed[OF o, of sample_log] by auto
qed

end
