(* ===== verification/Storage.thy ===== *)
theory Storage
  imports Market Api "HOL-Library.AList"
begin

text \<open>
  The object store clients of \<open>app/integrations/storage\<close> under the media service, and the seed of
  \<open>app/seed.py\<close>.  S3 is a parameter: what it answers to a HEAD and to a ranged GET of a key, a
  \<open>ClientError\<close> being the code it carries.
\<close>

section \<open>The S3 client\<close>

text \<open>An object as S3 keeps it; the headers of an answer may lack a field.\<close>

record s3_head =
  sh_content_length :: "int option"
  sh_content_type :: "string option"

record s3 =
  s3_head_object :: "string \<Rightarrow> string + s3_head"
  s3_get_range :: "string \<Rightarrow> nat \<Rightarrow> nat \<Rightarrow> string + string"

definition s3_missing :: "string list" where
  "s3_missing = [''404'', ''NoSuchKey'', ''NotFound'']"

definition real_head_object :: "s3 \<Rightarrow> string \<Rightarrow> string + object_head option" where
  "real_head_object B storage_key =
     (case s3_head_object B storage_key of
        Inl code \<Rightarrow> if code \<in> set s3_missing then Inr None else Inl code
      | Inr resp \<Rightarrow> Inr (Some \<lparr>oh_exists = True,
          oh_byte_size = (case sh_content_length resp of None \<Rightarrow> 0 | Some n \<Rightarrow> n),
          oh_content_type = (case sh_content_type resp of None \<Rightarrow> [] | Some t \<Rightarrow> t)\<rparr>))"

definition IMAGE_MAGIC :: "string list" where
  "IMAGE_MAGIC = [[CHR 0xFF, CHR 0xD8, CHR 0xFF],
     [CHR 0x89, CHR ''P'', CHR ''N'', CHR ''G'', CHR 0x0D, CHR 0x0A, CHR 0x1A, CHR 0x0A]]"

definition starts_with :: "string \<Rightarrow> string \<Rightarrow> bool" where
  "starts_with text p \<longleftrightarrow> take (length p) text = p"

definition real_verify_image_magic_bytes :: "s3 \<Rightarrow> string \<Rightarrow> string + bool" where
  "real_verify_image_magic_bytes B storage_key =
     map_sum id (\<lambda>head. list_ex (starts_with head) IMAGE_MAGIC) (s3_get_range B storage_key 0 15)"

text \<open>The parameters of \<open>generate_presigned_url\<close>.\<close>

record presigned_put =
  pp_bucket :: string
  pp_key :: string
  pp_content_type :: string
  pp_content_length :: int
  pp_expires_in :: int

definition real_create_upload_url :: "(presigned_put \<Rightarrow> string) \<Rightarrow> string \<Rightarrow> string \<Rightarrow> string \<Rightarrow> int \<Rightarrow> int \<Rightarrow> string" where
  "real_create_upload_url presign bucket storage_key content_type byte_size ttl_seconds =
     presign \<lparr>pp_bucket = bucket, pp_key = storage_key, pp_content_type = content_type, pp_content_length = byte_size,
       pp_expires_in = ttl_seconds\<rparr>"

definition real_signed_read_url :: "(string \<Rightarrow> time \<Rightarrow> string) \<Rightarrow> string \<Rightarrow> time \<Rightarrow> string \<Rightarrow> int \<Rightarrow> string" where
  "real_signed_read_url signer domain now storage_key ttl_seconds =
     signer (''https://'' @ domain @ ''/'' @ storage_key) (now + ttl_seconds * 1000000) @ ''&Hash-Algorithm=SHA256''"

section \<open>The development client\<close>

type_synonym fake_objects = "(string \<times> object_head) list"

definition fake_create_upload_url :: "string \<Rightarrow> string \<Rightarrow> int \<Rightarrow> fake_objects \<Rightarrow> string \<times> fake_objects" where
  "fake_create_upload_url storage_key content_type byte_size objects =
     (''http://localhost:8000/dev/upload/'' @ storage_key,
      AList.update storage_key \<lparr>oh_exists = True, oh_byte_size = byte_size, oh_content_type = content_type\<rparr> objects)"

definition fake_store :: "fake_objects \<Rightarrow> object_store" where
  "fake_store objects = \<lparr>head_object = map_of objects, verify_image_magic_bytes = (\<lambda>k. map_of objects k \<noteq> None)\<rparr>"

section \<open>What a confirmed upload is\<close>

text \<open>A bucket as a map from keys to objects, and S3 over it: a HEAD and a ranged GET tell what is stored.\<close>

record stored_object =
  so_bytes :: string
  so_type :: string

definition serves :: "s3 \<Rightarrow> (string \<rightharpoonup> stored_object) \<Rightarrow> bool" where
  "serves B objects \<longleftrightarrow>
     (\<forall>k. s3_head_object B k = (case objects k of None \<Rightarrow> Inl ''404''
        | Some x \<Rightarrow> Inr \<lparr>sh_content_length = Some (int (length (so_bytes x))), sh_content_type = Some (so_type x)\<rparr>)) \<and>
     (\<forall>k a b. s3_get_range B k a b = (case objects k of None \<Rightarrow> Inl ''NoSuchKey''
        | Some x \<Rightarrow> Inr (take (Suc b - a) (drop a (so_bytes x)))))"

text \<open>The store the media service sees when no call of the client raises.\<close>

definition s3_store :: "s3 \<Rightarrow> object_store" where
  "s3_store B = \<lparr>head_object = (\<lambda>k. case real_head_object B k of Inl _ \<Rightarrow> None | Inr h \<Rightarrow> h),
     verify_image_magic_bytes = (\<lambda>k. real_verify_image_magic_bytes B k = Inr True)\<rparr>"

lemma magic_in_range: "p \<in> set IMAGE_MAGIC \<Longrightarrow> starts_with (take 16 t) p \<longleftrightarrow> starts_with t p"
  by (auto simp: IMAGE_MAGIC_def starts_with_def)

lemma serves_no_error:
  assumes "serves B objects"
  shows "\<exists>h. real_head_object B k = Inr h" and "objects k \<noteq> None \<Longrightarrow> \<exists>b. real_verify_image_magic_bytes B k = Inr b"
  using assms by (auto simp: serves_def real_head_object_def real_verify_image_magic_bytes_def s3_missing_def split: option.splits)

lemma confirm_iff_stored_image:
  assumes "serves B objects"
  shows "confirm s (s3_store B) k = Inr () \<longleftrightarrow> validate_key k = Inr () \<and>
    (\<exists>x. objects k = Some x \<and> int (length (so_bytes x)) \<le> MAX_UPLOAD_BYTES (business_of s) \<and>
      so_type x \<in> {''image/jpeg'', ''image/png''} \<and> (\<exists>p \<in> set IMAGE_MAGIC. starts_with (so_bytes x) p))"
proof (cases "objects k")
  case None
  then have "head_object (s3_store B) k = None"
    using assms by (simp add: serves_def s3_store_def real_head_object_def s3_missing_def)
  then show ?thesis using None by (auto simp: confirm_def and_then_def or_raise_def split: sum.splits)
next
  case (Some x)
  have h: "head_object (s3_store B) k = Some \<lparr>oh_exists = True, oh_byte_size = int (length (so_bytes x)), oh_content_type = so_type x\<rparr>"
    using assms Some by (simp add: serves_def s3_store_def real_head_object_def)
  have "verify_image_magic_bytes (s3_store B) k \<longleftrightarrow> (\<exists>p \<in> set IMAGE_MAGIC. starts_with (take 16 (so_bytes x)) p)"
    using assms Some by (simp add: serves_def s3_store_def real_verify_image_magic_bytes_def list_ex_iff)
  then have v: "verify_image_magic_bytes (s3_store B) k \<longleftrightarrow> (\<exists>p \<in> set IMAGE_MAGIC. starts_with (so_bytes x) p)"
    by (simp add: magic_in_range)
  show ?thesis using Some
    by (auto simp: confirm_def and_then_def or_raise_def ensure_def h v allowed_image_types_def split: sum.splits)
qed

text \<open>With the development client an upload that was granted is confirmed; no byte is looked at.\<close>

lemma fake_upload_confirms:
  assumes "request_upload_url s u purpose content_type byte_size = Inr (k, ttl)" and "validate_key k = Inr ()"
  shows "confirm s (fake_store (snd (fake_create_upload_url k content_type byte_size objects))) k = Inr ()"
  using assms
  by (auto simp: confirm_def request_upload_url_def fake_store_def fake_create_upload_url_def and_then_def or_raise_def ensure_def
    Let_def update_conv split: option.splits if_splits)

section \<open>The seed\<close>

definition SYSTEM_WALLETS :: "wallet_type list" where
  "SYSTEM_WALLETS = [WT_SYSTEM_ESCROW, WT_SYSTEM_REVENUE, WT_SYSTEM_GATEWAY, WT_SYSTEM_TAX_PAYABLE]"

definition ensure_wallet :: "wallet_type \<Rightarrow> nat \<times> db \<Rightarrow> nat \<times> db" where
  "ensure_wallet t = (\<lambda>(created, d).
     if list_ex (\<lambda>w. w_type w = t) (wallets d) then (created, d)
     else let (i, d) = fresh d in (created + 1, d\<lparr>wallets := wallets d @ [new_wallet i None t]\<rparr>))"

definition seed_system_wallets :: "db \<Rightarrow> nat \<times> db" where
  "seed_system_wallets d = fold ensure_wallet SYSTEM_WALLETS (0, d)"

lemma ensure_wallet_has: "list_ex (\<lambda>w. w_type w = t) (wallets (snd (ensure_wallet t x)))"
  by (auto simp: ensure_wallet_def fresh_def new_wallet_def Let_def split: prod.splits)

lemma ensure_wallet_keeps: "list_ex P (wallets (snd x)) \<Longrightarrow> list_ex P (wallets (snd (ensure_wallet t x)))"
  by (auto simp: ensure_wallet_def fresh_def Let_def split: prod.splits)

lemma fold_ensure_has:
  "t \<in> set ts \<or> list_ex (\<lambda>w. w_type w = t) (wallets (snd x)) \<Longrightarrow>
   list_ex (\<lambda>w. w_type w = t) (wallets (snd (fold ensure_wallet ts x)))"
proof (induction ts arbitrary: x)
  case (Cons s ts)
  have "t \<in> set ts \<or> list_ex (\<lambda>w. w_type w = t) (wallets (snd (ensure_wallet s x)))"
    using Cons.prems ensure_wallet_has[of s x] ensure_wallet_keeps[of "\<lambda>w. w_type w = t" x s] by auto
  then show ?case using Cons.IH[of "ensure_wallet s x"] by simp
qed simp

lemma fold_ensure_id:
  "\<forall>t \<in> set ts. list_ex (\<lambda>w. w_type w = t) (wallets d) \<Longrightarrow> fold ensure_wallet ts (n, d) = (n, d)"
  by (induction ts arbitrary: n) (auto simp: ensure_wallet_def)

lemma seed_empty: "seed_system_wallets empty_db = (4, seeded_db)"
  by code_simp

text \<open>The seed can be run at any time: afterwards every system wallet is there, a second run creates nothing, and on an
  empty database it gives the state from which the marketplace starts.\<close>

lemma seed_idempotent:
  "seed_system_wallets empty_db = (4, seeded_db) \<and>
   (\<forall>t \<in> set SYSTEM_WALLETS. list_ex (\<lambda>w. w_type w = t) (wallets (snd (seed_system_wallets d)))) \<and>
   seed_system_wallets (snd (seed_system_wallets d)) = (0, snd (seed_system_wallets d))"
proof -
  have "\<forall>t \<in> set SYSTEM_WALLETS. list_ex (\<lambda>w. w_type w = t) (wallets (snd (seed_system_wallets d)))"
    unfolding seed_system_wallets_def by (blast intro: fold_ensure_has)
  then show ?thesis using fold_ensure_id[of SYSTEM_WALLETS "snd (seed_system_wallets d)" 0] seed_empty
    by (simp add: seed_system_wallets_def)
qed

end
