(* ===== verification/Spec2Isabelle.thy ===== *)
theory Spec2Isabelle
  imports Http Account_Book Receipts Schema_Head Gateway Pages Logging Storage
begin

text \<open>
  SAFE-GIFT: a verification development of the backend under \<open>src/app\<close>.

  \<^bold>\<open>The program.\<close>  A marketplace in which a customer asks for a gift, a courier buys and delivers
  it, and the platform keeps the money until the customer approves.  Requests pass the middleware
  (\<open>app/main.py\<close>) to the routes (\<open>app/routers\<close>), which authenticate the caller, validate the body
  (\<open>app/schemas\<close>) and call the services (\<open>app/services\<close>); these work through repositories (\<open>app/repositories\<close>) on one PostgreSQL database
  (\<open>app/models/tables.py\<close>) inside a transaction per request, share locks, counters and flags
  through Redis, and are completed by scheduled jobs (\<open>app/workers\<close>), a payment gateway that calls
  back by webhook, and an administration dashboard (\<open>app/admin\<close>).

  \<^bold>\<open>The model.\<close>  The database is the record \<open>db\<close> of \<open>Tables\<close>, a list of rows per table.  A service
  operation is a function from the database to \<open>error + result \<times> db\<close>: \<open>Inl\<close> is the exception that
  is raised, after which the transaction is rolled back, so the caller keeps the state it had.
  Redis is a partial map with expiry times (\<open>Redis_Store\<close>) that is not rolled back: operations that write to it
  return it also when they fail.  Money is the exact value of a \<open>Decimal\<close>, a rational;
  rounding, the 28 digits of the decimal context and the width of the columns are written out.
  Times are integers in microseconds, identifiers are naturals drawn from a counter in the
  state.  What is not under \<open>src\<close> (AES-GCM, HMAC, SHA-256, the JWT library, the gateway, the object
  store, the email and push providers, random values) is a parameter of the operations that use it,
  with its documented laws as hypotheses of the theorems that need them.

  \<^bold>\<open>The theories\<close>, in the order of their imports:

  \<^item> \<open>Prelude\<close>: result combinators, rows of a table, the interfaces \<open>repo\<close> and \<open>table\<close>;
    \<open>Enums\<close>: \<open>models/enums.py\<close> and \<open>core/exceptions.py\<close>.
  \<^item> \<open>Money\<close> (\<open>core/money.py\<close>): parsing, printing and quantizing amounts; \<open>Config\<close>
    (\<open>core/config.py\<close>, \<open>integrations/factory.py\<close>): the checks at start-up; \<open>Order_State\<close>
    (\<open>services/order_state.py\<close>): the transition table; \<open>Pricing\<close> (\<open>core/pricing.py\<close>): the pricing
    engine, the allocation of a discount and the settlement of an invoice.
  \<^item> \<open>Tables\<close> (\<open>models/tables.py\<close>): rows, check constraints, the database; \<open>Redis_Store\<close>
    (\<open>core/locks.py\<close>, \<open>core/ratelimit.py\<close>); \<open>Crypto\<close> (\<open>core/crypto.py\<close>,
    \<open>services/key_rotation_service.py\<close>).
  \<^item> \<open>Ledger\<close> (\<open>services/money_service.py\<close>, \<open>repositories/wallet_repository.py\<close>): double-entry postings,
    escrow, holds, payouts and reconciliation, with the interface \<open>money_move\<close> that every movement
    implements; \<open>Account_Book\<close>: the abstract book the ledger refines, through the interface \<open>book_impl\<close>; \<open>Promo\<close>
    (\<open>services/promo_service.py\<close>, \<open>repositories/promo_repository.py\<close>).
  \<^item> \<open>Orders\<close> (\<open>services/order_service.py\<close>, \<open>services/media_service.py\<close> and their repositories),
    \<open>Invoices\<close>, \<open>Payments\<close> (with \<open>integrations/streampay\<close>), \<open>Fulfillment\<close> (delivery, approval, disputes,
    ratings), \<open>Withdrawals\<close>, \<open>Workers\<close> and \<open>Receipts\<close> (the jobs).
  \<^item> \<open>Auth\<close> (one-time codes, registration, refresh rotation, authentication of a request), \<open>Chat\<close>
    (\<open>services/chat_service.py\<close>, \<open>routers/chat.py\<close>, notifications and devices), \<open>Admin\<close>
    (\<open>services/admin_service.py\<close>), \<open>Dashboard\<close> (\<open>services/admin_auth_service.py\<close>, \<open>admin/deps.py\<close> and the
    forms of \<open>admin/router.py\<close>), \<open>Browser\<close> (\<open>repositories/admin_read_repository.py\<close>), \<open>Pages\<close> (the
    pages of \<open>admin/router.py\<close> and the listings they show).
  \<^item> \<open>Schemas\<close> (\<open>app/schemas\<close>): the request models with their checks and the responses; \<open>Api\<close>
    (\<open>app/routers\<close>, \<open>core/deps.py\<close>): every HTTP route as a function of the request and the state, and
    \<open>dispatch\<close>, which runs the route that a request matched.
  \<^item> \<open>Gateway\<close> (\<open>integrations/streampay\<close>): the calls of the payment client; \<open>Storage\<close>
    (\<open>integrations/storage\<close>, \<open>seed.py\<close>): the object store clients and the seed; \<open>Logging\<close>
    (\<open>core/logging.py\<close>): the scrubbing of log records.
  \<^item> \<open>Escrow\<close>, \<open>Solvency\<close> and \<open>Market\<close>: the invariant that spans the components and the proof
    that every operation keeps it.
  \<^item> \<open>Endpoints\<close>: the API as a server of requests (interface \<open>server\<close>): what a request may do, who
    may send it and what the reply shows; \<open>Http\<close> (\<open>main.py\<close>, \<open>core/middleware.py\<close>): the layers around
    the routes.
  \<^item> \<open>Migrations\<close> (\<open>migrations/versions\<close>), \<open>Models\<close> (\<open>models/tables.py\<close> as tables, columns,
    constraints and indexes), \<open>Schema_Ops\<close> and \<open>Schema_Head\<close>: schema changes as data, what they do to a
    schema, and the history from the empty schema to the current one.

  \<^bold>\<open>What is shown.\<close>
  \<^item> The whole system: in every state that any run of the operations reaches from the seeded
    database the escrow wallet holds exactly what was paid for the orders under way, the ledger
    reconciles, no wallet is overdrawn and no promo code overused (\<open>escrow_solvency\<close>).
    \<open>market_step\<close> has one rule per operation that commits.
  \<^item> The interface: every request is a step of that system or changes nothing, so the same holds
    after any sequence of requests; routes are closed to callers they are not meant for, and replies
    show only what belongs to the caller; bodies that pass validation parse, and the values that
    nothing validates end in an internal error; the guards run before any route, and every answer but
    an internal error carries the security headers and its request id.
  \<^item> The schema: the migrations build exactly what the models declare, and downgrades undo upgrades.
  \<^item> Money: postings balance, are idempotent also under a race, refine an account book, and
    reconciliation finds exactly the drifts; the pricing engine never fails its own assertions and
    its results satisfy the constraints of the tables; allocations with 28-digit decimals equal the
    exact ones; settlement reconstructs the total; a payment link asks for exactly the outstanding
    amount.
  \<^item> Concurrency: Redis locks exclude each other under expiry, an order is accepted once, a webhook
    settles an intent once; the interleavings are step relations or an explicit second state.
  \<^item> Access: one-time codes, refresh rotation, access tokens and bans, the limits of requests and
    of admin logins, dashboard sessions, the guards of every dashboard form and page, sockets, what the
    table browser hides and what the log leaves out.
  \<^item> Data: encryption and key rotation, the round trips of money and messages, paging that shows every row
    once, unread counters, that every receipt is sent once, and that a confirmed upload is an image
    that is really stored.

  \<^bold>\<open>Bounds and fuel.\<close>  Recursion is structural or proved to end.  A client that follows pages (\<open>walk\<close>)
  takes fuel; any number above the number of rows is enough, which is part of its theorem.  The
  sweeps take the batch sizes of the code.

  \<^bold>\<open>Not modelled\<close>: the matching of a path to its route and the parsing of JSON, HTML templates (a
  page is the values its template gets), the email, push and SMS clients (one call of a library each), the installation of the log handler,
  engine and connection set-up, the Alembic environment and the broker, which only call libraries.  Columns that
  nothing reads (\<open>updated_at\<close>) and lengths of text columns are part of the schema only, not of the rows;
  the interleaving of two database transactions beyond the races named in the theories is left out.
  Text is a list of 8-bit characters.
\<close>

end
